(* ===== verification/Prelude.thy ===== *)
theory Prelude
  imports Main "HOL-Library.AList" "HOL-Library.Char_ord" "HOL-Library.List_Lexorder"
begin

text \<open>
  The Python values and library operations the rest of the development uses.

  \<^item> Errors: \<open>py_error\<close>, and the result type \<open>'a res\<close> (\<open>Inl\<close> an exception that leaves the
    function, \<open>Inr\<close> the value it returns), sequenced by \<open>rbind\<close>.
  \<^item> Dictionaries: association lists in insertion order. \<open>AList.update\<close> overwrites in place and
    appends a new key at the end, which is what \<open>d[k] = v\<close> does; \<open>map_of\<close> is \<open>d.get(k)\<close>.
  \<^item> Strings: \<open>string\<close>, a list of 8-bit characters. \<open>lower\<close>, \<open>upper\<close> and \<open>strip\<close> act on
    ASCII letters and ASCII white space; a character outside ASCII that a message of the source
    contains is written as its UTF-8 bytes (\<open>em_dash\<close>).
  \<^item> Dates are day numbers (days since 1970-01-01), instants are microseconds since the epoch.

  The generic lemmas the components share are here too, and the collections \<open>vocab\<close> (the
  closed vocabularies of the source, to be unfolded) and \<open>res_simps\<close>.
\<close>

named_theorems vocab
named_theorems res_simps

section \<open>Results\<close>

datatype py_error =
    ValueError string
  | KeyError string
  | TypeError string
  | MultipleResultsFound
  | IntegrityError string
  | PatchingError string
  | WorkflowError string
  | IndexError string
  | OverflowError string
  | ObjectiveExtractionError string
  | ProposalError string
  | AcceptanceRefused string
  | RejectionRefused string
  | ProviderError string
  | NoResultFound
  | ProviderUnavailableError string
  | EnforcementError string
  | HTTPException nat string
  | AttributeError string
  | ProvisioningError string
  | ProvisioningConflictError string
  | PivError string
  | PivNotLinkedError string
  | DatabaseError string

type_synonym 'a res = "py_error + 'a"

definition rbind :: "'e + 'a \<Rightarrow> ('a \<Rightarrow> 'e + 'b) \<Rightarrow> 'e + 'b" where
  "rbind r f = (case r of Inl e \<Rightarrow> Inl e | Inr x \<Rightarrow> f x)"

lemma rbind_simps [simp, res_simps]:
  "rbind (Inl e) f = Inl e"
  "rbind (Inr x) f = f x"
  by (simp_all add: rbind_def)

lemma rbind_eq_Inr [res_simps]: "rbind r f = Inr y \<longleftrightarrow> (\<exists>x. r = Inr x \<and> f x = Inr y)"
  by (cases r) auto

lemma rbind_eq_Inl [res_simps]:
  "rbind r f = Inl e \<longleftrightarrow> r = Inl e \<or> (\<exists>x. r = Inr x \<and> f x = Inl e)"
  by (cases r) auto

lemma rbind_InrE:
  assumes "rbind r f = Inr y"
  obtains x where "r = Inr x" "f x = Inr y"
  using assms by (cases r) simp_all

fun rmap :: "('a \<Rightarrow> 'e + 'b) \<Rightarrow> 'a list \<Rightarrow> 'e + 'b list" where
  "rmap f [] = Inr []"
| "rmap f (x # xs) = rbind (f x) (\<lambda>y. rbind (rmap f xs) (\<lambda>ys. Inr (y # ys)))"

lemma rmap_Inr: "(\<And>x. x \<in> set xs \<Longrightarrow> f x = Inr (g x)) \<Longrightarrow> rmap f xs = Inr (map g xs)"
  by (induction xs) auto

definition dict_item :: "(string \<times> 'v) list \<Rightarrow> string \<Rightarrow> 'v res" where
  "dict_item d k = (case map_of d k of None \<Rightarrow> Inl (KeyError k) | Some v \<Rightarrow> Inr v)"

definition get_default :: "('k \<times> 'v) list \<Rightarrow> 'k \<Rightarrow> 'v \<Rightarrow> 'v" where
  "get_default d k v = (case map_of d k of None \<Rightarrow> v | Some x \<Rightarrow> x)"

lemma map_of_update [simp]:
  "map_of (AList.update k v d) k' = (if k' = k then Some v else map_of d k')"
  by (simp add: update_conv')

lemma get_default_update [simp]:
  "get_default (AList.update k v d) k' w = (if k' = k then v else get_default d k' w)"
  by (simp add: get_default_def)

lemma get_default_Nil: "get_default [] k v = v"
  by (simp add: get_default_def)

lemma keys_update: "fst ` set (AList.update k v d) = insert k (fst ` set d)"
  by (auto simp: dom_map_of_conv_image_fst [symmetric] dom_def)

text \<open>A dictionary of counters, \<open>d[k] += 1\<close>.\<close>

definition bump_count :: "string \<Rightarrow> (string \<times> nat) list \<Rightarrow> (string \<times> nat) list" where
  "bump_count k d = AList.update k (get_default d k 0 + 1) d"

lemma get_default_map: "k \<in> set ks \<Longrightarrow> get_default (map (\<lambda>b. (b, f b)) ks) k v = f k"
  by (induction ks) (auto simp: get_default_def)

lemma update_map_keys:
  "k \<in> set ks \<Longrightarrow> distinct ks \<Longrightarrow>
     AList.update k v (map (\<lambda>b. (b, f b)) ks) = map (\<lambda>b. (b, if b = k then v else f b)) ks"
  by (induction ks) auto

lemma bump_count_map:
  assumes "k \<in> set ks" "distinct ks" "\<And>b. b \<in> set ks \<Longrightarrow> g b = (if b = k then Suc (f b) else f b)"
  shows "bump_count k (map (\<lambda>b. (b, f b)) ks) = map (\<lambda>b. (b, g b)) ks"
  using assms by (simp add: bump_count_def update_map_keys get_default_map)

lemma sum_bump_count:
  "distinct (map fst d) \<Longrightarrow> sum_list (map snd (bump_count k d)) = Suc (sum_list (map snd d))"
proof (induction d)
  case (Cons x d)
  have "k \<noteq> fst x \<Longrightarrow> bump_count k (x # d) = x # bump_count k d"
    by (cases x) (simp add: bump_count_def get_default_def)
  moreover have "k = fst x \<Longrightarrow> bump_count k (x # d) = (k, snd x + 1) # d"
    by (cases x) (simp add: bump_count_def get_default_def)
  ultimately show ?case using Cons by (cases "k = fst x") auto
qed (simp add: bump_count_def get_default_def)

section \<open>Strings\<close>

definition em_dash :: string where
  "em_dash = [CHR 0xE2, CHR 0x80, CHR 0x94]"

definition in_range :: "char \<Rightarrow> char \<Rightarrow> char \<Rightarrow> bool" where
  "in_range lo hi c \<longleftrightarrow> (of_char lo :: nat) \<le> of_char c \<and> (of_char c :: nat) \<le> of_char hi"

definition is_digit :: "char \<Rightarrow> bool" where
  "is_digit c \<longleftrightarrow> in_range CHR ''0'' CHR ''9'' c"

definition is_upper :: "char \<Rightarrow> bool" where
  "is_upper c \<longleftrightarrow> in_range CHR ''A'' CHR ''Z'' c"

definition is_lower :: "char \<Rightarrow> bool" where
  "is_lower c \<longleftrightarrow> in_range CHR ''a'' CHR ''z'' c"

definition is_space :: "char \<Rightarrow> bool" where
  "is_space c \<longleftrightarrow> c = CHR '' '' \<or> in_range CHR 0x09 CHR 0x0D c \<or> in_range CHR 0x1C CHR 0x1F c"

definition lower_char :: "char \<Rightarrow> char" where
  "lower_char c = (if is_upper c then char_of ((of_char c :: nat) + 32) else c)"

definition upper_char :: "char \<Rightarrow> char" where
  "upper_char c = (if is_lower c then char_of ((of_char c :: nat) - 32) else c)"

definition lower :: "string \<Rightarrow> string" where
  "lower s = map lower_char s"

definition upper :: "string \<Rightarrow> string" where
  "upper s = map upper_char s"

definition lstrip :: "string \<Rightarrow> string" where
  "lstrip s = dropWhile is_space s"

definition strip :: "string \<Rightarrow> string" where
  "strip s = rev (lstrip (rev (lstrip s)))"

definition remove_char :: "char \<Rightarrow> string \<Rightarrow> string" where
  "remove_char c s = filter (\<lambda>x. x \<noteq> c) s"

fun is_prefix_of :: "string \<Rightarrow> string \<Rightarrow> bool" where
  "is_prefix_of [] s = True"
| "is_prefix_of (c # cs) [] = False"
| "is_prefix_of (c # cs) (d # ds) = (c = d \<and> is_prefix_of cs ds)"

fun is_substring :: "string \<Rightarrow> string \<Rightarrow> bool" where
  "is_substring p [] = (p = [])"
| "is_substring p (c # cs) = (is_prefix_of p (c # cs) \<or> is_substring p cs)"

fun join_with :: "string \<Rightarrow> string list \<Rightarrow> string" where
  "join_with sep [] = []"
| "join_with sep [x] = x"
| "join_with sep (x # y # zs) = x @ sep @ join_with sep (y # zs)"

text \<open>A formatted string, kept folded by the simplifier.\<close>

definition fstr :: "string list \<Rightarrow> string" where
  "fstr parts = concat parts"

text \<open>\<open>s.split(c)\<close> for a one-character separator: never empty, empty pieces kept.\<close>

fun split_on :: "char \<Rightarrow> string \<Rightarrow> string list" where
  "split_on c [] = [[]]"
| "split_on c (x # xs) =
     (if x = c then [] # split_on c xs
      else case split_on c xs of [] \<Rightarrow> [[x]] | p # ps \<Rightarrow> (x # p) # ps)"

definition all_digits :: "string \<Rightarrow> bool" where
  "all_digits s \<longleftrightarrow> s \<noteq> [] \<and> list_all is_digit s"

definition digit_char :: "nat \<Rightarrow> char" where
  "digit_char d = char_of (48 + d)"

fun str_of_nat :: "nat \<Rightarrow> string" where
  "str_of_nat n = (if n < 10 then [digit_char n] else str_of_nat (n div 10) @ [digit_char (n mod 10)])"

declare str_of_nat.simps [simp del]

definition str_of_int :: "int \<Rightarrow> string" where
  "str_of_int i = (if i < 0 then CHR ''-'' # str_of_nat (nat (- i)) else str_of_nat (nat i))"

definition nat_of_digits :: "string \<Rightarrow> nat" where
  "nat_of_digits s = foldl (\<lambda>acc c. 10 * acc + (of_char c - 48)) 0 s"

definition zfill :: "nat \<Rightarrow> string \<Rightarrow> string" where
  "zfill w s = replicate (w - length s) CHR ''0'' @ s"

text \<open>\<open>repr\<close> of a string: single quotes unless the text holds a single and no double quote;
  backslash, the quote, and non-printable ASCII are escaped.\<close>

definition hex_digit :: "nat \<Rightarrow> char" where
  "hex_digit d = (if d < 10 then char_of (48 + d) else char_of (87 + d))"

definition repr_char :: "char \<Rightarrow> char \<Rightarrow> string" where
  "repr_char q c =
     (if c = q \<or> c = CHR 0x5C then [CHR 0x5C, c]
      else if c = CHR 0x09 then [CHR 0x5C, CHR ''t'']
      else if c = CHR 0x0A then [CHR 0x5C, CHR ''n'']
      else if c = CHR 0x0D then [CHR 0x5C, CHR ''r'']
      else if (of_char c :: nat) < 32 \<or> of_char c = (127 :: nat)
      then [CHR 0x5C, CHR ''x'', hex_digit (of_char c div 16), hex_digit (of_char c mod 16)]
      else [c])"

definition py_repr :: "string \<Rightarrow> string" where
  "py_repr s =
     (let q = (if CHR 0x27 \<in> set s \<and> CHR 0x22 \<notin> set s then CHR 0x22 else CHR 0x27)
      in q # concat (map (repr_char q) s) @ [q])"

definition repr_list :: "string list \<Rightarrow> string" where
  "repr_list xs = ''['' @ join_with '', '' (map py_repr xs) @ '']''"

text \<open>\<open>str(exc)\<close>.\<close>

fun error_text :: "py_error \<Rightarrow> string" where
  "error_text (KeyError s) = py_repr s"
| "error_text MultipleResultsFound = ''Multiple rows were found when one or none was required''"
| "error_text (ValueError s) = s"
| "error_text (TypeError s) = s"
| "error_text (IntegrityError s) = s"
| "error_text (PatchingError s) = s"
| "error_text (WorkflowError s) = s"
| "error_text (IndexError s) = s"
| "error_text (OverflowError s) = s"
| "error_text (ObjectiveExtractionError s) = s"
| "error_text (ProposalError s) = s"
| "error_text (AcceptanceRefused s) = s"
| "error_text (RejectionRefused s) = s"
| "error_text (ProviderError s) = s"
| "error_text NoResultFound = ''No row was found when one was required''"
| "error_text (ProviderUnavailableError s) = s"
| "error_text (EnforcementError s) = s"
| "error_text (HTTPException code s) = fstr [str_of_nat code, '': '', s]"
| "error_text (AttributeError s) = s"
| "error_text (ProvisioningError s) = s"
| "error_text (ProvisioningConflictError s) = s"
| "error_text (PivError s) = s"
| "error_text (PivNotLinkedError s) = s"
| "error_text (DatabaseError s) = s"

text \<open>\<open>int(s)\<close>: surrounding white space, a sign, digits with single underscores between them.\<close>

fun digit_groups :: "string \<Rightarrow> string option" where
  "digit_groups [] = None"
| "digit_groups [c] = (if is_digit c then Some [c] else None)"
| "digit_groups (c # d # cs) =
     (if \<not> is_digit c then None
      else if d = CHR ''_'' then map_option ((#) c) (digit_groups cs)
      else map_option ((#) c) (digit_groups (d # cs)))"

definition py_int :: "string \<Rightarrow> int res" where
  "py_int s =
     (let t = strip s;
          neg = (t \<noteq> [] \<and> hd t = CHR ''-'');
          body = (if t \<noteq> [] \<and> (hd t = CHR ''-'' \<or> hd t = CHR ''+'') then tl t else t)
      in case digit_groups body of
           None \<Rightarrow> Inl (ValueError (fstr [''invalid literal for int() with base 10: '', py_repr s]))
         | Some ds \<Rightarrow> Inr ((if neg then -1 else 1) * int (nat_of_digits ds)))"

lemma length_lower [simp]: "length (lower s) = length s"
  by (simp add: lower_def)

lemma lower_Nil [simp]: "lower [] = []" "upper [] = []"
  by (simp_all add: lower_def upper_def)

lemma strip_Nil [simp]: "strip [] = []"
  by (simp add: strip_def lstrip_def)

lemma set_lstrip: "set (lstrip s) \<subseteq> set s"
  by (auto simp: lstrip_def dest: set_dropWhileD)

lemma set_strip: "set (strip s) \<subseteq> set s"
  using set_lstrip [of "rev (lstrip s)"] set_lstrip [of s] by (auto simp: strip_def)

lemma is_prefix_of_iff: "is_prefix_of p s \<longleftrightarrow> (\<exists>t. s = p @ t)"
  by (induction p s rule: is_prefix_of.induct) auto

lemma is_substring_iff: "is_substring p s \<longleftrightarrow> (\<exists>a b. s = a @ p @ b)"
proof (induction p s rule: is_substring.induct)
  case (2 p c cs)
  have "(\<exists>a b. c # cs = a @ p @ b) \<longleftrightarrow>
      (\<exists>b. c # cs = p @ b) \<or> (\<exists>a b. cs = a @ p @ b)"
    by (metis append_Cons append_Nil list.exhaust list.inject)
  then show ?case using 2 by (simp add: is_prefix_of_iff)
qed simp

lemma split_on_not_Nil [simp]: "split_on c s \<noteq> []"
  by (cases s) (auto split: list.splits)

lemma str_of_nat_not_Nil [simp]: "str_of_nat n \<noteq> []"
  by (subst str_of_nat.simps) simp

section \<open>Lists\<close>

text \<open>\<open>min\<close> and \<open>max\<close> with a key: the first extremal element, \<open>None\<close> where Python raises.\<close>

fun py_min_by :: "('a \<Rightarrow> 'b::linorder) \<Rightarrow> 'a list \<Rightarrow> 'a option" where
  "py_min_by f [] = None"
| "py_min_by f [x] = Some x"
| "py_min_by f (x # y # zs) = py_min_by f ((if f y < f x then y else x) # zs)"

fun py_max_by :: "('a \<Rightarrow> 'b::linorder) \<Rightarrow> 'a list \<Rightarrow> 'a option" where
  "py_max_by f [] = None"
| "py_max_by f [x] = Some x"
| "py_max_by f (x # y # zs) = py_max_by f ((if f x < f y then y else x) # zs)"

lemma py_min_by_None [simp]: "py_min_by f xs = None \<longleftrightarrow> xs = []"
  by (induction f xs rule: py_min_by.induct) auto

lemma py_min_by_Some:
  "py_min_by f xs = Some m \<Longrightarrow> m \<in> set xs \<and> (\<forall>x \<in> set xs. f m \<le> f x)"
  by (induction f xs rule: py_min_by.induct) (auto split: if_splits)

lemma py_max_by_None [simp]: "py_max_by f xs = None \<longleftrightarrow> xs = []"
  by (induction f xs rule: py_max_by.induct) auto

lemma py_max_by_Some:
  "py_max_by f xs = Some m \<Longrightarrow> m \<in> set xs \<and> (\<forall>x \<in> set xs. f x \<le> f m)"
  by (induction f xs rule: py_max_by.induct) (auto split: if_splits)

definition count_if :: "('a \<Rightarrow> bool) \<Rightarrow> 'a list \<Rightarrow> nat" where
  "count_if P xs = length (filter P xs)"

lemma count_if_simps [simp]:
  "count_if P [] = 0"
  "count_if P (x # xs) = (if P x then Suc (count_if P xs) else count_if P xs)"
  by (simp_all add: count_if_def)

lemma count_if_append [simp]: "count_if P (xs @ ys) = count_if P xs + count_if P ys"
  by (simp add: count_if_def)

lemma count_if_disj:
  "(\<And>x. \<not> (P x \<and> Q x)) \<Longrightarrow> count_if P xs + count_if Q xs = count_if (\<lambda>x. P x \<or> Q x) xs"
  by (induction xs) auto

lemma count_if_filter: "count_if P (filter Q xs) = count_if (\<lambda>x. Q x \<and> P x) xs"
  by (induction xs) auto

lemma count_if_cong: "(\<And>x. x \<in> set xs \<Longrightarrow> P x = Q x) \<Longrightarrow> count_if P xs = count_if Q xs"
  by (induction xs) auto

lemma count_if_map: "count_if P (map f xs) = count_if (\<lambda>x. P (f x)) xs"
  by (induction xs) auto

lemma count_if_le: "count_if P xs \<le> length xs"
  by (simp add: count_if_def)

lemma count_if_pos: "0 < count_if P xs \<longleftrightarrow> (\<exists>x \<in> set xs. P x)"
  by (induction xs) auto

lemma count_if_0 [simp]: "count_if P xs = 0 \<longleftrightarrow> (\<forall>x \<in> set xs. \<not> P x)"
  by (induction xs) auto

text \<open>A set comprehension that Python sorts: the distinct members in increasing order.\<close>

definition sorted_set :: "('a::linorder) list \<Rightarrow> 'a list" where
  "sorted_set xs = sort (remdups xs)"

lemma insort_key_of_map: "insort_key f (g x) (map g xs) = map g (insort_key (\<lambda>x. f (g x)) x xs)"
  by (induction xs) auto

lemma sort_key_of_map: "sort_key f (map g xs) = map g (sort_key (\<lambda>x. f (g x)) xs)"
  by (induction xs) (simp_all add: insort_key_of_map)

lemma sort_key_map: "(\<And>x. f (g x) = f x) \<Longrightarrow> sort_key f (map g xs) = map g (sort_key f xs)"
  by (simp add: sort_key_of_map)

lemma sorted_set_props [simp]:
  "set (sorted_set xs) = set xs"
  "distinct (sorted_set xs)"
  "sorted (sorted_set xs)"
  by (simp_all add: sorted_set_def)

text \<open>Rows of a table: \<open>scalar_one_or_none\<close>, and an update of the rows a predicate selects.\<close>

fun one_or_none :: "'r list \<Rightarrow> 'r option res" where
  "one_or_none [] = Inr None"
| "one_or_none [r] = Inr (Some r)"
| "one_or_none (r # r' # rs) = Inl MultipleResultsFound"

definition first_row :: "'r list \<Rightarrow> 'r option" where
  "first_row rs = (case rs of [] \<Rightarrow> None | r # _ \<Rightarrow> Some r)"

definition update_rows :: "('r \<Rightarrow> bool) \<Rightarrow> ('r \<Rightarrow> 'r) \<Rightarrow> 'r list \<Rightarrow> 'r list" where
  "update_rows P f rs = map (\<lambda>r. if P r then f r else r) rs"

lemma one_or_none_Inr_None [simp]: "one_or_none rs = Inr None \<longleftrightarrow> rs = []"
  by (cases rs rule: one_or_none.cases) auto

lemma one_or_none_Inr_Some [simp]: "one_or_none rs = Inr (Some r) \<longleftrightarrow> rs = [r]"
  by (cases rs rule: one_or_none.cases) auto

lemma one_or_none_ok: "length rs \<le> 1 \<Longrightarrow> \<exists>x. one_or_none rs = Inr x"
  by (cases rs rule: one_or_none.cases) auto

lemma first_row_simps [simp]: "first_row [] = None" "first_row (r # rs) = Some r"
  by (simp_all add: first_row_def)

lemma first_row_in: "first_row rs = Some r \<Longrightarrow> r \<in> set rs"
  by (auto simp: first_row_def split: list.splits)

lemma first_row_filter: "first_row (filter P rs) = Some r \<Longrightarrow> r \<in> set rs \<and> P r"
  using first_row_in [of "filter P rs" r] by simp

lemma first_row_None [simp]: "first_row rs = None \<longleftrightarrow> rs = []"
  by (simp add: first_row_def split: list.splits)

lemma length_update_rows [simp]: "length (update_rows P f rs) = length rs"
  by (simp add: update_rows_def)

lemma set_update_rows: "set (update_rows P f rs) = (\<lambda>r. if P r then f r else r) ` set rs"
  by (simp add: update_rows_def)

lemma update_rows_in: "r \<in> set rs \<Longrightarrow> P r \<Longrightarrow> f r \<in> set (update_rows P f rs)"
  by (induction rs) (auto simp: update_rows_def)

lemma update_rows_none: "(\<And>r. r \<in> set rs \<Longrightarrow> \<not> P r) \<Longrightarrow> update_rows P f rs = rs"
  by (simp add: update_rows_def map_idI)

lemma update_rows_last:
  "(\<And>r. r \<in> set rs \<Longrightarrow> \<not> P r) \<Longrightarrow> P x \<Longrightarrow> update_rows P f (rs @ [x]) = rs @ [f x]"
  using update_rows_none [of rs P f] by (simp add: update_rows_def)

lemma ball_update_rows:
  "(\<forall>x \<in> set (update_rows P f rs). Q x) \<longleftrightarrow> (\<forall>r \<in> set rs. if P r then Q (f r) else Q r)"
  by (induction rs) (auto simp: update_rows_def)

lemma map_update_rows [simp]: "(\<And>r. P r \<Longrightarrow> g (f r) = g r) \<Longrightarrow> map g (update_rows P f rs) = map g rs"
  by (simp add: update_rows_def)

lemma distinct_filter_le1: "distinct (map f xs) \<Longrightarrow> (\<And>x. P x \<Longrightarrow> f x = c) \<Longrightarrow> length (filter P xs) \<le> 1"
proof (induction xs)
  case (Cons x xs)
  have "P x \<Longrightarrow> filter P xs = []"
    using Cons.prems by (auto simp: filter_empty_conv)
  then show ?case using Cons by auto
qed simp

text \<open>A table with a unique, nullable key column.\<close>

definition keys_of :: "('r \<Rightarrow> string option) \<Rightarrow> 'r list \<Rightarrow> string list" where
  "keys_of key rs = concat (map (\<lambda>r. case key r of None \<Rightarrow> [] | Some k \<Rightarrow> [k]) rs)"

definition insert_unique :: "('r \<Rightarrow> string option) \<Rightarrow> 'r \<Rightarrow> 'r list \<Rightarrow> 'r list res" where
  "insert_unique key r rs =
     (case key r of
        None \<Rightarrow> Inr (rs @ [r])
      | Some k \<Rightarrow> if k \<in> set (keys_of key rs) then Inl (IntegrityError k) else Inr (rs @ [r]))"

lemma set_keys_of: "set (keys_of key rs) = {k. \<exists>r \<in> set rs. key r = Some k}"
  by (auto simp: keys_of_def split: option.splits)

lemma keys_of_append [simp]: "keys_of key (rs @ ss) = keys_of key rs @ keys_of key ss"
  by (simp add: keys_of_def)

lemma keys_of_simps [simp]:
  "keys_of key [] = []"
  "keys_of key (r # rs) = (case key r of None \<Rightarrow> [] | Some k \<Rightarrow> [k]) @ keys_of key rs"
  by (simp_all add: keys_of_def)

lemma keys_of_update_rows [simp]: "(\<And>r. key (f r) = key r) \<Longrightarrow> keys_of key (update_rows P f rs) = keys_of key rs"
  by (induction rs) (simp_all add: update_rows_def)

lemma unique_key_rows: "distinct (keys_of key rs) \<Longrightarrow> length (filter (\<lambda>r. key r = Some k) rs) \<le> 1"
proof (induction rs)
  case (Cons r rs)
  have "key r = Some k \<Longrightarrow> filter (\<lambda>r. key r = Some k) rs = []"
    using Cons.prems by (auto simp: filter_empty_conv set_keys_of)
  then show ?case using Cons by (auto split: option.splits)
qed simp

lemma unique_key_lookup:
  assumes "distinct (keys_of key rs)"
  obtains "one_or_none (filter (\<lambda>r. key r = Some k) rs) = Inr None" "k \<notin> set (keys_of key rs)"
  | r where "one_or_none (filter (\<lambda>r. key r = Some k) rs) = Inr (Some r)" "r \<in> set rs" "key r = Some k"
proof (cases "filter (\<lambda>r. key r = Some k) rs")
  case Nil
  then show thesis using that(1) by (auto simp: filter_empty_conv set_keys_of)
next
  case (Cons r ss)
  then have "ss = []" using unique_key_rows [OF assms, of k] by simp
  moreover have "r \<in> set rs \<and> key r = Some k"
    using Cons_eq_filterD [OF Cons [symmetric]] by auto
  ultimately show thesis using that(2) [of r] Cons by simp
qed

text \<open>\<open>min(xs, key=lambda v: d[v])\<close>: a missing key raises, as does an empty sequence.\<close>

definition min_by_item :: "(string \<times> int) list \<Rightarrow> string list \<Rightarrow> string res" where
  "min_by_item d xs = rbind (rmap (dict_item d) xs) (\<lambda>_.
     case py_min_by (\<lambda>v. get_default d v 0) xs of
       None \<Rightarrow> Inl (ValueError ''min() arg is an empty sequence'')
     | Some m \<Rightarrow> Inr m)"

lemma min_by_item_Inr:
  assumes "set xs \<subseteq> fst ` set d" "py_min_by (\<lambda>v. get_default d v 0) xs = Some m"
  shows "min_by_item d xs = Inr m"
proof -
  have "rmap (dict_item d) xs = Inr (map (\<lambda>v. get_default d v 0) xs)"
  proof (rule rmap_Inr)
    fix v assume "v \<in> set xs"
    with assms(1) have "map_of d v \<noteq> None" by (auto simp: map_of_eq_None_iff)
    then show "dict_item d v = Inr (get_default d v 0)"
      by (auto simp: dict_item_def get_default_def)
  qed
  with assms(2) show ?thesis by (simp add: min_by_item_def)
qed

section \<open>JSON values\<close>

datatype json =
    JNull
  | JBool bool
  | JInt int
  | JStr string
  | JList "json list"
  | JObj "(string \<times> json) list"

section \<open>Dates\<close>

type_synonym date = int
type_synonym datetime = int

definition us_per_day :: int where
  "us_per_day = 86400000000"

definition dt_date :: "datetime \<Rightarrow> date" where
  "dt_date t = t div us_per_day"

text \<open>The civil date of a day number, in the proleptic Gregorian calendar.\<close>

definition civil_of_days :: "date \<Rightarrow> int \<times> int \<times> int" where
  "civil_of_days d =
     (let z = d + 719468; era = z div 146097; doe = z mod 146097;
          yoe = (doe - doe div 1460 + doe div 36524 - doe div 146096) div 365;
          doy = doe - (365 * yoe + yoe div 4 - yoe div 100);
          mp = (5 * doy + 2) div 153;
          m = (if mp < 10 then mp + 3 else mp - 9)
      in (yoe + era * 400 + (if m \<le> 2 then 1 else 0), m, doy - (153 * mp + 2) div 5 + 1))"

definition date_str :: "date \<Rightarrow> string" where
  "date_str d = (case civil_of_days d of (y, m, dd) \<Rightarrow>
     zfill 4 (str_of_int y) @ ''-'' @ zfill 2 (str_of_int m) @ ''-'' @ zfill 2 (str_of_int dd))"

definition isoformat :: "datetime \<Rightarrow> string" where
  "isoformat t =
     (let us = t mod us_per_day; s = us div 1000000; f = us mod 1000000
      in date_str (dt_date t) @ ''T'' @ zfill 2 (str_of_int (s div 3600)) @ '':''
         @ zfill 2 (str_of_int (s div 60 mod 60)) @ '':'' @ zfill 2 (str_of_int (s mod 60))
         @ (if f = 0 then [] else ''.'' @ zfill 6 (str_of_int f)) @ ''+00:00'')"

section \<open>Decimal numbers as text\<close>

lemma of_char_digit_char: "d < 10 \<Longrightarrow> of_char (digit_char d) = 48 + d"
  by (simp add: digit_char_def)

lemma is_digit_digit_char: "d < 10 \<Longrightarrow> is_digit (digit_char d)"
  by (simp add: is_digit_def in_range_def of_char_digit_char)

lemma str_of_nat_digits: "list_all is_digit (str_of_nat n)"
proof (induction n rule: str_of_nat.induct)
  case (1 n)
  then show ?case
    by (cases "n < 10") (simp_all add: str_of_nat.simps [of n] is_digit_digit_char)
qed

lemma nat_of_digits_append: "nat_of_digits (s @ [c]) = 10 * nat_of_digits s + (of_char c - 48)"
  by (simp add: nat_of_digits_def)

lemma nat_of_digits_str_of_nat: "nat_of_digits (str_of_nat n) = n"
proof (induction n rule: str_of_nat.induct)
  case (1 n)
  then show ?case
    by (cases "n < 10") (simp_all add: str_of_nat.simps [of n] nat_of_digits_append
        nat_of_digits_def [of "[digit_char n]"] of_char_digit_char)
qed

lemma str_of_nat_inj: "str_of_nat m = str_of_nat n \<longleftrightarrow> m = n"
  by (metis nat_of_digits_str_of_nat)

lemma takeWhile_digits: "list_all is_digit s \<Longrightarrow> r = [] \<or> \<not> is_digit (hd r) \<Longrightarrow> takeWhile is_digit (s @ r) = s"
  by (induction s) (cases r; auto)+

lemma minus_not_digit [simp]: "\<not> is_digit CHR ''-''"
  by (simp add: is_digit_def in_range_def)

lemma hd_str_of_nat: "is_digit (hd (str_of_nat n))"
  using str_of_nat_digits [of n] by (cases "str_of_nat n") auto

lemma length_str_of_nat: "n < 10 ^ k \<Longrightarrow> 0 < k \<Longrightarrow> length (str_of_nat n) \<le> k"
proof (induction n arbitrary: k rule: str_of_nat.induct)
  case (1 n)
  show ?case
  proof (cases "n < 10")
    case True
    then show ?thesis using 1(3) by (subst str_of_nat.simps) simp
  next
    case False
    then obtain j where j: "k = Suc j" "0 < j" using 1(2,3) by (cases k; cases "k = 1") auto
    have "length (str_of_nat (n div 10)) \<le> j"
      using 1(1) [OF False, of j] 1(2) j False by (simp add: less_mult_imp_div_less mult.commute)
    then show ?thesis using False j by (subst str_of_nat.simps) simp
  qed
qed

end
