(* ===== verification/Rollup.thy ===== *)
theory Rollup
  imports Prelude
begin

text \<open>
  The interface of a conservative rollup: a verdict is chosen from a collection by a rank, the
  lowest rank among those that count. Posture checks (\<open>posture/rollup.py\<close>) and capabilities
  (\<open>capability/rollup.py\<close>) both provide it; what every provider then has (the result does not
  depend on order or repetition, and more verdicts never improve it) is proved once here.
\<close>

locale worst_wins =
  fixes rank :: "'v \<Rightarrow> int"
    and counted :: "'v \<Rightarrow> bool"
    and worst :: "'v list \<Rightarrow> 'v option"
  assumes worst_None: "worst vs = None \<longleftrightarrow> (\<forall>v \<in> set vs. \<not> counted v)"
    and worst_in: "worst vs = Some m \<Longrightarrow> m \<in> set vs \<and> counted m"
    and worst_least: "worst vs = Some m \<Longrightarrow> v \<in> set vs \<Longrightarrow> counted v \<Longrightarrow> rank m \<le> rank v"
    and rank_inj: "counted u \<Longrightarrow> counted v \<Longrightarrow> rank u = rank v \<Longrightarrow> u = v"
begin

lemma worst_unique:
  assumes "m \<in> set vs" "counted m" "\<And>v. v \<in> set vs \<Longrightarrow> counted v \<Longrightarrow> rank m \<le> rank v"
  shows "worst vs = Some m"
proof -
  from assms(1,2) worst_None [of vs] obtain n where n: "worst vs = Some n" by fastforce
  with worst_in [OF n] worst_least [OF n assms(1,2)] assms(3) [of n]
  have "rank n = rank m" by fastforce
  with rank_inj [of n m] worst_in [OF n] assms(2) n show ?thesis by simp
qed

lemma worst_set_cong:
  assumes "set vs = set ws"
  shows "worst vs = worst ws"
proof (cases "worst ws")
  case None
  with assms worst_None show ?thesis by metis
next
  case (Some m)
  then show ?thesis
    using worst_unique [of m vs] worst_in [OF Some] worst_least [OF Some] assms by simp
qed

lemma worst_antimono:
  assumes "set vs \<subseteq> set ws" "worst vs = Some m"
  obtains n where "worst ws = Some n" "rank n \<le> rank m"
proof -
  have m: "m \<in> set ws" "counted m" using assms worst_in by blast+
  then obtain n where n: "worst ws = Some n" using worst_None [of ws] by fastforce
  with worst_least [OF n m] that show thesis by blast
qed

lemma worst_bottom:
  assumes "m \<in> set vs" "counted m" "\<And>v. counted v \<Longrightarrow> rank m \<le> rank v"
  shows "worst vs = Some m"
  using assms worst_unique by blast

end

end
