(* ===== verification/Posture.thy ===== *)
theory Posture
  imports Rollup
begin

text \<open>
  Posture verdicts: the validation vocabulary (\<open>fedramp20x/__init__.py\<close>), its ranking
  (\<open>fedramp20x/validation.py\<close>), the shapes of checks and findings (\<open>posture/types.py\<close>), the
  rollup of per-resource verdicts (\<open>posture/rollup.py\<close>) and the attribution of a verdict to
  controls (\<open>posture/evidence.py\<close>).
\<close>

section \<open>Vocabulary\<close>

definition VALIDATION_STATUSES :: "string list" where [vocab]:
  "VALIDATION_STATUSES =
     [''pass'', ''warn'', ''fail'', ''not_tested'', ''manual_review_required'', ''not_applicable'']"

definition VERDICT_RANK :: "(string \<times> int) list" where [vocab]:
  "VERDICT_RANK =
     [(''pass'', 4), (''warn'', 3), (''manual_review_required'', 2), (''fail'', 1),
      (''not_applicable'', 0), (''not_tested'', 0)]"

definition EXCLUDED_FROM_ROLLUP :: "string list" where [vocab]:
  "EXCLUDED_FROM_ROLLUP = [''not_applicable'', ''not_tested'']"

abbreviation verdict_rank :: "string \<Rightarrow> int" where
  "verdict_rank v \<equiv> get_default VERDICT_RANK v 0"

definition CR26_DISPLAY_LABELS :: "(string \<times> string) list" where [vocab]:
  "CR26_DISPLAY_LABELS =
     [(''authorized'', ''Certified''), (''continuous_monitoring'', ''Ongoing Certification'')]"

definition cr26_display_label :: "string option \<Rightarrow> string" where
  "cr26_display_label v = (case v of None \<Rightarrow> [] | Some s \<Rightarrow> get_default CR26_DISPLAY_LABELS s s)"

section \<open>Rolling findings up\<close>

fun considered_findings :: "string list \<Rightarrow> string list res" where
  "considered_findings [] = Inr []"
| "considered_findings (v # vs) =
     (if v \<notin> set VALIDATION_STATUSES then Inl (ValueError (fstr [''unknown verdict: '', py_repr v]))
      else if v \<in> set EXCLUDED_FROM_ROLLUP then considered_findings vs
      else rbind (considered_findings vs) (\<lambda>c. Inr (v # c)))"

definition roll_up_findings :: "string list \<Rightarrow> string res" where
  "roll_up_findings vs = rbind (considered_findings vs) (\<lambda>considered.
     if considered = [] then Inr ''not_applicable'' else min_by_item VERDICT_RANK considered)"

section \<open>Checks, findings, outcomes\<close>

record posture_check =
  pc_key :: string
  pc_title :: string
  pc_provider :: string
  pc_resource_type :: string
  pc_expected :: string
  pc_control_ids :: "string list"
  pc_capability_key :: "string option"
  pc_required_permissions :: "string list"

record resource_finding =
  rf_resource_id :: string
  rf_resource_type :: string
  rf_verdict :: string
  rf_observed :: string
  rf_detail :: "(string \<times> json) list"

record check_outcome =
  co_check_key :: string
  co_verdict :: string
  co_expected :: string
  co_findings :: "resource_finding list"

definition co_evaluated :: "check_outcome \<Rightarrow> nat" where
  "co_evaluated oc = length (co_findings oc)"

definition co_considered :: "check_outcome \<Rightarrow> nat" where
  "co_considered oc = count_if (\<lambda>f. rf_verdict f \<notin> set EXCLUDED_FROM_ROLLUP) (co_findings oc)"

definition co_failing :: "check_outcome \<Rightarrow> nat" where
  "co_failing oc = count_if (\<lambda>f. rf_verdict f = ''fail'') (co_findings oc)"

fun reject_unknown :: "resource_finding list \<Rightarrow> unit res" where
  "reject_unknown [] = Inr ()"
| "reject_unknown (f # fs) =
     (if rf_verdict f \<notin> set VALIDATION_STATUSES
      then Inl (ValueError (fstr [''unknown verdict: '', py_repr (rf_verdict f)]))
      else reject_unknown fs)"

definition from_findings :: "posture_check \<Rightarrow> resource_finding list \<Rightarrow> check_outcome res" where
  "from_findings check fs =
     rbind (reject_unknown fs) (\<lambda>_.
     rbind (roll_up_findings (map rf_verdict fs)) (\<lambda>v.
       Inr \<lparr>co_check_key = pc_key check, co_verdict = v, co_expected = pc_expected check,
            co_findings = fs\<rparr>))"

section \<open>Which controls a verdict reaches\<close>

fun add_candidates :: "string list \<Rightarrow> string list \<Rightarrow> string list" where
  "add_candidates out [] = out"
| "add_candidates out (raw # raws) =
     (let candidate = strip raw
      in add_candidates (if candidate \<noteq> [] \<and> candidate \<notin> set out then out @ [candidate] else out) raws)"

definition evidenced_controls :: "string option \<Rightarrow> string list option \<Rightarrow> string list" where
  "evidenced_controls control_id control_ids =
     (let primary = strip (case control_id of None \<Rightarrow> [] | Some c \<Rightarrow> c)
      in add_candidates (if primary \<noteq> [] then [primary] else [])
           (case control_ids of None \<Rightarrow> [] | Some cs \<Rightarrow> cs))"

definition non_passing_attribution :: "string option \<Rightarrow> string list option \<Rightarrow> string list" where
  "non_passing_attribution control_id control_ids = evidenced_controls control_id control_ids"

definition pass_attribution :: "string option \<Rightarrow> string list" where
  "pass_attribution control_id =
     (let primary = strip (case control_id of None \<Rightarrow> [] | Some c \<Rightarrow> c)
      in if primary \<noteq> [] then [primary] else [])"

section \<open>Properties of the rollup\<close>

definition counts_in_rollup :: "string \<Rightarrow> bool" where
  "counts_in_rollup v \<longleftrightarrow> v \<in> set VALIDATION_STATUSES \<and> v \<notin> set EXCLUDED_FROM_ROLLUP"

definition worst_finding :: "string list \<Rightarrow> string option" where
  "worst_finding vs = py_min_by verdict_rank (filter counts_in_rollup vs)"

lemma counts_in_rollup_iff:
  "counts_in_rollup v \<longleftrightarrow> v \<in> {''pass'', ''warn'', ''manual_review_required'', ''fail''}"
  by (auto simp: counts_in_rollup_def vocab)

lemma verdict_rank_simps [simp]:
  "verdict_rank ''pass'' = 4" "verdict_rank ''warn'' = 3"
  "verdict_rank ''manual_review_required'' = 2" "verdict_rank ''fail'' = 1"
  by (simp_all add: get_default_def vocab)

interpretation posture: worst_wins "\<lambda>v. verdict_rank v" counts_in_rollup worst_finding
proof unfold_locales
  fix vs :: "string list" and m v
  show "worst_finding vs = None \<longleftrightarrow> (\<forall>v \<in> set vs. \<not> counts_in_rollup v)"
    by (simp add: worst_finding_def filter_empty_conv)
  assume "worst_finding vs = Some m"
  then have m: "m \<in> set (filter counts_in_rollup vs)"
      "\<forall>x \<in> set (filter counts_in_rollup vs). verdict_rank m \<le> verdict_rank x"
    using py_min_by_Some by (fastforce simp: worst_finding_def)+
  then show "m \<in> set vs \<and> counts_in_rollup m" by simp
  assume "v \<in> set vs" "counts_in_rollup v"
  with m(2) show "verdict_rank m \<le> verdict_rank v" by simp
next
  fix u v assume "counts_in_rollup u" "counts_in_rollup v" "verdict_rank u = verdict_rank v"
  then show "u = v" by (auto simp: counts_in_rollup_iff)
qed

lemma considered_findings_Inr:
  "considered_findings vs = Inr c \<longleftrightarrow>
     set vs \<subseteq> set VALIDATION_STATUSES \<and> c = filter counts_in_rollup vs"
  by (induction vs arbitrary: c) (auto simp: counts_in_rollup_def res_simps)

lemma roll_up_findings_eq:
  assumes "set vs \<subseteq> set VALIDATION_STATUSES"
  shows "roll_up_findings vs =
    Inr (case worst_finding vs of None \<Rightarrow> ''not_applicable'' | Some m \<Rightarrow> m)"
proof -
  have c: "considered_findings vs = Inr (filter counts_in_rollup vs)"
    using assms considered_findings_Inr by blast
  show ?thesis
  proof (cases "worst_finding vs")
    case None
    then have "filter counts_in_rollup vs = []" by (simp add: worst_finding_def)
    with None c show ?thesis by (simp add: roll_up_findings_def)
  next
    case (Some m)
    then have ne: "filter counts_in_rollup vs \<noteq> []" by (auto simp: worst_finding_def)
    have "set (filter counts_in_rollup vs) \<subseteq> fst ` set VERDICT_RANK"
      by (auto simp: counts_in_rollup_iff vocab)
    with Some have "min_by_item VERDICT_RANK (filter counts_in_rollup vs) = Inr m"
      by (intro min_by_item_Inr) (simp_all add: worst_finding_def)
    with ne Some c show ?thesis by (simp add: roll_up_findings_def)
  qed
qed

lemma roll_up_findings_Inl:
  assumes "\<not> set vs \<subseteq> set VALIDATION_STATUSES"
  obtains v where "v \<in> set vs" "v \<notin> set VALIDATION_STATUSES"
    "roll_up_findings vs = Inl (ValueError (fstr [''unknown verdict: '', py_repr v]))"
proof -
  have "\<exists>v \<in> set vs. v \<notin> set VALIDATION_STATUSES \<and>
      considered_findings vs = Inl (ValueError (fstr [''unknown verdict: '', py_repr v]))"
    using assms
  proof (induction vs)
    case (Cons a vs)
    then show ?case by (cases "set vs \<subseteq> set VALIDATION_STATUSES") auto
  qed simp
  then show thesis using that by (auto simp: roll_up_findings_def)
qed

lemma reject_unknown_Inr:
  "reject_unknown fs = Inr () \<longleftrightarrow> (\<forall>f \<in> set fs. rf_verdict f \<in> set VALIDATION_STATUSES)"
  by (induction fs) auto

lemma worst_finding_cases:
  "worst_finding vs = Some ''fail'' \<longleftrightarrow> ''fail'' \<in> set vs"
  "worst_finding vs = Some ''pass'' \<longleftrightarrow>
     ''pass'' \<in> set vs \<and> (\<forall>v \<in> set vs. counts_in_rollup v \<longrightarrow> v = ''pass'')"
proof -
  show "worst_finding vs = Some ''fail'' \<longleftrightarrow> ''fail'' \<in> set vs"
  proof
    assume "''fail'' \<in> set vs"
    then show "worst_finding vs = Some ''fail''"
      by (rule posture.worst_bottom) (auto simp: counts_in_rollup_iff)
  qed (use posture.worst_in in blast)
  show "worst_finding vs = Some ''pass'' \<longleftrightarrow>
     ''pass'' \<in> set vs \<and> (\<forall>v \<in> set vs. counts_in_rollup v \<longrightarrow> v = ''pass'')"
  proof
    assume w: "worst_finding vs = Some ''pass''"
    have "v = ''pass''" if "v \<in> set vs" "counts_in_rollup v" for v
      using posture.worst_least [OF w that] that(2) by (auto simp: counts_in_rollup_iff)
    with posture.worst_in [OF w] show "''pass'' \<in> set vs \<and>
        (\<forall>v \<in> set vs. counts_in_rollup v \<longrightarrow> v = ''pass'')" by blast
  next
    assume "''pass'' \<in> set vs \<and> (\<forall>v \<in> set vs. counts_in_rollup v \<longrightarrow> v = ''pass'')"
    then show "worst_finding vs = Some ''pass''"
      by (intro posture.worst_unique) (auto simp: counts_in_rollup_iff)
  qed
qed

lemma worst_finding_None:
  "worst_finding vs = None \<longleftrightarrow> (\<forall>v \<in> set vs. \<not> counts_in_rollup v)"
  by (rule posture.worst_None)

lemma worst_finding_not_excluded: "worst_finding vs = Some m \<Longrightarrow> m \<noteq> ''not_applicable''"
  using posture.worst_in [of vs m] by (auto simp: counts_in_rollup_iff)

lemma counts_in_rollup_pass:
  "v \<in> set VALIDATION_STATUSES \<Longrightarrow>
     (counts_in_rollup v \<longrightarrow> v = ''pass'') \<longleftrightarrow> v \<in> {''pass'', ''not_applicable'', ''not_tested''}"
  by (auto simp: counts_in_rollup_iff VALIDATION_STATUSES_def)

lemma roll_up_findings_fail:
  "roll_up_findings vs = Inr m \<Longrightarrow> m = ''fail'' \<longleftrightarrow> ''fail'' \<in> set vs"
proof -
  assume m: "roll_up_findings vs = Inr m"
  then have "set vs \<subseteq> set VALIDATION_STATUSES" by (metis Inl_Inr_False roll_up_findings_Inl)
  with m have "(case worst_finding vs of None \<Rightarrow> ''not_applicable'' | Some m \<Rightarrow> m) = m"
    by (simp add: roll_up_findings_eq)
  then show ?thesis using worst_finding_cases(1) [of vs] by (auto split: option.splits)
qed

lemma roll_up_findings_not_applicable:
  "roll_up_findings vs = Inr m \<Longrightarrow> m = ''not_applicable'' \<longleftrightarrow> (\<forall>v \<in> set vs. v \<in> set EXCLUDED_FROM_ROLLUP)"
proof -
  assume m: "roll_up_findings vs = Inr m"
  then have vs: "set vs \<subseteq> set VALIDATION_STATUSES" by (metis Inl_Inr_False roll_up_findings_Inl)
  with m have "(case worst_finding vs of None \<Rightarrow> ''not_applicable'' | Some m \<Rightarrow> m) = m"
    by (simp add: roll_up_findings_eq)
  moreover have "(\<forall>v \<in> set vs. v \<in> set EXCLUDED_FROM_ROLLUP) \<longleftrightarrow> worst_finding vs = None"
    using vs by (auto simp: worst_finding_None counts_in_rollup_def)
  ultimately show ?thesis
    using worst_finding_not_excluded [of vs] by (auto split: option.splits)
qed

lemma count_if_mono: "(\<And>x. P x \<Longrightarrow> Q x) \<Longrightarrow> count_if P xs \<le> count_if Q xs"
  by (induction xs) auto

lemma add_candidates_props:
  assumes "distinct out" "[] \<notin> set out"
  shows "distinct (add_candidates out raws)" and "[] \<notin> set (add_candidates out raws)"
    and "\<exists>rest. add_candidates out raws = out @ rest"
    and "set (add_candidates out raws) = set out \<union> (strip ` set raws - {[]})"
  using assms by (induction out raws rule: add_candidates.induct) (auto simp: Let_def)

section \<open>Properties\<close>



text \<open>More findings never improve a check: if the verdicts of one scan are among those of
  another (all known) and the smaller scan had something in scope, the larger scan's verdict
  ranks no higher.\<close>

theorem roll_up_findings_antimono:
  assumes "set vs \<subseteq> set ws" "set ws \<subseteq> set VALIDATION_STATUSES"
    and "roll_up_findings vs = Inr m" "m \<noteq> ''not_applicable''"
  shows "\<exists>n. roll_up_findings ws = Inr n \<and> verdict_rank n \<le> verdict_rank m \<and> n \<noteq> ''not_applicable''"
proof -
  have vs: "set vs \<subseteq> set VALIDATION_STATUSES" using assms by blast
  with assms(3,4) have "worst_finding vs = Some m"
    by (auto simp: roll_up_findings_eq split: option.splits)
  from posture.worst_antimono [OF assms(1) this] obtain n
    where n: "worst_finding ws = Some n" "verdict_rank n \<le> verdict_rank m" .
  with roll_up_findings_eq [OF assms(2)] worst_finding_not_excluded [OF n(1)] show ?thesis by simp
qed

theorem roll_up_findings_antimono_witness:
  "\<exists>n. roll_up_findings [''pass'', ''warn''] = Inr n \<and> verdict_rank n \<le> 4 \<and> n \<noteq> ''not_applicable''"
proof -
  have "roll_up_findings [''pass''] = Inr ''pass''"
    by (simp add: roll_up_findings_def min_by_item_def dict_item_def vocab)
  moreover have "set [''pass''] \<subseteq> set [''pass'', ''warn'']"
      "set [''pass'', ''warn''] \<subseteq> set VALIDATION_STATUSES" "''pass'' \<noteq> ''not_applicable''"
    by (simp_all add: VALIDATION_STATUSES_def)
  ultimately show ?thesis using roll_up_findings_antimono [of "[''pass'']" "[''pass'', ''warn'']"]
    by (metis verdict_rank_simps(1))
qed

text \<open>Building a check outcome raises exactly when some finding carries an unknown verdict;
  otherwise the outcome's counts agree with its verdict: something fails iff the check fails,
  nothing was considered iff it is not applicable, and failing resources are among the
  considered, which are among the evaluated.\<close>

theorem from_findings_counts:
  "case from_findings c fs of
     Inl e \<Rightarrow> \<not> (rf_verdict ` set fs \<subseteq> set VALIDATION_STATUSES)
   | Inr oc \<Rightarrow> rf_verdict ` set fs \<subseteq> set VALIDATION_STATUSES \<and> co_findings oc = fs \<and>
       co_check_key oc = pc_key c \<and>
       (0 < co_failing oc \<longleftrightarrow> co_verdict oc = ''fail'') \<and>
       (co_considered oc = 0 \<longleftrightarrow> co_verdict oc = ''not_applicable'') \<and>
       co_failing oc \<le> co_considered oc \<and> co_considered oc \<le> co_evaluated oc"
proof (cases "rf_verdict ` set fs \<subseteq> set VALIDATION_STATUSES")
  case False
  then have "reject_unknown fs \<noteq> Inr ()" by (auto simp: reject_unknown_Inr)
  then obtain e where "from_findings c fs = Inl e"
    by (cases "reject_unknown fs") (auto simp: from_findings_def)
  with False show ?thesis by simp
next
  case True
  then have ok: "reject_unknown fs = Inr ()" by (auto simp: reject_unknown_Inr)
  from True obtain m where m: "roll_up_findings (map rf_verdict fs) = Inr m"
    using roll_up_findings_eq [of "map rf_verdict fs"] by auto
  have "m = ''fail'' \<longleftrightarrow> (\<exists>f \<in> set fs. rf_verdict f = ''fail'')"
    using roll_up_findings_fail [OF m] by force
  moreover have "m = ''not_applicable'' \<longleftrightarrow> (\<forall>f \<in> set fs. rf_verdict f \<in> set EXCLUDED_FROM_ROLLUP)"
    using roll_up_findings_not_applicable [OF m] by simp
  moreover have "count_if (\<lambda>f. rf_verdict f = ''fail'') fs
      \<le> count_if (\<lambda>f. rf_verdict f \<notin> set EXCLUDED_FROM_ROLLUP) fs"
    by (rule count_if_mono) (simp add: EXCLUDED_FROM_ROLLUP_def)
  ultimately show ?thesis using ok m True
    by (simp add: from_findings_def co_failing_def co_considered_def co_evaluated_def
        count_if_pos count_if_le)
qed

text \<open>The controls a passing verdict credits are the primary control alone; every control a
  non-passing verdict reaches is listed once, none is blank, the primary comes first, and every
  control a pass would credit is among those a failure reaches.\<close>

theorem attribution_asymmetric:
  "length (pass_attribution cid) \<le> 1 \<and>
   distinct (non_passing_attribution cid cids) \<and> [] \<notin> set (non_passing_attribution cid cids) \<and>
   (\<exists>rest. non_passing_attribution cid cids = pass_attribution cid @ rest) \<and>
   set (non_passing_attribution cid cids) =
     set (pass_attribution cid) \<union> (strip ` set (case cids of None \<Rightarrow> [] | Some cs \<Rightarrow> cs) - {[]})"
proof -
  have p: "evidenced_controls cid cids =
      add_candidates (pass_attribution cid) (case cids of None \<Rightarrow> [] | Some cs \<Rightarrow> cs)"
    by (simp add: evidenced_controls_def pass_attribution_def Let_def)
  have d: "distinct (pass_attribution cid)" "[] \<notin> set (pass_attribution cid)"
      "length (pass_attribution cid) \<le> 1"
    by (simp_all add: pass_attribution_def Let_def)
  show ?thesis
    using add_candidates_props [OF d(1,2)] d(3) by (simp add: non_passing_attribution_def p)
qed

end
