(* ===== verification/Grc_Models.thy ===== *)
theory Grc_Models
  imports Posture
begin

text \<open>
  The rows the governance components read and write (\<open>models.py\<close>, \<open>models_grc.py\<close>,
  \<open>models_waivers.py\<close>) and the database they live in. A table is the list of its rows in
  insertion order; one counter \<open>next_id\<close> stands for the tables' sequences (identifiers of a
  table grow, which is all the code uses of them). Columns no modelled operation reads or
  writes are left out of the records.
\<close>

record control_test =
  ct_id :: int
  ct_organization_id :: "int option"
  ct_system_id :: "int option"
  ct_control_id :: string
  ct_control_ids :: "string list option"
  ct_name :: string
  ct_description :: "string option"
  ct_method :: string
  ct_connector_type :: "string option"
  ct_frequency :: "string option"
  ct_expected :: "string option"
  ct_assertion :: "(string \<times> json) list option"
  ct_active :: bool
  ct_source :: string
  ct_check_key :: "string option"
  ct_check_source :: "string option"
  ct_capability_id :: "int option"
  ct_last_status :: "string option"
  ct_last_tested_at :: "datetime option"

record control_test_result =
  cr_id :: int
  cr_control_test_id :: int
  cr_run_at :: datetime
  cr_status :: string
  cr_detail :: "string option"
  cr_evidence_ref :: "string option"
  cr_evaluated :: nat
  cr_failing :: nat
  cr_waived :: nat
  cr_expected :: "string option"

record resource_result =
  rr_id :: int
  rr_result_id :: int
  rr_resource_id :: string
  rr_resource_type :: string
  rr_verdict :: string
  rr_observed :: "string option"
  rr_waiver_id :: "int option"
  rr_detail :: "(string \<times> json) list"

record waiver =
  w_id :: int
  w_organization_id :: "int option"
  w_system_id :: int
  w_check_key :: "string option"
  w_control_id :: "string option"
  w_resource_id :: "string option"
  w_status :: string
  w_requested_by :: "string option"
  w_expires_on :: "date option"

record connector_config =
  cc_id :: int
  cc_organization_id :: "int option"
  cc_name :: string
  cc_connector_type :: string
  cc_status :: string
  cc_last_sync :: "datetime option"
  cc_objects_discovered :: int

record capture_snapshot =
  cs_id :: int
  cs_organization_id :: "int option"
  cs_connector :: string
  cs_odp_key :: string
  cs_value :: string
  cs_nist_id :: "string option"
  cs_captured_at :: datetime

record task =
  tk_id :: int
  tk_organization_id :: "int option"
  tk_system_id :: "int option"
  tk_title :: string
  tk_description :: "string option"
  tk_kind :: string
  tk_priority :: string
  tk_status :: string
  tk_source :: string
  tk_entity_type :: "string option"
  tk_entity_id :: "string option"
  tk_dedupe_key :: "string option"
  tk_closed_at :: "datetime option"
  tk_due_on :: "date option"

record poam_milestone =
  pm_description :: string
  pm_due_on :: "date option"
  pm_status :: string
  pm_sort_order :: int
  pm_id :: int
  pm_completed_on :: "date option"

record poam =
  po_id :: int
  po_system_id :: int
  po_control_id :: "int option"
  po_title :: string
  po_weakness :: "string option"
  po_severity :: string
  po_status :: string
  po_identified_on :: "date option"
  po_due_on :: "date option"
  po_closed_on :: "date option"
  po_source :: "string option"
  po_remediation_plan :: "string option"
  po_remediation_plan_source :: string
  po_original_due_on :: "date option"
  po_source_ref :: "string option"
  po_milestones :: "poam_milestone list"
  po_owner_user_id :: "int option"
  po_acceptance_rationale :: "string option"

record notification =
  nt_id :: int
  nt_organization_id :: "int option"
  nt_user_id :: "int option"
  nt_severity :: string
  nt_category :: string
  nt_title :: string
  nt_body :: "string option"
  nt_entity_type :: "string option"
  nt_entity_id :: "string option"
  nt_dedupe_key :: "string option"

record event =
  ev_id :: int
  ev_organization_id :: "int option"
  ev_actor :: "string option"
  ev_verb :: string
  ev_entity_type :: string
  ev_entity_id :: "string option"
  ev_summary :: string
  ev_payload :: "(string \<times> json) list"

record webhook =
  wh_id :: int
  wh_organization_id :: "int option"
  wh_url :: string
  wh_secret :: "string option"
  wh_events :: "string list"
  wh_active :: bool

record system =
  sy_id :: int
  sy_organization_id :: int
  sy_name :: string
  sy_deleted_at :: "datetime option"

record catalog_control =
  ctl_id :: int
  ctl_identifier :: string

datatype out_msg =
    Webhook_post string "(string \<times> string) list" string
  | Json_post string json

record db =
  tests :: "control_test list"
  results :: "control_test_result list"
  resource_results :: "resource_result list"
  waivers :: "waiver list"
  connectors :: "connector_config list"
  captures :: "capture_snapshot list"
  tasks :: "task list"
  poams :: "poam list"
  notifications :: "notification list"
  events :: "event list"
  webhooks :: "webhook list"
  controls :: "catalog_control list"
  outbox :: "out_msg list"
  next_id :: int

text \<open>\<open>outbox\<close> records the HTTP posts the process attempts: the URL with the headers and the body,
  or the URL with the JSON document the client library serialises. Whether a post arrives has no
  effect on the code: failures are logged.\<close>

section \<open>POA\&M statuses\<close>

definition POAM_ACTIVE_STATUSES :: "string list" where [vocab]:
  "POAM_ACTIVE_STATUSES = [''open'', ''in_progress'']"

definition POAM_CLOSED_STATUSES :: "string list" where [vocab]:
  "POAM_CLOSED_STATUSES = [''completed'', ''closed'']"

definition POAM_STATUSES :: "string list" where [vocab]:
  "POAM_STATUSES = [''open'', ''in_progress'', ''completed'', ''risk_accepted'', ''closed'']"

end
