(* ===== verification/Json.thy ===== *)
theory Json
  imports Prelude
begin

text \<open>
  \<open>json.dumps\<close> of the values the audit chain and the event bus serialise, with the separators
  and the key order as parameters. Characters are the code points U+0000 to U+00FF; anything
  outside printable ASCII is escaped, as \<open>ensure_ascii\<close> does. The compact form with sorted keys
  (the canonical form the audit chain hashes) determines the value up to key order:
  \<open>dumps_compact_inj\<close>.
\<close>

definition json_escape :: "char \<Rightarrow> string" where
  "json_escape c =
     (if c = CHR 0x22 \<or> c = CHR 0x5C then [CHR 0x5C, c]
      else if c = CHR 0x0A then [CHR 0x5C, CHR ''n'']
      else if c = CHR 0x0D then [CHR 0x5C, CHR ''r'']
      else if c = CHR 0x09 then [CHR 0x5C, CHR ''t'']
      else if c = CHR 0x0C then [CHR 0x5C, CHR ''f'']
      else if c = CHR 0x08 then [CHR 0x5C, CHR ''b'']
      else if in_range CHR '' '' CHR 0x7E c then [c]
      else [CHR 0x5C, CHR ''u'', CHR ''0'', CHR ''0'', hex_digit (of_char c div 16),
            hex_digit (of_char c mod 16)])"

definition json_quote :: "string \<Rightarrow> string" where
  "json_quote s = CHR 0x22 # concat (map json_escape s) @ [CHR 0x22]"

fun dumps :: "string \<Rightarrow> string \<Rightarrow> json \<Rightarrow> string" where
  "dumps isep ksep JNull = ''null''"
| "dumps isep ksep (JBool b) = (if b then ''true'' else ''false'')"
| "dumps isep ksep (JInt i) = str_of_int i"
| "dumps isep ksep (JStr s) = json_quote s"
| "dumps isep ksep (JList xs) = ''['' @ join_with isep (map (dumps isep ksep) xs) @ '']''"
| "dumps isep ksep (JObj kvs) =
     ''{'' @ join_with isep (map (\<lambda>kv. json_quote (fst kv) @ ksep @ dumps isep ksep (snd kv)) kvs) @ ''}''"

text \<open>\<open>sort_keys=True\<close>, at every level.\<close>

fun sort_keys :: "json \<Rightarrow> json" where
  "sort_keys JNull = JNull"
| "sort_keys (JBool b) = JBool b"
| "sort_keys (JInt i) = JInt i"
| "sort_keys (JStr s) = JStr s"
| "sort_keys (JList xs) = JList (map sort_keys xs)"
| "sort_keys (JObj kvs) = JObj (sort_key fst (map (\<lambda>kv. (fst kv, sort_keys (snd kv))) kvs))"

definition dumps_compact :: "json \<Rightarrow> string" where
  "dumps_compact j = dumps '','' '':'' j"

definition dumps_default :: "json \<Rightarrow> string" where
  "dumps_default j = dumps '', '' '': '' j"

section \<open>Numbers are readable back\<close>

lemma str_of_nat_append_inj:
  assumes "str_of_nat m @ r = str_of_nat n @ s"
    and "r = [] \<or> \<not> is_digit (hd r)" "s = [] \<or> \<not> is_digit (hd s)"
  shows "m = n \<and> r = s"
proof -
  have "str_of_nat m = takeWhile is_digit (str_of_nat m @ r)"
    using takeWhile_digits [OF str_of_nat_digits assms(2)] by simp
  also have "\<dots> = str_of_nat n"
    using takeWhile_digits [OF str_of_nat_digits assms(3)] assms(1) by simp
  finally show ?thesis using assms(1) by (simp add: str_of_nat_inj)
qed

lemma str_of_int_append_inj:
  assumes "str_of_int i @ r = str_of_int j @ s"
    and "r = [] \<or> \<not> is_digit (hd r)" "s = [] \<or> \<not> is_digit (hd s)"
  shows "i = j \<and> r = s"
proof -
  have h: "hd (str_of_nat n @ x) \<noteq> CHR ''-''" for n x
    using hd_str_of_nat [of n] by (metis hd_append2 minus_not_digit str_of_nat_not_Nil)
  have no: "CHR ''-'' # x \<noteq> str_of_nat n @ y" for n x y
    using h [of n y] by (metis list.sel(1))
  consider "i < 0" "j < 0" | "i < 0" "0 \<le> j" | "0 \<le> i" "j < 0" | "0 \<le> i" "0 \<le> j" by linarith
  then show ?thesis
  proof cases
    case 1
    with assms(1) have "str_of_nat (nat (- i)) @ r = str_of_nat (nat (- j)) @ s"
      by (simp add: str_of_int_def)
    from str_of_nat_append_inj [OF this assms(2,3)] 1 show ?thesis by auto
  next
    case 2
    with assms(1) no show ?thesis by (simp add: str_of_int_def)
  next
    case 3
    with assms(1) no [symmetric] show ?thesis by (simp add: str_of_int_def)
  next
    case 4
    with assms(1) have "str_of_nat (nat i) @ r = str_of_nat (nat j) @ s"
      by (simp add: str_of_int_def)
    from str_of_nat_append_inj [OF this assms(2,3)] 4 show ?thesis by (simp add: eq_nat_nat_iff)
  qed
qed

section \<open>Strings are readable back\<close>

lemma hex_digit_inj: "a < 16 \<Longrightarrow> b < 16 \<Longrightarrow> hex_digit a = hex_digit b \<Longrightarrow> a = b"
proof -
  assume "a < 16" "b < 16" "hex_digit a = hex_digit b"
  then have "(of_char (hex_digit a) :: nat) = of_char (hex_digit b)" by simp
  then show "a = b" using \<open>a < 16\<close> \<open>b < 16\<close>
    by (auto simp: hex_digit_def of_char_of take_bit_eq_mod split: if_splits)
qed

lemma json_escape_not_Nil [simp]: "json_escape c \<noteq> []"
  by (simp add: json_escape_def)

lemma json_escape_hd: "hd (json_escape c) \<noteq> CHR 0x22"
  by (auto simp: json_escape_def)

lemma json_escape_append_inj:
  assumes "json_escape c @ r = json_escape d @ s"
  shows "c = d \<and> r = s"
proof -
  have hex: "c = d" if "hex_digit (of_char c div 16) = hex_digit (of_char d div 16)"
      "hex_digit (of_char c mod 16) = hex_digit (of_char d mod 16)"
  proof -
    have "(of_char c :: nat) < 256" "(of_char d :: nat) < 256" by simp_all
    then have "(of_char c :: nat) div 16 < 16" "(of_char d :: nat) div 16 < 16" by linarith+
    then have "(of_char c :: nat) div 16 = of_char d div 16" "(of_char c :: nat) mod 16 = of_char d mod 16"
      using that by (auto intro!: hex_digit_inj)
    then have "(of_char c :: nat) = of_char d" by (metis div_mult_mod_eq)
    then show ?thesis by simp
  qed
  show ?thesis
    using assms hex unfolding json_escape_def
    by (auto split: if_splits)
qed

lemma json_quote_append_inj:
  assumes "json_quote s @ r = json_quote t @ r'"
  shows "s = t \<and> r = r'"
proof -
  have "concat (map json_escape s) @ CHR 0x22 # r = concat (map json_escape t) @ CHR 0x22 # r' \<Longrightarrow>
      s = t \<and> r = r'"
  proof (induction s arbitrary: t)
    case Nil
    then show ?case
      using json_escape_hd by (cases t) (auto, metis hd_append2 json_escape_not_Nil list.sel(1))
  next
    case (Cons c s)
    show ?case
    proof (cases t)
      case Nil
      with Cons.prems show ?thesis
        using json_escape_hd [of c] by (auto, metis hd_append2 json_escape_not_Nil list.sel(1))
    next
      case (Cons d t')
      with Cons.prems have "json_escape c @ (concat (map json_escape s) @ CHR 0x22 # r) =
          json_escape d @ (concat (map json_escape t') @ CHR 0x22 # r')" by simp
      from json_escape_append_inj [OF this] Cons.IH Cons show ?thesis by blast
    qed
  qed
  with assms show ?thesis by (simp add: json_quote_def)
qed

section \<open>Values are readable back\<close>

definition delim :: "string \<Rightarrow> bool" where
  "delim r \<longleftrightarrow> r = [] \<or> hd r \<in> {CHR '','', CHR '']'', CHR ''}''}"

lemma delim_not_digit: "delim r \<Longrightarrow> r = [] \<or> \<not> is_digit (hd r)"
  by (auto simp: delim_def is_digit_def in_range_def)

text \<open>What kind of value a serialised text is, from its first character.\<close>

fun kind_of :: "json \<Rightarrow> nat" where
  "kind_of JNull = 0"
| "kind_of (JBool b) = (if b then 1 else 2)"
| "kind_of (JInt i) = 3"
| "kind_of (JStr s) = 4"
| "kind_of (JList xs) = 5"
| "kind_of (JObj kvs) = 6"

definition kind_of_char :: "char \<Rightarrow> nat" where
  "kind_of_char c =
     (if c = CHR ''n'' then 0 else if c = CHR ''t'' then 1 else if c = CHR ''f'' then 2
      else if is_digit c \<or> c = CHR ''-'' then 3 else if c = CHR 0x22 then 4
      else if c = CHR ''['' then 5 else if c = CHR ''{'' then 6 else 7)"

lemma dumps_not_Nil [simp]: "dumps isep ksep j \<noteq> []"
  by (cases j) (auto simp: str_of_int_def json_quote_def)

lemma kind_of_hd: "kind_of_char (hd (dumps isep ksep j)) = kind_of j"
proof (cases j)
  case (JInt i)
  have "hd (str_of_int i) = CHR ''-'' \<or> is_digit (hd (str_of_int i))"
    using hd_str_of_nat by (simp add: str_of_int_def)
  moreover have "\<not> is_digit CHR ''n''" "\<not> is_digit CHR ''t''" "\<not> is_digit CHR ''f''"
    by (simp_all add: is_digit_def in_range_def)
  ultimately show ?thesis using JInt by (auto simp: kind_of_char_def)
qed (simp_all add: kind_of_char_def json_quote_def is_digit_def in_range_def)

lemma dumps_hd_not_close: "hd (dumps isep ksep j) \<noteq> CHR '']''"
proof
  assume "hd (dumps isep ksep j) = CHR '']''"
  then have "kind_of j = 7" using kind_of_hd [of isep ksep j]
    by (simp add: kind_of_char_def is_digit_def in_range_def)
  then show False by (cases j) (auto split: if_splits)
qed

lemma dumps_same_kind:
  assumes "dumps isep ksep a @ r = dumps isep ksep b @ s"
  shows "kind_of a = kind_of b"
proof -
  have "hd (dumps isep ksep a) = hd (dumps isep ksep b)"
    using assms by (metis dumps_not_Nil hd_append2)
  then show ?thesis by (metis kind_of_hd)
qed

text \<open>A comma-separated sequence closed by a bracket, for any element encoding that is readable
  back in front of a delimiter and never starts with the bracket.\<close>

lemma join_append_inj:
  assumes enc: "\<And>x y r s. x \<in> set xs \<Longrightarrow> delim r \<Longrightarrow> delim s \<Longrightarrow> enc x @ r = enc y @ s \<Longrightarrow> x = y \<and> r = s"
    and close: "c \<in> {CHR '']'', CHR ''}''}" and hd: "\<And>x. enc x \<noteq> [] \<and> hd (enc x) \<noteq> c"
    and eq: "join_with '','' (map enc xs) @ c # r = join_with '','' (map enc ys) @ c # s"
  shows "xs = ys \<and> r = s"
  using enc eq
proof (induction xs arbitrary: ys)
  case Nil
  show ?case
  proof (cases ys)
    case Nil
    with Nil.prems show ?thesis by simp
  next
    case (Cons y ys')
    have "hd (join_with '','' (map enc ys) @ c # s) = hd (enc y)"
      using hd [of y] Cons by (cases ys') auto
    with Nil.prems(2) hd [of y] show ?thesis by (metis append_Nil join_with.simps(1) list.map(1) list.sel(1))
  qed
next
  case (Cons x xs)
  define tl where "tl zs q = (if zs = [] then c # q else '','' @ join_with '','' (map enc zs) @ c # q)" for zs q
  have join: "join_with '','' (map enc (z # zs)) @ c # q = enc z @ tl zs q" for z zs q
    by (cases zs) (simp_all add: tl_def)
  have d: "delim (tl zs q)" for zs q using close by (auto simp: tl_def delim_def)
  show ?case
  proof (cases ys)
    case Nil
    have "hd (join_with '','' (map enc (x # xs)) @ c # r) = hd (enc x)"
      using hd [of x] join [of x xs r] by (metis hd_append2)
    with Nil Cons.prems(2) hd [of x] show ?thesis by simp
  next
    case (Cons y ys')
    from Cons.prems(2) have "enc x @ tl xs r = enc y @ tl ys' s" by (simp only: join Cons)
    from Cons.prems(1) [OF _ d d this] have xy: "x = y" and t: "tl xs r = tl ys' s" by simp_all
    show ?thesis
    proof (cases "xs = [] \<or> ys' = []")
      case True
      with t close have "xs = [] \<and> ys' = [] \<and> r = s" by (auto simp: tl_def split: if_splits)
      with xy Cons show ?thesis by simp
    next
      case False
      with t have "join_with '','' (map enc xs) @ c # r = join_with '','' (map enc ys') @ c # s"
        by (simp add: tl_def)
      from Cons.IH [OF _ this] Cons.prems(1) xy Cons show ?thesis by auto
    qed
  qed
qed

lemma dumps_compact_append_inj:
  "delim r \<Longrightarrow> delim s \<Longrightarrow> dumps '','' '':'' a @ r = dumps '','' '':'' b @ s \<Longrightarrow> a = b \<and> r = s"
proof (induction a arbitrary: b r s)
  case JNull
  with dumps_same_kind [OF JNull.prems(3)] show ?case by (cases b) (auto split: if_splits)
next
  case (JBool x)
  with dumps_same_kind [OF JBool.prems(3)] show ?case by (cases b) (auto split: if_splits)
next
  case (JInt i)
  from dumps_same_kind [OF JInt.prems(3)] obtain j where b: "b = JInt j"
    by (cases b) (auto split: if_splits)
  with JInt str_of_int_append_inj [of i r j s] delim_not_digit show ?case by simp
next
  case (JStr t)
  from dumps_same_kind [OF JStr.prems(3)] obtain u where b: "b = JStr u"
    by (cases b) (auto split: if_splits)
  with JStr json_quote_append_inj [of t r u s] show ?case by simp
next
  case (JList xs)
  from dumps_same_kind [OF JList.prems(3)] obtain ys where b: "b = JList ys"
    by (cases b) (auto split: if_splits)
  with JList.prems(3)
  have "join_with '','' (map (dumps '','' '':'') xs) @ CHR '']'' # r =
      join_with '','' (map (dumps '','' '':'') ys) @ CHR '']'' # s" by simp
  from join_append_inj [OF _ _ _ this] JList.IH dumps_hd_not_close b show ?case by simp
next
  case (JObj kvs)
  let ?enc = "\<lambda>kv. json_quote (fst kv) @ '':'' @ dumps '','' '':'' (snd kv)"
  from dumps_same_kind [OF JObj.prems(3)] obtain lvs where b: "b = JObj lvs"
    by (cases b) (auto split: if_splits)
  have "kvs = lvs \<and> r = s"
  proof (rule join_append_inj [where enc = ?enc and c = "CHR ''}''"])
    show "join_with '','' (map ?enc kvs) @ CHR ''}'' # r = join_with '','' (map ?enc lvs) @ CHR ''}'' # s"
      using JObj.prems(3) b by simp
    fix x y r s assume x: "x \<in> set kvs" and d: "delim r" "delim s" and e: "?enc x @ r = ?enc y @ s"
    from e have "json_quote (fst x) @ ('':'' @ dumps '','' '':'' (snd x) @ r) =
        json_quote (fst y) @ ('':'' @ dumps '','' '':'' (snd y) @ s)" by simp
    from json_quote_append_inj [OF this]
    have f: "fst x = fst y" and "dumps '','' '':'' (snd x) @ r = dumps '','' '':'' (snd y) @ s"
      by simp_all
    with JObj.IH [of x "snd x"] x d have "snd x = snd y \<and> r = s"
      by (cases x) (auto simp: snds.simps)
    with f show "x = y \<and> r = s" by (simp add: prod_eq_iff)
  qed (simp_all add: json_quote_def)
  with b show ?case by simp
qed

lemma dumps_compact_inj: "dumps_compact a = dumps_compact b \<longleftrightarrow> a = b"
  using dumps_compact_append_inj [of "[]" "[]" a b] by (auto simp: dumps_compact_def delim_def)

end
