(* ===== verification/Bus.thy ===== *)
theory Bus
  imports Grc_Models Json
begin

text \<open>
  The event bus, \<open>governance/bus.py\<close>, and outbound delivery, \<open>governance/delivery.py\<close>: events
  fanned out to subscribed webhooks, and notifications de-duplicated by key.

  \<open>env\<close> holds what the code reads from its surroundings: the clock, the delivery settings, and
  \<open>hmac.new(secret, body, sha256).hexdigest()\<close> as the function \<open>en_hmac\<close>.
\<close>

record env =
  en_now :: datetime
  en_notify_webhook_url :: string
  en_notify_min_severity :: string
  en_hmac :: "string \<Rightarrow> string \<Rightarrow> string"

section \<open>Events and webhooks\<close>

definition dispatch_hooks :: "db \<Rightarrow> event \<Rightarrow> webhook list" where
  "dispatch_hooks d ev =
     filter (\<lambda>h. wh_active h \<and>
       (ev_organization_id ev = None \<or> wh_organization_id h = ev_organization_id ev \<or> wh_organization_id h = None))
       (webhooks d)"

definition webhook_body :: "event \<Rightarrow> string" where
  "webhook_body ev = dumps_default (JObj [
     (''verb'', JStr (ev_verb ev)),
     (''entity_type'', JStr (ev_entity_type ev)),
     (''entity_id'', case ev_entity_id ev of None \<Rightarrow> JNull | Some x \<Rightarrow> JStr x),
     (''summary'', JStr (ev_summary ev)),
     (''payload'', JObj (ev_payload ev))])"

definition subscribed :: "webhook \<Rightarrow> event \<Rightarrow> bool" where
  "subscribed h ev \<longleftrightarrow> wh_events h = [] \<or> ev_verb ev \<in> set (wh_events h) \<or> ev_entity_type ev \<in> set (wh_events h)"

definition webhook_headers :: "env \<Rightarrow> webhook \<Rightarrow> string \<Rightarrow> (string \<times> string) list" where
  "webhook_headers E h body =
     [(''Content-Type'', ''application/json'')] @
     (case wh_secret h of
        None \<Rightarrow> []
      | Some sec \<Rightarrow> if sec = [] then [] else [(''X-CCF-Signature'', fstr [''sha256='', en_hmac E sec body])])"

definition dispatch_webhooks :: "env \<Rightarrow> db \<Rightarrow> event \<Rightarrow> out_msg list" where
  "dispatch_webhooks E d ev =
     (let hooks = dispatch_hooks d ev; body = webhook_body ev
      in map (\<lambda>h. Webhook_post (wh_url h) (webhook_headers E h body) body) (filter (\<lambda>h. subscribed h ev) hooks))"

definition emit ::
  "env \<Rightarrow> db \<Rightarrow> string \<Rightarrow> string \<Rightarrow> string \<Rightarrow> int option \<Rightarrow> string option \<Rightarrow> string option \<Rightarrow>
     (string \<times> json) list \<Rightarrow> bool \<Rightarrow> db \<times> event" where
  "emit E d verb entity_type summary org_id actor entity_id payload dispatch =
     (let ev = \<lparr>ev_id = next_id d, ev_organization_id = org_id, ev_actor = actor, ev_verb = verb,
                 ev_entity_type = entity_type, ev_entity_id = entity_id, ev_summary = take 512 summary,
                 ev_payload = payload\<rparr>;
          d' = d\<lparr>events := events d @ [ev], next_id := next_id d + 1\<rparr>
      in (if dispatch then d'\<lparr>outbox := outbox d' @ dispatch_webhooks E d' ev\<rparr> else d', ev))"

section \<open>Notifications\<close>

definition RANK :: "(string \<times> int) list" where [vocab]:
  "RANK = [(''info'', 0), (''warning'', 1), (''critical'', 2)]"

definition delivery_text :: "notification \<Rightarrow> string" where
  "delivery_text n = fstr [''['', upper (nt_severity n), ''] '', nt_title n,
     case nt_body n of None \<Rightarrow> [] | Some b \<Rightarrow> if b = [] then [] else CHR 0x0A # b]"

definition deliver :: "env \<Rightarrow> notification \<Rightarrow> out_msg list" where
  "deliver E n =
     (let url = en_notify_webhook_url E; threshold = get_default RANK (en_notify_min_severity E) 2
      in if url = [] then []
         else if get_default RANK (nt_severity n) 0 < threshold then []
         else [Json_post url (JObj [(''text'', JStr (delivery_text n))])])"

record notice =
  nc_category :: string
  nc_title :: string
  nc_org_id :: "int option"
  nc_user_id :: "int option"
  nc_severity :: string
  nc_body :: "string option"
  nc_entity_type :: "string option"
  nc_entity_id :: "string option"
  nc_dedupe_key :: "string option"

definition new_notification :: "int \<Rightarrow> notice \<Rightarrow> notification" where
  "new_notification i a =
     \<lparr>nt_id = i, nt_organization_id = nc_org_id a, nt_user_id = nc_user_id a, nt_severity = nc_severity a,
      nt_category = nc_category a, nt_title = take 512 (nc_title a), nt_body = nc_body a,
      nt_entity_type = nc_entity_type a, nt_entity_id = nc_entity_id a, nt_dedupe_key = nc_dedupe_key a\<rparr>"

definition refresh_notification :: "notice \<Rightarrow> notification \<Rightarrow> notification" where
  "refresh_notification a n = n\<lparr>nt_title := take 512 (nc_title a), nt_severity := nc_severity a, nt_body := nc_body a\<rparr>"

definition insert_notification :: "env \<Rightarrow> db \<Rightarrow> notice \<Rightarrow> db res" where
  "insert_notification E d a =
     (let n = new_notification (next_id d) a
      in rbind (insert_unique nt_dedupe_key n (notifications d)) (\<lambda>ns.
           Inr (d\<lparr>notifications := ns, next_id := next_id d + 1, outbox := outbox d @ deliver E n\<rparr>)))"

definition notify :: "env \<Rightarrow> notice \<Rightarrow> db \<Rightarrow> db res" where
  "notify E a d =
     (case nc_dedupe_key a of
        None \<Rightarrow> insert_notification E d a
      | Some k \<Rightarrow>
          if k = [] then insert_notification E d a
          else rbind (one_or_none (filter (\<lambda>n. nt_dedupe_key n = Some k) (notifications d))) (\<lambda>existing.
            case existing of
              Some x \<Rightarrow> Inr (d\<lparr>notifications :=
                 update_rows (\<lambda>n. nt_dedupe_key n = Some k) (refresh_notification a) (notifications d)\<rparr>)
            | None \<Rightarrow> insert_notification E d a))"

definition unique_notifications :: "db \<Rightarrow> bool" where
  "unique_notifications d \<longleftrightarrow> distinct (keys_of nt_dedupe_key (notifications d))"

section \<open>Upserts by key\<close>

text \<open>The contract a de-duplicating writer gives its callers: on a table whose keys are unique it
  succeeds, keeps them unique and leaves exactly one row for the key it wrote.\<close>

locale keyed_upsert =
  fixes upsert :: "'x \<Rightarrow> 's \<Rightarrow> 's res" and keys :: "'s \<Rightarrow> string list" and key :: "'x \<Rightarrow> string"
    and usable :: "'x \<Rightarrow> bool"
  assumes upsert_ok: "distinct (keys s) \<Longrightarrow> usable x \<Longrightarrow>
    \<exists>s'. upsert x s = Inr s' \<and> keys s' = (if key x \<in> set (keys s) then keys s else keys s @ [key x])"
begin

lemma upsert_run:
  assumes "distinct (keys s)" "\<forall>x \<in> set xs. usable x"
  shows "\<exists>s'. foldl (\<lambda>r x. rbind r (upsert x)) (Inr s) xs = Inr s' \<and> distinct (keys s') \<and>
    set (keys s') = set (keys s) \<union> key ` set xs"
  using assms
proof (induction xs arbitrary: s)
  case (Cons x xs)
  obtain s' where s': "upsert x s = Inr s'" "keys s' = (if key x \<in> set (keys s) then keys s else keys s @ [key x])"
    using upsert_ok [of s x] Cons.prems by auto
  have "distinct (keys s')" "set (keys s') = insert (key x) (set (keys s))"
    using s'(2) Cons.prems(1) by auto
  then show ?case using Cons.IH [of s'] Cons.prems(2) s'(1) by auto
qed simp

end

lemma insert_notification_ok:
  assumes "case nc_dedupe_key a of None \<Rightarrow> True | Some k \<Rightarrow> k \<notin> set (keys_of nt_dedupe_key (notifications d))"
  shows "insert_notification E d a = Inr (d\<lparr>notifications := notifications d @ [new_notification (next_id d) a],
     next_id := next_id d + 1, outbox := outbox d @ deliver E (new_notification (next_id d) a)\<rparr>)"
  using assms
  by (cases "nc_dedupe_key a") (simp_all add: insert_notification_def insert_unique_def new_notification_def Let_def)

lemma notify_keyed:
  assumes "unique_notifications d" "nc_dedupe_key a = Some k" "k \<noteq> []"
  shows "notify E a d = Inr
    (if k \<in> set (keys_of nt_dedupe_key (notifications d))
     then d\<lparr>notifications := update_rows (\<lambda>n. nt_dedupe_key n = Some k) (refresh_notification a) (notifications d)\<rparr>
     else d\<lparr>notifications := notifications d @ [new_notification (next_id d) a], next_id := next_id d + 1,
            outbox := outbox d @ deliver E (new_notification (next_id d) a)\<rparr>)"
  using assms(1) unfolding unique_notifications_def
proof (cases rule: unique_key_lookup [where k = k])
  case 1
  then show ?thesis using assms by (simp add: notify_def insert_notification_ok)
next
  case (2 r)
  then have "k \<in> set (keys_of nt_dedupe_key (notifications d))" by (auto simp: set_keys_of)
  then show ?thesis using 2 assms by (simp add: notify_def)
qed

interpretation alerts: keyed_upsert "notify E" "\<lambda>d. keys_of nt_dedupe_key (notifications d)"
  "\<lambda>a. case nc_dedupe_key a of None \<Rightarrow> [] | Some k \<Rightarrow> k"
  "\<lambda>a. nc_dedupe_key a \<noteq> None \<and> nc_dedupe_key a \<noteq> Some []" for E
proof (unfold_locales, goal_cases)
  case (1 d a)
  then obtain k where k: "nc_dedupe_key a = Some k" "k \<noteq> []" by auto
  show ?case
    using notify_keyed [of d a k E] 1(1) k
    by (simp add: unique_notifications_def refresh_notification_def new_notification_def)
qed

section \<open>Properties\<close>

text \<open>Re-raising alerts never duplicates them. Any sequence of de-duplicated notifications
  succeeds and leaves one notification per key: the keys that were there and the keys raised.\<close>

theorem notify_run_one_per_key:
  assumes "unique_notifications d" "\<forall>a \<in> set as. nc_dedupe_key a \<noteq> None \<and> nc_dedupe_key a \<noteq> Some []"
  shows "\<exists>d'. foldl (\<lambda>r a. rbind r (notify E a)) (Inr d) as = Inr d' \<and> unique_notifications d' \<and>
    set (keys_of nt_dedupe_key (notifications d')) =
      set (keys_of nt_dedupe_key (notifications d)) \<union> (\<lambda>a. the (nc_dedupe_key a)) ` set as"
proof -
  have "(\<lambda>a. case nc_dedupe_key a of None \<Rightarrow> [] | Some k \<Rightarrow> k) ` set as = (\<lambda>a. the (nc_dedupe_key a)) ` set as"
    by (rule image_cong) (use assms(2) in auto)
  then show ?thesis
    using alerts.upsert_run [of d as E] assms by (simp add: unique_notifications_def)
qed

definition empty_db :: db where
  "empty_db = \<lparr>tests = [], results = [], resource_results = [], waivers = [], connectors = [], captures = [],
     tasks = [], poams = [], notifications = [], events = [], webhooks = [], controls = [], outbox = [], next_id = 1\<rparr>"

definition sample_env :: env where
  "sample_env = \<lparr>en_now = 1700000000000000, en_notify_webhook_url = ''https://hook'', en_notify_min_severity = ''critical'',
     en_hmac = (\<lambda>k m. ''00'')\<rparr>"

definition sample_notice :: notice where
  "sample_notice = \<lparr>nc_category = ''conmon'', nc_title = ''t'', nc_org_id = Some 1, nc_user_id = None,
     nc_severity = ''critical'', nc_body = Some ''b'', nc_entity_type = None, nc_entity_id = None,
     nc_dedupe_key = Some ''ctltest:1''\<rparr>"

theorem notify_run_one_per_key_witness:
  "\<exists>d'. foldl (\<lambda>r a. rbind r (notify sample_env a)) (Inr empty_db) [sample_notice, sample_notice] = Inr d' \<and>
     set (keys_of nt_dedupe_key (notifications d')) = {''ctltest:1''}"
proof -
  have "unique_notifications empty_db" by (simp add: unique_notifications_def empty_db_def)
  moreover have "\<forall>a \<in> set [sample_notice, sample_notice]. nc_dedupe_key a \<noteq> None \<and> nc_dedupe_key a \<noteq> Some []"
    by (simp add: sample_notice_def)
  ultimately obtain d' where
    d': "foldl (\<lambda>r a. rbind r (notify sample_env a)) (Inr empty_db) [sample_notice, sample_notice] = Inr d'"
    "set (keys_of nt_dedupe_key (notifications d')) = set (keys_of nt_dedupe_key (notifications empty_db)) \<union>
       (\<lambda>a. the (nc_dedupe_key a)) ` set [sample_notice, sample_notice]"
    using notify_run_one_per_key [of empty_db "[sample_notice, sample_notice]" sample_env] by blast
  from d'(2) have "set (keys_of nt_dedupe_key (notifications d')) = {''ctltest:1''}"
    by (simp add: empty_db_def sample_notice_def)
  with d'(1) show ?thesis by blast
qed

text \<open>An event reaches exactly the webhooks it should. Emitting appends one event and one post
  per active, subscribed webhook of the event's organization or of none; a webhook of another
  organization gets nothing, and a post is signed exactly when the webhook has a secret.\<close>

theorem emit_posts:
  "case emit E d verb etype summary org actor eid payload True of (d', ev) \<Rightarrow>
     events d' = events d @ [ev] \<and> ev_organization_id ev = org \<and> length (ev_summary ev) \<le> 512 \<and>
     (\<exists>posts. outbox d' = outbox d @ posts \<and>
       set posts = {Webhook_post (wh_url h) (webhook_headers E h (webhook_body ev)) (webhook_body ev) | h.
         h \<in> set (webhooks d) \<and> wh_active h \<and> subscribed h ev \<and>
         (org = None \<or> wh_organization_id h = org \<or> wh_organization_id h = None)} \<and>
       (\<forall>h. (''X-CCF-Signature'' \<in> fst ` set (webhook_headers E h (webhook_body ev)))
          = (wh_secret h \<noteq> None \<and> wh_secret h \<noteq> Some [])))"
proof -
  have sig: "(''X-CCF-Signature'' \<in> fst ` set (webhook_headers E h b)) = (wh_secret h \<noteq> None \<and> wh_secret h \<noteq> Some [])"
    for h b by (cases "wh_secret h") (simp_all add: webhook_headers_def)
  show ?thesis
    unfolding emit_def Let_def sig by (auto simp: dispatch_webhooks_def dispatch_hooks_def Let_def)
qed

end
