(* ===== verification/Waivers.thy ===== *)
theory Waivers
  imports Grc_Models
begin

text \<open>
  Waivers (\<open>governance/waivers.py\<close>): when an acceptance is in force, which findings of a result
  it covers, which waivers are candidates for a control test, and who may approve one.
\<close>

definition APPROVED :: string where [vocab]:
  "APPROVED = ''approved''"

definition WAIVER_STATUSES :: "string list" where [vocab]:
  "WAIVER_STATUSES = [''requested'', APPROVED, ''revoked'']"

definition REQUIRES_COVER :: "string list" where
  "REQUIRES_COVER =
     filter (\<lambda>v. v \<noteq> ''pass'' \<and> v \<notin> set EXCLUDED_FROM_ROLLUP) VALIDATION_STATUSES"

record coverage =
  cv_suppress :: bool
  cv_waived :: nat
  cv_by_resource :: "(string \<times> int) list"
  cv_uncovered :: "string list"

definition is_active :: "waiver \<Rightarrow> date \<Rightarrow> bool" where
  "is_active w today =
     (if w_status w \<noteq> APPROVED then False
      else case w_expires_on w of None \<Rightarrow> True | Some d \<Rightarrow> today \<le> d)"

definition whole_waiver :: "waiver list \<Rightarrow> waiver option" where
  "whole_waiver active = List.find (\<lambda>w. w_resource_id w = None) active"

definition by_resource_waiver :: "waiver list \<Rightarrow> (string \<times> waiver) list" where
  "by_resource_waiver active =
     foldl (\<lambda>d w. case w_resource_id w of None \<Rightarrow> d | Some r \<Rightarrow> AList.update r w d) [] active"

fun attribute_findings ::
  "(string \<times> waiver) list \<Rightarrow> waiver option \<Rightarrow> resource_finding list \<Rightarrow>
     (string \<times> int) list \<times> string list \<Rightarrow> (string \<times> int) list \<times> string list" where
  "attribute_findings brw whole [] acc = acc"
| "attribute_findings brw whole (f # fs) (attributed, uncovered) =
     attribute_findings brw whole fs
       (case map_of brw (rf_resource_id f) of
          Some specific \<Rightarrow> (AList.update (rf_resource_id f) (w_id specific) attributed, uncovered)
        | None \<Rightarrow>
            (case whole of
               Some w \<Rightarrow> (AList.update (rf_resource_id f) (w_id w) attributed, uncovered)
             | None \<Rightarrow> (attributed, uncovered @ [rf_resource_id f])))"

definition cover :: "resource_finding list \<Rightarrow> waiver list \<Rightarrow> date \<Rightarrow> coverage" where
  "cover findings ws today =
     (let active = filter (\<lambda>w. is_active w today) ws;
          whole = whole_waiver active;
          brw = by_resource_waiver active;
          needing = filter (\<lambda>f. rf_verdict f \<in> set REQUIRES_COVER) findings
      in if needing = []
         then \<lparr>cv_suppress = (whole \<noteq> None \<and> findings = []), cv_waived = 0, cv_by_resource = [],
               cv_uncovered = []\<rparr>
         else case attribute_findings brw whole needing ([], []) of
           (attributed, uncovered) \<Rightarrow>
             \<lparr>cv_suppress = (uncovered = []), cv_waived = length attributed,
              cv_by_resource = attributed, cv_uncovered = uncovered\<rparr>)"

definition waiver_matches :: "waiver \<Rightarrow> control_test \<Rightarrow> bool" where
  "waiver_matches w t =
     (case ct_system_id t of
        None \<Rightarrow> False
      | Some sid \<Rightarrow>
          if w_organization_id w \<noteq> ct_organization_id t \<or> w_system_id w \<noteq> sid then False
          else if w_control_id w \<noteq> None \<and> w_control_id w = Some (ct_control_id t) then True
          else (case ct_check_key t of None \<Rightarrow> False | Some k \<Rightarrow> k \<noteq> [] \<and> w_check_key w = Some k))"

definition waivers_for_tests :: "db \<Rightarrow> control_test list \<Rightarrow> (int \<times> waiver list) list" where
  "waivers_for_tests s ts =
     (let scoped = filter (\<lambda>t. ct_system_id t \<noteq> None) ts;
          out = foldl (\<lambda>d t. AList.update (ct_id t) [] d) [] ts
      in if scoped = [] then out
         else
           (let orgs = map ct_organization_id scoped;
                rows = sort_key w_id (filter (\<lambda>w. w_organization_id w \<in> set orgs \<and>
                          Some (w_system_id w) \<in> set (map ct_system_id scoped)) (waivers s))
            in foldl (\<lambda>d t. AList.update (ct_id t) (filter (\<lambda>w. waiver_matches w t) rows) d)
                 out scoped))"

definition waivers_for_test :: "db \<Rightarrow> control_test \<Rightarrow> waiver list res" where
  "waivers_for_test s t =
     (case map_of (waivers_for_tests s [t]) (ct_id t) of
        None \<Rightarrow> Inl (KeyError (str_of_int (ct_id t)))
      | Some ws \<Rightarrow> Inr ws)"

definition can_approve :: "string option \<Rightarrow> string option \<Rightarrow> bool \<Rightarrow> bool" where
  "can_approve requested_by approver is_global =
     (if is_global then True
      else (case approver of None \<Rightarrow> False | Some a \<Rightarrow> a \<noteq> []) \<and> requested_by \<noteq> approver)"

section \<open>Coverage\<close>

lemma REQUIRES_COVER_eq:
  "REQUIRES_COVER = [''warn'', ''fail'', ''manual_review_required'']"
  by (simp add: REQUIRES_COVER_def vocab)

text \<open>A waiver covers a resource: in force, and for the whole check or for that resource.\<close>

definition covers :: "waiver list \<Rightarrow> date \<Rightarrow> string \<Rightarrow> bool" where
  "covers ws today r \<longleftrightarrow>
     (\<exists>w \<in> set ws. is_active w today \<and> (w_resource_id w = None \<or> w_resource_id w = Some r))"

lemma by_resource_waiver_Some:
  "map_of (by_resource_waiver ws) r = Some w \<Longrightarrow> w \<in> set ws \<and> w_resource_id w = Some r"
  unfolding by_resource_waiver_def
  by (induction ws rule: rev_induct) (auto split: option.splits if_splits)

lemma by_resource_waiver_None:
  "map_of (by_resource_waiver ws) r = None \<longleftrightarrow> (\<forall>w \<in> set ws. w_resource_id w \<noteq> Some r)"
  unfolding by_resource_waiver_def
  by (induction ws rule: rev_induct) (auto split: option.splits if_splits)

lemma whole_waiver_None: "whole_waiver ws = None \<longleftrightarrow> (\<forall>w \<in> set ws. w_resource_id w \<noteq> None)"
  by (auto simp: whole_waiver_def find_None_iff)

lemma whole_waiver_Some: "whole_waiver ws = Some w \<Longrightarrow> w \<in> set ws \<and> w_resource_id w = None"
  by (auto simp: whole_waiver_def find_Some_iff)

text \<open>The waiver the loop of \<^const>\<open>cover\<close> picks for a resource.\<close>

definition chosen_waiver :: "waiver list \<Rightarrow> string \<Rightarrow> waiver option" where
  "chosen_waiver active r =
     (case map_of (by_resource_waiver active) r of Some w \<Rightarrow> Some w | None \<Rightarrow> whole_waiver active)"

definition attribute_one :: "waiver list \<Rightarrow> (string \<times> int) list \<Rightarrow> resource_finding \<Rightarrow> (string \<times> int) list" where
  "attribute_one active d f =
     (case chosen_waiver active (rf_resource_id f) of
        None \<Rightarrow> d | Some w \<Rightarrow> AList.update (rf_resource_id f) (w_id w) d)"

lemma attribute_findings_eq:
  "attribute_findings (by_resource_waiver active) (whole_waiver active) fs (att, unc) =
     (foldl (attribute_one active) att fs,
      unc @ map rf_resource_id (filter (\<lambda>f. chosen_waiver active (rf_resource_id f) = None) fs))"
  by (induction fs arbitrary: att unc)
    (auto simp: chosen_waiver_def attribute_one_def split: option.splits)

lemma attribute_fold_map_of:
  "map_of (foldl (attribute_one active) d fs) r =
     (if r \<in> rf_resource_id ` set fs \<and> chosen_waiver active r \<noteq> None
      then map_option w_id (chosen_waiver active r) else map_of d r)"
  by (induction fs rule: rev_induct) (auto simp: attribute_one_def split: option.splits)

lemma attribute_fold_distinct:
  "distinct (map fst d) \<Longrightarrow> distinct (map fst (foldl (attribute_one active) d fs))"
  by (induction fs rule: rev_induct) (auto simp: attribute_one_def distinct_update split: option.splits)

lemma chosen_waiver_None:
  "chosen_waiver (filter (\<lambda>w. is_active w today) ws) r = None \<longleftrightarrow> \<not> covers ws today r"
proof (cases "map_of (by_resource_waiver (filter (\<lambda>w. is_active w today) ws)) r")
  case None
  then have "chosen_waiver (filter (\<lambda>w. is_active w today) ws) r =
      whole_waiver (filter (\<lambda>w. is_active w today) ws)"
    by (simp add: chosen_waiver_def)
  moreover have "\<forall>w \<in> set ws. is_active w today \<longrightarrow> w_resource_id w \<noteq> Some r"
    using None by (simp add: by_resource_waiver_None)
  ultimately show ?thesis by (auto simp: covers_def whole_waiver_None)
next
  case (Some w)
  with by_resource_waiver_Some [OF Some] show ?thesis by (auto simp: chosen_waiver_def covers_def)
qed

lemma chosen_waiver_Some:
  assumes "chosen_waiver (filter (\<lambda>w. is_active w today) ws) r = Some w"
  shows "w \<in> set ws \<and> is_active w today \<and>
     (w_resource_id w = Some r \<or>
      w_resource_id w = None \<and> (\<forall>v \<in> set ws. is_active v today \<longrightarrow> w_resource_id v \<noteq> Some r))"
  using assms
  by (auto simp: chosen_waiver_def by_resource_waiver_None split: option.splits
      dest!: by_resource_waiver_Some whole_waiver_Some)

abbreviation needing_cover :: "resource_finding list \<Rightarrow> resource_finding list" where
  "needing_cover fs \<equiv> filter (\<lambda>f. rf_verdict f \<in> set REQUIRES_COVER) fs"

lemma cover_needing:
  assumes "needing_cover fs \<noteq> []" "active = filter (\<lambda>w. is_active w today) ws"
  shows "cover fs ws today =
     (let att = foldl (attribute_one active) [] (needing_cover fs);
          unc = map rf_resource_id
                  (filter (\<lambda>f. chosen_waiver active (rf_resource_id f) = None) (needing_cover fs))
      in \<lparr>cv_suppress = (unc = []), cv_waived = length att, cv_by_resource = att, cv_uncovered = unc\<rparr>)"
  using assms(1) unfolding cover_def assms(2) Let_def by (simp add: attribute_findings_eq)

section \<open>Candidates\<close>

lemma foldl_update_const:
  "map_of (foldl (\<lambda>d t. AList.update (ct_id t) [] d) d ts) k =
     (if k \<in> ct_id ` set ts then Some [] else map_of d k)"
  by (induction ts rule: rev_induct) auto

lemma waiver_matches_scope:
  "waiver_matches w t \<Longrightarrow>
     ct_system_id t = Some (w_system_id w) \<and> w_organization_id w = ct_organization_id t"
  by (auto simp: waiver_matches_def split: option.splits if_splits)

lemma waivers_for_test_eq:
  "waivers_for_test s t = Inr (sort_key w_id (filter (\<lambda>w. waiver_matches w t) (waivers s)))"
proof (cases "ct_system_id t")
  case None
  then have "waiver_matches w t = False" for w by (simp add: waiver_matches_def)
  with None show ?thesis by (simp add: waivers_for_test_def waivers_for_tests_def)
next
  case (Some sid)
  have "filter (\<lambda>w. waiver_matches w t) (filter (\<lambda>w. w_organization_id w = ct_organization_id t \<and>
          w_system_id w = sid) (waivers s)) = filter (\<lambda>w. waiver_matches w t) (waivers s)"
    using Some by (auto simp: filter_filter intro!: filter_cong dest: waiver_matches_scope)
  with Some show ?thesis
    by (simp add: waivers_for_test_def waivers_for_tests_def Let_def filter_sort)
qed

section \<open>Properties\<close>

text \<open>C24: a result's consequence is suppressed exactly when there is a finding that needs cover
  and every such finding is covered by a waiver in force (for its resource or for the whole
  check), or when no finding was enumerated at all and a whole-check waiver is in force. The
  uncovered resources are exactly the findings needing cover that nothing covers.\<close>

theorem cover_suppress_iff:
  "(cv_suppress (cover fs ws today) \<longleftrightarrow>
     (if needing_cover fs \<noteq> [] then \<forall>f \<in> set (needing_cover fs). covers ws today (rf_resource_id f)
      else fs = [] \<and> (\<exists>w \<in> set ws. is_active w today \<and> w_resource_id w = None))) \<and>
   set (cv_uncovered (cover fs ws today)) =
     {rf_resource_id f | f. f \<in> set (needing_cover fs) \<and> \<not> covers ws today (rf_resource_id f)}"
proof (cases "needing_cover fs = []")
  case True
  have "whole_waiver (filter (\<lambda>w. is_active w today) ws) \<noteq> None \<longleftrightarrow>
      (\<exists>w \<in> set ws. is_active w today \<and> w_resource_id w = None)"
    using whole_waiver_None [of "filter (\<lambda>w. is_active w today) ws"] by auto
  moreover have "{rf_resource_id f | f. f \<in> set (needing_cover fs) \<and>
      \<not> covers ws today (rf_resource_id f)} = {}"
    unfolding True by simp
  ultimately show ?thesis using True by (simp only: cover_def Let_def) auto
next
  case False
  then show ?thesis
    by (auto simp: cover_needing [OF _ refl] Let_def chosen_waiver_None filter_empty_conv)
qed

theorem cover_suppress_iff_witness:
  "\<not> cv_suppress (cover
     [\<lparr>rf_resource_id = ''vm1'', rf_resource_type = ''vm'', rf_verdict = ''fail'', rf_observed = ''x'', rf_detail = []\<rparr>]
     [\<lparr>w_id = 7, w_organization_id = Some 1, w_system_id = 2, w_check_key = Some ''k'', w_control_id = None,
       w_resource_id = Some ''vm2'', w_status = ''approved'', w_requested_by = None, w_expires_on = Some 100\<rparr>] 100)"
  unfolding cover_suppress_iff [THEN conjunct1]
  by (simp add: covers_def is_active_def REQUIRES_COVER_eq vocab)

text \<open>Each attribution names one waiver per resource, that waiver is in force and applies to
  the resource, a resource-specific waiver is preferred to a whole-check one, only resources
  needing cover are attributed, and \<open>waived\<close> counts them.\<close>

theorem cover_attribution:
  assumes "(r, wid) \<in> set (cv_by_resource (cover fs ws today))"
  shows "r \<in> rf_resource_id ` set (needing_cover fs) \<and>
    (\<exists>w \<in> set ws. w_id w = wid \<and> is_active w today \<and>
       (w_resource_id w = Some r \<or>
        w_resource_id w = None \<and> (\<forall>v \<in> set ws. is_active v today \<longrightarrow> w_resource_id v \<noteq> Some r))) \<and>
    distinct (map fst (cv_by_resource (cover fs ws today))) \<and>
    cv_waived (cover fs ws today) = length (cv_by_resource (cover fs ws today))"
proof -
  define active where "active = filter (\<lambda>w. is_active w today) ws"
  have ne: "needing_cover fs \<noteq> []"
    using assms by (cases "needing_cover fs = []") (auto simp: cover_def Let_def)
  define att where "att = foldl (attribute_one active) [] (needing_cover fs)"
  have eq: "cv_by_resource (cover fs ws today) = att" "cv_waived (cover fs ws today) = length att"
    using cover_needing [OF ne active_def] by (simp_all add: att_def Let_def)
  have d: "distinct (map fst att)"
    unfolding att_def by (rule attribute_fold_distinct) simp
  from assms d have "map_of att r = Some wid" by (simp add: eq)
  then have "r \<in> rf_resource_id ` set (needing_cover fs)"
      "map_option w_id (chosen_waiver active r) = Some wid"
    using attribute_fold_map_of [of active "[]" "needing_cover fs" r]
    by (auto simp: att_def split: if_splits)
  then obtain w where w: "chosen_waiver active r = Some w" "w_id w = wid"
      and r: "r \<in> rf_resource_id ` set (needing_cover fs)" by auto
  from chosen_waiver_Some [OF w(1) [unfolded active_def]] w(2)
  have "\<exists>w \<in> set ws. w_id w = wid \<and> is_active w today \<and>
       (w_resource_id w = Some r \<or>
        w_resource_id w = None \<and> (\<forall>v \<in> set ws. is_active v today \<longrightarrow> w_resource_id v \<noteq> Some r))"
    by blast
  with r d show ?thesis unfolding eq by (intro conjI) simp_all
qed

theorem cover_attribution_witness:
  "\<exists>f w. (''vm1'', 7) \<in> set (cv_by_resource (cover [f] [w] 100)) \<and>
     is_active w 100 \<and> distinct (map fst (cv_by_resource (cover [f] [w] 100)))"
proof -
  define f where "f = \<lparr>rf_resource_id = ''vm1'', rf_resource_type = ''vm'', rf_verdict = ''fail'',
    rf_observed = ''x'', rf_detail = []\<rparr>"
  define w where "w = \<lparr>w_id = 7, w_organization_id = Some 1, w_system_id = 2,
    w_check_key = Some ''k'', w_control_id = None, w_resource_id = None, w_status = ''approved'',
    w_requested_by = None, w_expires_on = Some 100\<rparr>"
  have m: "(''vm1'', 7) \<in> set (cv_by_resource (cover [f] [w] 100))"
    by (simp add: cover_def Let_def f_def w_def is_active_def REQUIRES_COVER_eq whole_waiver_def
        by_resource_waiver_def vocab)
  from cover_attribution [OF m] m show ?thesis by auto
qed

text \<open>The per-test and the batch resolution of candidates agree: one test's candidates are
  exactly the waivers that match it, in id order. A candidate always belongs to the test's
  own organization and system, and a test with no system has none.\<close>

theorem waivers_for_test_scoped:
  "\<exists>ws. waivers_for_test s t = Inr ws \<and> sorted (map w_id ws) \<and>
     set ws = {w \<in> set (waivers s). waiver_matches w t} \<and>
     (ct_system_id t = None \<longrightarrow> ws = []) \<and>
     (\<forall>w \<in> set ws. w_organization_id w = ct_organization_id t \<and>
        ct_system_id t = Some (w_system_id w) \<and>
        (w_control_id w = Some (ct_control_id t) \<or> w_check_key w = ct_check_key t))"
proof -
  define ws where "ws = sort_key w_id (filter (\<lambda>w. waiver_matches w t) (waivers s))"
  have "set ws = {w \<in> set (waivers s). waiver_matches w t}" "sorted (map w_id ws)"
    by (simp_all add: ws_def)
  moreover have "ct_system_id t = None \<Longrightarrow> ws = []"
    by (simp add: ws_def waiver_matches_def filter_empty_conv)
  moreover have "w_organization_id w = ct_organization_id t \<and> ct_system_id t = Some (w_system_id w) \<and>
      (w_control_id w = Some (ct_control_id t) \<or> w_check_key w = ct_check_key t)"
    if "waiver_matches w t" for w
    using that by (auto simp: waiver_matches_def split: option.splits if_splits)
  ultimately show ?thesis using waivers_for_test_eq [of s t] by (simp add: ws_def)
qed

theorem waivers_for_test_scoped_witness:
  "\<exists>ws. waivers_for_test \<lparr>tests = [], results = [], resource_results = [], waivers = [],
      connectors = [], captures = [], tasks = [], poams = [], notifications = [], events = [],
      webhooks = [], controls = [], outbox = [], next_id = 1\<rparr>
     \<lparr>ct_id = 1, ct_organization_id = None, ct_system_id = None, ct_control_id = ''AC-2'',
      ct_control_ids = None, ct_name = ''t'', ct_description = None, ct_method = ''manual'',
      ct_connector_type = None, ct_frequency = None, ct_expected = None, ct_assertion = None,
      ct_active = True, ct_source = ''authored'', ct_check_key = None, ct_check_source = None,
      ct_capability_id = None, ct_last_status = None, ct_last_tested_at = None\<rparr> = Inr ws \<and> ws = []"
  using waivers_for_test_scoped by fastforce

end
