(* ===== verification/PyFloat.thy ===== *)
theory PyFloat
  imports Complex_Main Prelude "HOL-Library.Log_Nat"
begin

text \<open>
  Python's \<open>float\<close> arithmetic, on the rational values the doubles denote.

  \<open>fl\<close> rounds a rational to the nearest number with a 53-bit significand, ties to even: the
  IEEE 754 binary64 rounding for results that neither overflow nor fall below the normal range,
  which holds for every value computed here (percentages, scores and weights). An operation of
  the source is its exact rational result followed by \<open>fl\<close>; a decimal literal is \<open>fl\<close> of
  its decimal value. \<open>py_round_int\<close> is \<open>round(x)\<close>, \<open>py_round n\<close> is \<open>round(x, n)\<close>: the decimal
  rounding is exact, ties to even, and the result is the double nearest the decimal.
  \<open>py_fsum\<close> is the built-in \<open>sum\<close> over floats, which since Python 3.12 carries a
  Neumaier compensation term.
\<close>

section \<open>Rounding to an integer, ties to even\<close>

definition rhe :: "rat \<Rightarrow> int" where
  "rhe x = (let f = \<lfloor>x\<rfloor>; d = x - of_int f
            in if d < 1 / 2 then f else if 1 / 2 < d then f + 1 else if even f then f else f + 1)"

lemma rhe_of_int [simp]: "rhe (of_int n) = n"
  by (simp add: rhe_def)

lemma rhe_0 [simp]: "rhe 0 = 0"
  using rhe_of_int [of 0] by simp

lemma rhe_ge: "of_int n \<le> x \<Longrightarrow> n \<le> rhe x"
proof -
  assume "of_int n \<le> x"
  then have "n \<le> \<lfloor>x\<rfloor>" by (simp add: le_floor_iff)
  then show ?thesis by (auto simp: rhe_def Let_def)
qed

lemma rhe_bounds: "\<lfloor>x\<rfloor> \<le> rhe x" "rhe x \<le> \<lfloor>x\<rfloor> + 1"
  by (auto simp: rhe_def Let_def)

lemma rhe_le: "x \<le> of_int n \<Longrightarrow> rhe x \<le> n"
proof -
  assume le: "x \<le> of_int n"
  show ?thesis
  proof (cases "x = of_int n")
    case False
    with le have "x < of_int n" by simp
    then have "\<lfloor>x\<rfloor> + 1 \<le> n" using floor_less_iff [of x n] by simp
    with rhe_bounds(2) [of x] show ?thesis by simp
  qed simp
qed

lemma rhe_mono: "x \<le> y \<Longrightarrow> rhe x \<le> rhe y"
proof -
  assume le: "x \<le> y"
  show ?thesis
  proof (cases "\<lfloor>x\<rfloor> = \<lfloor>y\<rfloor>")
    case True
    with le show ?thesis by (auto simp: rhe_def Let_def)
  next
    case False
    with floor_mono [OF le] have "\<lfloor>x\<rfloor> + 1 \<le> \<lfloor>y\<rfloor>" by simp
    with rhe_bounds [of x] rhe_bounds [of y] show ?thesis by linarith
  qed
qed

lemma rhe_close: "\<bar>of_int (rhe x) - x\<bar> \<le> 1 / 2"
proof -
  define f where "f = \<lfloor>x\<rfloor>"
  have "of_int f \<le> x" "x < of_int f + 1"
    using floor_correct [of x] by (simp_all add: f_def)
  moreover have "rhe x = (if x - of_int f < 1 / 2 then f
      else if 1 / 2 < x - of_int f then f + 1 else if even f then f else f + 1)"
    by (simp add: rhe_def Let_def f_def)
  ultimately show ?thesis by (auto simp: abs_le_iff field_simps)
qed

section \<open>Rounding to a double\<close>

definition pow2 :: "int \<Rightarrow> rat" where
  "pow2 e = (if 0 \<le> e then 2 ^ nat e else 1 / 2 ^ nat (- e))"

lemma pow2_powi: "pow2 e = 2 powi e"
  by (simp add: pow2_def power_int_def field_simps power_inverse)

lemma pow2_pos [simp]: "0 < pow2 e"
  by (simp add: pow2_def)

lemma pow2_mono: "a \<le> b \<Longrightarrow> pow2 a \<le> pow2 b"
  by (simp add: pow2_powi power_int_increasing)

lemma pow2_52: "pow2 52 = 4503599627370496" and pow2_53: "pow2 53 = 9007199254740992"
  by (simp_all add: pow2_def)

lemma pow2_add: "pow2 (a + b) = pow2 a * pow2 b"
  by (simp add: pow2_powi power_int_add)

text \<open>The exponent of the binade of a positive rational: the largest \<open>e\<close> with \<open>2^e \<le> x\<close>.\<close>

definition binade :: "rat \<Rightarrow> int" where
  "binade x = (case quotient_of x of (p, q) \<Rightarrow>
     (let e = int (floorlog 2 (nat p)) - int (floorlog 2 (nat q))
      in if pow2 e \<le> x then e else e - 1))"

lemma pow2_floorlog:
  assumes "0 < p"
  shows "pow2 (int (floorlog 2 (nat p)) - 1) \<le> of_int p"
    and "of_int p < pow2 (int (floorlog 2 (nat p)))"
proof -
  define n k where "n = nat p" and "k = floorlog 2 n"
  have n: "0 < n" "p = int n" using assms by (simp_all add: n_def)
  from n have k: "0 < k" using floorlog_eq_zero_iff [of 2 n] by (simp add: k_def)
  then obtain j where j: "k = Suc j" by (cases k) auto
  from floorlog_bounds [of n 2] n have lo: "2 ^ j \<le> n" and hi: "n < 2 ^ k"
    by (simp_all add: k_def [symmetric] j)
  have lo': "(2::rat) ^ j \<le> of_nat n" using lo by (metis of_nat_le_iff of_nat_numeral of_nat_power)
  have hi': "of_nat n < (2::rat) ^ k" using hi by (metis of_nat_less_iff of_nat_numeral of_nat_power)
  show "pow2 (int (floorlog 2 (nat p)) - 1) \<le> of_int p"
    using lo' j n(2) by (simp add: pow2_def flip: n_def k_def)
  show "of_int p < pow2 (int (floorlog 2 (nat p)))"
    using hi' n(2) by (simp add: pow2_def flip: n_def k_def)
qed

lemma binade_bounds:
  assumes "0 < x"
  shows "pow2 (binade x) \<le> x" and "x < pow2 (binade x + 1)"
proof -
  obtain p q where pq: "quotient_of x = (p, q)" by (cases "quotient_of x")
  then have x: "x = of_int p / of_int q" and q: "0 < q"
    by (simp_all add: quotient_of_div quotient_of_denom_pos)
  with assms have p: "0 < p" by (simp add: zero_less_divide_iff)
  define a b where "a = int (floorlog 2 (nat p))" and "b = int (floorlog 2 (nat q))"
  note P = pow2_floorlog [OF p, folded a_def] and Q = pow2_floorlog [OF q, folded b_def]
  have split: "pow2 (a - b - 1) = pow2 (a - 1) / pow2 b" "pow2 (a - b + 1) = pow2 a / pow2 (b - 1)"
    by (simp_all add: pow2_powi power_int_diff power_int_add)
  have "pow2 (a - b - 1) \<le> x"
    unfolding x split using P Q p q by (intro frac_le) (simp_all add: less_imp_le)
  moreover have "x < pow2 (a - b + 1)"
    unfolding x split using P Q p q by (intro frac_less) (simp_all add: less_imp_le)
  moreover have "binade x = (if pow2 (a - b) \<le> x then a - b else a - b - 1)"
    by (simp add: binade_def pq a_def b_def Let_def)
  ultimately show "pow2 (binade x) \<le> x" and "x < pow2 (binade x + 1)" by auto
qed

lemma binade_unique: "pow2 e \<le> x \<Longrightarrow> x < pow2 (e + 1) \<Longrightarrow> binade x = e"
proof -
  assume lo: "pow2 e \<le> x" and hi: "x < pow2 (e + 1)"
  have x: "0 < x" using lo pow2_pos [of e] by linarith
  show ?thesis
  proof (rule ccontr)
    assume "binade x \<noteq> e"
    then consider "binade x + 1 \<le> e" | "e + 1 \<le> binade x" by linarith
    then show False
      using binade_bounds [OF x] lo hi pow2_mono by cases (meson leD le_less_trans order_trans)+
  qed
qed

definition flpos :: "rat \<Rightarrow> rat" where
  "flpos x = (let u = pow2 (binade x - 52) in of_int (rhe (x / u)) * u)"

definition fl :: "rat \<Rightarrow> rat" where
  "fl x = (if x = 0 then 0 else if 0 < x then flpos x else - flpos (- x))"

lemma flpos_bounds:
  assumes "0 < x"
  shows "pow2 (binade x) \<le> flpos x" and "flpos x \<le> pow2 (binade x + 1)"
proof -
  define e where "e = binade x"
  note b = binade_bounds [OF assms, folded e_def]
  have split: "pow2 e = of_int (2 ^ 52) * pow2 (e - 52)"
      "pow2 (e + 1) = of_int (2 ^ 53) * pow2 (e - 52)"
    using pow2_add [of 52 "e - 52"] pow2_add [of 53 "e - 52"]
    by (simp_all add: pow2_52 pow2_53 algebra_simps)
  have "of_int (2 ^ 52) \<le> x / pow2 (e - 52)" "x / pow2 (e - 52) \<le> of_int (2 ^ 53)"
    using b by (simp_all only: pos_le_divide_eq pos_divide_le_eq pow2_pos split less_imp_le)
  then have "2 ^ 52 \<le> rhe (x / pow2 (e - 52))" "rhe (x / pow2 (e - 52)) \<le> 2 ^ 53"
    using rhe_ge rhe_le by blast+
  then have "(of_int (2 ^ 52) :: rat) \<le> of_int (rhe (x / pow2 (e - 52)))"
      "of_int (rhe (x / pow2 (e - 52))) \<le> (of_int (2 ^ 53) :: rat)"
    by (simp_all only: of_int_le_iff)
  then show "pow2 (binade x) \<le> flpos x" and "flpos x \<le> pow2 (binade x + 1)"
    by (simp_all only: flpos_def Let_def e_def [symmetric] split
        mult_le_cancel_right_pos pow2_pos)
qed

lemma flpos_mono:
  assumes "0 < x" "x \<le> y"
  shows "flpos x \<le> flpos y"
proof (cases "binade x = binade y")
  case True
  have "rhe (x / pow2 (binade y - 52)) \<le> rhe (y / pow2 (binade y - 52))"
    using assms(2) by (intro rhe_mono divide_right_mono) (simp_all add: less_imp_le)
  with True show ?thesis
    by (simp add: flpos_def Let_def mult_le_cancel_right_pos)
next
  case False
  from assms have y: "0 < y" by simp
  have "pow2 (binade x) < pow2 (binade y + 1)"
    using binade_bounds [OF assms(1)] binade_bounds [OF y] assms(2) by linarith
  then have "\<not> binade y + 1 \<le> binade x" using pow2_mono by (meson leD)
  with False have "binade x + 1 \<le> binade y" by linarith
  from pow2_mono [OF this] flpos_bounds(2) [OF assms(1)] flpos_bounds(1) [OF y]
  show ?thesis by linarith
qed

lemma flpos_pos: "0 < x \<Longrightarrow> 0 < flpos x"
  using flpos_bounds(1) pow2_pos by (meson less_le_trans)

lemma fl_0 [simp]: "fl 0 = 0"
  by (simp add: fl_def)

lemma fl_minus: "fl (- x) = - fl x"
  by (simp add: fl_def)

lemma fl_pos: "0 < x \<Longrightarrow> 0 < fl x"
  by (simp add: fl_def flpos_pos)

lemma fl_nonneg: "0 \<le> x \<Longrightarrow> 0 \<le> fl x"
  using fl_pos [of x] by (cases "x = 0") auto

lemma fl_mono: "x \<le> y \<Longrightarrow> fl x \<le> fl y"
proof -
  assume le: "x \<le> y"
  consider "0 < x" | "x \<le> 0" "0 \<le> y" | "y < 0" using le by linarith
  then show ?thesis
  proof cases
    case 1
    with le flpos_mono [of x y] show ?thesis by (simp add: fl_def)
  next
    case 2
    then have "0 \<le> fl y" "0 \<le> fl (- x)" by (simp_all add: fl_nonneg)
    then show ?thesis by (simp add: fl_minus)
  next
    case 3
    with le flpos_mono [of "- y" "- x"] show ?thesis by (simp add: fl_def)
  qed
qed

text \<open>An integer of at most 53 bits is a double.\<close>

lemma flpos_of_int:
  assumes "0 < n" "n \<le> 2 ^ 53"
  shows "flpos (of_int n) = of_int n"
proof (cases "n = 2 ^ 53")
  case True
  have "binade (of_int n) = 53"
    by (rule binade_unique) (simp_all add: True pow2_def)
  then show ?thesis
    by (simp add: flpos_def Let_def True pow2_def) (simp add: rhe_def)
next
  case False
  define x :: rat where "x = of_int n"
  define e where "e = binade x"
  have x: "0 < x" using assms by (simp add: x_def)
  have "x < pow2 53" using assms False by (simp add: x_def pow2_def flip: of_int_less_iff)
  with binade_bounds(1) [OF x] have "pow2 e < pow2 53" by (simp add: e_def)
  then have "e \<le> 52" using pow2_mono [of 53 e] by linarith
  then have u: "pow2 (52 - e) = of_int (2 ^ nat (52 - e))" by (simp add: pow2_def)
  have inv: "x / pow2 (e - 52) = x * pow2 (52 - e)"
    by (simp add: pow2_powi power_int_diff field_simps)
  have one: "pow2 (52 - e) * pow2 (e - 52) = 1"
    using pow2_add [of "52 - e" "e - 52"] by (simp add: pow2_def)
  have "x / pow2 (e - 52) = of_int (n * 2 ^ nat (52 - e))"
    using inv u by (simp add: x_def)
  then have "flpos x = of_int (n * 2 ^ nat (52 - e)) * pow2 (e - 52)"
    by (simp only: flpos_def Let_def e_def [symmetric] rhe_of_int)
  also have "\<dots> = x * (pow2 (52 - e) * pow2 (e - 52))"
    by (simp only: u x_def of_int_mult mult.assoc)
  finally show ?thesis by (simp add: one x_def)
qed

lemma fl_of_int [simp]: "\<bar>n\<bar> \<le> 2 ^ 53 \<Longrightarrow> fl (of_int n) = of_int n"
  using flpos_of_int [of n] flpos_of_int [of "- n"]
  by (auto simp: fl_def abs_if split: if_splits)

section \<open>The operations of the source\<close>

definition fdiv :: "rat \<Rightarrow> rat \<Rightarrow> rat" where
  "fdiv x y = fl (x / y)"

definition fmul :: "rat \<Rightarrow> rat \<Rightarrow> rat" where
  "fmul x y = fl (x * y)"

definition fadd :: "rat \<Rightarrow> rat \<Rightarrow> rat" where
  "fadd x y = fl (x + y)"

definition fsub :: "rat \<Rightarrow> rat \<Rightarrow> rat" where
  "fsub x y = fl (x - y)"

definition py_round_int :: "rat \<Rightarrow> int" where
  "py_round_int x = rhe x"

definition py_round :: "nat \<Rightarrow> rat \<Rightarrow> rat" where
  "py_round n x = fl (of_int (rhe (x * 10 ^ n)) / 10 ^ n)"

text \<open>\<open>sum\<close> over floats: running total and compensation, the latter added at the end when it
  is not zero.\<close>

fun py_fsum_loop :: "rat \<Rightarrow> rat \<Rightarrow> rat list \<Rightarrow> rat" where
  "py_fsum_loop s c [] = (if c = 0 then s else fadd s c)"
| "py_fsum_loop s c (x # xs) =
     (let t = fadd s x;
          c' = fadd c (if \<bar>x\<bar> \<le> \<bar>s\<bar> then fadd (fsub s t) x else fadd (fsub x t) s)
      in py_fsum_loop t c' xs)"

definition py_fsum :: "rat list \<Rightarrow> rat" where
  "py_fsum xs = py_fsum_loop 0 0 xs"

lemma py_round_mono: "x \<le> y \<Longrightarrow> py_round n x \<le> py_round n y"
  unfolding py_round_def
  by (intro fl_mono divide_right_mono) (simp_all add: rhe_mono mult_right_mono)

lemma py_round_of_int:
  assumes "\<bar>k\<bar> \<le> 2 ^ 53"
  shows "py_round n (of_int k) = of_int k"
proof -
  have "(of_int k :: rat) * 10 ^ n = of_int (k * 10 ^ n)" by simp
  then have "rhe (of_int k * 10 ^ n) = k * 10 ^ n" by (simp only: rhe_of_int)
  with assms show ?thesis by (simp add: py_round_def)
qed

lemma py_round_bounds:
  assumes "of_int a \<le> x" "x \<le> of_int b" "\<bar>a\<bar> \<le> 2 ^ 53" "\<bar>b\<bar> \<le> 2 ^ 53"
  shows "of_int a \<le> py_round n x" and "py_round n x \<le> of_int b"
  using py_round_mono [OF assms(1), of n] py_round_mono [OF assms(2), of n] assms(3,4)
  by (simp_all add: py_round_of_int)

text \<open>A percentage \<open>round(100 * part / whole, 1)\<close> of a part of a whole lies in 0 to 100.\<close>

definition pct1 :: "nat \<Rightarrow> nat \<Rightarrow> rat" where
  "pct1 part whole = py_round 1 (fdiv (of_int (100 * int part)) (of_int (int whole)))"

lemma fdiv_pct_bounds:
  assumes "part \<le> whole" "0 < whole"
  shows "0 \<le> fdiv (of_int (100 * int part)) (of_int (int whole))"
    and "fdiv (of_int (100 * int part)) (of_int (int whole)) \<le> 100"
proof -
  have "of_int (100 * int part) / of_int (int whole) \<le> (of_int 100 :: rat)"
    using assms by (simp add: divide_le_eq)
  from fl_mono [OF this] show "fdiv (of_int (100 * int part)) (of_int (int whole)) \<le> 100"
    using fl_of_int [of 100] by (simp add: fdiv_def)
  show "0 \<le> fdiv (of_int (100 * int part)) (of_int (int whole))"
    by (simp add: fdiv_def fl_nonneg)
qed

lemma pct1_bounds:
  assumes "part \<le> whole" "0 < whole"
  shows "0 \<le> pct1 part whole" and "pct1 part whole \<le> 100"
  using py_round_bounds [of 0 "fdiv (of_int (100 * int part)) (of_int (int whole))" 100 1]
    fdiv_pct_bounds [OF assms] by (simp_all add: pct1_def)

lemma pct1_mono: "part \<le> part' \<Longrightarrow> pct1 part whole \<le> pct1 part' whole"
  unfolding pct1_def fdiv_def
  by (intro py_round_mono fl_mono divide_right_mono) simp_all

end
