(* ===== verification/Assertions.thy ===== *)
theory Assertions
  imports PyFloat
begin

text \<open>
  Machine-checkable assertions on a captured value: \<open>_coerce\<close> and \<open>evaluate_assertion\<close> of
  \<open>governance/control_tests.py\<close>, with the built-ins they use: \<open>float(s)\<close> on every string it
  accepts (decimal and exponent forms, underscores between digits, \<open>inf\<close> and \<open>nan\<close>), the
  comparison of floats, the equality of booleans with numbers, and \<open>str\<close> of a JSON value.
\<close>

section \<open>float(s)\<close>

datatype pyfloat = Fin rat | PInf | NInf | NaN

definition dbl :: "rat \<Rightarrow> pyfloat" where
  "dbl r =
     (let x = (if \<bar>r\<bar> < pow2 (- 1022) then of_int (rhe (r * pow2 1074)) / pow2 1074 else fl r)
      in if pow2 1024 \<le> x then PInf else if x \<le> - pow2 1024 then NInf else Fin x)"

definition split_first :: "char \<Rightarrow> string \<Rightarrow> string \<times> string option" where
  "split_first c s =
     (takeWhile (\<lambda>x. x \<noteq> c) s, if c \<in> set s then Some (tl (dropWhile (\<lambda>x. x \<noteq> c) s)) else None)"

definition digit_part :: "string \<Rightarrow> bool" where
  "digit_part s \<longleftrightarrow> s \<noteq> [] \<and> list_all (\<lambda>c. is_digit c \<or> c = CHR ''_'') s \<and> is_digit (hd s) \<and> is_digit (last s)
     \<and> \<not> is_substring ''__'' s"

definition digits_value :: "string \<Rightarrow> nat" where
  "digits_value s = nat_of_digits (remove_char CHR ''_'' s)"

definition split_sign :: "string \<Rightarrow> bool \<times> string" where
  "split_sign s =
     (case s of [] \<Rightarrow> (False, s)
      | c # t \<Rightarrow> if c = CHR ''-'' then (True, t) else if c = CHR ''+'' then (False, t) else (False, s))"

definition parse_exponent :: "string option \<Rightarrow> int option" where
  "parse_exponent e =
     (case e of
        None \<Rightarrow> Some 0
      | Some t \<Rightarrow> (case split_sign t of (neg, ds) \<Rightarrow>
          if digit_part ds then Some (if neg then - int (digits_value ds) else int (digits_value ds)) else None))"

definition parse_mantissa :: "string \<Rightarrow> rat option" where
  "parse_mantissa m =
     (case split_first CHR ''.'' m of
        (ip, None) \<Rightarrow> if digit_part ip then Some (of_nat (digits_value ip)) else None
      | (ip, Some fp) \<Rightarrow>
          if (ip = [] \<or> digit_part ip) \<and> (fp = [] \<or> digit_part fp) \<and> \<not> (ip = [] \<and> fp = [])
          then Some (of_nat (digits_value (ip @ fp)) / 10 ^ length (remove_char CHR ''_'' fp)) else None)"

definition scale10 :: "rat \<Rightarrow> int \<Rightarrow> rat" where
  "scale10 m e = (if 0 \<le> e then m * 10 ^ nat e else m / 10 ^ nat (- e))"

definition parse_decimal :: "string \<Rightarrow> rat option" where
  "parse_decimal s =
     (case split_first CHR ''e'' s of (m, e) \<Rightarrow>
        (case (parse_mantissa m, parse_exponent e) of
           (Some x, Some n) \<Rightarrow> Some (scale10 x n)
         | _ \<Rightarrow> None))"

definition py_float :: "string \<Rightarrow> pyfloat option" where
  "py_float s =
     (case split_sign (lower (strip s)) of (neg, t) \<Rightarrow>
        if t = ''inf'' \<or> t = ''infinity'' then Some (if neg then NInf else PInf)
        else if t = ''nan'' then Some NaN
        else map_option (\<lambda>r. dbl (if neg then - r else r)) (parse_decimal t))"

section \<open>Comparisons\<close>

fun pf_le :: "pyfloat \<Rightarrow> pyfloat \<Rightarrow> bool" where
  "pf_le NaN y = False"
| "pf_le x NaN = False"
| "pf_le NInf y = True"
| "pf_le x PInf = True"
| "pf_le (Fin a) (Fin b) = (a \<le> b)"
| "pf_le x y = False"

definition pf_lt :: "pyfloat \<Rightarrow> pyfloat \<Rightarrow> bool" where
  "pf_lt x y \<longleftrightarrow> pf_le x y \<and> \<not> pf_le y x"

definition pf_eq :: "pyfloat \<Rightarrow> pyfloat \<Rightarrow> bool" where
  "pf_eq x y \<longleftrightarrow> pf_le x y \<and> pf_le y x"

datatype coerced = CBool bool | CNum pyfloat | CStr string

definition bool_num :: "bool \<Rightarrow> pyfloat" where
  "bool_num b = Fin (if b then 1 else 0)"

fun py_eq :: "coerced \<Rightarrow> coerced \<Rightarrow> bool" where
  "py_eq (CBool a) (CBool b) = (a = b)"
| "py_eq (CBool a) (CNum y) = pf_eq (bool_num a) y"
| "py_eq (CNum x) (CBool b) = pf_eq x (bool_num b)"
| "py_eq (CNum x) (CNum y) = pf_eq x y"
| "py_eq (CStr s) (CStr t) = (s = t)"
| "py_eq _ _ = False"

section \<open>str of a JSON value\<close>

fun json_repr :: "json \<Rightarrow> string" where
  "json_repr JNull = ''None''"
| "json_repr (JBool b) = (if b then ''True'' else ''False'')"
| "json_repr (JInt i) = str_of_int i"
| "json_repr (JStr s) = py_repr s"
| "json_repr (JList xs) = ''['' @ join_with '', '' (map json_repr xs) @ '']''"
| "json_repr (JObj kvs) =
     ''{'' @ join_with '', '' (map (\<lambda>kv. py_repr (fst kv) @ '': '' @ json_repr (snd kv)) kvs) @ ''}''"

definition py_str :: "json \<Rightarrow> string" where
  "py_str v = (case v of JStr s \<Rightarrow> s | _ \<Rightarrow> json_repr v)"

definition truthy :: "json \<Rightarrow> bool" where
  "truthy v = (case v of JNull \<Rightarrow> False | JBool b \<Rightarrow> b | JInt i \<Rightarrow> i \<noteq> 0 | JStr s \<Rightarrow> s \<noteq> []
     | JList xs \<Rightarrow> xs \<noteq> [] | JObj kvs \<Rightarrow> kvs \<noteq> [])"

section \<open>Assertions\<close>

definition TRUE_WORDS :: "string list" where [vocab]:
  "TRUE_WORDS = [''true'', ''enabled'', ''yes'', ''on'']"

definition FALSE_WORDS :: "string list" where [vocab]:
  "FALSE_WORDS = [''false'', ''disabled'', ''no'', ''off'']"

definition coerce_value :: "string \<Rightarrow> coerced" where
  "coerce_value v =
     (let t = lower (strip v)
      in if t \<in> set TRUE_WORDS then CBool True
         else if t \<in> set FALSE_WORDS then CBool False
         else case py_float v of Some x \<Rightarrow> CNum x | None \<Rightarrow> CStr v)"

definition EQ_OPS :: "string list" where [vocab]: "EQ_OPS = [''equals'', ''eq'', ''=='']"
definition NE_OPS :: "string list" where [vocab]: "NE_OPS = [''not_equals'', ''ne'', ''!='']"
definition CMP_OPS :: "string list" where [vocab]: "CMP_OPS = [''gte'', ''gt'', ''lte'', ''lt'']"

definition compare_floats :: "string \<Rightarrow> pyfloat \<Rightarrow> pyfloat \<Rightarrow> bool" where
  "compare_floats op a e =
     (if op = ''gte'' then pf_le e a else if op = ''gt'' then pf_lt e a
      else if op = ''lte'' then pf_le a e else pf_lt a e)"

definition assertion_verdict :: "string \<Rightarrow> string \<Rightarrow> string \<Rightarrow> bool \<Rightarrow> bool \<times> string" where
  "assertion_verdict op captured expected_raw ok =
     (ok, fstr [''captured '', py_repr captured, '' '', if ok then ''meets'' else ''violates'', '' '', op, '' '',
                py_repr expected_raw])"

definition evaluate_assertion :: "(string \<times> json) list \<Rightarrow> string \<Rightarrow> bool \<times> string" where
  "evaluate_assertion assertion captured =
     (let op = lower (py_str (get_default assertion ''operator'' (JStr ''equals'')));
          expected_raw = py_str (get_default assertion ''value'' (JStr []));
          actual = coerce_value captured;
          expected = coerce_value expected_raw;
          verdict = assertion_verdict op captured expected_raw
      in if op \<in> set EQ_OPS then verdict (py_eq actual expected)
         else if op \<in> set NE_OPS then verdict (\<not> py_eq actual expected)
         else if op = ''contains'' then verdict (is_substring (lower expected_raw) (lower captured))
         else if op \<in> set CMP_OPS then
           (case (py_float captured, py_float expected_raw) of
              (Some a, Some e) \<Rightarrow> verdict (compare_floats op a e)
            | _ \<Rightarrow> (False, fstr [''non-numeric value '', py_repr captured, '' for operator '', op]))
         else (False, fstr [''unknown assertion operator: '', op]))"

section \<open>Properties\<close>

abbreviation assertion_op :: "(string \<times> json) list \<Rightarrow> string" where
  "assertion_op a \<equiv> lower (py_str (get_default a ''operator'' (JStr ''equals'')))"

abbreviation assertion_value :: "(string \<times> json) list \<Rightarrow> string" where
  "assertion_value a \<equiv> py_str (get_default a ''value'' (JStr []))"

lemma pf_le_nan [simp]: "pf_le x NaN = False"
  by (cases x) simp_all

lemma compare_floats_nan: "compare_floats op NaN e = False" "compare_floats op a NaN = False"
  unfolding compare_floats_def pf_lt_def by simp_all

text \<open>An assertion that cannot be evaluated never passes. When the check passes, the operator
  is one of the ten the code knows, and for an ordering operator both sides are numbers (neither
  is NaN) that stand in that order.\<close>

theorem assertion_pass_sound:
  assumes "fst (evaluate_assertion a captured)"
  shows "assertion_op a \<in> set (EQ_OPS @ NE_OPS @ [''contains''] @ CMP_OPS) \<and>
    (assertion_op a \<in> set CMP_OPS \<longrightarrow>
      (\<exists>x e. py_float captured = Some x \<and> py_float (assertion_value a) = Some e \<and> x \<noteq> NaN \<and> e \<noteq> NaN \<and>
         compare_floats (assertion_op a) x e))"
proof (cases "assertion_op a \<in> set CMP_OPS")
  case True
  then have not: "assertion_op a \<notin> set EQ_OPS" "assertion_op a \<notin> set NE_OPS" "assertion_op a \<noteq> ''contains''"
    by (auto simp: vocab)
  from assms obtain x e where xe: "py_float captured = Some x" "py_float (assertion_value a) = Some e"
    "compare_floats (assertion_op a) x e"
    using True not by (auto simp: evaluate_assertion_def Let_def assertion_verdict_def split: option.splits)
  then have "x \<noteq> NaN" "e \<noteq> NaN" using compare_floats_nan by metis+
  then show ?thesis using xe True by auto
next
  case False
  then show ?thesis using assms
    by (auto simp: evaluate_assertion_def Let_def assertion_verdict_def split: if_splits)
qed

theorem assertion_pass_sound_witness:
  "fst (evaluate_assertion [(''operator'', JStr ''EQ''), (''value'', JBool True)] '' Enabled '')
   \<and> ''eq'' \<in> set (EQ_OPS @ NE_OPS @ [''contains''] @ CMP_OPS)"
proof -
  let ?a = "[(''operator'', JStr ''EQ''), (''value'', JBool True)]"
  have op: "assertion_op ?a = ''eq''" "assertion_value ?a = ''True''" by code_simp+
  have c: "coerce_value '' Enabled '' = CBool True" "coerce_value ''True'' = CBool True"
    by (code_simp, code_simp)
  have ev: "fst (evaluate_assertion ?a '' Enabled '')"
    unfolding evaluate_assertion_def Let_def op c by (simp add: vocab assertion_verdict_def)
  from ev assertion_pass_sound [OF ev] show ?thesis unfolding op by blast
qed

end
