(* ===== verification/Remediation.thy ===== *)
theory Remediation
  imports Prelude
begin

text \<open>
  The remediation playbooks of \<open>posture/remediation.py\<close>: for a posture check, the actions, the
  evidence and the milestones a generated POA\&M plan lists.
\<close>

record remediation_playbook =
  pb_actions :: "string list"
  pb_evidence :: "string list"
  pb_milestones :: "string list"

definition playbook_m365_mfa_registered :: remediation_playbook where
  "playbook_m365_mfa_registered =
     \<lparr>pb_actions = [''Identify users without registered MFA methods from the failing-resource list.'',
       ''Require registration through Conditional Access or authentication-methods registration campaign.'',
       ''Confirm break-glass and service accounts have documented compensating controls or approved exclusions.''],
      pb_evidence = [''Graph authentication method registration report or equivalent export.'',
       ''Conditional Access/authentication methods policy export.'',
       ''Re-scan result showing all applicable users pass or approved waivers for exclusions.''],
      pb_milestones = [''Notify affected account owners and set registration deadline.'',
       ''Enable or update MFA registration enforcement.'',
       ''Re-run the automated M365 identity check and attach passing evidence.'']\<rparr>"

definition playbook_m365_legacy_auth_blocked :: remediation_playbook where
  "playbook_m365_legacy_auth_blocked =
     \<lparr>pb_actions = [''Review Conditional Access policies for legacy client app coverage.'',
       ''Create or enable a policy blocking Exchange ActiveSync and other legacy authentication clients.'',
       ''Monitor sign-in logs for blocked legacy-auth attempts and legitimate application impact.''],
      pb_evidence = [''Conditional Access policy export showing legacy clients blocked.'',
       ''Sign-in log sample showing policy enforcement.'',
       ''Passing re-scan result for the legacy-auth check.''],
      pb_milestones = []\<rparr>"

definition playbook_aws_root_mfa_enabled :: remediation_playbook where
  "playbook_aws_root_mfa_enabled =
     \<lparr>pb_actions = [''Sign in with the account root user through the approved emergency process.'',
       ''Register a hardware or virtual MFA device for the root user.'',
       ''Store root credentials and MFA recovery material according to privileged-access procedure.''],
      pb_evidence = [''IAM account summary or credential report showing root MFA enabled.'',
       ''Privileged-access procedure or access vault record.'',
       ''Passing re-scan result for root MFA.''],
      pb_milestones = []\<rparr>"

definition playbook_aws_multi_region_logging :: remediation_playbook where
  "playbook_aws_multi_region_logging =
     \<lparr>pb_actions = [''Create or update an organization/account CloudTrail trail to apply to all regions.'',
       ''Enable logging and confirm the trail writes to the approved protected destination.'',
       ''Review CloudTrail status for delivery errors.''],
      pb_evidence = [''CloudTrail trail configuration export showing multi-region logging enabled.'',
       ''Trail status showing IsLogging=true.'',
       ''Passing re-scan result for CloudTrail multi-region logging.''],
      pb_milestones = []\<rparr>"

definition PLAYBOOKS :: "(string \<times> remediation_playbook) list" where
  "PLAYBOOKS =
    [(''m365.identity.mfa_registered'', playbook_m365_mfa_registered),
     (''m365.policy.legacy_auth_blocked'', playbook_m365_legacy_auth_blocked),
     (''aws.iam.root_mfa_enabled'', playbook_aws_root_mfa_enabled),
     (''aws.cloudtrail.multi_region_logging'', playbook_aws_multi_region_logging)]"

definition playbook_for :: "string option \<Rightarrow> remediation_playbook option" where
  "playbook_for check_key =
     (case check_key of None \<Rightarrow> None | Some k \<Rightarrow> if k = [] then None else map_of PLAYBOOKS k)"

end
