(* ===== verification/Control_Tests.thy ===== *)
theory Control_Tests
  imports Bus Waivers Assertions Remediation
begin

text \<open>
  Control tests, \<open>governance/control_tests.py\<close>: which tests are due, how a connector-backed test
  is evaluated, the recording of one result with its consequences (\<open>record_result\<close>), and the
  scheduler's run (\<open>run_due\<close>).

  The operations pass the database explicitly and return \<open>Inl\<close> when an exception leaves them; a
  \<open>try\<close> around a savepoint returns the state before it. Every reading of the clock is
  \<open>en_now\<close>. A query that orders by a column and takes the first row takes the earliest inserted
  one among equals.
\<close>

section \<open>Due tests and connector state\<close>

definition FREQ_DAYS :: "(string \<times> int) list" where [vocab]:
  "FREQ_DAYS = [(''daily'', 1), (''weekly'', 7), (''monthly'', 30), (''quarterly'', 91), (''annual'', 365)]"

definition CONNECTOR_STALE_DAYS_DEFAULT :: int where
  "CONNECTOR_STALE_DAYS_DEFAULT = 30"

definition str_or_empty :: "string option \<Rightarrow> string" where
  "str_or_empty s = (case s of None \<Rightarrow> [] | Some x \<Rightarrow> x)"

definition str_or :: "string option \<Rightarrow> string \<Rightarrow> string" where
  "str_or s dflt = (case s of None \<Rightarrow> dflt | Some x \<Rightarrow> if x = [] then dflt else x)"

text \<open>A column that may be null, interpolated in an f-string.\<close>

definition opt_text :: "string option \<Rightarrow> string" where
  "opt_text s = (case s of None \<Rightarrow> ''None'' | Some x \<Rightarrow> x)"

definition latest_capture :: "db \<Rightarrow> control_test \<Rightarrow> capture_snapshot option res" where
  "latest_capture d t =
     (case map_of (case ct_assertion t of None \<Rightarrow> [] | Some a \<Rightarrow> a) ''odp_key'' of
        None \<Rightarrow> Inr None
      | Some v \<Rightarrow>
          if \<not> truthy v then Inr None
          else (case v of
             JStr odp_key \<Rightarrow>
               Inr (py_max_by cs_captured_at
                 (filter (\<lambda>c. Some (cs_connector c) = ct_connector_type t \<and> cs_odp_key c = odp_key \<and>
                    (ct_organization_id t = None \<or> cs_organization_id c = ct_organization_id t)) (captures d)))
           | _ \<Rightarrow> Inl (TypeError ''odp_key'')))"

definition is_due :: "control_test \<Rightarrow> date \<Rightarrow> bool" where
  "is_due t today =
     (if \<not> ct_active t then False
      else case map_of FREQ_DAYS (lower (str_or_empty (ct_frequency t))) of
        None \<Rightarrow> False
      | Some days \<Rightarrow> (case ct_last_tested_at t of None \<Rightarrow> True | Some ts \<Rightarrow> days \<le> today - dt_date ts))"

definition newest_sync :: "connector_config list \<Rightarrow> connector_config option" where
  "newest_sync cs =
     (case py_max_by (\<lambda>c. case cc_last_sync c of None \<Rightarrow> 0 | Some t \<Rightarrow> t)
             (filter (\<lambda>c. cc_last_sync c \<noteq> None) cs) of
        Some c \<Rightarrow> Some c
      | None \<Rightarrow> first_row cs)"

definition connector_for :: "db \<Rightarrow> control_test \<Rightarrow> connector_config option" where
  "connector_for d t =
     (case ct_connector_type t of
        None \<Rightarrow> None
      | Some ty \<Rightarrow>
          if ty = [] then None
          else newest_sync (filter (\<lambda>c. cc_connector_type c = ty \<and>
                 (ct_organization_id t = None \<or> cc_organization_id c = ct_organization_id t)) (connectors d)))"

definition scan_owned :: "control_test \<Rightarrow> bool" where
  "scan_owned t \<longleftrightarrow> ct_check_key t \<noteq> None \<and> ct_check_key t \<noteq> Some []"

definition connector_backing_state :: "connector_config option \<Rightarrow> date \<Rightarrow> int \<Rightarrow> string" where
  "connector_backing_state conn today stale_after_days =
     (case conn of
        None \<Rightarrow> ''missing''
      | Some c \<Rightarrow>
          (case cc_last_sync c of
             None \<Rightarrow> ''unsynced''
           | Some ts \<Rightarrow>
               if cc_status c \<noteq> ''configured'' then ''unsynced''
               else if stale_after_days < today - dt_date ts then ''stale''
               else if cc_objects_discovered c \<le> 0 then ''empty''
               else ''current''))"

section \<open>Whether an organization's capture is live\<close>

definition HOST_PROFILE_CONNECTOR :: string where [vocab]:
  "HOST_PROFILE_CONNECTOR = ''aws_govcloud''"

definition has_recent_capture :: "db \<Rightarrow> int \<Rightarrow> string \<Rightarrow> date \<Rightarrow> int \<Rightarrow> bool" where
  "has_recent_capture d org ty today stale_after_days =
     (case py_max_by cs_captured_at
             (filter (\<lambda>c. cs_organization_id c = Some org \<and> cs_connector c = ty) (captures d)) of
        None \<Rightarrow> False
      | Some c \<Rightarrow> today - dt_date (cs_captured_at c) \<le> stale_after_days)"

text \<open>\<open>resolve\<close> is \<open>connectors.credentials.resolve_credential\<close>: \<open>Inl\<close> when the stored credential
  cannot be read, \<open>Inr None\<close> when none is bound.\<close>

definition capture_identity_is_tenants_own ::
  "(int \<Rightarrow> string \<Rightarrow> (string \<times> string) list option res) \<Rightarrow> int \<Rightarrow> string \<Rightarrow> bool" where
  "capture_identity_is_tenants_own resolve org ty =
     (if ty \<noteq> HOST_PROFILE_CONNECTOR then True
      else case resolve org ty of
        Inl e \<Rightarrow> False
      | Inr None \<Rightarrow> True
      | Inr (Some cred) \<Rightarrow>
          if str_or_empty (map_of cred ''access_key_id'') \<noteq> [] \<and> str_or_empty (map_of cred ''secret_access_key'') \<noteq> []
          then True
          else str_or_empty (map_of cred ''profile'') = [])"

definition organization_capture_is_live ::
  "(int \<Rightarrow> string \<Rightarrow> (string \<times> string) list option res) \<Rightarrow> db \<Rightarrow> int option \<Rightarrow> string option \<Rightarrow> date \<Rightarrow> int \<Rightarrow> bool" where
  "organization_capture_is_live resolve d org ty today stale_after_days =
     (case (org, ty) of
        (Some i, Some k) \<Rightarrow>
          if k = [] then False
          else let conn = newest_sync (filter (\<lambda>c. cc_organization_id c = Some i \<and> cc_connector_type c = k) (connectors d))
               in if connector_backing_state conn today stale_after_days \<noteq> ''current'' then False
                  else if \<not> has_recent_capture d i k today stale_after_days then False
                  else capture_identity_is_tenants_own resolve i k
      | _ \<Rightarrow> False)"

section \<open>Evaluation\<close>

definition eval_connector :: "control_test \<Rightarrow> connector_config option \<Rightarrow> date \<Rightarrow> string \<times> string" where
  "eval_connector t conn today =
     (let days = get_default FREQ_DAYS (lower (str_or_empty (ct_frequency t))) CONNECTOR_STALE_DAYS_DEFAULT;
          state = connector_backing_state conn today days
      in case conn of
           None \<Rightarrow> (''warn'', fstr [''No '', opt_text (ct_connector_type t), '' connector registered to collect evidence.''])
         | Some c \<Rightarrow>
             (case cc_last_sync c of
                None \<Rightarrow> (''warn'', fstr [''Connector '', CHR 0x27 # cc_name c, CHR 0x27 # '' has not completed a successful sync.''])
              | Some ts \<Rightarrow>
                  if state = ''unsynced'' then
                    (''warn'', fstr [''Connector '', CHR 0x27 # cc_name c, CHR 0x27 # '' has not completed a successful sync.''])
                  else if state = ''stale'' then
                    (''warn'', fstr [''Connector '', CHR 0x27 # cc_name c, CHR 0x27 # '' last synced '', date_str (dt_date ts),
                                    '' '', em_dash, '' stale.''])
                  else if state = ''empty'' then
                    (''fail'', fstr [''Connector '', CHR 0x27 # cc_name c, CHR 0x27 # '' synced but discovered no configuration objects.''])
                  else
                    (''pass'', fstr [''Connector '', CHR 0x27 # cc_name c, CHR 0x27 # '' current ('', str_of_int (cc_objects_discovered c),
                                    '' objects, synced '', date_str (dt_date ts), '').''])))"

definition evaluate_test :: "db \<Rightarrow> control_test \<Rightarrow> date \<Rightarrow> (string \<times> string \<times> string option) res" where
  "evaluate_test d t today =
     (if scan_owned t then
        Inr (str_or (ct_last_status t) ''warn'',
             fstr [''Assessed by posture scan '', CHR 0x27 # str_or_empty (ct_check_key t), CHR 0x27 # '', not by connector freshness '',
                   em_dash, '' re-run a scan to refresh this result.''], None)
      else case (ct_assertion t, map_of (case ct_assertion t of None \<Rightarrow> [] | Some a \<Rightarrow> a) ''odp_key'') of
        (Some a, Some v) \<Rightarrow>
          if truthy v then
            rbind (latest_capture d t) (\<lambda>snap.
              case snap of
                None \<Rightarrow> Inr (''warn'', fstr [''No captured value for '', CHR 0x27 # py_str v, CHR 0x27 # '' from '',
                     opt_text (ct_connector_type t), '' yet '', em_dash, '' run collection first.''], None)
              | Some s \<Rightarrow>
                  (case evaluate_assertion a (cs_value s) of (ok, detail) \<Rightarrow>
                     Inr (if ok then ''pass'' else ''fail'', detail,
                          Some (fstr [cs_connector s, '':'', cs_odp_key s, ''@'', date_str (dt_date (cs_captured_at s))]))))
          else (let conn = connector_for d t
                in case eval_connector t conn today of (status, detail) \<Rightarrow> Inr (status, detail, map_option cc_name conn))
      | _ \<Rightarrow> (let conn = connector_for d t
              in case eval_connector t conn today of (status, detail) \<Rightarrow> Inr (status, detail, map_option cc_name conn)))"

section \<open>Consequences of a failure\<close>

definition GENERATED_PLAN :: string where [vocab]:
  "GENERATED_PLAN = ''generated''"

definition newline :: string where
  "newline = [CHR 0x0A]"

definition playbook_lines :: "remediation_playbook \<Rightarrow> string list" where
  "playbook_lines p =
     [''Recommended actions:''] @ map (\<lambda>a. fstr [''- '', a]) (pb_actions p) @
     (if pb_milestones p = [] then [] else ''Suggested milestones:'' # map (\<lambda>m. fstr [''- '', m]) (pb_milestones p)) @
     [''Validation evidence:''] @ map (\<lambda>e. fstr [''- '', e]) (pb_evidence p)"

definition default_plan_lines :: "string \<Rightarrow> string list" where
  "default_plan_lines provider =
     [fstr [''Recommended actions: review the failing resources from the latest '', provider,
            '' scan, correct the provider configuration or resource assignment, and re-run the automated control check.''],
      ''Validation evidence: attach the passing scan result, affected resource identifiers, and any provider policy/configuration export used to prove the corrected state.'']"

definition remediation_guidance :: "control_test \<Rightarrow> string \<Rightarrow> string" where
  "remediation_guidance t detail =
     (let expected = str_or (ct_expected t) ''the expected control state'';
          provider = str_or (ct_connector_type t) ''the applicable provider''
      in join_with newline (
           [fstr [''Remediation objective: bring '', ct_control_id t, '' into alignment so '', expected, ''.'']] @
           (if scan_owned t then [fstr [''Automated check: '', str_or_empty (ct_check_key t), ''.'']] else []) @
           [fstr [''Observed condition: '', detail]] @
           (case playbook_for (ct_check_key t) of
              None \<Rightarrow> default_plan_lines provider
            | Some p \<Rightarrow> playbook_lines p) @
           [''SSP impact: update the implementation statement and evidence references for this control if the remediation changes responsibility, implementation status, or inherited/provider-managed coverage.'']))"

definition poam_ref :: "control_test \<Rightarrow> string" where
  "poam_ref t = fstr [''control_test:'', str_of_int (ct_id t)]"

definition open_poam_for :: "control_test \<Rightarrow> poam \<Rightarrow> bool" where
  "open_poam_for t p \<longleftrightarrow> Some (po_system_id p) = ct_system_id t \<and> po_source p = Some ''control_test'' \<and>
     po_source_ref p = Some (poam_ref t) \<and> po_status p \<in> set POAM_ACTIVE_STATUSES"

definition refresh_poam :: "string \<Rightarrow> string \<Rightarrow> poam \<Rightarrow> poam" where
  "refresh_poam weakness guidance p =
     (let p' = p\<lparr>po_weakness := Some weakness\<rparr>
      in if po_remediation_plan_source p = GENERATED_PLAN then p'\<lparr>po_remediation_plan := Some guidance\<rparr>
         else if str_or_empty (po_remediation_plan p) = []
         then p'\<lparr>po_remediation_plan := Some guidance, po_remediation_plan_source := GENERATED_PLAN\<rparr>
         else p')"

definition ensure_poam_for_control_test ::
  "env \<Rightarrow> db \<Rightarrow> control_test \<Rightarrow> string \<Rightarrow> (db \<times> poam option \<times> bool) res" where
  "ensure_poam_for_control_test E d t detail =
     (case ct_system_id t of
        None \<Rightarrow> Inr (d, None, False)
      | Some sys \<Rightarrow>
          (let weakness = fstr [''Automated control test '', CHR 0x27 # ct_name t, CHR 0x27 # '' ('', ct_control_id t, '') failed: '', detail];
               guidance = remediation_guidance t detail
           in rbind (one_or_none (filter (open_poam_for t) (poams d))) (\<lambda>existing.
                case existing of
                  Some p \<Rightarrow>
                    Inr (d\<lparr>poams := update_rows (open_poam_for t) (refresh_poam weakness guidance) (poams d)\<rparr>,
                         Some (refresh_poam weakness guidance p), False)
                | None \<Rightarrow>
                    rbind (one_or_none (filter (\<lambda>c. ctl_identifier c = ct_control_id t) (controls d))) (\<lambda>ctl.
                      let today = dt_date (en_now E); due = today + 30;
                          p = \<lparr>po_id = next_id d, po_system_id = sys, po_control_id = map_option ctl_id ctl,
                               po_title = fstr [''Control test failed: '', ct_name t, '' ('', ct_control_id t, '')''],
                               po_weakness = Some weakness, po_severity = ''high'', po_status = ''open'',
                               po_identified_on = Some today, po_due_on = Some due, po_closed_on = None,
                               po_source = Some ''control_test'', po_remediation_plan = Some guidance,
                               po_remediation_plan_source = GENERATED_PLAN, po_original_due_on = Some due,
                               po_source_ref = Some (poam_ref t),
                               po_milestones = [\<lparr>pm_description = fstr [''Remediate '', ct_control_id t], pm_due_on = Some due,
                                  pm_status = ''pending'', pm_sort_order = 0, pm_id = next_id d, pm_completed_on = None\<rparr>],
                               po_owner_user_id = None, po_acceptance_rationale = None\<rparr>
                      in Inr (d\<lparr>poams := poams d @ [p], next_id := next_id d + 1\<rparr>, Some p, True)))))"

definition upsert_poam :: "env \<Rightarrow> db \<Rightarrow> control_test \<Rightarrow> string \<Rightarrow> (db \<times> bool) res" where
  "upsert_poam E d t detail =
     rbind (ensure_poam_for_control_test E d t detail) (\<lambda>(d', p, created). Inr (d', p \<noteq> None \<and> created))"

definition alert_key :: "control_test \<Rightarrow> string" where
  "alert_key t = fstr [''ctltest:'', str_of_int (ct_id t)]"

definition fix_key :: "control_test \<Rightarrow> string" where
  "fix_key t = fstr [''ctltest-fix:'', str_of_int (ct_id t)]"

definition alert_notice :: "control_test \<Rightarrow> string \<Rightarrow> string \<Rightarrow> notice" where
  "alert_notice t status detail =
     \<lparr>nc_category = ''conmon'', nc_title = fstr [''Control test '', status, '': '', ct_name t, '' ('', ct_control_id t, '')''],
      nc_org_id = ct_organization_id t, nc_user_id = None,
      nc_severity = (if status = ''fail'' then ''critical'' else ''warning''), nc_body = Some detail,
      nc_entity_type = Some ''control_test'', nc_entity_id = Some (str_of_int (ct_id t)),
      nc_dedupe_key = Some (alert_key t)\<rparr>"

definition fix_task :: "int \<Rightarrow> control_test \<Rightarrow> string \<Rightarrow> task" where
  "fix_task i t detail =
     \<lparr>tk_id = i, tk_organization_id = ct_organization_id t, tk_system_id = ct_system_id t,
      tk_title = fstr [''Remediate failed control test: '', ct_name t], tk_description = Some detail,
      tk_kind = ''remediation'', tk_priority = ''high'', tk_status = ''open'', tk_source = ''auto'',
      tk_entity_type = Some ''control_test'', tk_entity_id = Some (str_of_int (ct_id t)),
      tk_dedupe_key = Some (fix_key t), tk_closed_at = None, tk_due_on = None\<rparr>"

definition alert_on_failure :: "env \<Rightarrow> db \<Rightarrow> control_test \<Rightarrow> string \<Rightarrow> string \<Rightarrow> db res" where
  "alert_on_failure E d t status detail =
     rbind (notify E (alert_notice t status detail) d) (\<lambda>d1.
       if status \<noteq> ''fail'' then Inr d1
       else rbind (one_or_none (filter (\<lambda>k. tk_dedupe_key k = Some (fix_key t)) (tasks d1))) (\<lambda>ex.
         let d2 = (case ex of
                     None \<Rightarrow> d1\<lparr>tasks := tasks d1 @ [fix_task (next_id d1) t detail], next_id := next_id d1 + 1\<rparr>
                   | Some k \<Rightarrow> d1)
         in rbind (upsert_poam E d2 t detail) (\<lambda>(d3, _). Inr d3)))"

section \<open>Recovery\<close>

definition recovery_note :: "env \<Rightarrow> control_test \<Rightarrow> int \<Rightarrow> string" where
  "recovery_note E t result_id =
     fstr [''Control test '', CHR 0x27 # ct_name t, CHR 0x27 # '' now passes as of '', isoformat (en_now E),
           '' (result #'', str_of_int result_id, '') -- review for closure.'']"

definition append_note :: "string \<Rightarrow> poam \<Rightarrow> poam" where
  "append_note note p =
     p\<lparr>po_remediation_plan := Some (case po_remediation_plan p of
         None \<Rightarrow> note | Some r \<Rightarrow> if r = [] then note else fstr [r, newline, note])\<rparr>"

definition recovery_notice :: "env \<Rightarrow> control_test \<Rightarrow> int \<Rightarrow> poam \<Rightarrow> notice" where
  "recovery_notice E t result_id p =
     \<lparr>nc_category = ''conmon'', nc_title = fstr [''Control test recovered: '', ct_name t, '' ('', ct_control_id t, '')''],
      nc_org_id = ct_organization_id t, nc_user_id = None, nc_severity = ''info'',
      nc_body = Some (recovery_note E t result_id), nc_entity_type = Some ''poam'',
      nc_entity_id = Some (str_of_int (po_id p)),
      nc_dedupe_key = Some (fstr [''poam-recovery:'', str_of_int (po_id p)])\<rparr>"

definition recovery_body :: "env \<Rightarrow> db \<Rightarrow> control_test \<Rightarrow> int \<Rightarrow> db res" where
  "recovery_body E d t result_id =
     rbind (one_or_none (filter (\<lambda>k. tk_dedupe_key k = Some (fix_key t)) (tasks d))) (\<lambda>tk.
       let d1 = d\<lparr>tasks := update_rows (\<lambda>k. tk_dedupe_key k = Some (fix_key t) \<and> tk_status k = ''open'')
                    (\<lambda>k. k\<lparr>tk_status := ''done'', tk_closed_at := Some (en_now E)\<rparr>) (tasks d)\<rparr>
       in if ct_system_id t = None then Inr d1
          else rbind (one_or_none (filter (open_poam_for t) (poams d1))) (\<lambda>po.
            case po of
              None \<Rightarrow> Inr d1
            | Some p \<Rightarrow>
                notify E (recovery_notice E t result_id p)
                  (d1\<lparr>poams := update_rows (open_poam_for t) (append_note (recovery_note E t result_id)) (poams d1)\<rparr>)))"

definition resolve_on_recovery :: "env \<Rightarrow> db \<Rightarrow> control_test \<Rightarrow> int \<Rightarrow> db" where
  "resolve_on_recovery E d t result_id = (case recovery_body E d t result_id of Inl e \<Rightarrow> d | Inr d' \<Rightarrow> d')"

section \<open>Recording a result\<close>

record result_args =
  ra_status :: string
  ra_detail :: "string option"
  ra_evidence_ref :: "string option"
  ra_actor :: string
  ra_evaluated :: nat
  ra_failing :: nat
  ra_expected :: "string option"
  ra_resources :: "resource_finding list"
  ra_open_remediation :: bool

definition result_row :: "env \<Rightarrow> db \<Rightarrow> control_test \<Rightarrow> result_args \<Rightarrow> control_test_result" where
  "result_row E d t a =
     \<lparr>cr_id = next_id d, cr_control_test_id = ct_id t, cr_run_at = en_now E, cr_status = ra_status a,
      cr_detail = ra_detail a, cr_evidence_ref = ra_evidence_ref a, cr_evaluated = ra_evaluated a,
      cr_failing = ra_failing a, cr_waived = 0, cr_expected = ra_expected a\<rparr>"

fun resource_rows :: "int \<Rightarrow> int \<Rightarrow> resource_finding list \<Rightarrow> resource_result list" where
  "resource_rows i rid [] = []"
| "resource_rows i rid (f # fs) =
     \<lparr>rr_id = i, rr_result_id = rid, rr_resource_id = take 512 (rf_resource_id f),
      rr_resource_type = take 64 (rf_resource_type f), rr_verdict = rf_verdict f,
      rr_observed = Some (rf_observed f), rr_waiver_id = None, rr_detail = rf_detail f\<rparr>
     # resource_rows (i + 1) rid fs"

definition record_evidence :: "env \<Rightarrow> db \<Rightarrow> control_test \<Rightarrow> result_args \<Rightarrow> db" where
  "record_evidence E d t a =
     d\<lparr>results := results d @ [result_row E d t a],
       tests := update_rows (\<lambda>r. ct_id r = ct_id t)
         (\<lambda>r. r\<lparr>ct_last_status := Some (ra_status a), ct_last_tested_at := Some (en_now E)\<rparr>) (tests d),
       resource_results := resource_results d @ resource_rows (next_id d + 1) (next_id d) (ra_resources a),
       next_id := next_id d + 1 + int (length (ra_resources a))\<rparr>"

definition mark_waived :: "coverage \<Rightarrow> resource_result \<Rightarrow> resource_finding \<Rightarrow> resource_result" where
  "mark_waived cv row f =
     (case map_of (cv_by_resource cv) (rf_resource_id f) of None \<Rightarrow> row | Some w \<Rightarrow> row\<lparr>rr_waiver_id := Some w\<rparr>)"

definition apply_waivers ::
  "env \<Rightarrow> db \<Rightarrow> control_test \<Rightarrow> result_args \<Rightarrow> db \<times> coverage option" where
  "apply_waivers E d t a =
     (let d1 = record_evidence E d t a
      in if ra_status a \<notin> {''fail'', ''warn''} then (d1, None)
         else case waivers_for_test d1 t of
           Inl e \<Rightarrow> (d1, None)
         | Inr candidates \<Rightarrow>
             if candidates = [] then (d1, None)
             else let cv = cover (ra_resources a) candidates (dt_date (en_now E))
                  in (d1\<lparr>results := update_rows (\<lambda>r. cr_id r = next_id d) (\<lambda>r. r\<lparr>cr_waived := cv_waived cv\<rparr>) (results d1),
                         resource_results := resource_results d @
                           map2 (mark_waived cv) (resource_rows (next_id d + 1) (next_id d) (ra_resources a)) (ra_resources a)\<rparr>,
                      Some cv))"

definition consequences :: "env \<Rightarrow> db \<Rightarrow> control_test \<Rightarrow> result_args \<Rightarrow> int \<Rightarrow> coverage option \<Rightarrow> db res" where
  "consequences E d t a result_id cov =
     (if ra_status a \<in> {''fail'', ''warn''} then
        (if \<not> ra_open_remediation a then Inr d
         else if (case cov of None \<Rightarrow> True | Some cv \<Rightarrow> \<not> cv_suppress cv)
         then alert_on_failure E d t (ra_status a) (str_or_empty (ra_detail a))
         else Inr d)
      else if ra_status a = ''pass'' \<and> ct_last_status t \<noteq> Some ''pass'' then Inr (resolve_on_recovery E d t result_id)
      else Inr d)"

definition record_result :: "env \<Rightarrow> db \<Rightarrow> control_test \<Rightarrow> result_args \<Rightarrow> db res" where
  "record_result E d t a =
     (if ra_status a \<notin> set VALIDATION_STATUSES
      then Inl (ValueError (fstr [''status must be one of ('', join_with '', '' (map py_repr VALIDATION_STATUSES), '')'']))
      else case apply_waivers E d t a of (d1, cov) \<Rightarrow>
        rbind (consequences E d1 t a (next_id d) cov) (\<lambda>d2.
          Inr (fst (emit E d2 ''tested'' ''control_test'' (fstr [''Control test '', ra_status a, '': '', ct_control_id t])
                 (ct_organization_id t) (Some (ra_actor a)) (Some (str_of_int (ct_id t))) [] True))))"

section \<open>The scheduler's run\<close>

definition due_candidates :: "db \<Rightarrow> int option \<Rightarrow> control_test list" where
  "due_candidates d org =
     filter (\<lambda>t. ct_active t \<and> ct_method t = ''connector'' \<and> ct_source t \<noteq> ''generated'' \<and>
               (org = None \<or> ct_organization_id t = org)) (tests d)"

definition scheduler_args :: "string \<Rightarrow> string \<Rightarrow> string option \<Rightarrow> result_args" where
  "scheduler_args status detail ref =
     \<lparr>ra_status = status, ra_detail = Some detail, ra_evidence_ref = ref, ra_actor = ''scheduler'', ra_evaluated = 0,
      ra_failing = 0, ra_expected = None, ra_resources = [], ra_open_remediation = True\<rparr>"

definition bump :: "string \<Rightarrow> (string \<times> nat) list \<Rightarrow> (string \<times> nat) list res" where
  "bump k counts = rbind (dict_item counts k) (\<lambda>n. Inr (AList.update k (n + 1) counts))"

definition run_test ::
  "env \<Rightarrow> date \<Rightarrow> control_test \<Rightarrow> db \<times> (string \<times> nat) list \<Rightarrow> (db \<times> (string \<times> nat) list) res" where
  "run_test E today t st =
     (case st of (d, counts) \<Rightarrow>
        if \<not> is_due t today then Inr st
        else rbind (evaluate_test d t today) (\<lambda>(status, detail, ref).
               rbind (record_result E d t (scheduler_args status detail ref)) (\<lambda>d'.
                 rbind (bump ''evaluated'' counts) (\<lambda>c1.
                   rbind (bump status c1) (\<lambda>c2. Inr (d', c2))))))"

definition ZERO_COUNTS :: "(string \<times> nat) list" where
  "ZERO_COUNTS = [(''evaluated'', 0), (''pass'', 0), (''warn'', 0), (''fail'', 0)]"

definition run_due :: "env \<Rightarrow> db \<Rightarrow> date \<Rightarrow> int option \<Rightarrow> (db \<times> (string \<times> nat) list) res" where
  "run_due E d today org =
     foldl (\<lambda>r t. rbind r (run_test E today t)) (Inr (d, ZERO_COUNTS)) (due_candidates d org)"

end
