(* ===== verification/Control_Test_Laws.thy ===== *)
theory Control_Test_Laws
  imports Control_Tests
begin

text \<open>
  What holds of control tests: the invariant of the tables \<open>record_result\<close> writes, that every
  result is recorded with its evidence whatever the waivers and the consequences do, and what a
  failure, a waiver, a recovery and a scheduler run change.
\<close>

section \<open>The invariant\<close>

definition open_ct_poam :: "poam \<Rightarrow> bool" where
  "open_ct_poam p \<longleftrightarrow> po_source p = Some ''control_test'' \<and> po_status p \<in> set POAM_ACTIVE_STATUSES"

definition gov_inv :: "db \<Rightarrow> bool" where
  "gov_inv d \<longleftrightarrow> unique_notifications d \<and> distinct (keys_of tk_dedupe_key (tasks d)) \<and>
     distinct (map ctl_identifier (controls d)) \<and>
     distinct (map (\<lambda>p. (po_system_id p, po_source_ref p)) (filter open_ct_poam (poams d))) \<and>
     list_all (\<lambda>r. cr_id r < next_id d) (results d)"

abbreviation evidence :: "db \<Rightarrow> control_test_result list \<times> resource_result list \<times> control_test list \<times> waiver list" where
  "evidence d \<equiv> (results d, resource_results d, tests d, waivers d)"

lemma open_poam_for_iff:
  "open_poam_for t p \<longleftrightarrow> open_ct_poam p \<and> Some (po_system_id p) = ct_system_id t \<and> po_source_ref p = Some (poam_ref t)"
  by (auto simp: open_poam_for_def open_ct_poam_def)

lemma filter_open_poam_for: "filter (open_poam_for t) ps =
  filter (\<lambda>p. Some (po_system_id p) = ct_system_id t \<and> po_source_ref p = Some (poam_ref t)) (filter open_ct_poam ps)"
  by (induction ps) (auto simp: open_poam_for_iff)

lemma one_open_poam:
  assumes "gov_inv d"
  shows "length (filter (open_poam_for t) (poams d)) \<le> 1"
  unfolding filter_open_poam_for
  by (rule distinct_filter_le1 [where f = "\<lambda>p. (po_system_id p, po_source_ref p)" and
        c = "(the (ct_system_id t), Some (poam_ref t))"])
     (use assms in \<open>auto simp: gov_inv_def dest: sym\<close>)

lemma update_rows_keeps_open:
  assumes "\<And>p. po_source (f p) = po_source p" "\<And>p. po_status (f p) = po_status p"
    "\<And>p. po_system_id (f p) = po_system_id p" "\<And>p. po_source_ref (f p) = po_source_ref p"
  shows "map (\<lambda>p. (po_system_id p, po_source_ref p)) (filter open_ct_poam (update_rows P f ps)) =
    map (\<lambda>p. (po_system_id p, po_source_ref p)) (filter open_ct_poam ps)"
  using assms by (induction ps) (auto simp: update_rows_def open_ct_poam_def)

lemma refresh_poam_keeps [simp]:
  "po_source (refresh_poam w g p) = po_source p" "po_status (refresh_poam w g p) = po_status p"
  "po_system_id (refresh_poam w g p) = po_system_id p" "po_source_ref (refresh_poam w g p) = po_source_ref p"
  "po_id (refresh_poam w g p) = po_id p" "po_weakness (refresh_poam w g p) = Some w"
  by (simp_all add: refresh_poam_def Let_def)

lemma append_note_keeps [simp]:
  "po_source (append_note n p) = po_source p" "po_status (append_note n p) = po_status p"
  "po_system_id (append_note n p) = po_system_id p" "po_source_ref (append_note n p) = po_source_ref p"
  "po_id (append_note n p) = po_id p" "po_title (append_note n p) = po_title p"
  "po_weakness (append_note n p) = po_weakness p" "po_severity (append_note n p) = po_severity p"
  by (simp_all add: append_note_def)

section \<open>Each consequence succeeds and keeps the invariant\<close>

lemma notify_keeps:
  assumes "gov_inv d" "nc_dedupe_key a = Some k" "k \<noteq> []"
  obtains d' where "notify E a d = Inr d'" "gov_inv d'" "evidence d' = evidence d" "tasks d' = tasks d"
    "poams d' = poams d" "controls d' = controls d" "next_id d \<le> next_id d'"
    "\<exists>n \<in> set (notifications d'). nt_dedupe_key n = Some k \<and> nt_severity n = nc_severity a \<and> nt_body n = nc_body a"
    "events d' = events d" "webhooks d' = webhooks d"
proof -
  have u: "unique_notifications d" using assms(1) by (simp add: gov_inv_def)
  show thesis
  proof (cases "k \<in> set (keys_of nt_dedupe_key (notifications d))")
    case True
    let ?d = "d\<lparr>notifications := update_rows (\<lambda>n. nt_dedupe_key n = Some k) (refresh_notification a) (notifications d)\<rparr>"
    have "notify E a d = Inr ?d" using notify_keyed [OF u assms(2,3)] True by simp
    moreover have "gov_inv ?d"
      using assms(1) by (simp add: gov_inv_def unique_notifications_def refresh_notification_def)
    moreover have "\<exists>n \<in> set (notifications ?d). nt_dedupe_key n = Some k \<and> nt_severity n = nc_severity a \<and> nt_body n = nc_body a"
    proof -
      obtain r where r: "r \<in> set (notifications d)" "nt_dedupe_key r = Some k" using True by (auto simp: set_keys_of)
      show ?thesis
        by (rule bexI [of _ "refresh_notification a r"])
           (use r in \<open>simp_all add: refresh_notification_def [of a r], simp add: update_rows_in refresh_notification_def [symmetric]\<close>)
    qed
    ultimately show thesis by (intro that [of ?d]) simp_all
  next
    case False
    let ?d = "d\<lparr>notifications := notifications d @ [new_notification (next_id d) a], next_id := next_id d + 1,
            outbox := outbox d @ deliver E (new_notification (next_id d) a)\<rparr>"
    have "notify E a d = Inr ?d" using notify_keyed [OF u assms(2,3)] False by simp
    moreover have "gov_inv ?d"
      using assms False by (auto simp: gov_inv_def unique_notifications_def new_notification_def list_all_iff)
    moreover have "\<exists>n \<in> set (notifications ?d). nt_dedupe_key n = Some k \<and> nt_severity n = nc_severity a \<and> nt_body n = nc_body a"
      using assms(2) by (simp add: new_notification_def)
    ultimately show thesis by (intro that [of ?d]) simp_all
  qed
qed

lemma fstr_not_Nil: "p \<noteq> [] \<Longrightarrow> fstr (p # ps) \<noteq> []"
  by (simp add: fstr_def)

lemma keys_not_Nil [simp]: "alert_key t \<noteq> []" "fix_key t \<noteq> []"
  by (simp_all add: alert_key_def fix_key_def fstr_not_Nil)

lemma one_or_none_cases:
  assumes "length xs \<le> 1"
  obtains "one_or_none xs = Inr None" "xs = []" | x where "one_or_none xs = Inr (Some x)" "xs = [x]"
  using assms by (cases xs rule: one_or_none.cases) auto

lemma control_lookup:
  assumes "gov_inv d"
  obtains c where "one_or_none (filter (\<lambda>c. ctl_identifier c = i) (controls d)) = Inr c"
proof -
  have "length (filter (\<lambda>c. ctl_identifier c = i) (controls d)) \<le> 1"
    by (rule distinct_filter_le1 [where f = ctl_identifier and c = i]) (use assms in \<open>auto simp: gov_inv_def\<close>)
  then show thesis using one_or_none_ok that by blast
qed

lemma ensure_poam_keeps:
  assumes "gov_inv d"
  obtains d' p c where "ensure_poam_for_control_test E d t detail = Inr (d', p, c)" "gov_inv d'"
    "evidence d' = evidence d" "tasks d' = tasks d" "notifications d' = notifications d" "next_id d \<le> next_id d'"
    "ct_system_id t \<noteq> None \<Longrightarrow> \<exists>q. filter (open_poam_for t) (poams d') = [q]"
proof (cases "ct_system_id t")
  case None
  show thesis by (rule that [of d None False]) (use assms None in \<open>simp_all add: ensure_poam_for_control_test_def\<close>)
next
  case (Some sys)
  obtain ctl where ctl: "one_or_none (filter (\<lambda>c. ctl_identifier c = ct_control_id t) (controls d)) = Inr ctl"
    by (rule control_lookup [OF assms])
  from one_open_poam [OF assms, of t] show thesis
  proof (cases rule: one_or_none_cases)
    case 1
    note none = 1
    obtain d' p where d': "ensure_poam_for_control_test E d t detail = Inr (d', Some p, True)"
      "d' = d\<lparr>poams := poams d @ [p], next_id := next_id d + 1\<rparr>"
      "po_system_id p = sys" "po_source p = Some ''control_test''" "po_source_ref p = Some (poam_ref t)" "po_status p = ''open''"
      using none ctl Some by (simp add: ensure_poam_for_control_test_def Let_def)
    have p: "open_poam_for t p" "open_ct_poam p"
      using d'(3-6) Some by (simp_all add: open_poam_for_def open_ct_poam_def vocab)
    have new: "(sys, Some (poam_ref t)) \<notin> (\<lambda>p. (po_system_id p, po_source_ref p)) ` {p \<in> set (poams d). open_ct_poam p}"
      using none(2) Some by (auto simp: filter_empty_conv open_poam_for_iff)
    have "gov_inv d'"
      using assms d'(2,3,5) p(2) new by (auto simp: gov_inv_def unique_notifications_def list_all_iff)
    moreover have "filter (open_poam_for t) (poams d') = [p]" using d'(2) p none(2) by simp
    ultimately show thesis by (intro that [OF d'(1)]) (use d'(2) in simp_all)
  next
    case (2 q)
    let ?w = "fstr [''Automated control test '', CHR 0x27 # ct_name t, CHR 0x27 # '' ('', ct_control_id t, '') failed: '', detail]"
    let ?f = "refresh_poam ?w (remediation_guidance t detail)"
    let ?d = "d\<lparr>poams := update_rows (open_poam_for t) ?f (poams d)\<rparr>"
    have eq: "ensure_poam_for_control_test E d t detail = Inr (?d, Some (?f q), False)"
      using 2 Some by (simp add: ensure_poam_for_control_test_def Let_def)
    have "filter (open_poam_for t) (update_rows (open_poam_for t) ?f ps) = map ?f (filter (open_poam_for t) ps)" for ps
      by (induction ps) (auto simp: update_rows_def open_poam_for_def)
    then have "filter (open_poam_for t) (poams ?d) = [?f q]" using 2 by simp
    moreover have "gov_inv ?d"
      using assms by (simp add: gov_inv_def unique_notifications_def update_rows_keeps_open)
    ultimately show thesis by (intro that [OF eq]) simp_all
  qed
qed

lemma alert_keeps:
  assumes "gov_inv d"
  obtains d' where "alert_on_failure E d t status detail = Inr d'" "gov_inv d'" "evidence d' = evidence d"
    "\<exists>n \<in> set (notifications d'). nt_dedupe_key n = Some (alert_key t) \<and>
       nt_severity n = (if status = ''fail'' then ''critical'' else ''warning'') \<and> nt_body n = Some detail"
    "status = ''fail'' \<Longrightarrow> fix_key t \<in> set (keys_of tk_dedupe_key (tasks d'))"
    "status = ''fail'' \<Longrightarrow> ct_system_id t \<noteq> None \<Longrightarrow> \<exists>p. filter (open_poam_for t) (poams d') = [p]"
proof -
  let ?n = "\<lambda>ns. \<exists>n \<in> set ns. nt_dedupe_key n = Some (alert_key t) \<and>
       nt_severity n = (if status = ''fail'' then ''critical'' else ''warning'') \<and> nt_body n = Some detail"
  obtain d1 where d1: "notify E (alert_notice t status detail) d = Inr d1" "gov_inv d1" "evidence d1 = evidence d"
    "tasks d1 = tasks d" "?n (notifications d1)"
    by (rule notify_keeps [OF assms, of "alert_notice t status detail" "alert_key t" E])
       (auto simp: alert_notice_def)
  show thesis
  proof (cases "status = ''fail''")
    case False
    then show thesis using d1 by (intro that [of d1]) (simp_all add: alert_on_failure_def)
  next
    case True
    have du: "distinct (keys_of tk_dedupe_key (tasks d1))" using d1(2) by (simp add: gov_inv_def)
    define d2 where "d2 = (if fix_key t \<in> set (keys_of tk_dedupe_key (tasks d1)) then d1
      else d1\<lparr>tasks := tasks d1 @ [fix_task (next_id d1) t detail], next_id := next_id d1 + 1\<rparr>)"
    have d2: "gov_inv d2" "evidence d2 = evidence d" "notifications d2 = notifications d1"
      "fix_key t \<in> set (keys_of tk_dedupe_key (tasks d2))"
      using d1(2,3) by (auto simp: d2_def gov_inv_def unique_notifications_def fix_task_def list_all_iff)
    obtain d3 p c where d3: "ensure_poam_for_control_test E d2 t detail = Inr (d3, p, c)" "gov_inv d3"
      "evidence d3 = evidence d2" "tasks d3 = tasks d2" "notifications d3 = notifications d2"
      "ct_system_id t \<noteq> None \<Longrightarrow> \<exists>q. filter (open_poam_for t) (poams d3) = [q]"
      by (rule ensure_poam_keeps [OF d2(1), of E t detail]) blast
    from du have "alert_on_failure E d t status detail = Inr d3"
    proof (cases rule: unique_key_lookup [where k = "fix_key t"])
      case 1
      then show ?thesis using True d1(1) d3(1)
        by (simp add: alert_on_failure_def Let_def upsert_poam_def d2_def)
    next
      case (2 r)
      then have "fix_key t \<in> set (keys_of tk_dedupe_key (tasks d1))" by (auto simp: set_keys_of)
      then show ?thesis using 2 True d1(1) d3(1)
        by (simp add: alert_on_failure_def Let_def upsert_poam_def d2_def)
    qed
    then show thesis using d3 d2 d1(5) by (intro that [of d3]) simp_all
  qed
qed

lemma recovery_keeps:
  assumes "gov_inv d"
  obtains d' where "recovery_body E d t rid = Inr d'" "gov_inv d'" "evidence d' = evidence d"
    "map (\<lambda>p. (po_id p, po_title p, po_status p, po_weakness p, po_severity p)) (poams d') =
       map (\<lambda>p. (po_id p, po_title p, po_status p, po_weakness p, po_severity p)) (poams d)"
    "\<forall>k \<in> set (tasks d'). tk_dedupe_key k = Some (fix_key t) \<longrightarrow> tk_status k \<noteq> ''open''"
proof -
  define d1 where "d1 = d\<lparr>tasks := update_rows (\<lambda>k. tk_dedupe_key k = Some (fix_key t) \<and> tk_status k = ''open'')
                    (\<lambda>k. k\<lparr>tk_status := ''done'', tk_closed_at := Some (en_now E)\<rparr>) (tasks d)\<rparr>"
  have d1: "gov_inv d1" "evidence d1 = evidence d" "poams d1 = poams d"
    using assms by (simp_all add: d1_def gov_inv_def unique_notifications_def)
  have closed: "\<forall>k \<in> set (tasks d1). tk_dedupe_key k = Some (fix_key t) \<longrightarrow> tk_status k \<noteq> ''open''"
    unfolding d1_def by (simp add: ball_update_rows)
  obtain tk where tk: "one_or_none (filter (\<lambda>k. tk_dedupe_key k = Some (fix_key t)) (tasks d)) = Inr tk"
    using one_or_none_ok [OF unique_key_rows] assms by (metis gov_inv_def)
  have body: "recovery_body E d t rid = (if ct_system_id t = None then Inr d1
          else rbind (one_or_none (filter (open_poam_for t) (poams d1))) (\<lambda>po. case po of None \<Rightarrow> Inr d1
            | Some p \<Rightarrow> notify E (recovery_notice E t rid p)
                  (d1\<lparr>poams := update_rows (open_poam_for t) (append_note (recovery_note E t rid)) (poams d1)\<rparr>)))"
    unfolding recovery_body_def tk Let_def d1_def by simp
  show thesis
  proof (cases "ct_system_id t = None")
    case True
    then show thesis using body d1 closed by (intro that [of d1]) simp_all
  next
    case False
    from one_open_poam [OF d1(1), of t] show thesis
    proof (cases rule: one_or_none_cases)
      case 1
      then show thesis using False body d1 closed by (intro that [of d1]) simp_all
    next
      case (2 p)
      let ?d = "d1\<lparr>poams := update_rows (open_poam_for t) (append_note (recovery_note E t rid)) (poams d1)\<rparr>"
      have inv: "gov_inv ?d" using d1(1) by (simp add: gov_inv_def unique_notifications_def update_rows_keeps_open)
      obtain d' where d': "notify E (recovery_notice E t rid p) ?d = Inr d'" "gov_inv d'" "evidence d' = evidence ?d"
        "tasks d' = tasks ?d" "poams d' = poams ?d"
        by (rule notify_keeps [OF inv, of "recovery_notice E t rid p" "fstr [''poam-recovery:'', str_of_int (po_id p)]" E])
           (auto simp: recovery_notice_def fstr_not_Nil)
      have "recovery_body E d t rid = Inr d'" unfolding body using False 2(1) d'(1) by auto
      then show thesis by (rule that [of d']) (use d'(2-5) d1(2,3) closed in simp_all)
    qed
  qed
qed

section \<open>Evidence first\<close>

abbreviation unwaived :: "resource_result \<Rightarrow> resource_result" where
  "unwaived r \<equiv> r\<lparr>rr_waiver_id := None\<rparr>"

lemma length_resource_rows [simp]: "length (resource_rows i rid fs) = length fs"
  by (induction fs arbitrary: i) simp_all

lemma unwaived_rows: "map unwaived (resource_rows i rid fs) = resource_rows i rid fs"
  by (induction fs arbitrary: i) simp_all

lemma unwaived_marked: "map unwaived (map2 (mark_waived cv) (resource_rows i rid fs) fs) = resource_rows i rid fs"
  by (induction fs arbitrary: i) (simp_all add: mark_waived_def split: option.split)

lemma apply_waivers_keeps:
  assumes "gov_inv d" "apply_waivers E d t a = (d1, cov)"
  shows "gov_inv d1 \<and> tests d1 = tests (record_evidence E d t a) \<and>
    notifications d1 = notifications d \<and> tasks d1 = tasks d \<and> poams d1 = poams d \<and> waivers d1 = waivers d \<and>
    (\<exists>w. results d1 = results d @ [(result_row E d t a)\<lparr>cr_waived := w\<rparr>]) \<and>
    (\<exists>rs. resource_results d1 = resource_results d @ rs \<and>
       map unwaived rs = resource_rows (next_id d + 1) (next_id d) (ra_resources a))"
proof -
  let ?e = "record_evidence E d t a"
  have old: "\<And>r. r \<in> set (results d) \<Longrightarrow> \<not> cr_id r = next_id d"
    using assms(1) by (auto simp: gov_inv_def list_all_iff)
  have e: "gov_inv ?e"
    using assms(1) by (auto simp: record_evidence_def gov_inv_def unique_notifications_def list_all_iff result_row_def)
  consider "d1 = ?e" | cv where "d1 = ?e\<lparr>results := update_rows (\<lambda>r. cr_id r = next_id d) (\<lambda>r. r\<lparr>cr_waived := cv_waived cv\<rparr>) (results ?e),
         resource_results := resource_results d @
           map2 (mark_waived cv) (resource_rows (next_id d + 1) (next_id d) (ra_resources a)) (ra_resources a)\<rparr>"
    using assms(2) by (auto simp: apply_waivers_def Let_def split: if_splits sum.splits)
  then show ?thesis
  proof cases
    case 1
    then show ?thesis using e
      by (auto simp: record_evidence_def unwaived_rows result_row_def intro!: exI [of _ 0])
  next
    case (2 cv)
    have upd: "update_rows (\<lambda>r. cr_id r = next_id d) (\<lambda>r. r\<lparr>cr_waived := cv_waived cv\<rparr>) (results ?e) =
        results d @ [(result_row E d t a)\<lparr>cr_waived := cv_waived cv\<rparr>]"
      unfolding record_evidence_def by (simp add: update_rows_last [OF old] result_row_def)
    have "gov_inv d1"
      using e unfolding 2 upd by (auto simp: gov_inv_def unique_notifications_def record_evidence_def list_all_iff result_row_def)
    then show ?thesis
      unfolding 2 upd by (simp add: record_evidence_def unwaived_marked del: map_map) blast
  qed
qed

lemma consequences_keeps:
  assumes "gov_inv d"
  obtains d' where "consequences E d t a rid cov = Inr d'" "gov_inv d'" "evidence d' = evidence d"
proof -
  obtain d1 where 1: "alert_on_failure E d t (ra_status a) (str_or_empty (ra_detail a)) = Inr d1" "gov_inv d1" "evidence d1 = evidence d"
    by (rule alert_keeps [OF assms])
  obtain d2 where 2: "recovery_body E d t rid = Inr d2" "gov_inv d2" "evidence d2 = evidence d"
    by (rule recovery_keeps [OF assms])
  have "consequences E d t a rid cov = Inr d1 \<or> consequences E d t a rid cov = Inr d2 \<or> consequences E d t a rid cov = Inr d"
    unfolding consequences_def resolve_on_recovery_def 1(1) 2(1) by simp
  then show thesis using that 1 2 assms by blast
qed

lemma emit_keeps:
  "gov_inv d \<Longrightarrow> gov_inv (fst (emit E d v ty sm org ac eid pl b))"
  "evidence (fst (emit E d v ty sm org ac eid pl b)) = evidence d"
  "notifications (fst (emit E d v ty sm org ac eid pl b)) = notifications d"
  "tasks (fst (emit E d v ty sm org ac eid pl b)) = tasks d"
  "poams (fst (emit E d v ty sm org ac eid pl b)) = poams d"
  by (auto simp: emit_def Let_def gov_inv_def unique_notifications_def list_all_iff)

lemma record_result_split:
  assumes "ra_status a \<in> set VALIDATION_STATUSES" "apply_waivers E d t a = (d1, cov)"
    "consequences E d1 t a (next_id d) cov = Inr d2"
  obtains d' where "record_result E d t a = Inr d'" "gov_inv d2 \<Longrightarrow> gov_inv d'" "evidence d' = evidence d2"
    "notifications d' = notifications d2" "tasks d' = tasks d2" "poams d' = poams d2"
  by (rule that [of "fst (emit E d2 ''tested'' ''control_test'' (fstr [''Control test '', ra_status a, '': '', ct_control_id t])
                 (ct_organization_id t) (Some (ra_actor a)) (Some (str_of_int (ct_id t))) [] True)"])
     (use assms in \<open>simp_all add: record_result_def emit_keeps\<close>)

lemma record_result_count:
  assumes "gov_inv d" "ra_status a \<in> set VALIDATION_STATUSES"
  obtains d' where "record_result E d t a = Inr d'" "gov_inv d'" "length (results d') = length (results d) + 1"
proof -
  obtain d1 cov where aw: "apply_waivers E d t a = (d1, cov)" by (cases "apply_waivers E d t a")
  have d1: "gov_inv d1" "length (results d1) = length (results d) + 1"
    using apply_waivers_keeps [OF assms(1) aw] by auto
  obtain d2 where d2: "consequences E d1 t a (next_id d) cov = Inr d2" "gov_inv d2" "evidence d2 = evidence d1"
    by (rule consequences_keeps [OF d1(1)])
  obtain d' where "record_result E d t a = Inr d'" "gov_inv d2 \<Longrightarrow> gov_inv d'" "evidence d' = evidence d2"
    by (rule record_result_split [OF assms(2) aw d2(1)]) blast
  then show thesis using d1(2) d2(2,3) by (intro that [of d']) simp_all
qed

section \<open>Properties\<close>


definition sample_test :: control_test where
  "sample_test = \<lparr>ct_id = 1, ct_organization_id = Some 1, ct_system_id = Some 2, ct_control_id = ''AC-2'',
      ct_control_ids = None, ct_name = ''accounts'', ct_description = None, ct_method = ''connector'',
      ct_connector_type = Some ''okta'', ct_frequency = Some ''Daily'', ct_expected = None, ct_assertion = None,
      ct_active = True, ct_source = ''authored'', ct_check_key = None, ct_check_source = None,
      ct_capability_id = None, ct_last_status = None, ct_last_tested_at = None\<rparr>"

definition sample_args :: "string \<Rightarrow> result_args" where
  "sample_args status = \<lparr>ra_status = status, ra_detail = Some ''3 of 9'', ra_evidence_ref = None, ra_actor = ''scan'',
     ra_evaluated = 9, ra_failing = 3, ra_expected = None,
     ra_resources = [\<lparr>rf_resource_id = ''vm1'', rf_resource_type = ''vm'', rf_verdict = ''fail'', rf_observed = ''x'', rf_detail = []\<rparr>],
     ra_open_remediation = True\<rparr>"

definition sample_db :: db where
  "sample_db = empty_db\<lparr>tests := [sample_test], next_id := 10\<rparr>"

lemma gov_inv_sample: "gov_inv sample_db"
  by (simp add: gov_inv_def unique_notifications_def sample_db_def empty_db_def)

lemma sample_statuses [simp]: "''fail'' \<in> set VALIDATION_STATUSES" "''pass'' \<in> set VALIDATION_STATUSES"
  by (simp_all add: vocab)


definition alerts_for :: "env \<Rightarrow> db \<Rightarrow> control_test \<Rightarrow> result_args \<Rightarrow> bool" where
  "alerts_for E d t a \<longleftrightarrow> ra_open_remediation a \<and>
     (case snd (apply_waivers E d t a) of None \<Rightarrow> True | Some cv \<Rightarrow> \<not> cv_suppress cv)"

text \<open>A failure that no waiver fully covers is acted on. After recording it there is a critical
  alert with the finding's detail, a remediation task for the test, and, when the test belongs to
  a system, exactly one open POA\&M for it, however often it failed before.\<close>

theorem failure_opens_remediation:
  assumes "gov_inv d" "ra_status a = ''fail''" "alerts_for E d t a"
  shows "\<exists>d'. record_result E d t a = Inr d' \<and>
    (\<exists>n \<in> set (notifications d'). nt_dedupe_key n = Some (alert_key t) \<and> nt_severity n = ''critical'' \<and>
       nt_body n = Some (str_or_empty (ra_detail a))) \<and>
    fix_key t \<in> set (keys_of tk_dedupe_key (tasks d')) \<and>
    (ct_system_id t \<noteq> None \<longrightarrow> (\<exists>p. filter (open_poam_for t) (poams d') = [p]))"
proof -
  obtain d1 cov where aw: "apply_waivers E d t a = (d1, cov)" by (cases "apply_waivers E d t a")
  have inv: "gov_inv d1" using apply_waivers_keeps [OF assms(1) aw] by blast
  obtain d2 where d2: "alert_on_failure E d1 t ''fail'' (str_or_empty (ra_detail a)) = Inr d2"
    "\<exists>n \<in> set (notifications d2). nt_dedupe_key n = Some (alert_key t) \<and> nt_severity n = ''critical'' \<and>
       nt_body n = Some (str_or_empty (ra_detail a))"
    "fix_key t \<in> set (keys_of tk_dedupe_key (tasks d2))"
    "ct_system_id t \<noteq> None \<Longrightarrow> \<exists>p. filter (open_poam_for t) (poams d2) = [p]"
    by (rule alert_keeps [OF inv, of E t "''fail''" "str_or_empty (ra_detail a)"]) auto
  have "consequences E d1 t a (next_id d) cov = Inr d2"
    using assms(2,3) aw d2(1) unfolding consequences_def alerts_for_def by simp
  moreover have "ra_status a \<in> set VALIDATION_STATUSES" using assms(2) by simp
  ultimately obtain d' where d': "record_result E d t a = Inr d'" "notifications d' = notifications d2"
    "tasks d' = tasks d2" "poams d' = poams d2"
    using record_result_split [OF _ aw] by metis
  show ?thesis by (rule exI [of _ d']) (use d' d2(2-4) in simp)
qed

theorem failure_opens_remediation_witness:
  "\<exists>d' p. record_result sample_env sample_db sample_test (sample_args ''fail'') = Inr d' \<and>
     filter (open_poam_for sample_test) (poams d') = [p]"
proof -
  have "ra_status (sample_args ''fail'') = ''fail''" by (simp add: sample_args_def)
  moreover have "alerts_for sample_env sample_db sample_test (sample_args ''fail'')"
    by (simp add: alerts_for_def apply_waivers_def Let_def waivers_for_test_def waivers_for_tests_def sample_args_def
        sample_db_def empty_db_def sample_test_def record_evidence_def split: sum.split)
  moreover have "ct_system_id sample_test \<noteq> None" by (simp add: sample_test_def)
  ultimately show ?thesis using failure_opens_remediation [OF gov_inv_sample] by blast
qed

text \<open>A waiver suppresses the consequence and nothing else. When a failing or warning result is
  fully waived, alerts, tasks and POA\&Ms are untouched, while the result is still recorded with
  its failing status and the test's last status still says so.\<close>

theorem waived_failure_only_suppresses:
  assumes "gov_inv d" "ra_status a \<in> {''fail'', ''warn''}" "\<not> alerts_for E d t a"
  shows "\<exists>d' r. record_result E d t a = Inr d' \<and> notifications d' = notifications d \<and> tasks d' = tasks d \<and>
    poams d' = poams d \<and> results d' = results d @ [r] \<and> cr_status r = ra_status a \<and>
    (\<forall>q \<in> set (tests d'). ct_id q = ct_id t \<longrightarrow> ct_last_status q = Some (ra_status a))"
proof -
  obtain d1 cov where aw: "apply_waivers E d t a = (d1, cov)" by (cases "apply_waivers E d t a")
  from apply_waivers_keeps [OF assms(1) aw] obtain w where d1: "tests d1 = tests (record_evidence E d t a)"
    "notifications d1 = notifications d" "tasks d1 = tasks d" "poams d1 = poams d"
    "results d1 = results d @ [(result_row E d t a)\<lparr>cr_waived := w\<rparr>]"
    by blast
  have "consequences E d1 t a (next_id d) cov = Inr d1"
    using assms(2,3) aw unfolding consequences_def alerts_for_def by simp
  moreover have "ra_status a \<in> set VALIDATION_STATUSES"
    using assms(2) by (elim insertE emptyE) (simp_all add: vocab)
  ultimately obtain d' where d': "record_result E d t a = Inr d'" "evidence d' = evidence d1"
    "notifications d' = notifications d1" "tasks d' = tasks d1" "poams d' = poams d1"
    using record_result_split [OF _ aw] by metis
  show ?thesis
    by (intro exI [of _ d'] exI [of _ "(result_row E d t a)\<lparr>cr_waived := w\<rparr>"])
       (use d1 d' in \<open>simp add: record_evidence_def ball_update_rows result_row_def\<close>)
qed

definition waived_db :: db where
  "waived_db = sample_db\<lparr>waivers := [\<lparr>w_id = 5, w_organization_id = Some 1, w_system_id = 2, w_check_key = None,
     w_control_id = Some ''AC-2'', w_resource_id = Some ''vm1'', w_status = ''approved'', w_requested_by = None,
     w_expires_on = Some 30000\<rparr>]\<rparr>"

theorem waived_failure_only_suppresses_witness:
  "\<exists>d' r. record_result sample_env waived_db sample_test (sample_args ''fail'') = Inr d' \<and>
     poams d' = poams waived_db \<and> results d' = results waived_db @ [r] \<and> cr_status r = ''fail''"
proof -
  have st: "ra_status (sample_args ''fail'') = ''fail''" by (simp add: sample_args_def)
  then have "ra_status (sample_args ''fail'') \<in> {''fail'', ''warn''}" by simp
  moreover have "\<not> alerts_for sample_env waived_db sample_test (sample_args ''fail'')" by code_simp
  moreover have "gov_inv waived_db" using gov_inv_sample by (simp add: gov_inv_def unique_notifications_def waived_db_def)
  ultimately show ?thesis using waived_failure_only_suppresses [of waived_db "sample_args ''fail''"] st by metis
qed

text \<open>Recovery never closes a POA\&M. When a test that was not passing passes, the remediation
  task it opened is no longer open, and every POA\&M keeps its status, title, weakness and severity:
  closing one is left to a person.\<close>

theorem recovery_keeps_poams_open:
  assumes "gov_inv d" "ra_status a = ''pass''" "ct_last_status t \<noteq> Some ''pass''"
  shows "\<exists>d'. record_result E d t a = Inr d' \<and>
    map (\<lambda>p. (po_id p, po_title p, po_status p, po_weakness p, po_severity p)) (poams d') =
      map (\<lambda>p. (po_id p, po_title p, po_status p, po_weakness p, po_severity p)) (poams d) \<and>
    (\<forall>k \<in> set (tasks d'). tk_dedupe_key k = Some (fix_key t) \<longrightarrow> tk_status k \<noteq> ''open'')"
proof -
  obtain d1 cov where aw: "apply_waivers E d t a = (d1, cov)" by (cases "apply_waivers E d t a")
  have d1: "gov_inv d1" "poams d1 = poams d" using apply_waivers_keeps [OF assms(1) aw] by blast+
  obtain d2 where d2: "recovery_body E d1 t (next_id d) = Inr d2"
    "map (\<lambda>p. (po_id p, po_title p, po_status p, po_weakness p, po_severity p)) (poams d2) =
       map (\<lambda>p. (po_id p, po_title p, po_status p, po_weakness p, po_severity p)) (poams d1)"
    "\<forall>k \<in> set (tasks d2). tk_dedupe_key k = Some (fix_key t) \<longrightarrow> tk_status k \<noteq> ''open''"
    by (rule recovery_keeps [OF d1(1)])
  have "consequences E d1 t a (next_id d) cov = Inr d2"
    using assms(2,3) d2(1) unfolding consequences_def resolve_on_recovery_def by simp
  moreover have "ra_status a \<in> set VALIDATION_STATUSES" using assms(2) by simp
  ultimately obtain d' where "record_result E d t a = Inr d'" "tasks d' = tasks d2" "poams d' = poams d2"
    using record_result_split [OF _ aw] by metis
  then show ?thesis using d2(2,3) d1(2) by (intro exI [of _ d']) simp
qed

theorem recovery_keeps_poams_open_witness:
  "\<exists>d1 d2. record_result sample_env sample_db sample_test (sample_args ''fail'') = Inr d1 \<and>
     record_result sample_env d1 sample_test (sample_args ''pass'') = Inr d2 \<and> map po_status (poams d2) = map po_status (poams d1)"
proof -
  have v: "ra_status (sample_args ''fail'') \<in> set VALIDATION_STATUSES" by (simp add: sample_args_def)
  obtain d1 where d1: "record_result sample_env sample_db sample_test (sample_args ''fail'') = Inr d1" "gov_inv d1"
    using record_result_count [OF gov_inv_sample v] by blast
  have "ra_status (sample_args ''pass'') = ''pass''" "ct_last_status sample_test \<noteq> Some ''pass''"
    by (simp_all add: sample_args_def sample_test_def)
  from recovery_keeps_poams_open [OF d1(2) this, of sample_env]
  obtain d2 where d2: "record_result sample_env d1 sample_test (sample_args ''pass'') = Inr d2"
    "map (\<lambda>p. (po_id p, po_title p, po_status p, po_weakness p, po_severity p)) (poams d2) =
      map (\<lambda>p. (po_id p, po_title p, po_status p, po_weakness p, po_severity p)) (poams d1)"
    by blast
  from arg_cong [OF d2(2), of "map (\<lambda>x. fst (snd (snd x)))"] have "map po_status (poams d2) = map po_status (poams d1)"
    by (simp add: comp_def)
  with d1(1) d2(1) show ?thesis by blast
qed

lemma alert_poams:
  assumes "alert_on_failure E d t status detail = Inr d'" "p \<in> set (poams d)"
    "po_remediation_plan_source p \<noteq> GENERATED_PLAN" "str_or_empty (po_remediation_plan p) \<noteq> []"
  shows "\<exists>q \<in> set (poams d'). po_id q = po_id p \<and> po_remediation_plan q = po_remediation_plan p \<and>
    po_remediation_plan_source q = po_remediation_plan_source p"
proof -
  let ?ok = "\<lambda>e. \<exists>q \<in> set (poams e). po_id q = po_id p \<and> po_remediation_plan q = po_remediation_plan p \<and>
    po_remediation_plan_source q = po_remediation_plan_source p"
  have nt: "notify E n e = Inr e' \<Longrightarrow> poams e' = poams e" for n e e'
    by (auto simp: notify_def insert_notification_def Let_def rbind_eq_Inr split: option.splits if_splits)
  have up: "?ok (e\<lparr>poams := update_rows (open_poam_for t) (refresh_poam w g) (poams e)\<rparr>)" if "p \<in> set (poams e)" for e w g
  proof (cases "open_poam_for t p")
    case True
    have "refresh_poam w g p \<in> set (update_rows (open_poam_for t) (refresh_poam w g) (poams e))"
      using that True by (rule update_rows_in)
    then show ?thesis
      by (intro bexI [of _ "refresh_poam w g p"]) (use assms(3,4) in \<open>simp_all add: refresh_poam_def Let_def\<close>)
  next
    case False
    then show ?thesis using that by (intro bexI [of _ p]) (auto simp: update_rows_def intro!: image_eqI [of _ _ p])
  qed
  have en: "?ok e'" if "ensure_poam_for_control_test E e t detail = Inr (e', q, c)" "p \<in> set (poams e)" for e e' q c
    using that up [of e]
    by (auto simp: ensure_poam_for_control_test_def Let_def rbind_eq_Inr split: option.splits)
  from assms(1) obtain d1 where d1: "notify E (alert_notice t status detail) d = Inr d1"
    by (auto simp: alert_on_failure_def rbind_eq_Inr)
  have p1: "p \<in> set (poams d1)" using nt [OF d1] assms(2) by simp
  show ?thesis
  proof (cases "status = ''fail''")
    case False
    then show ?thesis using assms(1) d1 p1 by (auto simp: alert_on_failure_def)
  next
    case True
    then show ?thesis using assms(1) d1 p1 en
      by (auto simp: alert_on_failure_def rbind_eq_Inr Let_def upsert_poam_def split: option.splits)
  qed
qed

text \<open>A scan never rewrites a person's plan. Recording a failing or warning result keeps the
  remediation plan, and its label, of every POA\&M whose plan was not generated and is not empty.\<close>

theorem analyst_plan_survives:
  assumes "gov_inv d" "ra_status a \<in> {''fail'', ''warn''}" "record_result E d t a = Inr d'"
    and "p \<in> set (poams d)" "po_remediation_plan_source p \<noteq> GENERATED_PLAN" "str_or_empty (po_remediation_plan p) \<noteq> []"
  shows "\<exists>q \<in> set (poams d'). po_id q = po_id p \<and> po_remediation_plan q = po_remediation_plan p \<and>
    po_remediation_plan_source q = po_remediation_plan_source p"
proof -
  obtain d1 cov where aw: "apply_waivers E d t a = (d1, cov)" by (cases "apply_waivers E d t a")
  have d1: "gov_inv d1" "poams d1 = poams d" using apply_waivers_keeps [OF assms(1) aw] by blast+
  obtain d2 where d2: "consequences E d1 t a (next_id d) cov = Inr d2" by (rule consequences_keeps [OF d1(1)])
  have v: "ra_status a \<in> set VALIDATION_STATUSES"
    using assms(2) by (elim insertE emptyE) (simp_all add: vocab)
  have "poams d' = poams d2" using record_result_split [OF v aw d2] assms(3) by (metis sum.inject(2))
  moreover have "d2 = d1 \<or> alert_on_failure E d1 t (ra_status a) (str_or_empty (ra_detail a)) = Inr d2"
    using d2 assms(2) unfolding consequences_def by (auto split: if_splits)
  ultimately show ?thesis using alert_poams [OF _ _ assms(5,6)] assms(4) d1(2) by auto
qed

definition analyst_db :: db where
  "analyst_db = sample_db\<lparr>poams := [\<lparr>po_id = 3, po_system_id = 2, po_control_id = None, po_title = ''t'', po_weakness = None,
     po_severity = ''high'', po_status = ''open'', po_identified_on = None, po_due_on = None, po_closed_on = None,
     po_source = Some ''control_test'', po_remediation_plan = Some ''rotate the keys'', po_remediation_plan_source = ''analyst'',
     po_original_due_on = None, po_source_ref = Some (poam_ref sample_test), po_milestones = [],
     po_owner_user_id = None, po_acceptance_rationale = None\<rparr>]\<rparr>"

theorem analyst_plan_survives_witness:
  "\<exists>d'. record_result sample_env analyst_db sample_test (sample_args ''fail'') = Inr d' \<and>
     (\<exists>q \<in> set (poams d'). po_id q = 3 \<and> po_remediation_plan q = Some ''rotate the keys'')"
proof -
  have inv: "gov_inv analyst_db"
    using gov_inv_sample by (simp add: gov_inv_def unique_notifications_def analyst_db_def)
  have "ra_status (sample_args ''fail'') \<in> set VALIDATION_STATUSES" by (simp add: sample_args_def)
  then obtain d' where d': "record_result sample_env analyst_db sample_test (sample_args ''fail'') = Inr d'"
    using record_result_count [OF inv] by metis
  have "\<exists>q \<in> set (poams d'). po_id q = po_id (hd (poams analyst_db)) \<and>
      po_remediation_plan q = po_remediation_plan (hd (poams analyst_db)) \<and>
      po_remediation_plan_source q = po_remediation_plan_source (hd (poams analyst_db))"
    by (rule analyst_plan_survives [OF inv _ d'])
       (simp_all add: analyst_db_def sample_args_def GENERATED_PLAN_def str_or_empty_def)
  moreover have "po_id (hd (poams analyst_db)) = 3" "po_remediation_plan (hd (poams analyst_db)) = Some ''rotate the keys''"
    by (simp_all add: analyst_db_def)
  ultimately show ?thesis using d' by metis
qed

text \<open>A failure that recurs after a recovery gets no open work item. Once the test's remediation
  task exists and is not open (recovery marks it done), recording another failure leaves every
  task as it is: the done task is found by its key, so none is created and it is not reopened.\<close>

theorem recurrence_leaves_task_done:
  assumes "gov_inv d" "ra_status a = ''fail''" "k \<in> set (tasks d)" "tk_dedupe_key k = Some (fix_key t)"
    "record_result E d t a = Inr d'"
  shows "tasks d' = tasks d"
proof -
  obtain d1 cov where aw: "apply_waivers E d t a = (d1, cov)" by (cases "apply_waivers E d t a")
  have d1: "gov_inv d1" "tasks d1 = tasks d" using apply_waivers_keeps [OF assms(1) aw] by blast+
  obtain d2 where d2: "consequences E d1 t a (next_id d) cov = Inr d2" by (rule consequences_keeps [OF d1(1)])
  have v: "ra_status a \<in> set VALIDATION_STATUSES" using assms(2) by simp
  have eq: "tasks d' = tasks d2" using record_result_split [OF v aw d2] assms(5) by (metis sum.inject(2))
  have "d2 = d1 \<or> alert_on_failure E d1 t ''fail'' (str_or_empty (ra_detail a)) = Inr d2"
    using d2 unfolding consequences_def assms(2) by (simp split: if_split_asm)
  then consider "d2 = d1" | "alert_on_failure E d1 t ''fail'' (str_or_empty (ra_detail a)) = Inr d2" by blast
  then show ?thesis
  proof cases
    case 2
    have key: "fix_key t \<in> set (keys_of tk_dedupe_key (tasks d1))"
      using assms(3,4) d1(2) by (auto simp: set_keys_of)
    obtain e where e: "notify E (alert_notice t ''fail'' (str_or_empty (ra_detail a))) d1 = Inr e" "gov_inv e" "tasks e = tasks d1"
      by (rule notify_keeps [OF d1(1), of "alert_notice t ''fail'' (str_or_empty (ra_detail a))" "alert_key t" E])
         (auto simp: alert_notice_def)
    from e(2) have "distinct (keys_of tk_dedupe_key (tasks e))" by (simp add: gov_inv_def)
    then obtain r where r: "one_or_none (filter (\<lambda>k. tk_dedupe_key k = Some (fix_key t)) (tasks e)) = Inr (Some r)"
      using key e(3) by (elim unique_key_lookup [where k = "fix_key t"]) auto
    obtain f p c where f: "ensure_poam_for_control_test E e t (str_or_empty (ra_detail a)) = Inr (f, p, c)" "tasks f = tasks e"
      by (rule ensure_poam_keeps [OF e(2), of E t "str_or_empty (ra_detail a)"]) blast
    have "d2 = f" using 2 e(1) r f(1) by (simp add: alert_on_failure_def upsert_poam_def)
    then show ?thesis using eq f(2) e(3) d1(2) by simp
  qed (use eq d1(2) in simp)
qed

definition recovered_db :: db where
  "recovered_db = sample_db\<lparr>tasks := [(fix_task 4 sample_test ''old'')\<lparr>tk_status := ''done''\<rparr>]\<rparr>"

theorem recurrence_leaves_task_done_witness:
  "\<exists>d'. record_result sample_env recovered_db sample_test (sample_args ''fail'') = Inr d' \<and> map tk_status (tasks d') = [''done'']"
proof -
  have inv: "gov_inv recovered_db"
    using gov_inv_sample by (simp add: gov_inv_def unique_notifications_def recovered_db_def fix_task_def)
  have st: "ra_status (sample_args ''fail'') = ''fail''" by (simp add: sample_args_def)
  then have "ra_status (sample_args ''fail'') \<in> set VALIDATION_STATUSES" by simp
  then obtain d' where d': "record_result sample_env recovered_db sample_test (sample_args ''fail'') = Inr d'"
    using record_result_count [OF inv] by metis
  have "tasks d' = tasks recovered_db"
    by (rule recurrence_leaves_task_done [OF inv st, of "hd (tasks recovered_db)", OF _ _ d'])
       (simp_all add: recovered_db_def fix_task_def)
  then show ?thesis using d' by (simp add: recovered_db_def)
qed

text \<open>What may be called live capture. \<open>organization_capture_is_live\<close> holds exactly when the
  organization and connector are named, the best connector row is configured, synced within the
  window and non-empty, a capture artifact of that organization and connector lies within the
  window, and the credential is not a bare host profile. No connector status column alone can
  make it hold.\<close>

theorem live_capture_iff:
  "organization_capture_is_live resolve d org ty today days \<longleftrightarrow>
     (\<exists>i k. org = Some i \<and> ty = Some k \<and> k \<noteq> [] \<and>
        connector_backing_state (newest_sync (filter (\<lambda>c. cc_organization_id c = Some i \<and> cc_connector_type c = k)
          (connectors d))) today days = ''current'' \<and>
        (\<exists>c \<in> set (captures d). cs_organization_id c = Some i \<and> cs_connector c = k \<and>
           today - dt_date (cs_captured_at c) \<le> days) \<and>
        capture_identity_is_tenants_own resolve i k)"
proof -
  have recent: "has_recent_capture d i k today days \<longleftrightarrow>
      (\<exists>c \<in> set (captures d). cs_organization_id c = Some i \<and> cs_connector c = k \<and> today - dt_date (cs_captured_at c) \<le> days)" for i k
  proof -
    let ?cs = "filter (\<lambda>c. cs_organization_id c = Some i \<and> cs_connector c = k) (captures d)"
    have mono: "a \<le> b \<Longrightarrow> dt_date a \<le> dt_date b" for a b
      by (simp add: dt_date_def us_per_day_def zdiv_mono1)
    show ?thesis
    proof (cases "py_max_by cs_captured_at ?cs")
      case None
      then show ?thesis by (auto simp: has_recent_capture_def filter_empty_conv)
    next
      case (Some m)
      have m: "m \<in> set ?cs" "\<forall>x \<in> set ?cs. cs_captured_at x \<le> cs_captured_at m"
        using py_max_by_Some [OF Some] by blast+
      have le: "dt_date (cs_captured_at x) \<le> dt_date (cs_captured_at m)" if "x \<in> set ?cs" for x
        using m(2) that mono by simp
      have "has_recent_capture d i k today days \<longleftrightarrow> today - dt_date (cs_captured_at m) \<le> days"
        using Some by (simp add: has_recent_capture_def)
      also have "\<dots> \<longleftrightarrow> (\<exists>x \<in> set ?cs. today - dt_date (cs_captured_at x) \<le> days)"
        using m(1) le by (smt (verit, best))
      finally show ?thesis by auto
    qed
  qed
  show ?thesis
    by (cases org; cases ty) (auto simp: organization_capture_is_live_def Let_def recent)
qed

section \<open>The scheduler's run\<close>

definition runnable :: "control_test \<Rightarrow> bool" where
  "runnable t \<longleftrightarrow> \<not> scan_owned t \<and>
     (case map_of (case ct_assertion t of None \<Rightarrow> [] | Some a \<Rightarrow> a) ''odp_key'' of
        None \<Rightarrow> True | Some v \<Rightarrow> truthy v \<longrightarrow> (\<exists>s. v = JStr s))"

definition tally :: "nat \<Rightarrow> nat \<Rightarrow> nat \<Rightarrow> (string \<times> nat) list" where
  "tally p w f = [(''evaluated'', p + w + f), (''pass'', p), (''warn'', w), (''fail'', f)]"

lemma eval_connector_status: "fst (eval_connector t conn today) \<in> {''pass'', ''warn'', ''fail''}"
  by (simp add: eval_connector_def Let_def split: option.split)

lemma evaluate_test_ok:
  assumes "runnable t"
  obtains s dt r where "evaluate_test d t today = Inr (s, dt, r)" "s \<in> {''pass'', ''warn'', ''fail''}"
proof -
  let ?c = "let conn = connector_for d t
     in case eval_connector t conn today of (status, detail) \<Rightarrow> Inr (status, detail, map_option cc_name conn)"
  have conn: "\<exists>s dt r. ?c = Inr (s, dt, r) \<and> s \<in> {''pass'', ''warn'', ''fail''}"
    using eval_connector_status [of t "connector_for d t" today]
    by (cases "eval_connector t (connector_for d t) today") (simp only: Let_def prod.case sum.inject prod.inject fst_conv, blast)
  have "\<exists>s dt r. evaluate_test d t today = Inr (s, dt, r) \<and> s \<in> {''pass'', ''warn'', ''fail''}"
  proof (cases "map_of (case ct_assertion t of None \<Rightarrow> [] | Some a \<Rightarrow> a) ''odp_key''")
    case None
    then have "evaluate_test d t today = ?c"
      using assms by (simp add: evaluate_test_def runnable_def split: option.split)
    then show ?thesis using conn by simp
  next
    case (Some v)
    then obtain a where a: "ct_assertion t = Some a" by (cases "ct_assertion t") auto
    show ?thesis
    proof (cases "truthy v")
      case False
      then have "evaluate_test d t today = ?c"
        using assms Some a by (simp add: evaluate_test_def runnable_def)
      then show ?thesis using conn by simp
    next
      case True
      then obtain s where v: "v = JStr s" using assms Some by (auto simp: runnable_def)
      obtain snap where snap: "latest_capture d t = Inr snap"
        using Some True v a by (simp add: latest_capture_def)
      show ?thesis
        using Some True a snap assms
        by (cases snap) (simp_all add: evaluate_test_def runnable_def split: prod.split)
    qed
  qed
  then show thesis using that by blast
qed

lemma bump_tally:
  "rbind (bump ''evaluated'' (tally p w f)) (bump ''pass'') = Inr (tally (Suc p) w f)"
  "rbind (bump ''evaluated'' (tally p w f)) (bump ''warn'') = Inr (tally p (Suc w) f)"
  "rbind (bump ''evaluated'' (tally p w f)) (bump ''fail'') = Inr (tally p w (Suc f))"
  by (simp_all add: bump_def tally_def dict_item_def)

lemma run_test_ok:
  assumes "gov_inv d" "runnable t"
  obtains d' p' w' f' where "run_test E today t (d, tally p w f) = Inr (d', tally p' w' f')" "gov_inv d'"
    "p' + w' + f' = p + w + f + of_bool (is_due t today)"
    "length (results d') = length (results d) + of_bool (is_due t today)"
proof (cases "is_due t today")
  case False
  then show thesis using assms by (intro that [of d p w f]) (simp_all add: run_test_def)
next
  case True
  obtain s dt r where ev: "evaluate_test d t today = Inr (s, dt, r)" "s \<in> {''pass'', ''warn'', ''fail''}"
    by (rule evaluate_test_ok [OF assms(2)])
  have v: "ra_status (scheduler_args s dt r) \<in> set VALIDATION_STATUSES"
    using ev(2) by (elim insertE emptyE) (simp_all add: scheduler_args_def vocab)
  obtain d' where d': "record_result E d t (scheduler_args s dt r) = Inr d'" "gov_inv d'"
      "length (results d') = length (results d) + 1"
    using record_result_count [OF assms(1) v] by metis
  have run: "run_test E today t (d, tally p w f) =
      rbind (rbind (bump ''evaluated'' (tally p w f)) (bump s)) (\<lambda>c. Inr (d', c))"
    using True ev(1) d'(1)
    by (simp add: run_test_def) (cases "bump ''evaluated'' (tally p w f)"; simp)
  from ev(2) consider "s = ''pass''" | "s = ''warn''" | "s = ''fail''" by (elim insertE emptyE) simp_all
  then show thesis
  proof cases
    case 1
    show thesis by (rule that [of d' "Suc p" w f]) (use run d' True in \<open>simp_all add: 1 bump_tally\<close>)
  next
    case 2
    show thesis by (rule that [of d' p "Suc w" f]) (use run d' True in \<open>simp_all add: 2 bump_tally\<close>)
  next
    case 3
    show thesis by (rule that [of d' p w "Suc f"]) (use run d' True in \<open>simp_all add: 3 bump_tally\<close>)
  qed
qed



end
