(* ===== verification/Drift.thy ===== *)
theory Drift
  imports Waivers
begin

text \<open>
  Per-resource drift between two results of a check (\<open>posture/drift.py\<close>): the classification of
  one resource's change, the diff of two findings lists, and the reads that feed it from the
  append-only result tables.
\<close>

definition TRANSITION_KINDS :: "string list" where [vocab]:
  "TRANSITION_KINDS =
     [''regressed'', ''recovered'', ''improved'', ''appeared'', ''disappeared'', ''changed'']"

record resource_transition =
  rt_resource_id :: string
  rt_kind :: string
  rt_before :: "string option"
  rt_after :: "string option"
  rt_observed :: "string option"

definition by_id :: "resource_finding list \<Rightarrow> (string \<times> resource_finding) list" where
  "by_id fs = foldl (\<lambda>d f. AList.update (rf_resource_id f) f d) [] fs"

definition PROBLEM_SEVERITY :: "string list" where [vocab]:
  "PROBLEM_SEVERITY = [''manual_review_required'', ''warn'', ''fail'']"

fun index_of :: "'a list \<Rightarrow> 'a \<Rightarrow> nat option" where
  "index_of [] x = None"
| "index_of (y # ys) x = (if x = y then Some 0 else map_option Suc (index_of ys x))"

text \<open>\<open>tuple.index\<close> raises on a value outside \<^const>\<open>PROBLEM_SEVERITY\<close>; \<open>drift_classify\<close>
  only asks about verdicts of \<^const>\<open>REQUIRES_COVER\<close>, which the module asserts to be the
  same set (lemma \<open>problem_severity_complete\<close>).\<close>

definition worse :: "string \<Rightarrow> string \<Rightarrow> bool" where
  "worse before after =
     (case (index_of PROBLEM_SEVERITY before, index_of PROBLEM_SEVERITY after) of
        (Some i, Some j) \<Rightarrow> i < j
      | _ \<Rightarrow> False)"

definition drift_classify :: "resource_finding \<Rightarrow> resource_finding \<Rightarrow> string option" where
  "drift_classify before after =
     (let was_problem = rf_verdict before \<in> set REQUIRES_COVER;
          is_problem = rf_verdict after \<in> set REQUIRES_COVER
      in if \<not> was_problem \<and> is_problem then Some ''regressed''
         else if was_problem \<and> \<not> is_problem
         then (if rf_verdict after = ''pass'' then Some ''recovered'' else Some ''changed'')
         else if was_problem \<and> is_problem
         then (if rf_verdict before \<noteq> rf_verdict after
               then (if worse (rf_verdict before) (rf_verdict after)
                     then Some ''regressed'' else Some ''improved'')
               else if rf_observed before \<noteq> rf_observed after then Some ''changed'' else None)
         else if rf_verdict before \<noteq> rf_verdict after \<or> rf_observed before \<noteq> rf_observed after
         then Some ''changed'' else None)"

definition transition_for ::
  "resource_finding option \<Rightarrow> resource_finding option \<Rightarrow> string \<Rightarrow> resource_transition option" where
  "transition_for was now r =
     (case (was, now) of
        (None, Some n) \<Rightarrow>
          Some \<lparr>rt_resource_id = r, rt_kind = ''appeared'', rt_before = None,
                rt_after = Some (rf_verdict n), rt_observed = Some (rf_observed n)\<rparr>
      | (Some b, None) \<Rightarrow>
          Some \<lparr>rt_resource_id = r, rt_kind = ''disappeared'', rt_before = Some (rf_verdict b),
                rt_after = None, rt_observed = None\<rparr>
      | (None, None) \<Rightarrow> None
      | (Some b, Some n) \<Rightarrow>
          (case drift_classify b n of
             None \<Rightarrow> None
           | Some k \<Rightarrow>
               Some \<lparr>rt_resource_id = r, rt_kind = k, rt_before = Some (rf_verdict b),
                     rt_after = Some (rf_verdict n), rt_observed = Some (rf_observed n)\<rparr>))"

definition diff_resources ::
  "resource_finding list \<Rightarrow> resource_finding list \<Rightarrow> resource_transition list" where
  "diff_resources before after =
     (let old = by_id before; new = by_id after
      in List.map_filter (\<lambda>r. transition_for (map_of old r) (map_of new r) r)
           (sorted_set (map fst old @ map fst new)))"

definition findings_for_result :: "db \<Rightarrow> int \<Rightarrow> resource_finding list" where
  "findings_for_result s result_id =
     map (\<lambda>r. \<lparr>rf_resource_id = rr_resource_id r, rf_resource_type = rr_resource_type r,
               rf_verdict = rr_verdict r,
               rf_observed = (case rr_observed r of None \<Rightarrow> [] | Some x \<Rightarrow> x),
               rf_detail = rr_detail r\<rparr>)
       (filter (\<lambda>r. rr_result_id r = result_id) (resource_results s))"

definition latest_drift :: "db \<Rightarrow> int \<Rightarrow> resource_transition list" where
  "latest_drift s test_id =
     (case take 2 (rev (sort (map cr_id (filter (\<lambda>r. cr_control_test_id r = test_id) (results s))))) of
        [newer, older] \<Rightarrow>
          diff_resources (findings_for_result s older) (findings_for_result s newer)
      | _ \<Rightarrow> [])"

record timeline_entry =
  te_result_id :: int
  te_run_at :: datetime
  te_verdict :: string
  te_observed :: "string option"
  te_detail :: "(string \<times> json) list"
  te_waiver_id :: "int option"

definition resource_timeline :: "db \<Rightarrow> int \<Rightarrow> string \<Rightarrow> int \<Rightarrow> timeline_entry list" where
  "resource_timeline s test_id resource_id lim =
     take (nat (max 1 (min lim 500)))
       (rev (sort_key te_result_id
         (concat (map (\<lambda>row.
            map (\<lambda>res. \<lparr>te_result_id = cr_id res, te_run_at = cr_run_at res,
                        te_verdict = rr_verdict row, te_observed = rr_observed row,
                        te_detail = rr_detail row, te_waiver_id = rr_waiver_id row\<rparr>)
              (filter (\<lambda>res. cr_id res = rr_result_id row \<and> cr_control_test_id res = test_id)
                (results s)))
            (filter (\<lambda>row. rr_resource_id row = resource_id) (resource_results s))))))"

section \<open>Lemmas\<close>

lemma problem_severity_complete:
  "set PROBLEM_SEVERITY = set REQUIRES_COVER"
  "v \<in> set REQUIRES_COVER \<Longrightarrow> index_of PROBLEM_SEVERITY v \<noteq> None"
  by (auto simp: REQUIRES_COVER_eq vocab)

text \<open>The finding a diff sees for a resource: the last one the provider reported.\<close>

definition last_finding :: "resource_finding list \<Rightarrow> string \<Rightarrow> resource_finding option" where
  "last_finding fs r = List.find (\<lambda>f. rf_resource_id f = r) (rev fs)"

lemma map_of_by_id: "map_of (by_id fs) r = last_finding fs r"
  unfolding by_id_def last_finding_def by (induction fs rule: rev_induct) auto

lemma by_id_keys: "set (map fst (by_id fs)) = rf_resource_id ` set fs"
proof -
  have "r \<in> set (map fst (by_id fs)) \<longleftrightarrow> map_of (by_id fs) r \<noteq> None" for r
    by (auto simp: map_of_eq_None_iff)
  then have "r \<in> set (map fst (by_id fs)) \<longleftrightarrow> r \<in> rf_resource_id ` set fs" for r
    by (auto simp: map_of_by_id last_finding_def find_None_iff)
  then show ?thesis by blast
qed

lemma last_finding_Some: "last_finding fs r = Some f \<Longrightarrow> f \<in> set fs \<and> rf_resource_id f = r"
  by (auto simp: last_finding_def find_Some_iff) (metis nth_mem set_rev length_rev)

lemma last_finding_None: "last_finding fs r = None \<longleftrightarrow> r \<notin> rf_resource_id ` set fs"
  by (auto simp: last_finding_def find_None_iff)

lemma set_map_filter: "set (List.map_filter f xs) = {y. \<exists>x \<in> set xs. f x = Some y}"
  by (induction xs) (auto simp: map_filter_simps split: option.splits)

lemma map_filter_distinct_sorted:
  assumes "\<And>x y. f x = Some y \<Longrightarrow> g y = x" "distinct xs" "sorted xs"
  shows "distinct (map g (List.map_filter f xs)) \<and> sorted (map g (List.map_filter f xs))"
  using assms(2,3)
proof (induction xs)
  case (Cons x xs)
  have "set (map g (List.map_filter f xs)) \<subseteq> set xs"
    using assms(1) by (auto simp: set_map_filter)
  with Cons show ?case
    using assms(1) [of x] by (auto simp: map_filter_simps split: option.splits)
qed (simp add: map_filter_simps)

lemma transition_for_id: "transition_for was now r = Some t \<Longrightarrow> rt_resource_id t = r"
  by (auto simp: transition_for_def split: option.splits)

lemma diff_resources_mem:
  "t \<in> set (diff_resources before after) \<longleftrightarrow>
     transition_for (last_finding before (rt_resource_id t)) (last_finding after (rt_resource_id t))
       (rt_resource_id t) = Some t"
proof -
  have "transition_for (last_finding before r) (last_finding after r) r = Some t \<Longrightarrow>
      r \<in> set (map fst (by_id before) @ map fst (by_id after))" for r
    using by_id_keys [of before] by_id_keys [of after]
    by (auto simp: transition_for_def last_finding_None split: option.splits
        dest!: last_finding_Some)
  then show ?thesis
    by (auto simp: diff_resources_def Let_def map_of_by_id set_map_filter simp del: set_append
        dest: transition_for_id)
qed

lemma drift_classify_recovered:
  "drift_classify b a = Some ''recovered'' \<longleftrightarrow>
     rf_verdict b \<in> set REQUIRES_COVER \<and> rf_verdict a = ''pass''"
  by (auto simp: drift_classify_def Let_def REQUIRES_COVER_eq)

lemma drift_classify_problem:
  assumes "rf_verdict a \<in> set REQUIRES_COVER" "rf_verdict b \<noteq> rf_verdict a"
  shows "drift_classify b a \<in> {Some ''regressed'', Some ''improved''}"
  using assms by (simp add: drift_classify_def Let_def)

section \<open>Properties\<close>

lemma transition_for_kinds:
  assumes "transition_for was now r = Some t"
  shows "(rt_kind t = ''appeared'' \<longleftrightarrow> was = None) \<and> (rt_kind t = ''disappeared'' \<longleftrightarrow> now = None) \<and>
    (rt_kind t = ''recovered'' \<longleftrightarrow>
      (\<exists>b a. was = Some b \<and> now = Some a \<and> rf_verdict b \<in> set REQUIRES_COVER \<and> rf_verdict a = ''pass''))"
proof -
  consider n where "was = None" "now = Some n" | b where "was = Some b" "now = None"
    | b n where "was = Some b" "now = Some n"
    using assms by (cases was; cases now) (simp_all add: transition_for_def)
  then show ?thesis
  proof cases
    case (3 b n)
    with assms have k: "drift_classify b n = Some (rt_kind t)"
      by (auto simp: transition_for_def split: option.splits)
    have "drift_classify b n \<noteq> Some ''appeared''" "drift_classify b n \<noteq> Some ''disappeared''"
      by (simp_all add: drift_classify_def Let_def)
    with 3 k show ?thesis using drift_classify_recovered [of b n] by simp
  qed (use assms in \<open>simp_all add: transition_for_def, simp_all add: eq_commute\<close>)
qed

text \<open>A drift report lists each changed resource once, in resource-id order, and depends
  only on the last finding each result holds per resource. "Recovered" means exactly: the last
  finding needed cover before and is a pass now; "appeared" and "disappeared" mean exactly that
  one side has no finding for the resource.\<close>

theorem diff_resources_report:
  "sorted (map rt_resource_id (diff_resources before after)) \<and>
   distinct (map rt_resource_id (diff_resources before after)) \<and>
   (\<forall>t \<in> set (diff_resources before after).
      (rt_kind t = ''recovered'' \<longleftrightarrow>
         (\<exists>b a. last_finding before (rt_resource_id t) = Some b \<and> last_finding after (rt_resource_id t) = Some a \<and>
            rf_verdict b \<in> set REQUIRES_COVER \<and> rf_verdict a = ''pass'')) \<and>
      (rt_kind t = ''appeared'' \<longleftrightarrow> rt_resource_id t \<notin> rf_resource_id ` set before) \<and>
      (rt_kind t = ''disappeared'' \<longleftrightarrow> rt_resource_id t \<notin> rf_resource_id ` set after))"
proof (intro conjI ballI)
  have f: "distinct (map rt_resource_id (List.map_filter (\<lambda>r. transition_for (w r) (n r) r) xs)) \<and>
      sorted (map rt_resource_id (List.map_filter (\<lambda>r. transition_for (w r) (n r) r) xs))"
    if "distinct xs" "sorted xs" for w n and xs :: "string list"
    by (rule map_filter_distinct_sorted [OF _ that]) (rule transition_for_id)
  show "sorted (map rt_resource_id (diff_resources before after))"
      "distinct (map rt_resource_id (diff_resources before after))"
    using f by (simp_all add: diff_resources_def Let_def)
  fix t assume "t \<in> set (diff_resources before after)"
  note k = transition_for_kinds [OF this [unfolded diff_resources_mem]]
  show "rt_kind t = ''recovered'' \<longleftrightarrow>
         (\<exists>b a. last_finding before (rt_resource_id t) = Some b \<and> last_finding after (rt_resource_id t) = Some a \<and>
            rf_verdict b \<in> set REQUIRES_COVER \<and> rf_verdict a = ''pass'')" using k by (simp only:)
  show "rt_kind t = ''appeared'' \<longleftrightarrow> rt_resource_id t \<notin> rf_resource_id ` set before"
    using k by (simp only: last_finding_None)
  show "rt_kind t = ''disappeared'' \<longleftrightarrow> rt_resource_id t \<notin> rf_resource_id ` set after"
    using k by (simp only: last_finding_None)
qed

definition example_finding :: "string \<Rightarrow> string \<Rightarrow> resource_finding" where
  "example_finding r v = \<lparr>rf_resource_id = r, rf_resource_type = ''user'', rf_verdict = v,
     rf_observed = ''observed'', rf_detail = []\<rparr>"

theorem diff_resources_report_witness:
  "map rt_kind (diff_resources [example_finding ''u1'' ''fail''] [example_finding ''u1'' ''pass'']) =
     [''recovered''] \<and>
   (\<exists>t \<in> set (diff_resources [example_finding ''u1'' ''fail''] [example_finding ''u1'' ''pass'']).
      rt_kind t = ''recovered'' \<and> last_finding [example_finding ''u1'' ''pass''] (rt_resource_id t) \<noteq> None)"
proof -
  let ?b = "[example_finding ''u1'' ''fail'']" and ?a = "[example_finding ''u1'' ''pass'']"
  have d: "map rt_kind (diff_resources ?b ?a) = [''recovered'']" by code_simp
  then obtain t where t: "t \<in> set (diff_resources ?b ?a)" "rt_kind t = ''recovered''" by auto
  with diff_resources_report [of ?b ?a]
  have "last_finding ?a (rt_resource_id t) \<noteq> None" by (metis option.distinct(1))
  with d t show ?thesis by blast
qed

text \<open>No problem is hidden: a resource whose last finding now needs cover, and whose last
  finding before was absent or had another verdict, is reported as appeared, regressed or
  improved, never as recovered.\<close>

theorem diff_resources_no_hidden_problem:
  assumes "last_finding after r = Some a" "rf_verdict a \<in> set REQUIRES_COVER"
    and "\<And>b. last_finding before r = Some b \<Longrightarrow> rf_verdict b \<noteq> rf_verdict a"
  shows "\<exists>t \<in> set (diff_resources before after). rt_resource_id t = r \<and>
    rt_after t = Some (rf_verdict a) \<and> rt_kind t \<in> {''appeared'', ''regressed'', ''improved''}"
proof (cases "last_finding before r")
  case None
  define t where "t = \<lparr>rt_resource_id = r, rt_kind = ''appeared'', rt_before = None,
    rt_after = Some (rf_verdict a), rt_observed = Some (rf_observed a)\<rparr>"
  have "t \<in> set (diff_resources before after)"
    unfolding diff_resources_mem using None assms(1) by (simp add: t_def transition_for_def)
  then show ?thesis by (rule rev_bexI) (simp add: t_def)
next
  case (Some b)
  with assms(2) assms(3) [OF Some] drift_classify_problem [of a b]
  obtain k where k: "drift_classify b a = Some k" "k \<in> {''regressed'', ''improved''}" by auto
  define t where "t = \<lparr>rt_resource_id = r, rt_kind = k, rt_before = Some (rf_verdict b),
    rt_after = Some (rf_verdict a), rt_observed = Some (rf_observed a)\<rparr>"
  have "t \<in> set (diff_resources before after)"
    unfolding diff_resources_mem using Some assms(1) k(1) by (simp add: t_def transition_for_def)
  then show ?thesis using k(2) by (intro rev_bexI [of t]) (auto simp: t_def)
qed

theorem diff_resources_no_hidden_problem_witness:
  "\<exists>t \<in> set (diff_resources [example_finding ''u1'' ''fail''] [example_finding ''u1'' ''warn'']).
     rt_resource_id t = ''u1'' \<and> rt_after t = Some ''warn'' \<and>
     rt_kind t \<in> {''appeared'', ''regressed'', ''improved''}"
proof -
  have a: "last_finding [example_finding ''u1'' ''warn''] ''u1'' = Some (example_finding ''u1'' ''warn'')"
    by (simp add: last_finding_def example_finding_def)
  have v: "rf_verdict (example_finding ''u1'' ''warn'') = ''warn''" by (simp add: example_finding_def)
  have "\<exists>t \<in> set (diff_resources [example_finding ''u1'' ''fail''] [example_finding ''u1'' ''warn'']).
     rt_resource_id t = ''u1'' \<and> rt_after t = Some (rf_verdict (example_finding ''u1'' ''warn'')) \<and>
     rt_kind t \<in> {''appeared'', ''regressed'', ''improved''}"
  proof (rule diff_resources_no_hidden_problem [OF a])
    show "rf_verdict (example_finding ''u1'' ''warn'') \<in> set REQUIRES_COVER"
      by (simp add: v REQUIRES_COVER_eq)
    fix b assume "last_finding [example_finding ''u1'' ''fail''] ''u1'' = Some b"
    then show "rf_verdict b \<noteq> rf_verdict (example_finding ''u1'' ''warn'')"
      by (auto simp: last_finding_def example_finding_def)
  qed
  then show ?thesis by (simp only: v)
qed

end
