(* ===== verification/Audit_Trail.thy ===== *)
theory Audit_Trail
  imports Json
begin

text \<open>
  The tamper-evident audit trail: \<open>api/audit.py\<close> (redaction, the hash chain, \<open>record_event\<close>,
  the request middleware) and the verification endpoint of \<open>api/routes/audit.py\<close>.

  \<open>hashlib.sha256(...).hexdigest()\<close> is the parameter \<open>H\<close>; what is used of it is that its
  result has 64 characters. \<open>_lock_chain\<close> is the lock of the step relation \<open>chain_step\<close>, in
  which transactions of many appenders interleave.
\<close>

section \<open>Rows and state\<close>

record audit_log =
  al_id :: int
  al_organization_id :: "int option"
  al_actor :: "string option"
  al_action :: string
  al_entity_type :: string
  al_entity_id :: "string option"
  al_diff :: json
  al_prev_hash :: "string option"
  al_row_hash :: "string option"

record audit_store =
  rows :: "audit_log list"
  row_seq :: int

definition GENESIS :: string where
  "GENESIS = replicate 64 CHR ''0''"

definition MUTATING :: "string list" where [vocab]:
  "MUTATING = [''POST'', ''PUT'', ''PATCH'', ''DELETE'']"

definition ACTION :: "(string \<times> string) list" where [vocab]:
  "ACTION = [(''POST'', ''create''), (''PUT'', ''update''), (''PATCH'', ''update''), (''DELETE'', ''delete'')]"

definition SKIP_PREFIXES :: "string list" where [vocab]:
  "SKIP_PREFIXES = [''/metrics'', ''/healthz'', ''/readyz'', ''/livez'', ''/static'', ''/api/audit'']"

definition REDACT :: "string list" where [vocab]:
  "REDACT = [''password'', ''token'', ''secret'', ''api_token'', ''key'', ''credential'', ''private'']"

definition MAX_BODY :: nat where
  "MAX_BODY = 8192"

section \<open>Content\<close>

definition path_parts :: "string \<Rightarrow> string list" where
  "path_parts path = filter (\<lambda>p. p \<noteq> []) (split_on CHR ''/'' path)"

definition entity_of :: "string \<Rightarrow> string \<times> string option" where
  "entity_of path =
     (let parts = path_parts path;
          parts' = (case parts of [] \<Rightarrow> [] | p # ps \<Rightarrow> if p = ''api'' then ps else parts)
      in (case parts' of [] \<Rightarrow> ''root'' | p # _ \<Rightarrow> p,
          List.find all_digits (drop 1 parts')))"

definition sensitive :: "string \<Rightarrow> bool" where
  "sensitive k \<longleftrightarrow> list_ex (\<lambda>s. is_substring s (lower k)) REDACT"

fun redact :: "json \<Rightarrow> json" where
  "redact (JObj kvs) =
     JObj (map (\<lambda>kv. (fst kv, if sensitive (fst kv) then JStr ''***'' else redact (snd kv))) kvs)"
| "redact (JList xs) = JList (map redact xs)"
| "redact v = v"

definition jopt :: "string option \<Rightarrow> json" where
  "jopt s = (case s of None \<Rightarrow> JNull | Some x \<Rightarrow> JStr x)"

definition content_of :: "string option \<Rightarrow> string \<Rightarrow> string \<Rightarrow> string option \<Rightarrow> json \<Rightarrow> json" where
  "content_of actor action entity_type entity_id diff =
     JObj [(''actor'', jopt actor), (''action'', JStr action), (''entity_type'', JStr entity_type),
           (''entity_id'', jopt entity_id), (''diff'', diff)]"

definition canonical :: "json \<Rightarrow> string" where
  "canonical payload = dumps_compact (sort_keys payload)"

definition row_hash :: "(string \<Rightarrow> string) \<Rightarrow> string \<Rightarrow> json \<Rightarrow> string" where
  "row_hash H prev payload = H (prev @ [CHR 0x0A] @ canonical payload)"

section \<open>Appending\<close>

definition or_genesis :: "string option \<Rightarrow> string" where
  "or_genesis h = (case h of None \<Rightarrow> GENESIS | Some x \<Rightarrow> if x = [] then GENESIS else x)"

definition newest :: "audit_log list \<Rightarrow> audit_log option" where
  "newest rs = first_row (rev (sort_key al_id rs))"

definition chain_head :: "audit_log list \<Rightarrow> string" where
  "chain_head rs = or_genesis (Option.bind (newest rs) al_row_hash)"

definition make_row ::
  "(string \<Rightarrow> string) \<Rightarrow> audit_log list \<Rightarrow> int \<Rightarrow> string option \<Rightarrow> string \<Rightarrow> string \<Rightarrow> string option \<Rightarrow> json \<Rightarrow>
     int option \<Rightarrow> audit_log" where
  "make_row H rs i actor action entity_type entity_id diff org =
     (let prev = chain_head rs
      in \<lparr>al_id = i, al_organization_id = org, al_actor = actor, al_action = action,
          al_entity_type = entity_type, al_entity_id = entity_id, al_diff = diff,
          al_prev_hash = Some prev,
          al_row_hash = Some (row_hash H prev (content_of actor action entity_type entity_id diff))\<rparr>)"

record audit_event =
  ae_actor :: string
  ae_action :: string
  ae_entity_type :: string
  ae_entity_id :: "string option"
  ae_diff :: json
  ae_organization_id :: "int option"

definition record_event :: "(string \<Rightarrow> string) \<Rightarrow> audit_store \<Rightarrow> audit_event \<Rightarrow> audit_store" where
  "record_event H s e =
     \<lparr>rows = rows s @ [make_row H (rows s) (row_seq s) (Some (ae_actor e)) (ae_action e)
                (ae_entity_type e) (ae_entity_id e) (redact (ae_diff e)) (ae_organization_id e)],
      row_seq = row_seq s + 1\<rparr>"

section \<open>The middleware\<close>

text \<open>\<open>write_ok\<close> is whether the transaction that writes the row commits: an exception there is
  logged and the response goes out unchanged.\<close>

record principal =
  pr_email :: string
  pr_user_id :: "int option"
  pr_org_id :: "int option"

record request =
  rq_method :: string
  rq_path :: string
  rq_content_type :: string
  rq_body_len :: nat
  rq_body_json :: "json option" \<comment> \<open>\<open>json.loads\<close> of the body, \<open>None\<close> when it raises\<close>
  rq_x_actor :: "string option"
  rq_principal :: "principal option"
  rq_audit_recorded :: bool

definition capture_body :: "request \<Rightarrow> string \<Rightarrow> json option" where
  "capture_body rq method =
     (if method \<notin> set MUTATING then None
      else if \<not> is_prefix_of ''application/json'' (rq_content_type rq) then None
      else if rq_body_len rq = 0 \<or> MAX_BODY < rq_body_len rq then None
      else map_option redact (rq_body_json rq))"

definition skipped_path :: "string \<Rightarrow> bool" where
  "skipped_path path \<longleftrightarrow> list_ex (\<lambda>p. is_prefix_of p path) SKIP_PREFIXES"

definition audited_principal :: "request \<Rightarrow> principal option" where
  "audited_principal rq =
     (case rq_principal rq of None \<Rightarrow> None | Some p \<Rightarrow> if pr_user_id p \<noteq> None then Some p else None)"

definition actor_of :: "request \<Rightarrow> string \<Rightarrow> string" where
  "actor_of rq default_actor =
     (let email = (case audited_principal rq of None \<Rightarrow> [] | Some p \<Rightarrow> pr_email p);
          header = (case rq_x_actor rq of None \<Rightarrow> [] | Some a \<Rightarrow> a)
      in if email \<noteq> [] then email else if header \<noteq> [] then header else default_actor)"

definition audit_middleware ::
  "(string \<Rightarrow> string) \<Rightarrow> string \<Rightarrow> bool \<Rightarrow> audit_store \<Rightarrow> request \<Rightarrow> int \<Rightarrow> audit_store \<times> request" where
  "audit_middleware H default_actor write_ok s rq status =
     (let method = upper (rq_method rq); path = rq_path rq;
          body = (if method \<in> set MUTATING \<and> \<not> skipped_path path then capture_body rq method else None)
      in if \<not> (method \<in> set MUTATING \<and> 200 \<le> status \<and> status < 400 \<and> \<not> skipped_path path) then (s, rq)
         else if rq_audit_recorded rq then (s, rq)
         else
           (let (entity_type, entity_id) = entity_of path;
                diff = JObj ([(''method'', JStr method), (''path'', JStr path), (''status'', JInt status)]
                        @ (case body of None \<Rightarrow> [] | Some b \<Rightarrow> [(''body'', b)]));
                row = make_row H (rows s) (row_seq s) (Some (actor_of rq default_actor))
                        (get_default ACTION method (lower method)) entity_type entity_id diff
                        (Option.bind (audited_principal rq) pr_org_id)
            in (if write_ok then \<lparr>rows = rows s @ [row], row_seq = row_seq s + 1\<rparr> else s,
                rq\<lparr>rq_audit_recorded := True\<rparr>)))"

section \<open>Verification\<close>

record verify_result =
  vr_ok :: bool
  vr_broken_at_id :: "int option"
  vr_checked :: nat
  vr_total :: nat

definition row_content :: "audit_log \<Rightarrow> json" where
  "row_content r = content_of (al_actor r) (al_action r) (al_entity_type r) (al_entity_id r) (al_diff r)"

fun verify_loop :: "(string \<Rightarrow> string) \<Rightarrow> nat \<Rightarrow> string \<Rightarrow> nat \<Rightarrow> audit_log list \<Rightarrow> verify_result" where
  "verify_loop H n_rows prev checked [] =
     \<lparr>vr_ok = True, vr_broken_at_id = None, vr_checked = checked, vr_total = n_rows\<rparr>"
| "verify_loop H n_rows prev checked (r # rs) =
     (case al_row_hash r of
        None \<Rightarrow> verify_loop H n_rows prev checked rs
      | Some h \<Rightarrow>
          if al_prev_hash r \<noteq> Some prev \<or> h \<noteq> row_hash H (or_genesis (al_prev_hash r)) (row_content r)
          then \<lparr>vr_ok = False, vr_broken_at_id = Some (al_id r), vr_checked = checked, vr_total = n_rows\<rparr>
          else verify_loop H n_rows h (checked + 1) rs)"

definition verify_chain :: "(string \<Rightarrow> string) \<Rightarrow> audit_log list \<Rightarrow> verify_result" where
  "verify_chain H rs = verify_loop H (length rs) GENESIS 0 (sort_key al_id rs)"

section \<open>Concurrent appenders\<close>

text \<open>The lock \<open>pg_advisory_xact_lock\<close> is held from before the head is read until the holder's
  transaction ends. A row takes its id from the sequence when it is flushed; rolled-back ids are
  not reused. Rows written before the chain existed have no hash. The holder reads the committed rows and its own.\<close>

record chain_state =
  committed :: "audit_log list"
  holder :: "nat option"
  pending :: "audit_log list"
  next_row :: int

inductive chain_step :: "(string \<Rightarrow> string) \<Rightarrow> chain_state \<Rightarrow> chain_state \<Rightarrow> bool" for H where
  lock_chain: "holder s = None \<Longrightarrow> chain_step H s (s\<lparr>holder := Some t\<rparr>)"
| append_row: "holder s = Some t \<Longrightarrow>
    chain_step H s (s\<lparr>pending := pending s @ [make_row H (committed s @ pending s) (next_row s)
        actor action entity_type entity_id diff org], next_row := next_row s + 1\<rparr>)"
| commit_tx: "holder s = Some t \<Longrightarrow>
    chain_step H s (s\<lparr>committed := committed s @ pending s, holder := None, pending := []\<rparr>)"
| rollback_tx: "holder s = Some t \<Longrightarrow> chain_step H s (s\<lparr>holder := None, pending := []\<rparr>)"

inductive chain_reachable :: "(string \<Rightarrow> string) \<Rightarrow> chain_state \<Rightarrow> bool" for H where
  chain_init: "list_all (\<lambda>r. al_row_hash r = None \<and> al_id r < n) ls \<Longrightarrow> sorted_wrt (<) (map al_id ls) \<Longrightarrow>
    chain_reachable H \<lparr>committed = ls, holder = None, pending = [], next_row = n\<rparr>"
| chain_next: "chain_reachable H s \<Longrightarrow> chain_step H s s' \<Longrightarrow> chain_reachable H s'"


section \<open>The chain invariant\<close>

definition hex64 :: "(string \<Rightarrow> string) \<Rightarrow> bool" where
  "hex64 H \<longleftrightarrow> (\<forall>x. length (H x) = 64)"

fun chain_end :: "string \<Rightarrow> audit_log list \<Rightarrow> string" where
  "chain_end prev [] = prev"
| "chain_end prev (r # rs) = chain_end (case al_row_hash r of None \<Rightarrow> prev | Some h \<Rightarrow> h) rs"

definition legacy_first :: "audit_log list \<Rightarrow> bool" where
  "legacy_first rs \<longleftrightarrow> rs = [] \<or> al_row_hash (last rs) \<noteq> None \<or> list_all (\<lambda>r. al_row_hash r = None) rs"

definition audit_inv :: "(string \<Rightarrow> string) \<Rightarrow> audit_store \<Rightarrow> bool" where
  "audit_inv H s \<longleftrightarrow> sorted_wrt (<) (map al_id (rows s)) \<and> (\<forall>r \<in> set (rows s). al_id r < row_seq s)
     \<and> legacy_first (rows s) \<and> vr_ok (verify_chain H (rows s))"

lemma GENESIS_length [simp]: "length GENESIS = 64" "GENESIS \<noteq> []"
  by (simp_all add: GENESIS_def)

lemma row_hash_length: "hex64 H \<Longrightarrow> length (row_hash H p c) = 64"
  by (simp add: hex64_def row_hash_def)

lemma sorted_ids_sort_key: "sorted_wrt (<) (map al_id rs) \<Longrightarrow> sort_key al_id rs = rs"
  by (metis strict_sorted_iff sort_key_id_if_sorted sorted_map)

lemma verify_loop_n: "vr_ok (verify_loop H m p a zs) = vr_ok (verify_loop H k p b zs)"
  by (induction zs arbitrary: p a b) (auto split: option.splits)

lemma verify_loop_append:
  "vr_ok (verify_loop H n prev c (xs @ ys)) \<longleftrightarrow>
     vr_ok (verify_loop H n prev c xs) \<and> vr_ok (verify_loop H n (chain_end prev xs) 0 ys)"
proof (induction xs arbitrary: prev c)
  case Nil
  then show ?case using verify_loop_n by simp
qed (simp split: option.splits)

lemma audit_invD:
  assumes "audit_inv H s"
  shows "sorted_wrt (<) (map al_id (rows s))" "\<forall>r \<in> set (rows s). al_id r < row_seq s"
    "legacy_first (rows s)" "vr_ok (verify_loop H n GENESIS c (rows s))"
proof -
  show srt: "sorted_wrt (<) (map al_id (rows s))" and "\<forall>r \<in> set (rows s). al_id r < row_seq s"
    and "legacy_first (rows s)"
    using assms by (simp_all add: audit_inv_def)
  show "vr_ok (verify_loop H n GENESIS c (rows s))"
    using assms sorted_ids_sort_key [OF srt] verify_loop_n [of H n GENESIS c "rows s" "length (rows s)" 0]
    by (simp add: audit_inv_def verify_chain_def)
qed

lemma chain_end_append: "chain_end p (xs @ ys) = chain_end (chain_end p xs) ys"
  by (induction xs arbitrary: p) auto

lemma chain_end_length:
  "hex64 H \<Longrightarrow> length p = 64 \<Longrightarrow> vr_ok (verify_loop H n p c rs) \<Longrightarrow> length (chain_end p rs) = 64"
  by (induction rs arbitrary: p c)
     (auto split: option.splits if_splits simp: row_hash_length)

lemma chain_end_legacy: "list_all (\<lambda>r. al_row_hash r = None) rs \<Longrightarrow> chain_end p rs = p"
  by (induction rs) auto

lemma newest_last: "sorted_wrt (<) (map al_id rs) \<Longrightarrow> newest rs = (if rs = [] then None else Some (last rs))"
  by (cases rs rule: rev_cases) (simp_all add: newest_def sorted_ids_sort_key first_row_def)

lemma chain_head_end:
  assumes "hex64 H" "audit_inv H s"
  shows "chain_head (rows s) = chain_end GENESIS (rows s)"
proof (cases "rows s" rule: rev_cases)
  case Nil
  then show ?thesis by (simp add: chain_head_def newest_def first_row_def or_genesis_def)
next
  case (snoc rs r)
  note srt = audit_invD(1) [OF assms(2)] and leg = audit_invD(3) [OF assms(2)]
  have ok: "vr_ok (verify_loop H 0 GENESIS 0 (rows s))" by (rule audit_invD(4) [OF assms(2)])
  have head: "chain_head (rows s) = or_genesis (al_row_hash r)"
    using srt snoc by (simp add: chain_head_def newest_last)
  show ?thesis
  proof (cases "al_row_hash r")
    case None
    then have "list_all (\<lambda>r. al_row_hash r = None) (rows s)"
      using leg snoc by (simp add: legacy_first_def)
    then show ?thesis using head None by (simp add: chain_end_legacy or_genesis_def)
  next
    case (Some h)
    have "length (chain_end GENESIS (rows s)) = 64"
      by (rule chain_end_length [OF assms(1) _ ok]) simp
    then have "length h = 64" using snoc Some by (simp add: chain_end_append)
    then show ?thesis using head snoc Some by (auto simp: or_genesis_def chain_end_append)
  qed
qed

lemma row_content_make_row [simp]:
  "row_content (make_row H rs i a act t e d org) = content_of a act t e d"
  "al_id (make_row H rs i a act t e d org) = i"
  "al_prev_hash (make_row H rs i a act t e d org) = Some (chain_head rs)"
  "al_row_hash (make_row H rs i a act t e d org) = Some (row_hash H (chain_head rs) (content_of a act t e d))"
  by (simp_all add: make_row_def row_content_def Let_def)

lemma make_row_keeps_inv:
  assumes H: "hex64 H" and inv: "audit_inv H s"
  shows "audit_inv H \<lparr>rows = rows s @ [make_row H (rows s) (row_seq s) a act t e d org],
           row_seq = row_seq s + 1\<rparr>"
proof -
  let ?r = "make_row H (rows s) (row_seq s) a act t e d org"
  note srt = audit_invD(1) [OF inv] and lt = audit_invD(2) [OF inv]
  have ok: "vr_ok (verify_loop H n GENESIS 0 (rows s))" for n by (rule audit_invD(4) [OF inv])
  have srt': "sorted_wrt (<) (map al_id (rows s @ [?r]))"
    using srt lt by (simp add: sorted_wrt_append)
  have end64: "length (chain_end GENESIS (rows s)) = 64"
    by (rule chain_end_length [OF H _ ok]) simp
  have head: "chain_head (rows s) = chain_end GENESIS (rows s)"
    by (rule chain_head_end [OF H inv])
  have "vr_ok (verify_loop H n GENESIS 0 (rows s @ [?r]))" for n
    using ok end64 by (auto simp: verify_loop_append head or_genesis_def)
  then have "vr_ok (verify_chain H (rows s @ [?r]))"
    using srt' by (simp only: verify_chain_def sorted_ids_sort_key)
  then show ?thesis using srt' lt by (auto simp: audit_inv_def legacy_first_def)
qed

section \<open>Append-only logs\<close>

locale append_log =
  fixes append :: "'s \<Rightarrow> 'e \<Rightarrow> 's" and view :: "'s \<Rightarrow> 'r list" and inv :: "'s \<Rightarrow> bool"
  assumes append_grows: "\<exists>r. view (append s e) = view s @ [r]"
    and append_inv: "inv s \<Longrightarrow> inv (append s e)"
begin

lemma run_inv: "inv s \<Longrightarrow> inv (foldl append s es)"
  by (induction es arbitrary: s) (auto intro: append_inv)

lemma run_grows: "\<exists>new. view (foldl append s es) = view s @ new \<and> length new = length es"
proof (induction es arbitrary: s)
  case (Cons e es)
  obtain r where r: "view (append s e) = view s @ [r]" using append_grows by blast
  obtain new where "view (foldl append (append s e) es) = view (append s e) @ new" "length new = length es"
    using Cons.IH by blast
  then show ?case using r by (intro exI [of _ "r # new"]) simp
qed simp

end

interpretation trail: append_log "record_event H" rows "\<lambda>s. hex64 H \<and> audit_inv H s" for H
  by unfold_locales (auto simp: record_event_def intro: make_row_keeps_inv)

section \<open>Properties\<close>

text \<open>Recording any sequence of events keeps the audit chain intact: the rows stay ordered by
  id, legacy rows (without a hash) stay before the chain, verification of the whole table
  succeeds, and every row written before is still there, in its place.\<close>

theorem record_event_keeps_chain:
  assumes "hex64 H" "audit_inv H s"
  shows "audit_inv H (foldl (record_event H) s es) \<and>
    (\<exists>new. rows (foldl (record_event H) s es) = rows s @ new \<and> length new = length es)"
  using trail.run_inv [of H s es] trail.run_grows [of H s es] assms by simp_all

definition sample_event :: audit_event where
  "sample_event = \<lparr>ae_actor = ''ana'', ae_action = ''create'', ae_entity_type = ''poam'', ae_entity_id = Some ''3'',
     ae_diff = JObj [(''api_key'', JStr ''s3cr3t''), (''note'', JStr ''x'')], ae_organization_id = Some 1\<rparr>"

definition const_hash :: "string \<Rightarrow> string" where
  "const_hash x = replicate 64 CHR ''a''"

lemma hex64_const_hash: "hex64 const_hash"
  by (simp add: hex64_def const_hash_def)

lemma audit_inv_empty: "audit_inv H \<lparr>rows = [], row_seq = 1\<rparr>"
  by (simp add: audit_inv_def legacy_first_def verify_chain_def)

theorem record_event_keeps_chain_witness:
  "audit_inv const_hash (foldl (record_event const_hash) \<lparr>rows = [], row_seq = 1\<rparr> [sample_event, sample_event])"
  using record_event_keeps_chain [OF hex64_const_hash audit_inv_empty] by (rule conjunct1)

lemma middleware_cases:
  obtains "audit_middleware H da w s rq status = (s, rq)"
  | "audit_middleware H da w s rq status = (s, rq\<lparr>rq_audit_recorded := True\<rparr>)" "\<not> w"
  | t e d where "audit_middleware H da w s rq status =
      (\<lparr>rows = rows s @ [make_row H (rows s) (row_seq s) (Some (actor_of rq da))
          (get_default ACTION (upper (rq_method rq)) (lower (upper (rq_method rq)))) t e
          (JObj ([(''method'', JStr (upper (rq_method rq))), (''path'', JStr (rq_path rq)), (''status'', JInt status)] @ d))
          (Option.bind (audited_principal rq) pr_org_id)], row_seq = row_seq s + 1\<rparr>,
       rq\<lparr>rq_audit_recorded := True\<rparr>)"
      "d = [] \<or> (\<exists>b. d = [(''body'', redact b)])"
      "upper (rq_method rq) \<in> set MUTATING" "200 \<le> status" "status < 400" "\<not> skipped_path (rq_path rq)"
      "\<not> rq_audit_recorded rq" "w" "entity_of (rq_path rq) = (t, e)"
proof -
  let ?m = "upper (rq_method rq)"
  let ?go = "?m \<in> set MUTATING \<and> 200 \<le> status \<and> status < 400 \<and> \<not> skipped_path (rq_path rq)"
  consider "\<not> ?go \<or> rq_audit_recorded rq" | "?go" "\<not> rq_audit_recorded rq" by blast
  then show thesis
  proof cases
    case 1
    then have "audit_middleware H da w s rq status = (s, rq)"
      unfolding audit_middleware_def Let_def by argo
    then show ?thesis by (rule that(1))
  next
    case 2
    obtain t e where te: "entity_of (rq_path rq) = (t, e)" by (cases "entity_of (rq_path rq)")
    let ?d = "case capture_body rq ?m of None \<Rightarrow> [] | Some b \<Rightarrow> [(''body'', b)]"
    have d: "?d = [] \<or> (\<exists>b. ?d = [(''body'', redact b)])"
      by (cases "rq_body_json rq") (auto simp: capture_body_def)
    show ?thesis
    proof (cases w)
      case True
      show ?thesis
        by (rule that(3) [OF _ d]) (use 2 te True in \<open>simp_all add: audit_middleware_def Let_def del: append_Cons\<close>)
    next
      case False
      show ?thesis
        by (rule that(2)) (use 2 te False in \<open>simp_all add: audit_middleware_def Let_def\<close>)
    qed
  qed
qed

text \<open>The middleware keeps the chain intact whatever the request and the response are, rewrites
  nothing, and writes at most one row per request: a row is written only for a mutating method,
  a 2xx or 3xx response and a path that is not excluded, and a request whose row was written is
  marked, so a re-entry with any later status writes nothing more.\<close>

theorem audit_middleware_spec:
  assumes "hex64 H" "audit_inv H s" "audit_middleware H da w s rq status = (s', rq')"
  shows "audit_inv H s' \<and>
    (rows s' = rows s \<or>
      (\<exists>r. rows s' = rows s @ [r] \<and> al_actor r = Some (actor_of rq da)) \<and>
      upper (rq_method rq) \<in> set MUTATING \<and> 200 \<le> status \<and> status < 400 \<and>
      \<not> skipped_path (rq_path rq) \<and> audit_middleware H da w' s' rq' status' = (s', rq'))"
proof (cases rule: middleware_cases [of H da w s rq status])
  case (3 t e d)
  note eq = 3(1) [unfolded assms(3) prod.inject]
  have "rq_audit_recorded rq'" using eq by simp
  then have re: "audit_middleware H da w' s' rq' status' = (s', rq')"
    by (simp add: audit_middleware_def Let_def)
  have "audit_inv H s'" using eq make_row_keeps_inv [OF assms(1,2)] by simp
  moreover have "\<exists>r. rows s' = rows s @ [r] \<and> al_actor r = Some (actor_of rq da)"
    using eq by (simp add: make_row_def Let_def)
  ultimately show ?thesis using 3(3-6) re by blast
qed (use assms in simp_all)

definition sample_request :: request where
  "sample_request = \<lparr>rq_method = ''post'', rq_path = ''/api/poams/7'', rq_content_type = ''application/json'',
     rq_body_len = 20, rq_body_json = Some (JObj [(''password'', JStr ''hunter2''), (''title'', JStr ''t'')]),
     rq_x_actor = None, rq_principal = None, rq_audit_recorded = False\<rparr>"

theorem audit_middleware_spec_witness:
  "audit_inv const_hash (fst (audit_middleware const_hash ''system'' True \<lparr>rows = [], row_seq = 1\<rparr> sample_request 201))
   \<and> length (rows (fst (audit_middleware const_hash ''system'' True \<lparr>rows = [], row_seq = 1\<rparr> sample_request 201))) = 1"
proof -
  let ?m = "audit_middleware const_hash ''system'' True \<lparr>rows = [], row_seq = 1\<rparr> sample_request 201"
  have "audit_inv const_hash (fst ?m)"
    using audit_middleware_spec [OF hex64_const_hash audit_inv_empty, of "''system''" True sample_request 201 "fst ?m" "snd ?m"]
    by (simp only: prod.collapse)
  moreover have "length (rows (fst ?m)) = 1" by code_simp
  ultimately show ?thesis by blast
qed

lemma reachable_inv:
  assumes "hex64 H" "chain_reachable H s"
  shows "audit_inv H \<lparr>rows = committed s, row_seq = next_row s\<rparr> \<and>
    audit_inv H \<lparr>rows = committed s @ pending s, row_seq = next_row s\<rparr> \<and> (holder s = None \<longrightarrow> pending s = [])"
  using assms(2)
proof (induction rule: chain_reachable.induct)
  case (chain_init n ls)
  have "vr_ok (verify_loop H k p c ls)" for k p c
    using chain_init(1) by (induction ls arbitrary: p c) auto
  then have "vr_ok (verify_chain H ls)"
    by (simp only: verify_chain_def sorted_ids_sort_key [OF chain_init(2)])
  then show ?case
    using chain_init by (auto simp: audit_inv_def legacy_first_def list_all_iff)
next
  case (chain_next s s')
  have mono: "audit_inv H \<lparr>rows = rs, row_seq = n\<rparr> \<Longrightarrow> audit_inv H \<lparr>rows = rs, row_seq = n + 1\<rparr>" for rs n
    by (auto simp: audit_inv_def)
  from chain_next.hyps(2) show ?case
  proof (cases rule: chain_step.cases)
    case (append_row t a act ty e d org)
    then show ?thesis
      using chain_next.IH mono
        make_row_keeps_inv [OF assms(1), of "\<lparr>rows = committed s @ pending s, row_seq = next_row s\<rparr>" a act ty e d org]
      by simp
  qed (use chain_next.IH in simp_all)
qed



section \<open>What the chain detects\<close>

definition chained :: "audit_log list \<Rightarrow> audit_log list" where
  "chained rs = filter (\<lambda>r. al_row_hash r \<noteq> None) (sort_key al_id rs)"

definition hash_input :: "audit_log \<Rightarrow> string" where
  "hash_input r = or_genesis (al_prev_hash r) @ [CHR 0x0A] @ canonical (row_content r)"

definition audited_fields ::
  "audit_log \<Rightarrow> string option \<times> string \<times> string \<times> string option \<times> json" where
  "audited_fields r = (al_actor r, al_action r, al_entity_type r, al_entity_id r, sort_keys (al_diff r))"

lemma jopt_inj [simp]: "jopt a = jopt b \<longleftrightarrow> a = b"
  by (auto simp: jopt_def split: option.splits)

lemma sort_keys_jopt [simp]: "sort_keys (jopt a) = jopt a"
  by (simp add: jopt_def split: option.splits)

lemma sort_keys_content: "sort_keys (content_of a act t e d) =
  JObj [(''action'', JStr act), (''actor'', jopt a), (''diff'', sort_keys d), (''entity_id'', jopt e),
        (''entity_type'', JStr t)]"
  by (simp add: content_of_def)

lemma canonical_fields: "canonical (row_content r) = canonical (row_content q) \<longleftrightarrow> audited_fields r = audited_fields q"
  by (auto simp: canonical_def dumps_compact_inj row_content_def sort_keys_content audited_fields_def)

lemma verify_loop_chained:
  "vr_ok (verify_loop H n p c (filter (\<lambda>r. al_row_hash r \<noteq> None) rs)) = vr_ok (verify_loop H n p c rs)"
  by (induction rs arbitrary: p c) (auto split: option.splits)

lemma verify_snoc:
  assumes "hex64 H" "vr_ok (verify_loop H n GENESIS 0 (rs @ [r]))" "al_row_hash r \<noteq> None"
  shows "vr_ok (verify_loop H n GENESIS 0 rs)" "chain_end GENESIS (rs @ [r]) = H (hash_input r)"
    "hash_input r = chain_end GENESIS rs @ [CHR 0x0A] @ canonical (row_content r)"
    "length (chain_end GENESIS rs) = 64"
proof -
  show ok: "vr_ok (verify_loop H n GENESIS 0 rs)" using assms(2) by (simp add: verify_loop_append)
  show len: "length (chain_end GENESIS rs) = 64" by (rule chain_end_length [OF assms(1) _ ok]) simp
  obtain h where h: "al_row_hash r = Some h" using assms(3) by blast
  have prev: "al_prev_hash r = Some (chain_end GENESIS rs)"
    and hash: "h = row_hash H (or_genesis (al_prev_hash r)) (row_content r)"
    using assms(2) h by (auto simp: verify_loop_append split: if_splits)
  have "or_genesis (al_prev_hash r) = chain_end GENESIS rs"
    using prev len by (auto simp: or_genesis_def)
  then show "chain_end GENESIS (rs @ [r]) = H (hash_input r)"
    "hash_input r = chain_end GENESIS rs @ [CHR 0x0A] @ canonical (row_content r)"
    using h hash by (simp_all add: chain_end_append row_hash_def hash_input_def)
qed

lemma same_end_same_rows:
  assumes "hex64 H" "list_all (\<lambda>r. al_row_hash r \<noteq> None) rs" "list_all (\<lambda>r. al_row_hash r \<noteq> None) qs"
    and "vr_ok (verify_loop H n GENESIS 0 rs)" "vr_ok (verify_loop H m GENESIS 0 qs)"
    and "chain_end GENESIS rs = chain_end GENESIS qs"
    and "\<forall>x \<in> hash_input ` set rs. \<forall>y \<in> hash_input ` set qs. H x = H y \<longrightarrow> x = y"
    and "\<forall>x \<in> hash_input ` (set rs \<union> set qs). H x \<noteq> GENESIS"
  shows "map audited_fields rs = map audited_fields qs"
  using assms(2-)
proof (induction rs arbitrary: qs rule: rev_induct)
  case Nil
  show ?case
  proof (cases qs rule: rev_cases)
    case (snoc qs' q)
    then show ?thesis using verify_snoc(2) [OF assms(1), of m qs' q] Nil by auto
  qed simp
next
  case (snoc r rs)
  have r: "vr_ok (verify_loop H n GENESIS 0 rs)" "chain_end GENESIS (rs @ [r]) = H (hash_input r)"
    "hash_input r = chain_end GENESIS rs @ [CHR 0x0A] @ canonical (row_content r)"
    "length (chain_end GENESIS rs) = 64"
    using verify_snoc [OF assms(1) snoc.prems(3)] snoc.prems(1) by simp_all
  show ?case
  proof (cases qs rule: rev_cases)
    case Nil
    then have "H (hash_input r) = GENESIS" using r(2) snoc.prems(5) by simp
    then show ?thesis using snoc.prems(7) by simp
  next
    case (snoc qs' q)
    note qs = snoc
    have q: "vr_ok (verify_loop H m GENESIS 0 qs')" "chain_end GENESIS (qs' @ [q]) = H (hash_input q)"
      "hash_input q = chain_end GENESIS qs' @ [CHR 0x0A] @ canonical (row_content q)"
      "length (chain_end GENESIS qs') = 64"
      using verify_snoc [OF assms(1), of m qs' q] snoc.prems(2,4) qs by simp_all
    have "H (hash_input r) = H (hash_input q)" using snoc.prems(5) r(2) q(2) qs by simp
    moreover have "r \<in> set (rs @ [r])" "q \<in> set qs" using qs by simp_all
    ultimately have "hash_input r = hash_input q"
      using bspec [OF bspec [OF snoc.prems(6) imageI] imageI] by blast
    then have ends: "chain_end GENESIS rs = chain_end GENESIS qs'"
      and "canonical (row_content r) = canonical (row_content q)"
      unfolding r(3) q(3) using r(4) q(4) by simp_all
    moreover have "map audited_fields rs = map audited_fields qs'"
    proof (rule snoc.IH [OF _ _ r(1) q(1) ends])
      show "\<forall>x \<in> hash_input ` set rs. \<forall>y \<in> hash_input ` set qs'. H x = H y \<longrightarrow> x = y"
        using snoc.prems(6) unfolding qs set_append image_Un by blast
    qed (use snoc.prems(1,2,7) qs in simp_all)
    ultimately show ?thesis using qs canonical_fields by simp
  qed
qed

text \<open>C31: tamper evidence. Two audit tables that both verify and end in the same hash record the
  same history: the same number of chained rows, with the same actor, action, entity and diff
  (up to the order of keys) in the same order. So an edit, insertion or removal that still
  verifies either changes the head hash or exhibits a SHA-256 collision (or a preimage of the
  all-zero genesis hash) among the rows of the two tables.\<close>

theorem verified_history_unique:
  assumes "hex64 H" "vr_ok (verify_chain H rs)" "vr_ok (verify_chain H qs)"
    and "chain_end GENESIS (chained rs) = chain_end GENESIS (chained qs)"
    and "\<forall>x \<in> hash_input ` set (chained rs). \<forall>y \<in> hash_input ` set (chained qs). H x = H y \<longrightarrow> x = y"
    and "\<forall>x \<in> hash_input ` (set (chained rs) \<union> set (chained qs)). H x \<noteq> GENESIS"
  shows "map audited_fields (chained rs) = map audited_fields (chained qs)"
proof (rule same_end_same_rows [OF assms(1) _ _ _ _ assms(4-6)])
  show "list_all (\<lambda>r. al_row_hash r \<noteq> None) (chained rs)" "list_all (\<lambda>r. al_row_hash r \<noteq> None) (chained qs)"
    by (simp_all add: chained_def list_all_iff)
  show "vr_ok (verify_loop H (length rs) GENESIS 0 (chained rs))"
    "vr_ok (verify_loop H (length qs) GENESIS 0 (chained qs))"
    using assms(2,3) by (simp_all only: chained_def verify_chain_def verify_loop_chained)
qed

lemma single_row_chain:
  "chained (rows (record_event H \<lparr>rows = [], row_seq = i\<rparr> e)) = rows (record_event H \<lparr>rows = [], row_seq = i\<rparr> e)"
  "vr_ok (verify_chain H (rows (record_event H \<lparr>rows = [], row_seq = i\<rparr> e)))"
  "hash_input ` set (rows (record_event H \<lparr>rows = [], row_seq = i\<rparr> e)) = {hash_input (hd (rows (record_event H \<lparr>rows = [], row_seq = 1\<rparr> e)))}"
  by (simp_all add: chained_def record_event_def verify_chain_def chain_head_def newest_def first_row_def
      or_genesis_def hash_input_def)

theorem verified_history_unique_witness:
  "map audited_fields (chained (rows (record_event const_hash \<lparr>rows = [], row_seq = 1\<rparr> sample_event)))
   = map audited_fields (chained (rows (record_event const_hash \<lparr>rows = [], row_seq = 9\<rparr> sample_event)))"
  by (rule verified_history_unique [OF hex64_const_hash])
     (simp_all only: single_row_chain image_Un, simp_all add: record_event_def const_hash_def row_hash_def GENESIS_def)

text \<open>What the chain does not detect: cutting rows off the end of the table (in id order)
  leaves a table that verifies, so removal of the newest rows passes \<open>/api/audit/verify\<close> unless
  the head hash is kept elsewhere.\<close>

theorem truncation_undetected:
  assumes "vr_ok (verify_chain H rs)"
  shows "vr_ok (verify_chain H (take k (sort_key al_id rs)))"
proof -
  let ?s = "sort_key al_id rs"
  have "vr_ok (verify_loop H (length rs) GENESIS 0 (take k ?s @ drop k ?s))"
    using assms by (simp only: verify_chain_def append_take_drop_id)
  then have "vr_ok (verify_loop H (length rs) GENESIS 0 (take k ?s))"
    by (simp only: verify_loop_append)
  moreover have "sort_key al_id (take k ?s) = take k ?s"
    by (rule sort_key_id_if_sorted) (simp add: take_map [symmetric] sorted_wrt_take)
  ultimately show ?thesis
    using verify_loop_n unfolding verify_chain_def by metis
qed

theorem truncation_undetected_witness:
  "vr_ok (verify_chain const_hash (take 1 (sort_key al_id
     (rows (foldl (record_event const_hash) \<lparr>rows = [], row_seq = 1\<rparr> [sample_event, sample_event])))))"
  by (rule truncation_undetected) code_simp

section \<open>Redaction\<close>

fun no_secret :: "json \<Rightarrow> bool" where
  "no_secret (JObj kvs) \<longleftrightarrow>
     (\<forall>kv \<in> set kvs. if sensitive (fst kv) then snd kv = JStr ''***'' else no_secret (snd kv))"
| "no_secret (JList xs) \<longleftrightarrow> (\<forall>x \<in> set xs. no_secret x)"
| "no_secret v \<longleftrightarrow> True"

lemma redact_no_secret: "no_secret (redact v)"
  by (induction v rule: redact.induct) auto

lemma plain_keys [simp]: "\<not> sensitive ''method''" "\<not> sensitive ''path''" "\<not> sensitive ''status''" "\<not> sensitive ''body''"
  by code_simp+

text \<open>No secret reaches the trail. If no row holds a value under a sensitive key (one that
  contains, in any letter case, one of the redacted words), the same holds after \<open>record_event\<close>
  and after the middleware, at any depth of the recorded document.\<close>

theorem rows_hold_no_secret:
  assumes "\<forall>r \<in> set (rows s). no_secret (al_diff r)"
  shows "(\<forall>r \<in> set (rows (record_event H s e)). no_secret (al_diff r)) \<and>
    (\<forall>r \<in> set (rows (fst (audit_middleware H da w s rq status))). no_secret (al_diff r))"
proof
  show "\<forall>r \<in> set (rows (record_event H s e)). no_secret (al_diff r)"
    using assms redact_no_secret by (auto simp: record_event_def make_row_def Let_def)
  show "\<forall>r \<in> set (rows (fst (audit_middleware H da w s rq status))). no_secret (al_diff r)"
  proof (cases rule: middleware_cases [of H da w s rq status])
    case (3 t en d)
    from 3(2) have "no_secret (JObj ([(''method'', JStr (upper (rq_method rq))), (''path'', JStr (rq_path rq)),
        (''status'', JInt status)] @ d))"
      by (elim disjE exE) (simp_all add: redact_no_secret)
    then show ?thesis using assms 3(1) by (simp add: make_row_def Let_def)
  qed (use assms in simp_all)
qed

theorem rows_hold_no_secret_witness:
  "list_all (\<lambda>r. no_secret (al_diff r)) (rows (record_event const_hash \<lparr>rows = [], row_seq = 1\<rparr> sample_event))"
  unfolding list_all_iff by (rule rows_hold_no_secret [THEN conjunct1]) simp

end
