(* ===== verification/Job_Queue.thy ===== *)
theory Job_Queue
  imports Prelude
begin

text \<open>
  The Postgres job queue: the shared primitives of \<open>queue.py\<close> (claim, reap, dead-letter) and
  their two users, \<open>prep/jobs.py\<close> and \<open>assessment/engine/jobs.py\<close>.

  \<open>JobLike\<close> is the extensible record \<open>job_like\<close>; the two queues extend it. \<open>claim_jobs\<close> and
  \<open>reap_stale_jobs\<close> are the whole operations on a table; \<open>queue_step\<close> splits claiming into the
  \<open>SELECT ... FOR UPDATE SKIP LOCKED\<close> and the \<open>UPDATE\<close> with its commit, so that many workers
  interleave. The pipeline a prep job drives, and the evaluation an assessment job drives, are
  parameters.
\<close>

section \<open>Rows\<close>

record job_like =
  jb_id :: int
  jb_organization_id :: int
  jb_status :: string
  jb_attempts :: nat
  jb_claimed_at :: "datetime option"
  jb_claimed_by :: "string option"
  jb_last_error :: "string option"
  jb_created_at :: datetime

record prep_job = job_like +
  pj_run_id :: int
  pj_next_stage :: string

record assessment_job = job_like +
  aj_control_proposal_id :: int

section \<open>Claim and reap\<close>

definition DEAD_LETTER_REASON :: "nat \<Rightarrow> string" where
  "DEAD_LETTER_REASON cap = fstr [''exceeded max attempts ('', str_of_nat cap, '') via repeated stale reclaim'']"

definition MAX_LAST_ERROR_CHARS :: nat where
  "MAX_LAST_ERROR_CHARS = 4000"

definition truncate_last_error :: "string \<Rightarrow> string" where
  "truncate_last_error text = take MAX_LAST_ERROR_CHARS text"

text \<open>The rows the claiming \<open>SELECT\<close> returns: pending, not locked by another transaction, oldest
  first.\<close>

definition claim_candidates :: "int set \<Rightarrow> nat \<Rightarrow> ('a) job_like_scheme list \<Rightarrow> int list" where
  "claim_candidates locked limit jobs =
     take limit (map jb_id (sort_key jb_created_at (filter (\<lambda>j. jb_status j = ''pending'' \<and> jb_id j \<notin> locked) jobs)))"

definition claim_rows :: "datetime \<Rightarrow> string \<Rightarrow> int list \<Rightarrow> ('a) job_like_scheme list \<Rightarrow> ('a) job_like_scheme list" where
  "claim_rows now worker candidates jobs =
     update_rows (\<lambda>j. jb_id j \<in> set candidates)
       (\<lambda>j. j\<lparr>jb_status := ''claimed'', jb_claimed_by := Some worker, jb_claimed_at := Some now,
              jb_attempts := jb_attempts j + 1\<rparr>) jobs"

definition claim_jobs ::
  "int set \<Rightarrow> datetime \<Rightarrow> string \<Rightarrow> nat \<Rightarrow> ('a) job_like_scheme list \<Rightarrow> ('a) job_like_scheme list \<times> ('a) job_like_scheme list" where
  "claim_jobs locked now worker limit jobs =
     (let candidates = claim_candidates locked limit jobs
      in if candidates = [] then (jobs, [])
         else let jobs' = claim_rows now worker candidates jobs
              in (jobs', filter (\<lambda>j. jb_id j \<in> set candidates) jobs'))"

definition stale :: "datetime \<Rightarrow> int \<Rightarrow> ('a) job_like_scheme \<Rightarrow> bool" where
  "stale now older_than_minutes j \<longleftrightarrow> jb_status j = ''claimed'' \<and>
     (case jb_claimed_at j of None \<Rightarrow> False | Some t \<Rightarrow> t \<le> now - max 1 older_than_minutes * 60000000)"

definition reap_stale_jobs ::
  "datetime \<Rightarrow> int \<Rightarrow> nat \<Rightarrow> ('a) job_like_scheme list \<Rightarrow> ('a) job_like_scheme list \<times> nat \<times> nat" where
  "reap_stale_jobs now older_than_minutes max_attempts jobs =
     (let again = (\<lambda>j. stale now older_than_minutes j \<and> jb_attempts j < max_attempts);
          jobs1 = update_rows again (\<lambda>j. j\<lparr>jb_status := ''pending'', jb_claimed_by := None, jb_claimed_at := None\<rparr>) jobs;
          reason = truncate_last_error (DEAD_LETTER_REASON max_attempts);
          dead = (\<lambda>j. stale now older_than_minutes j \<and> max_attempts \<le> jb_attempts j);
          jobs2 = update_rows dead (\<lambda>j. j\<lparr>jb_status := ''failed'', jb_claimed_by := None, jb_claimed_at := None,
                    jb_last_error := Some reason\<rparr>) jobs1
      in (jobs2, count_if again jobs, count_if dead jobs1))"

definition reap_stale :: "datetime \<Rightarrow> int \<Rightarrow> nat option \<Rightarrow> nat \<Rightarrow> prep_job list \<Rightarrow> prep_job list \<times> nat" where
  "reap_stale now older_than_minutes max_attempts default_cap jobs =
     (let cap = (case max_attempts of None \<Rightarrow> default_cap | Some m \<Rightarrow> m)
      in case reap_stale_jobs now older_than_minutes cap jobs of (jobs', requeued, dead_lettered) \<Rightarrow> (jobs', requeued + dead_lettered))"

definition reap :: "datetime \<Rightarrow> int \<Rightarrow> nat \<Rightarrow> assessment_job list \<Rightarrow> assessment_job list \<times> nat \<times> nat" where
  "reap now stale_after_minutes max_attempts jobs = reap_stale_jobs now stale_after_minutes max_attempts jobs"

section \<open>Driving a batch\<close>

text \<open>One claimed batch, job by job: an exception rolls the job's own work back to the savepoint and
  marks the job failed; each outcome is committed before the next job. \<open>drive\<close> returns the new
  working state, the new job row and the outcome; \<open>on_error\<close> is what the recovery writes beside
  the job.\<close>

definition run_job ::
  "('s \<Rightarrow> ('a) job_like_scheme \<Rightarrow> string + ('s \<times> ('a) job_like_scheme \<times> string)) \<Rightarrow> ('a job_like_scheme \<Rightarrow> string \<Rightarrow> 's \<Rightarrow> 's) \<Rightarrow> int \<Rightarrow>
     's \<times> ('a) job_like_scheme list \<times> nat \<times> nat \<Rightarrow> 's \<times> ('a) job_like_scheme list \<times> nat \<times> nat" where
  "run_job drive on_error job_id st =
     (case st of (s, jobs, finished, failed) \<Rightarrow>
        case first_row (filter (\<lambda>j. jb_id j = job_id) jobs) of
          None \<Rightarrow> st
        | Some job \<Rightarrow>
            (case drive s job of
               Inr (s', job', outcome) \<Rightarrow>
                 (s', update_rows (\<lambda>j. jb_id j = job_id) (\<lambda>_. job') jobs,
                  if outcome = ''done'' then finished + 1 else finished,
                  if outcome = ''failed'' then failed + 1 else failed)
             | Inl exc \<Rightarrow>
                 (let last_error = take MAX_LAST_ERROR_CHARS exc
                  in (on_error job last_error s,
                      update_rows (\<lambda>j. jb_id j = job_id) (\<lambda>j. j\<lparr>jb_status := ''failed'', jb_last_error := Some last_error\<rparr>) jobs,
                      finished, failed + 1))))"

definition run_batch ::
  "('s \<Rightarrow> ('a) job_like_scheme \<Rightarrow> string + ('s \<times> ('a) job_like_scheme \<times> string)) \<Rightarrow> ('a job_like_scheme \<Rightarrow> string \<Rightarrow> 's \<Rightarrow> 's) \<Rightarrow>
     datetime \<Rightarrow> string \<Rightarrow> nat \<Rightarrow> 's \<Rightarrow> ('a) job_like_scheme list \<Rightarrow> 's \<times> ('a) job_like_scheme list \<times> nat \<times> nat \<times> nat" where
  "run_batch drive on_error now worker limit s jobs =
     (case claim_jobs {} now worker limit jobs of (jobs1, claimed) \<Rightarrow>
        case foldl (\<lambda>st i. run_job drive on_error i st) (s, jobs1, 0, 0) (map jb_id claimed) of
          (s', jobs2, finished, failed) \<Rightarrow> (s', jobs2, length claimed, finished, failed))"

subsection \<open>Preparation jobs\<close>

record prep_run =
  pr_run_org :: int
  pr_status :: string
  pr_error :: "string option"
  pr_next_stage :: "string option"

definition TERMINAL :: "string list" where [vocab]:
  "TERMINAL = [''complete'', ''unsupported'', ''orphaned'']"

definition drive_prep ::
  "('s \<Rightarrow> int \<Rightarrow> prep_run option) \<Rightarrow> ('s \<Rightarrow> int \<Rightarrow> string + ('s \<times> prep_run)) \<Rightarrow> 's \<Rightarrow> prep_job \<Rightarrow> string + ('s \<times> prep_job \<times> string)" where
  "drive_prep load_run advance s job =
     (case load_run s (pj_run_id job) of
        None \<Rightarrow> Inr (s, job\<lparr>jb_status := ''failed'', jb_last_error := Some (fstr [''run '', str_of_int (pj_run_id job), '' no longer exists''])\<rparr>,
                    ''failed'')
      | Some _ \<Rightarrow>
          (case advance s (pj_run_id job) of
             Inl exc \<Rightarrow> Inl exc
           | Inr (s', run) \<Rightarrow>
               (let job1 = job\<lparr>jb_organization_id := pr_run_org run\<rparr>
                in if pr_status run \<in> set TERMINAL then Inr (s', job1\<lparr>jb_status := ''done''\<rparr>, ''done'')
                   else if pr_status run = ''failed''
                   then Inr (s', job1\<lparr>jb_status := ''failed'', jb_last_error := pr_error run\<rparr>, ''failed'')
                   else Inr (s', job1\<lparr>jb_status := ''pending'', jb_claimed_by := None, jb_claimed_at := None,
                                      pj_next_stage := (case pr_next_stage run of None \<Rightarrow> ''parse'' | Some n \<Rightarrow> if n = [] then ''parse'' else n)\<rparr>,
                             ''pending''))))"

definition prep_run_once ::
  "('s \<Rightarrow> int \<Rightarrow> prep_run option) \<Rightarrow> ('s \<Rightarrow> int \<Rightarrow> string + ('s \<times> prep_run)) \<Rightarrow> datetime \<Rightarrow> string \<Rightarrow> nat \<Rightarrow> 's \<Rightarrow> prep_job list \<Rightarrow>
     's \<times> prep_job list \<times> nat \<times> nat \<times> nat" where
  "prep_run_once load_run advance now worker limit s jobs =
     run_batch (drive_prep load_run advance) (\<lambda>_ _ s. s) now worker limit s jobs"

subsection \<open>Assessment jobs\<close>

record control_proposal =
  cp_id :: int
  cp_organization_id :: int
  cp_state :: string
  cp_error :: "string option"

definition drive_assessment ::
  "(control_proposal \<Rightarrow> control_proposal list \<Rightarrow> string + control_proposal list) \<Rightarrow> control_proposal list \<Rightarrow> assessment_job \<Rightarrow>
     string + (control_proposal list \<times> assessment_job \<times> string)" where
  "drive_assessment evaluate ps job =
     (case first_row (filter (\<lambda>p. cp_id p = aj_control_proposal_id job) ps) of
        None \<Rightarrow> Inr (ps, job\<lparr>jb_status := ''failed'', jb_last_error :=
                    Some (fstr [''control proposal '', str_of_int (aj_control_proposal_id job), '' no longer exists''])\<rparr>, ''failed'')
      | Some p \<Rightarrow> (case evaluate p ps of Inl exc \<Rightarrow> Inl exc | Inr ps' \<Rightarrow> Inr (ps', job\<lparr>jb_status := ''done''\<rparr>, ''done'')))"

definition fail_proposal :: "assessment_job \<Rightarrow> string \<Rightarrow> control_proposal list \<Rightarrow> control_proposal list" where
  "fail_proposal job err ps =
     update_rows (\<lambda>p. cp_id p = aj_control_proposal_id job) (\<lambda>p. p\<lparr>cp_state := ''failed'', cp_error := Some err\<rparr>) ps"

definition assessment_run_once ::
  "(control_proposal \<Rightarrow> control_proposal list \<Rightarrow> string + control_proposal list) \<Rightarrow> datetime \<Rightarrow> string \<Rightarrow> nat \<Rightarrow> control_proposal list \<Rightarrow>
     assessment_job list \<Rightarrow> control_proposal list \<times> assessment_job list \<times> nat \<times> nat \<times> nat" where
  "assessment_run_once evaluate now worker limit ps jobs =
     run_batch (drive_assessment evaluate) fail_proposal now worker limit ps jobs"

definition OUTSTANDING_JOB_STATUSES :: "string list" where [vocab]:
  "OUTSTANDING_JOB_STATUSES = [''pending'', ''claimed'']"

text \<open>Queueing the evaluation of a proposal already opened: the newest outstanding job is reused.\<close>

definition enqueue_for_proposal ::
  "datetime \<Rightarrow> int \<Rightarrow> control_proposal \<Rightarrow> assessment_job list \<Rightarrow> assessment_job list \<times> assessment_job" where
  "enqueue_for_proposal now new_id p jobs =
     (case py_max_by jb_id (filter (\<lambda>j. aj_control_proposal_id j = cp_id p \<and> jb_status j \<in> set OUTSTANDING_JOB_STATUSES) jobs) of
        Some j \<Rightarrow> (jobs, j)
      | None \<Rightarrow>
          (let job = \<lparr>jb_id = new_id, jb_organization_id = cp_organization_id p, jb_status = ''pending'', jb_attempts = 0,
                      jb_claimed_at = None, jb_claimed_by = None, jb_last_error = None, jb_created_at = now,
                      aj_control_proposal_id = cp_id p\<rparr>
           in (jobs @ [job], job)))"

section \<open>Concurrent workers\<close>

text \<open>\<open>q_locks\<close> holds the rows a worker's claiming transaction has locked, \<open>q_log\<close> records every
  claim that commits: worker, job, attempt. A worker that finishes a job writes it by id: the row
  may have been reaped meanwhile. \<open>progress\<close> says whether a job may go back to pending after
  successful work, as preparation jobs may.\<close>

record queue_state =
  q_jobs :: "job_like list"
  q_locks :: "string \<rightharpoonup> int list"
  q_log :: "(string \<times> int \<times> nat) list"

definition locked_ids :: "queue_state \<Rightarrow> int set" where
  "locked_ids s = (\<Union>ids \<in> ran (q_locks s). set ids)"

definition claims_of :: "string \<Rightarrow> int list \<Rightarrow> job_like list \<Rightarrow> (string \<times> int \<times> nat) list" where
  "claims_of worker ids jobs =
     map (\<lambda>j. (worker, jb_id j, jb_attempts j + 1)) (filter (\<lambda>j. jb_id j \<in> set ids) jobs)"

inductive queue_step :: "nat \<Rightarrow> bool \<Rightarrow> queue_state \<Rightarrow> queue_state \<Rightarrow> bool" for cap progress where
  enqueue: "jb_id j \<notin> jb_id ` set (q_jobs s) \<Longrightarrow> jb_status j = ''pending'' \<Longrightarrow> jb_attempts j = 0 \<Longrightarrow>
    (\<forall>e \<in> set (q_log s). fst (snd e) \<noteq> jb_id j) \<Longrightarrow>
    queue_step cap progress s (s\<lparr>q_jobs := q_jobs s @ [j]\<rparr>)"
| select_for_update: "q_locks s w = None \<Longrightarrow>
    queue_step cap progress s (s\<lparr>q_locks := (q_locks s)(w \<mapsto> claim_candidates (locked_ids s) limit (q_jobs s))\<rparr>)"
| commit_claim: "q_locks s w = Some ids \<Longrightarrow>
    queue_step cap progress s (s\<lparr>q_jobs := claim_rows now w ids (q_jobs s), q_locks := (q_locks s)(w := None),
      q_log := q_log s @ claims_of w ids (q_jobs s)\<rparr>)"
| abort_claim: "q_locks s w = Some ids \<Longrightarrow> queue_step cap progress s (s\<lparr>q_locks := (q_locks s)(w := None)\<rparr>)"
| finish: "(w, i, n) \<in> set (q_log s) \<Longrightarrow> i \<notin> locked_ids s \<Longrightarrow> outcome \<in> {''done'', ''failed''} \<Longrightarrow>
    queue_step cap progress s (s\<lparr>q_jobs := update_rows (\<lambda>j. jb_id j = i) (\<lambda>j. j\<lparr>jb_status := outcome\<rparr>) (q_jobs s)\<rparr>)"
| requeue_progress: "progress \<Longrightarrow> (w, i, n) \<in> set (q_log s) \<Longrightarrow> i \<notin> locked_ids s \<Longrightarrow>
    queue_step cap progress s (s\<lparr>q_jobs := update_rows (\<lambda>j. jb_id j = i)
      (\<lambda>j. j\<lparr>jb_status := ''pending'', jb_claimed_by := None, jb_claimed_at := None\<rparr>) (q_jobs s)\<rparr>)"
| reap_step: "queue_step cap progress s (s\<lparr>q_jobs := fst (reap_stale_jobs now older cap (q_jobs s))\<rparr>)"

inductive queue_reachable :: "nat \<Rightarrow> bool \<Rightarrow> queue_state \<Rightarrow> bool" for cap progress where
  queue_init: "queue_reachable cap progress \<lparr>q_jobs = [], q_locks = Map.empty, q_log = []\<rparr>"
| queue_next: "queue_reachable cap progress s \<Longrightarrow> queue_step cap progress s s' \<Longrightarrow> queue_reachable cap progress s'"

section \<open>The queue invariant\<close>

definition claimable_below :: "nat \<Rightarrow> ('a) job_like_scheme \<Rightarrow> bool" where
  "claimable_below cap j \<longleftrightarrow> jb_attempts j \<le> max 1 cap \<and> (jb_status j = ''pending'' \<longrightarrow> jb_attempts j < max 1 cap)"

definition queue_inv :: "nat \<Rightarrow> bool \<Rightarrow> queue_state \<Rightarrow> bool" where
  "queue_inv cap progress s \<longleftrightarrow>
     distinct (map jb_id (q_jobs s)) \<and>
     (\<forall>w ids. q_locks s w = Some ids \<longrightarrow> (\<forall>j \<in> set (q_jobs s). jb_id j \<in> set ids \<longrightarrow> jb_status j = ''pending'')) \<and>
     (\<forall>w ids. q_locks s w = Some ids \<longrightarrow> set ids \<subseteq> jb_id ` set (q_jobs s)) \<and>
     (\<forall>w w' ids ids'. w \<noteq> w' \<longrightarrow> q_locks s w = Some ids \<longrightarrow> q_locks s w' = Some ids' \<longrightarrow> set ids \<inter> set ids' = {}) \<and>
     (\<forall>w i n. (w, i, n) \<in> set (q_log s) \<longrightarrow> 0 < n \<and> (\<exists>j \<in> set (q_jobs s). jb_id j = i \<and> n \<le> jb_attempts j)) \<and>
     distinct (map snd (q_log s)) \<and>
     (progress \<or> (\<forall>j \<in> set (q_jobs s). claimable_below cap j))"

lemma queue_invI:
  assumes "q_jobs s = jobs" "q_locks s = locks" "q_log s = log"
    and "distinct (map jb_id jobs)"
    and "\<And>w ids j. locks w = Some ids \<Longrightarrow> j \<in> set jobs \<Longrightarrow> jb_id j \<in> set ids \<Longrightarrow> jb_status j = ''pending''"
    and "\<And>w ids i. locks w = Some ids \<Longrightarrow> i \<in> set ids \<Longrightarrow> i \<in> jb_id ` set jobs"
    and "\<And>w w' ids ids' i. w \<noteq> w' \<Longrightarrow> locks w = Some ids \<Longrightarrow> locks w' = Some ids' \<Longrightarrow> i \<in> set ids \<Longrightarrow> i \<in> set ids' \<Longrightarrow> False"
    and "\<And>w i n. (w, i, n) \<in> set log \<Longrightarrow> 0 < n \<and> (\<exists>j \<in> set jobs. jb_id j = i \<and> n \<le> jb_attempts j)"
    and "distinct (map snd log)"
    and "\<And>j. \<not> progress \<Longrightarrow> j \<in> set jobs \<Longrightarrow> claimable_below cap j"
  shows "queue_inv cap progress s"
  unfolding queue_inv_def assms(1-3) using assms(4-) by (intro conjI allI impI ballI) blast+

lemma queue_invD:
  assumes "queue_inv cap progress s"
  shows "distinct (map jb_id (q_jobs s))"
    "\<And>w ids j. q_locks s w = Some ids \<Longrightarrow> j \<in> set (q_jobs s) \<Longrightarrow> jb_id j \<in> set ids \<Longrightarrow> jb_status j = ''pending''"
    "\<And>w ids i. q_locks s w = Some ids \<Longrightarrow> i \<in> set ids \<Longrightarrow> i \<in> jb_id ` set (q_jobs s)"
    "\<And>w w' ids ids' i. w \<noteq> w' \<Longrightarrow> q_locks s w = Some ids \<Longrightarrow> q_locks s w' = Some ids' \<Longrightarrow> i \<in> set ids \<Longrightarrow> i \<in> set ids' \<Longrightarrow> False"
    "\<And>w i n. (w, i, n) \<in> set (q_log s) \<Longrightarrow> 0 < n \<and> (\<exists>j \<in> set (q_jobs s). jb_id j = i \<and> n \<le> jb_attempts j)"
    "distinct (map snd (q_log s))"
    "\<And>j. \<not> progress \<Longrightarrow> j \<in> set (q_jobs s) \<Longrightarrow> claimable_below cap j"
  using assms unfolding queue_inv_def by (blast dest: subsetD)+

lemma locked_idsI: "q_locks s w = Some ids \<Longrightarrow> i \<in> set ids \<Longrightarrow> i \<in> locked_ids s"
  by (auto simp: locked_ids_def ran_def)

lemma locked_idsE:
  assumes "i \<in> locked_ids s"
  obtains w ids where "q_locks s w = Some ids" "i \<in> set ids"
  using assms by (auto simp: locked_ids_def ran_def)

lemma claim_candidates_pending:
  assumes "i \<in> set (claim_candidates locked limit jobs)"
  shows "\<exists>j \<in> set jobs. jb_id j = i \<and> jb_status j = ''pending'' \<and> i \<notin> locked"
  using assms unfolding claim_candidates_def by (auto dest!: in_set_takeD)

lemma candidate_rows_pending:
  assumes "distinct (map jb_id jobs)" "j \<in> set jobs" "jb_id j \<in> set (claim_candidates locked limit jobs)"
  shows "jb_status j = ''pending''"
proof -
  obtain k where k: "k \<in> set jobs" "jb_id k = jb_id j" "jb_status k = ''pending''"
    using claim_candidates_pending [OF assms(3)] by blast
  have "k = j" using assms(1,2) k(1,2) by (metis distinct_map inj_onD)
  then show ?thesis using k(3) by simp
qed

text \<open>Every step but \<open>enqueue\<close> rewrites rows in place.\<close>

lemma inv_rewrite:
  assumes "queue_inv cap progress s"
    and id: "\<And>j. jb_id (g j) = jb_id j" and att: "\<And>j. jb_attempts j \<le> jb_attempts (g j)"
    and pend: "\<And>j. j \<in> set (q_jobs s) \<Longrightarrow> jb_id j \<in> locked_ids s \<Longrightarrow> jb_status j = ''pending'' \<Longrightarrow> jb_status (g j) = ''pending''"
    and cap: "\<And>j. \<not> progress \<Longrightarrow> j \<in> set (q_jobs s) \<Longrightarrow> claimable_below cap j \<Longrightarrow> claimable_below cap (g j)"
  shows "queue_inv cap progress (s\<lparr>q_jobs := map g (q_jobs s)\<rparr>)"
proof (rule queue_invI [where jobs = "map g (q_jobs s)" and locks = "q_locks s" and log = "q_log s"])
  note I = queue_invD [OF assms(1)]
  show "distinct (map jb_id (map g (q_jobs s)))" using I(1) id by (simp add: comp_def)
  show "jb_status j = ''pending''" if h: "q_locks s w = Some ids" "j \<in> set (map g (q_jobs s))" "jb_id j \<in> set ids" for w ids j
  proof -
    obtain k where k: "k \<in> set (q_jobs s)" "j = g k" using h(2) by auto
    have kid: "jb_id k \<in> set ids" using h(3) k(2) id by simp
    have kp: "jb_status k = ''pending''" by (rule I(2) [OF h(1) k(1) kid])
    show ?thesis unfolding k(2) by (rule pend [OF k(1) locked_idsI [OF h(1) kid] kp])
  qed
  show "i \<in> jb_id ` set (map g (q_jobs s))" if "q_locks s w = Some ids" "i \<in> set ids" for w ids i
    using I(3) [OF that] id by (auto simp: image_image)
  show "False" if "w \<noteq> w'" "q_locks s w = Some ids" "q_locks s w' = Some ids'" "i \<in> set ids" "i \<in> set ids'" for w w' ids ids' i
    by (rule I(4) [OF that])
  show "0 < n \<and> (\<exists>j \<in> set (map g (q_jobs s)). jb_id j = i \<and> n \<le> jb_attempts j)" if h: "(w, i, n) \<in> set (q_log s)" for w i n
  proof -
    obtain j where j: "j \<in> set (q_jobs s)" "jb_id j = i" "n \<le> jb_attempts j" "0 < n"
      using I(5) [OF h] by blast
    have "n \<le> jb_attempts (g j)" using j(3) att [of j] by (rule le_trans)
    then show ?thesis using j id by auto
  qed
  show "distinct (map snd (q_log s))" by (rule I(6))
  show "claimable_below cap j" if "\<not> progress" "j \<in> set (map g (q_jobs s))" for j
    using that cap I(7) by auto
qed simp_all

definition reap_row :: "datetime \<Rightarrow> int \<Rightarrow> nat \<Rightarrow> ('a) job_like_scheme \<Rightarrow> ('a) job_like_scheme" where
  "reap_row now older cap j =
     (if \<not> stale now older j then j
      else if jb_attempts j < cap then j\<lparr>jb_status := ''pending'', jb_claimed_by := None, jb_claimed_at := None\<rparr>
      else j\<lparr>jb_status := ''failed'', jb_claimed_by := None, jb_claimed_at := None,
             jb_last_error := Some (truncate_last_error (DEAD_LETTER_REASON cap))\<rparr>)"

lemma reap_stale_jobs_rows: "fst (reap_stale_jobs now older cap jobs) = map (reap_row now older cap) jobs"
  by (induction jobs) (auto simp: reap_stale_jobs_def Let_def update_rows_def reap_row_def stale_def)

lemma reap_row_keeps [simp]:
  "jb_id (reap_row now older cap j) = jb_id j" "jb_attempts (reap_row now older cap j) = jb_attempts j"
  by (simp_all add: reap_row_def)

lemma reap_row_claimable: "claimable_below cap j \<Longrightarrow> claimable_below cap (reap_row now older cap j)"
  by (simp add: reap_row_def claimable_below_def)

lemma reap_row_pending: "jb_status j = ''pending'' \<Longrightarrow> jb_status (reap_row now older cap j) = ''pending''"
  by (simp add: reap_row_def stale_def)

lemma inv_unlock: "queue_inv cap progress s \<Longrightarrow> queue_inv cap progress (s\<lparr>q_locks := (q_locks s)(w := None)\<rparr>)"
  by (rule queue_invI [OF refl refl refl]) (auto dest: queue_invD split: if_split_asm)

lemma inv_commit_claim:
  assumes "queue_inv cap progress s" "q_locks s w = Some ids"
  shows "queue_inv cap progress (s\<lparr>q_jobs := claim_rows now w ids (q_jobs s), q_locks := (q_locks s)(w := None),
      q_log := q_log s @ claims_of w ids (q_jobs s)\<rparr>)"
proof -
  note I = queue_invD [OF assms(1)]
  define g :: "job_like \<Rightarrow> job_like" where "g j = (if jb_id j \<in> set ids then j\<lparr>jb_status := ''claimed'', jb_claimed_by := Some w,
      jb_claimed_at := Some now, jb_attempts := jb_attempts j + 1\<rparr> else j)" for j
  let ?u = "s\<lparr>q_locks := (q_locks s)(w := None)\<rparr>"
  have free: "i \<notin> locked_ids ?u" if "i \<in> set ids" for i
  proof
    assume "i \<in> locked_ids ?u"
    then obtain v ids' where "((q_locks s)(w := None)) v = Some ids'" "i \<in> set ids'" by (auto elim: locked_idsE)
    then show False using I(4) [of v w ids' ids i] assms(2) that by (auto split: if_split_asm)
  qed
  have rows: "map g (q_jobs s) = claim_rows now w ids (q_jobs s)"
    by (simp add: claim_rows_def update_rows_def g_def)
  have "queue_inv cap progress (?u\<lparr>q_jobs := map g (q_jobs ?u)\<rparr>)"
  proof (rule inv_rewrite [OF inv_unlock [OF assms(1)]])
    fix j show "jb_id (g j) = jb_id j" "jb_attempts j \<le> jb_attempts (g j)" by (simp_all add: g_def)
    show "jb_status (g j) = ''pending''" if "jb_id j \<in> locked_ids ?u" "jb_status j = ''pending''"
      using that free by (auto simp: g_def)
    show "claimable_below cap (g j)" if "claimable_below cap j" "j \<in> set (q_jobs ?u)"
      using that I(2) [OF assms(2)] by (auto simp: g_def claimable_below_def)
  qed
  then have v: "queue_inv cap progress (s\<lparr>q_locks := (q_locks s)(w := None), q_jobs := claim_rows now w ids (q_jobs s)\<rparr>)"
    (is "queue_inv _ _ ?v") by (simp add: rows)
  note V = queue_invD [OF v]
  have new: "\<exists>j \<in> set (q_jobs s). jb_id j \<in> set ids \<and> e = (w, jb_id j, jb_attempts j + 1)"
    if "e \<in> set (claims_of w ids (q_jobs s))" for e
    using that by (auto simp: claims_of_def)
  have fresh: "snd e \<notin> snd ` set (q_log s)" if h: "e \<in> set (claims_of w ids (q_jobs s))" for e
  proof
    assume "snd e \<in> snd ` set (q_log s)"
    then obtain u where u: "(u, snd e) \<in> set (q_log s)" by auto
    obtain j where j: "j \<in> set (q_jobs s)" "e = (w, jb_id j, jb_attempts j + 1)" using new [OF h] by blast
    obtain k where k: "k \<in> set (q_jobs s)" "jb_id k = jb_id j" "jb_attempts j + 1 \<le> jb_attempts k"
      using I(5) [of u "jb_id j" "jb_attempts j + 1"] u j(2) by auto
    have "k = j" using I(1) j(1) k(1,2) by (metis distinct_map inj_onD)
    then show False using k(3) by simp
  qed
  have "distinct (map jb_id (filter (\<lambda>j. jb_id j \<in> set ids) (q_jobs s)))"
    using I(1) by (rule distinct_map_filter)
  then have "distinct (map snd (claims_of w ids (q_jobs s)))"
    by (simp add: claims_of_def comp_def distinct_map inj_on_def)
  moreover have "snd ` set (q_log s) \<inter> snd ` set (claims_of w ids (q_jobs s)) = {}"
  proof (rule Int_emptyI)
    fix x assume "x \<in> snd ` set (q_log s)" "x \<in> snd ` set (claims_of w ids (q_jobs s))"
    then show False using fresh by (metis imageE)
  qed
  ultimately have dl: "distinct (map snd (q_log s @ claims_of w ids (q_jobs s)))"
    using I(6) by (simp only: map_append distinct_append set_map simp_thms)
  have cover: "0 < n \<and> (\<exists>j \<in> set (claim_rows now w ids (q_jobs s)). jb_id j = i \<and> n \<le> jb_attempts j)"
    if h: "(u, i, n) \<in> set (claims_of w ids (q_jobs s))" for u i n
  proof -
    obtain j where j: "j \<in> set (q_jobs s)" "jb_id j \<in> set ids" "i = jb_id j" "n = jb_attempts j + 1"
      using new [OF h] by blast
    have "g j \<in> set (claim_rows now w ids (q_jobs s))" using j(1) by (simp flip: rows)
    then show ?thesis using j by (auto simp: g_def intro!: bexI [of _ "g j"])
  qed
  show ?thesis
  proof (rule queue_invI [where jobs = "claim_rows now w ids (q_jobs s)" and locks = "(q_locks s)(w := None)" and
        log = "q_log s @ claims_of w ids (q_jobs s)"])
    show "distinct (map snd (q_log s @ claims_of w ids (q_jobs s)))" by (rule dl)
    show "0 < n \<and> (\<exists>j \<in> set (claim_rows now w ids (q_jobs s)). jb_id j = i \<and> n \<le> jb_attempts j)"
      if "(u, i, n) \<in> set (q_log s @ claims_of w ids (q_jobs s))" for u i n
      using that cover V(5) [of u i n] by auto
  qed (use V in \<open>simp_all, blast+\<close>)
qed

lemma step_keeps_inv:
  assumes "queue_inv cap progress s" "queue_step cap progress s s'"
  shows "queue_inv cap progress s'"
  using assms(2)
proof (cases rule: queue_step.cases)
  case (enqueue j)
  note I = queue_invD [OF assms(1)]
  have out: "q_locks s w = Some ids \<Longrightarrow> jb_id j \<notin> set ids" for w ids
    using I(3) enqueue(2) by blast
  show ?thesis unfolding enqueue(1)
    by (rule queue_invI [OF refl refl refl]) (use I enqueue out in \<open>auto simp: claimable_below_def\<close>)
next
  case (select_for_update w limit)
  note I = queue_invD [OF assms(1)]
  let ?c = "claim_candidates (locked_ids s) limit (q_jobs s)"
  have free: "i \<notin> locked_ids s \<and> i \<in> jb_id ` set (q_jobs s)" if "i \<in> set ?c" for i
    using claim_candidates_pending [OF that] by blast
  have apart: "q_locks s v = Some ids \<Longrightarrow> i \<in> set ids \<Longrightarrow> i \<in> set ?c \<Longrightarrow> False" for v ids i
    using free locked_idsI by blast
  show ?thesis unfolding select_for_update(1)
  proof (rule queue_invI [where jobs = "q_jobs s" and locks = "(q_locks s)(w \<mapsto> ?c)" and log = "q_log s"])
    show "jb_status j = ''pending''"
      if "((q_locks s)(w \<mapsto> ?c)) v = Some ids" "j \<in> set (q_jobs s)" "jb_id j \<in> set ids" for v ids j
      using that candidate_rows_pending [OF I(1) that(2)] I(2) [of v ids j] by (auto split: if_split_asm)
    show "i \<in> jb_id ` set (q_jobs s)" if "((q_locks s)(w \<mapsto> ?c)) v = Some ids" "i \<in> set ids" for v ids i
      using that free I(3) [of v ids i] by (auto split: if_split_asm)
    show False if "v \<noteq> v'" "((q_locks s)(w \<mapsto> ?c)) v = Some ids" "((q_locks s)(w \<mapsto> ?c)) v' = Some ids'"
      "i \<in> set ids" "i \<in> set ids'" for v v' ids ids' i
      using that apart I(4) [of v v' ids ids' i] by (auto split: if_split_asm)
  qed (simp, simp, simp, rule I(1), erule I(5), rule I(6), erule (1) I(7))
next
  case (commit_claim w ids now)
  then show ?thesis using inv_commit_claim [OF assms(1)] by simp
next
  case (abort_claim w ids)
  then show ?thesis using inv_unlock [OF assms(1)] by simp
next
  case (finish w i n outcome)
  show ?thesis
    unfolding finish(1) update_rows_def
    by (rule inv_rewrite [OF assms(1)]) (use finish(3,4) in \<open>auto simp: claimable_below_def\<close>)
next
  case (requeue_progress w i n)
  show ?thesis
    unfolding requeue_progress(1) update_rows_def
    by (rule inv_rewrite [OF assms(1)]) (use requeue_progress(2-) in auto)
next
  case (reap_step now older)
  show ?thesis
    unfolding reap_step reap_stale_jobs_rows
    by (rule inv_rewrite [OF assms(1)]) (simp_all add: reap_row_claimable reap_row_pending)
qed

lemma queue_reachable_inv: "queue_reachable cap progress s \<Longrightarrow> queue_inv cap progress s"
proof (induction rule: queue_reachable.induct)
  case queue_init
  then show ?case by (simp add: queue_inv_def)
qed (rule step_keeps_inv)

section \<open>Properties\<close>

text \<open>C14: exactly-once claiming. However any number of workers, reapers, crashes and late finishers
  interleave, two claiming transactions never hold the same row, and no attempt of a job is handed
  out twice: the pairs of job and attempt number in the log of claims are distinct.\<close>

theorem claims_are_exclusive:
  assumes "queue_reachable cap progress s"
  shows "(\<forall>w w' ids ids'. w \<noteq> w' \<and> q_locks s w = Some ids \<and> q_locks s w' = Some ids' \<longrightarrow> set ids \<inter> set ids' = {}) \<and>
    distinct (map snd (q_log s))"
  using queue_reachable_inv [OF assms] unfolding queue_inv_def by blast

definition sample_job :: "int \<Rightarrow> job_like" where
  "sample_job i = \<lparr>jb_id = i, jb_organization_id = 1, jb_status = ''pending'', jb_attempts = 0, jb_claimed_at = None,
     jb_claimed_by = None, jb_last_error = None, jb_created_at = i\<rparr>"

lemma sample_queue:
  "\<exists>s. queue_reachable 1 False s \<and> q_log s = [(''w1'', 7, 1)] \<and> map jb_attempts (q_jobs s) = [1]"
proof -
  let ?s0 = "\<lparr>q_jobs = [], q_locks = Map.empty, q_log = []\<rparr> :: queue_state"
  let ?s1 = "?s0\<lparr>q_jobs := q_jobs ?s0 @ [sample_job 7]\<rparr>"
  let ?s2 = "?s1\<lparr>q_locks := (q_locks ?s1)(''w1'' \<mapsto> claim_candidates (locked_ids ?s1) 5 (q_jobs ?s1))\<rparr>"
  let ?ids = "claim_candidates (locked_ids ?s1) 5 (q_jobs ?s1)"
  let ?s3 = "?s2\<lparr>q_jobs := claim_rows 100 ''w1'' ?ids (q_jobs ?s2), q_locks := (q_locks ?s2)(''w1'' := None),
      q_log := q_log ?s2 @ claims_of ''w1'' ?ids (q_jobs ?s2)\<rparr>"
  have 0: "queue_reachable 1 False ?s0" by (rule queue_init)
  have 1: "queue_reachable 1 False ?s1" by (rule queue_next [OF 0], rule enqueue) (simp_all add: sample_job_def)
  have 2: "queue_reachable 1 False ?s2" by (rule queue_next [OF 1], rule select_for_update) simp
  have 3: "queue_reachable 1 False ?s3" by (rule queue_next [OF 2], rule commit_claim) simp
  have ids: "?ids = [7]" by (simp add: claim_candidates_def locked_ids_def sample_job_def)
  show ?thesis
    by (rule exI [of _ ?s3], intro conjI, rule 3)
       (simp_all only: ids, simp_all add: claims_of_def claim_rows_def update_rows_def sample_job_def)
qed

theorem claims_are_exclusive_witness:
  "\<exists>s. queue_reachable 1 False s \<and> q_log s \<noteq> [] \<and> distinct (map snd (q_log s))"
proof -
  obtain s where s: "queue_reachable 1 False s" "q_log s = [(''w1'', 7, 1)]" using sample_queue by blast
  show ?thesis using claims_are_exclusive [OF s(1)] s by (intro exI [of _ s]) simp
qed

text \<open>The retry cap holds. In a queue whose jobs never go back to pending after successful work
  (the assessment queue), a job is claimed at most \<open>max 1 cap\<close> times in its whole life, and a job
  that is pending has been claimed fewer times than that, however often its workers crash.\<close>

theorem retry_cap:
  assumes "queue_reachable cap False s"
  shows "length (filter (\<lambda>e. fst (snd e) = i) (q_log s)) \<le> max 1 cap \<and>
    (\<forall>j \<in> set (q_jobs s). jb_attempts j \<le> max 1 cap \<and> (jb_status j = ''pending'' \<longrightarrow> jb_attempts j < max 1 cap))"
proof
  have inv: "queue_inv cap False s" by (rule queue_reachable_inv [OF assms])
  note I = queue_invD [OF inv]
  show b: "\<forall>j \<in> set (q_jobs s). jb_attempts j \<le> max 1 cap \<and> (jb_status j = ''pending'' \<longrightarrow> jb_attempts j < max 1 cap)"
    using I(7) by (simp add: claimable_below_def)
  let ?mine = "filter (\<lambda>e. fst (snd e) = i) (q_log s)"
  have d: "distinct (map snd ?mine)" using I(6) by (rule distinct_map_filter)
  have sub: "set (map snd ?mine) \<subseteq> Pair i ` {1..max 1 cap}"
  proof
    fix x assume "x \<in> set (map snd ?mine)"
    then obtain w n where x: "x = (i, n)" "(w, i, n) \<in> set (q_log s)" by auto
    obtain j where "j \<in> set (q_jobs s)" "n \<le> jb_attempts j" "0 < n" using I(5) [OF x(2)] by blast
    then have "n \<in> {1..max 1 cap}" using b by force
    then show "x \<in> Pair i ` {1..max 1 cap}" using x(1) by simp
  qed
  have "length ?mine = card (set (map snd ?mine))" using distinct_card [OF d] by simp
  also have "\<dots> \<le> card (Pair i ` {1..max 1 cap})" by (rule card_mono [OF _ sub]) simp
  also have "\<dots> \<le> max 1 cap" using card_image_le [of "{1..max 1 cap}" "Pair i"] by simp
  finally show "length ?mine \<le> max 1 cap" .
qed

theorem retry_cap_witness:
  "\<exists>s. queue_reachable 1 False s \<and> length (filter (\<lambda>e. fst (snd e) = 7) (q_log s)) = 1"
proof -
  obtain s where s: "queue_reachable 1 False s" "q_log s = [(''w1'', 7, 1)]" using sample_queue by blast
  have "length (filter (\<lambda>e. fst (snd e) = 7) (q_log s)) \<le> max 1 1"
    using retry_cap [OF s(1), of 7] by blast
  moreover have "length (filter (\<lambda>e. fst (snd e) = 7) (q_log s)) \<ge> 1" using s(2) by simp
  ultimately show ?thesis using s(1) by (intro exI [of _ s]) simp
qed

subsection \<open>A batch\<close>

lemma claim_jobs_ids:
  assumes "distinct (map jb_id jobs)" "claim_jobs {} now w limit jobs = (jobs1, claimed)"
  shows "map jb_id jobs1 = map jb_id jobs" "distinct (map jb_id claimed)" "set claimed \<subseteq> set jobs1"
    "length claimed \<le> limit" "\<And>j. j \<in> set claimed \<Longrightarrow> jb_claimed_by j = Some w"
proof -
  let ?c = "claim_candidates {} limit jobs"
  have ids: "map jb_id (claim_rows now w ?c jobs) = map jb_id jobs" by (simp add: claim_rows_def)
  show m: "map jb_id jobs1 = map jb_id jobs" using assms(2) ids by (auto simp: claim_jobs_def Let_def split: if_split_asm)
  show d: "distinct (map jb_id claimed)"
    using assms ids by (auto simp: claim_jobs_def Let_def intro!: distinct_map_filter split: if_split_asm)
  show "set claimed \<subseteq> set jobs1" using assms(2) by (auto simp: claim_jobs_def Let_def split: if_split_asm)
  have "jb_id ` set claimed \<subseteq> set ?c" using assms(2) by (auto simp: claim_jobs_def Let_def split: if_split_asm)
  then have "card (jb_id ` set claimed) \<le> length ?c"
    by (meson card_length card_mono finite_set le_trans)
  moreover have "card (jb_id ` set claimed) = length claimed" using distinct_card [OF d] by simp
  moreover have "length ?c \<le> limit" by (simp add: claim_candidates_def)
  ultimately show "length claimed \<le> limit" by simp
  show "j \<in> set claimed \<Longrightarrow> jb_claimed_by j = Some w" for j
    using assms(2) by (auto simp: claim_jobs_def Let_def claim_rows_def set_update_rows split: if_split_asm)
qed

text \<open>What a queue's driver promises: it returns the row it was given, with the status it reports.\<close>

locale job_driver =
  fixes drive :: "'s \<Rightarrow> ('a) job_like_scheme \<Rightarrow> string + ('s \<times> ('a) job_like_scheme \<times> string)"
    and on_error :: "('a) job_like_scheme \<Rightarrow> string \<Rightarrow> 's \<Rightarrow> 's"
  assumes drive_ok: "drive s j = Inr (s', j', out) \<Longrightarrow>
    jb_id j' = jb_id j \<and> jb_status j' = out \<and> out \<in> {''done'', ''failed'', ''pending''}"
begin

lemma run_job_step:
  assumes "distinct (map jb_id jobs)" "run_job drive on_error i (s, jobs, f, x) = (s', jobs', f', x')"
  shows "map jb_id jobs' = map jb_id jobs \<and> f' + x' \<le> f + x + 1 \<and>
    (\<forall>j \<in> set jobs'. if jb_id j = i then jb_status j \<noteq> ''claimed'' else j \<in> set jobs)"
proof (cases "first_row (filter (\<lambda>j. jb_id j = i) jobs)")
  case None
  then have "filter (\<lambda>j. jb_id j = i) jobs = []" by (simp add: first_row_def split: list.splits)
  then show ?thesis using assms(2) None by (auto simp: run_job_def filter_empty_conv)
next
  case (Some job)
  have job: "job \<in> set jobs" "jb_id job = i"
  proof -
    have "job \<in> set (filter (\<lambda>j. jb_id j = i) jobs)"
      using Some by (cases "filter (\<lambda>j. jb_id j = i) jobs") (simp_all add: first_row_def)
    then show "job \<in> set jobs" "jb_id job = i" by simp_all
  qed
  show ?thesis
  proof (cases "drive s job")
    case (Inl e)
    have eq: "jobs' = update_rows (\<lambda>j. jb_id j = i)
        (\<lambda>j. j\<lparr>jb_status := ''failed'', jb_last_error := Some (take MAX_LAST_ERROR_CHARS e)\<rparr>) jobs" "f' = f" "x' = x + 1"
      using assms(2) Some Inl by (simp_all add: run_job_def Let_def)
    show ?thesis unfolding eq ball_update_rows by simp
  next
    case (Inr r)
    obtain s1 j1 out where r: "r = (s1, j1, out)" by (cases r)
    have d: "jb_id j1 = i" "jb_status j1 = out" "out \<in> {''done'', ''failed'', ''pending''}"
      using drive_ok [of s job s1 j1 out] Inr r job(2) by simp_all
    then have ne: "jb_status j1 \<noteq> ''claimed''" by auto
    have eq: "jobs' = update_rows (\<lambda>j. jb_id j = i) (\<lambda>_. j1) jobs"
      "f' = (if out = ''done'' then f + 1 else f)" "x' = (if out = ''failed'' then x + 1 else x)"
      using assms(2) Some Inr r by (simp_all add: run_job_def)
    have "f' + x' \<le> f + x + 1" unfolding eq(2,3) by simp
    moreover have "map jb_id jobs' = map jb_id jobs" unfolding eq(1) using d(1) by (simp add: update_rows_def)
    moreover have "\<forall>j \<in> set jobs'. if jb_id j = i then jb_status j \<noteq> ''claimed'' else j \<in> set jobs"
      unfolding eq(1) ball_update_rows using d(1) ne by simp
    ultimately show ?thesis by blast
  qed
qed

lemma run_jobs:
  assumes "distinct (map jb_id jobs)" "foldl (\<lambda>st i. run_job drive on_error i st) (s, jobs, f, x) ids = (s', jobs', f', x')"
  shows "map jb_id jobs' = map jb_id jobs \<and> f' + x' \<le> f + x + length ids \<and>
    (\<forall>j \<in> set jobs'. (jb_id j \<in> set ids \<longrightarrow> jb_status j \<noteq> ''claimed'') \<and> (jb_id j \<notin> set ids \<longrightarrow> j \<in> set jobs))"
  using assms
proof (induction ids arbitrary: s jobs f x)
  case (Cons i ids)
  obtain s1 jobs1 f1 x1 where st: "run_job drive on_error i (s, jobs, f, x) = (s1, jobs1, f1, x1)"
    by (metis prod_cases4)
  note one = run_job_step [OF Cons.prems(1) st]
  have d: "distinct (map jb_id jobs1)" using one Cons.prems(1) by simp
  have "foldl (\<lambda>st i. run_job drive on_error i st) (s1, jobs1, f1, x1) ids = (s', jobs', f', x')"
    using Cons.prems(2) st by simp
  note rest = Cons.IH [OF d this]
  have rows: "(jb_id j \<in> set (i # ids) \<longrightarrow> jb_status j \<noteq> ''claimed'') \<and> (jb_id j \<notin> set (i # ids) \<longrightarrow> j \<in> set jobs)"
    if "j \<in> set jobs'" for j
  proof (cases "jb_id j \<in> set ids")
    case True
    have "jb_status j \<noteq> ''claimed''" using rest that True by blast
    then show ?thesis using True by simp
  next
    case False
    have j1: "j \<in> set jobs1" using rest that False by blast
    show ?thesis
    proof (cases "jb_id j = i")
      case True
      then have "jb_status j \<noteq> ''claimed''" using one j1 by metis
      then show ?thesis using True by simp
    next
      case False
      then have "j \<in> set jobs" using one j1 by metis
      then show ?thesis using False \<open>jb_id j \<notin> set ids\<close> by simp
    qed
  qed
  have "map jb_id jobs' = map jb_id jobs" "f' + x' \<le> f + x + length (i # ids)" using one rest by simp_all
  then show ?case using rows by blast
qed simp

lemma batch_settles:
  assumes "distinct (map jb_id jobs)" "run_batch drive on_error now w limit s jobs = (s', jobs', claimed, finished, failed)"
  shows "map jb_id jobs' = map jb_id jobs \<and> claimed \<le> limit \<and> finished + failed \<le> claimed \<and>
    (\<forall>j \<in> set jobs'. jb_id j \<in> set (claim_candidates {} limit jobs) \<longrightarrow> jb_status j \<noteq> ''claimed'')"
proof -
  obtain jobs1 cl where c: "claim_jobs {} now w limit jobs = (jobs1, cl)" by (cases "claim_jobs {} now w limit jobs")
  note ids = claim_jobs_ids [OF assms(1) c]
  obtain s2 jobs2 f x where fl: "foldl (\<lambda>st i. run_job drive on_error i st) (s, jobs1, 0, 0) (map jb_id cl) = (s2, jobs2, f, x)"
    by (metis prod_cases4)
  have out: "jobs' = jobs2" "claimed = length cl" "finished = f" "failed = x"
    using assms(2) c fl by (simp_all add: run_batch_def)
  have d1: "distinct (map jb_id jobs1)" using ids(1) assms(1) by simp
  note fold = run_jobs [OF d1 fl]
  have cands: "jb_id j \<in> set (claim_candidates {} limit jobs) \<Longrightarrow> jb_id j \<in> jb_id ` set cl" if "j \<in> set jobs2" for j
  proof -
    assume a: "jb_id j \<in> set (claim_candidates {} limit jobs)"
    have "jb_id j \<in> jb_id ` set jobs1" using fold that by (metis imageI set_map)
    then obtain k where k: "k \<in> set jobs1" "jb_id k = jb_id j" by force
    have "cl = filter (\<lambda>j. jb_id j \<in> set (claim_candidates {} limit jobs)) jobs1"
      using c a by (auto simp: claim_jobs_def Let_def split: if_split_asm)
    then have "k \<in> set cl" using k a by simp
    then show ?thesis using k(2) by (metis imageI)
  qed
  show ?thesis using fold ids(1,4) cands out by auto
qed

end

interpretation prep: job_driver "drive_prep load_run advance" "\<lambda>_ _ s. s" for load_run advance
  by unfold_locales (auto simp: drive_prep_def Let_def split: option.splits sum.splits if_split_asm)

interpretation assessment: job_driver "drive_assessment evaluate" fail_proposal for evaluate
  by unfold_locales (auto simp: drive_assessment_def split: option.splits sum.splits)

text \<open>A worker's batch settles every job it claims. Whatever the stages of a preparation run or
  the evaluation do, an exception included, one pass claims at most \<open>limit\<close> jobs, reports
  \<open>finished + failed \<le> claimed\<close>, changes no job's identity and leaves none of the jobs it selected
  claimed; the same holds for the assessment queue.\<close>

theorem batches_settle:
  assumes "distinct (map jb_id pjobs)" "distinct (map jb_id ajobs)"
  shows "(case prep_run_once load_run advance now w limit st pjobs of (st', jobs', claimed, finished, failed) \<Rightarrow>
      map jb_id jobs' = map jb_id pjobs \<and> claimed \<le> limit \<and> finished + failed \<le> claimed \<and>
      list_all (\<lambda>j. jb_status j \<noteq> ''claimed'') (filter (\<lambda>j. jb_id j \<in> set (claim_candidates {} limit pjobs)) jobs')) \<and>
    (case assessment_run_once evaluate now w limit ps ajobs of (ps', jobs', claimed, finished, failed) \<Rightarrow>
      map jb_id jobs' = map jb_id ajobs \<and> claimed \<le> limit \<and> finished + failed \<le> claimed \<and>
      list_all (\<lambda>j. jb_status j \<noteq> ''claimed'') (filter (\<lambda>j. jb_id j \<in> set (claim_candidates {} limit ajobs)) jobs'))"
proof -
  obtain a b c d e where p: "run_batch (drive_prep load_run advance) (\<lambda>_ _ s. s) now w limit st pjobs = (a, b, c, d, e)"
    by (metis prod_cases5)
  obtain a' b' c' d' e' where q: "run_batch (drive_assessment evaluate) fail_proposal now w limit ps ajobs = (a', b', c', d', e')"
    by (metis prod_cases5)
  show ?thesis
    unfolding prep_run_once_def assessment_run_once_def p q prod.case list_all_iff
    using prep.batch_settles [OF assms(1) p] assessment.batch_settles [OF assms(2) q] by simp
qed

definition sample_prep_job :: prep_job where
  "sample_prep_job = \<lparr>jb_id = 4, jb_organization_id = 1, jb_status = ''pending'', jb_attempts = 0, jb_claimed_at = None,
     jb_claimed_by = None, jb_last_error = None, jb_created_at = 3, pj_run_id = 9, pj_next_stage = ''parse''\<rparr>"

theorem batches_settle_witness:
  "case prep_run_once (\<lambda>s i. Some \<lparr>pr_run_org = 1, pr_status = ''running'', pr_error = None, pr_next_stage = None\<rparr>)
       (\<lambda>s i. Inl ''parser died'') 100 ''w1'' 5 () [sample_prep_job] of (st', jobs', claimed, finished, failed) \<Rightarrow>
     map jb_id jobs' = map jb_id [sample_prep_job] \<and> claimed \<le> 5 \<and> finished + failed \<le> claimed \<and>
     list_all (\<lambda>j. jb_status j \<noteq> ''claimed'') (filter (\<lambda>j. jb_id j \<in> set (claim_candidates {} 5 [sample_prep_job])) jobs')"
  by (rule batches_settle [where ajobs = "[]" and evaluate = "\<lambda>p ps. Inr ps" and ps = "[]", THEN conjunct1]) simp_all

end
