(* ===== verification/Mfa.thy ===== *)
theory Mfa
  imports Complex_Main Prelude "HOL-Library.Word"
begin

text \<open>
  Multi-factor authentication: the TOTP algorithm of \<open>mfa.py\<close> (RFC 4226, RFC 6238) on machine
  words, and its storage, \<open>identity/mfa_service.py\<close>.

  HMAC-SHA1, SHA-256, the credential cipher and the random bytes are parameters. The characters
  of a submitted code are code points up to U+00FF: the digits \<open>str.isdigit\<close> accepts among them
  are the ASCII ones and the three superscripts, and \<open>hmac.compare_digest\<close> raises on a
  character outside ASCII. A time is the rational number of seconds.
\<close>

section \<open>Base32\<close>

definition b32_value :: "char \<Rightarrow> int option" where
  "b32_value c =
     (if is_upper c then Some (of_char c - 65)
      else if in_range CHR ''2'' CHR ''7'' c then Some (of_char c - 24) else None)"

definition rstrip_pad :: "string \<Rightarrow> string" where
  "rstrip_pad s = rev (dropWhile (\<lambda>c. c = CHR ''='') (rev s))"

fun b32_digits :: "string \<Rightarrow> int list res" where
  "b32_digits [] = Inr []"
| "b32_digits (c # cs) =
     (case b32_value c of
        None \<Rightarrow> Inl (ValueError ''Non-base32 digit found'')
      | Some v \<Rightarrow> rbind (b32_digits cs) (\<lambda>vs. Inr (v # vs)))"

definition bytes_of_digits :: "int list \<Rightarrow> 8 word list" where
  "bytes_of_digits vs =
     (let n = 5 * length vs; k = n div 8;
          m = foldl (\<lambda>acc v. 32 * acc + v) 0 vs div 2 ^ (n mod 8)
      in map (\<lambda>i. word_of_int (m div 256 ^ (k - 1 - i))) [0..<k])"

definition b32decode :: "string \<Rightarrow> 8 word list res" where
  "b32decode s =
     (if length s mod 8 \<noteq> 0 then Inl (ValueError ''Incorrect padding'')
      else let body = rstrip_pad s; pads = length s - length body
           in rbind (b32_digits body) (\<lambda>vs.
                if pads \<notin> {0, 1, 3, 4, 6} then Inl (ValueError ''Incorrect padding'')
                else Inr (bytes_of_digits vs)))"

definition SECRET_BYTES :: nat where "SECRET_BYTES = 20"
definition DIGITS :: nat where "DIGITS = 6"
definition PERIOD_SECONDS :: int where "PERIOD_SECONDS = 30"
definition DRIFT_STEPS :: int where "DRIFT_STEPS = 1"

definition decode_secret :: "string \<Rightarrow> 8 word list res" where
  "decode_secret secret =
     (let cleaned = upper (remove_char CHR '' '' (strip secret))
      in b32decode (cleaned @ replicate (nat (- int (length cleaned) mod 8)) CHR ''=''))"

section \<open>HOTP and TOTP\<close>

definition trunc :: "rat \<Rightarrow> int" where
  "trunc x = (if x < 0 then \<lceil>x\<rceil> else \<lfloor>x\<rfloor>)"

definition timestep :: "rat \<Rightarrow> int" where
  "timestep now = trunc now div PERIOD_SECONDS"

definition pack_uint64 :: "int \<Rightarrow> 8 word list res" where
  "pack_uint64 counter =
     (if counter < 0 \<or> 2 ^ 64 \<le> counter then Inl (ValueError ''argument out of range'')
      else let w = word_of_int counter :: 64 word
           in Inr (map (\<lambda>i. ucast (drop_bit (8 * i) w)) [7, 6, 5, 4, 3, 2, 1, 0]))"

definition unpack_uint32 :: "8 word list \<Rightarrow> 32 word res" where
  "unpack_uint32 bs =
     (if length bs \<noteq> 4 then Inl (ValueError ''unpack requires a buffer of 4 bytes'')
      else Inr (foldl (\<lambda>acc b. or (push_bit 8 acc) (ucast b)) 0 bs))"

definition hotp :: "(8 word list \<Rightarrow> 8 word list \<Rightarrow> 8 word list) \<Rightarrow> string \<Rightarrow> int \<Rightarrow> nat \<Rightarrow> string res" where
  "hotp hmac secret counter digits =
     rbind (decode_secret secret) (\<lambda>key. rbind (pack_uint64 counter) (\<lambda>msg.
       let mac = hmac key msg; offset = unat (and (last mac) 0x0F)
       in rbind (unpack_uint32 (take 4 (drop offset mac))) (\<lambda>w.
            let code = and w 0x7FFFFFFF
            in Inr (zfill digits (str_of_nat (unat code mod 10 ^ digits))))))"

section \<open>Verification of a code\<close>

definition l1_space :: "char \<Rightarrow> bool" where
  "l1_space c \<longleftrightarrow> is_space c \<or> c = CHR 0x85 \<or> c = CHR 0xA0"

definition l1_strip :: "string \<Rightarrow> string" where
  "l1_strip s = rev (dropWhile l1_space (rev (dropWhile l1_space s)))"

definition isdigit_char :: "char \<Rightarrow> bool" where
  "isdigit_char c \<longleftrightarrow> is_digit c \<or> c = CHR 0xB2 \<or> c = CHR 0xB3 \<or> c = CHR 0xB9"

definition isdigit :: "string \<Rightarrow> bool" where
  "isdigit s \<longleftrightarrow> s \<noteq> [] \<and> list_all isdigit_char s"

definition ascii :: "string \<Rightarrow> bool" where
  "ascii s \<longleftrightarrow> list_all (\<lambda>c. (of_char c :: nat) < 128) s"

definition compare_digest :: "string \<Rightarrow> string \<Rightarrow> bool res" where
  "compare_digest a b =
     (if ascii a \<and> ascii b then Inr (a = b)
      else Inl (TypeError ''comparing strings with non-ASCII characters is not supported''))"

definition clean_code :: "string \<Rightarrow> string" where
  "clean_code code = remove_char CHR '' '' (l1_strip code)"

fun try_steps ::
  "(8 word list \<Rightarrow> 8 word list \<Rightarrow> 8 word list) \<Rightarrow> string \<Rightarrow> string \<Rightarrow> int option \<Rightarrow> int list \<Rightarrow> int option res" where
  "try_steps hmac secret cleaned last_used [] = Inr None"
| "try_steps hmac secret cleaned last_used (step # steps) =
     (if (case last_used of None \<Rightarrow> False | Some u \<Rightarrow> step \<le> u) then try_steps hmac secret cleaned last_used steps
      else rbind (hotp hmac secret step DIGITS) (\<lambda>expected.
             rbind (compare_digest expected cleaned) (\<lambda>same.
               if same then Inr (Some step) else try_steps hmac secret cleaned last_used steps)))"

definition verify ::
  "(8 word list \<Rightarrow> 8 word list \<Rightarrow> 8 word list) \<Rightarrow> string \<Rightarrow> string \<Rightarrow> rat \<Rightarrow> int option \<Rightarrow> int \<Rightarrow> int option res" where
  "verify hmac secret code now last_used drift =
     (let cleaned = clean_code code
      in if \<not> isdigit cleaned \<or> length cleaned \<noteq> DIGITS then Inr None
         else let current = timestep now in try_steps hmac secret cleaned last_used [current - drift .. current + drift])"

section \<open>Recovery codes\<close>

definition normalize_recovery_code :: "string \<Rightarrow> string" where
  "normalize_recovery_code code = upper (remove_char CHR ''-'' (remove_char CHR '' '' (strip code)))"

definition hash_recovery_code :: "(string \<Rightarrow> string) \<Rightarrow> string \<Rightarrow> string" where
  "hash_recovery_code sha code = sha (normalize_recovery_code code)"

text \<open>The base32 text of ten random bytes, in two halves.\<close>

definition format_recovery_code :: "string \<Rightarrow> string" where
  "format_recovery_code raw = fstr [take 8 raw, ''-'', drop 8 raw]"

section \<open>Storage\<close>

record mfa_credential =
  mc_user_id :: int
  mc_organization_id :: int
  mc_secret_encrypted :: string
  mc_activated_at :: "datetime option"
  mc_last_used_step :: "int option"

record recovery_code =
  rc_user_id :: int
  rc_organization_id :: int
  rc_code_hash :: string
  rc_used_at :: "datetime option"
  rc_revoked_at :: "datetime option"

record organization =
  og_id :: int
  og_mfa_policy :: string

record mfa_store =
  creds :: "mfa_credential list"
  codes :: "recovery_code list"
  orgs :: "organization list"
  policy_cache :: "int \<rightharpoonup> (rat \<times> string)"
  any_policy :: "(rat \<times> bool) option"

record mfa_user =
  mu_id :: int
  mu_organization_id :: int
  mu_role :: "string option"

record mfa_env =
  me_hmac :: "8 word list \<Rightarrow> 8 word list \<Rightarrow> 8 word list"
  me_sha :: "string \<Rightarrow> string"
  me_encrypt :: "string \<Rightarrow> string"
  me_decrypt :: "string \<Rightarrow> string res"

definition credential_for :: "mfa_store \<Rightarrow> int \<Rightarrow> mfa_credential option res" where
  "credential_for s user_id = one_or_none (filter (\<lambda>c. mc_user_id c = user_id) (creds s))"

definition is_challenged :: "mfa_store \<Rightarrow> int \<Rightarrow> bool res" where
  "is_challenged s user_id =
     rbind (credential_for s user_id) (\<lambda>cred. Inr (case cred of None \<Rightarrow> False | Some c \<Rightarrow> mc_activated_at c \<noteq> None))"

definition begin_enrolment :: "mfa_env \<Rightarrow> mfa_store \<Rightarrow> mfa_user \<Rightarrow> string \<Rightarrow> mfa_store res" where
  "begin_enrolment M s user secret =
     rbind (credential_for s (mu_id user)) (\<lambda>existing.
       if (case existing of None \<Rightarrow> False | Some c \<Rightarrow> mc_activated_at c \<noteq> None)
       then Inl (ValueError ''this account already has an active authenticator'')
       else Inr (s\<lparr>creds := filter (\<lambda>c. mc_user_id c \<noteq> mu_id user) (creds s) @
              [\<lparr>mc_user_id = mu_id user, mc_organization_id = mu_organization_id user,
                mc_secret_encrypted = me_encrypt M secret, mc_activated_at = None, mc_last_used_step = None\<rparr>]\<rparr>))"

definition live_code :: "int \<Rightarrow> recovery_code \<Rightarrow> bool" where
  "live_code user_id r \<longleftrightarrow> rc_user_id r = user_id \<and> rc_used_at r = None \<and> rc_revoked_at r = None"

definition revoke_recovery_codes :: "datetime \<Rightarrow> mfa_store \<Rightarrow> int \<Rightarrow> mfa_store \<times> nat" where
  "revoke_recovery_codes clock s user_id =
     (s\<lparr>codes := update_rows (live_code user_id) (\<lambda>r. r\<lparr>rc_revoked_at := Some clock\<rparr>) (codes s)\<rparr>,
      count_if (live_code user_id) (codes s))"

definition new_code :: "mfa_env \<Rightarrow> mfa_user \<Rightarrow> string \<Rightarrow> recovery_code" where
  "new_code M user code_value =
     \<lparr>rc_user_id = mu_id user, rc_organization_id = mu_organization_id user,
      rc_code_hash = hash_recovery_code (me_sha M) code_value, rc_used_at = None, rc_revoked_at = None\<rparr>"

definition spend_step :: "int \<Rightarrow> (mfa_credential \<Rightarrow> mfa_credential) \<Rightarrow> mfa_store \<Rightarrow> mfa_store" where
  "spend_step user_id f s = s\<lparr>creds := update_rows (\<lambda>c. mc_user_id c = user_id) f (creds s)\<rparr>"

text \<open>\<open>raws\<close> is what \<open>generate_recovery_codes\<close> draws.\<close>

definition activate ::
  "mfa_env \<Rightarrow> datetime \<Rightarrow> string list \<Rightarrow> mfa_store \<Rightarrow> mfa_user \<Rightarrow> string \<Rightarrow> rat \<Rightarrow> (mfa_store \<times> string list option) res" where
  "activate M clock raws s user code now =
     rbind (credential_for s (mu_id user)) (\<lambda>cred.
       case cred of
         None \<Rightarrow> Inr (s, None)
       | Some c \<Rightarrow>
           if mc_activated_at c \<noteq> None then Inr (s, None)
           else rbind (me_decrypt M (mc_secret_encrypted c)) (\<lambda>secret.
             rbind (verify (me_hmac M) secret code now (mc_last_used_step c) DRIFT_STEPS) (\<lambda>step.
               case step of
                 None \<Rightarrow> Inr (s, None)
               | Some n \<Rightarrow>
                   let s1 = spend_step (mu_id user) (\<lambda>c. c\<lparr>mc_activated_at := Some clock, mc_last_used_step := Some n\<rparr>) s;
                       s2 = fst (revoke_recovery_codes clock s1 (mu_id user));
                       fresh = map format_recovery_code raws
                   in Inr (s2\<lparr>codes := codes s2 @ map (new_code M user) fresh\<rparr>, Some fresh))))"

definition verify_code :: "mfa_env \<Rightarrow> mfa_store \<Rightarrow> int \<Rightarrow> string \<Rightarrow> rat \<Rightarrow> (mfa_store \<times> bool) res" where
  "verify_code M s user_id code now =
     rbind (credential_for s user_id) (\<lambda>cred.
       case cred of
         None \<Rightarrow> Inr (s, False)
       | Some c \<Rightarrow>
           if mc_activated_at c = None then Inr (s, False)
           else rbind (me_decrypt M (mc_secret_encrypted c)) (\<lambda>secret.
             rbind (verify (me_hmac M) secret code now (mc_last_used_step c) DRIFT_STEPS) (\<lambda>step.
               case step of
                 None \<Rightarrow> Inr (s, False)
               | Some n \<Rightarrow> Inr (spend_step user_id (\<lambda>c. c\<lparr>mc_last_used_step := Some n\<rparr>) s, True))))"

definition matching_code :: "int \<Rightarrow> string \<Rightarrow> recovery_code \<Rightarrow> bool" where
  "matching_code user_id digest r \<longleftrightarrow> live_code user_id r \<and> rc_code_hash r = digest"

definition consume_recovery_code :: "mfa_env \<Rightarrow> datetime \<Rightarrow> mfa_store \<Rightarrow> int \<Rightarrow> string \<Rightarrow> (mfa_store \<times> bool) res" where
  "consume_recovery_code M clock s user_id code =
     rbind (is_challenged s user_id) (\<lambda>challenged.
       if \<not> challenged then Inr (s, False)
       else let digest = hash_recovery_code (me_sha M) code
            in rbind (one_or_none (filter (matching_code user_id digest) (codes s))) (\<lambda>row.
                 case row of
                   None \<Rightarrow> Inr (s, False)
                 | Some r \<Rightarrow> Inr (s\<lparr>codes := update_rows (matching_code user_id digest) (\<lambda>r. r\<lparr>rc_used_at := Some clock\<rparr>) (codes s)\<rparr>, True)))"

definition unused_recovery_code_count :: "mfa_store \<Rightarrow> int \<Rightarrow> nat" where
  "unused_recovery_code_count s user_id = count_if (live_code user_id) (codes s)"

section \<open>Who must enrol\<close>

definition POLICY_TTL_SECONDS :: rat where "POLICY_TTL_SECONDS = 30"

definition PRIVILEGED_ROLES :: "string list" where [vocab]: "PRIVILEGED_ROLES = [''admin'', ''owner'']"

definition forget_policy :: "mfa_store \<Rightarrow> int \<Rightarrow> mfa_store" where
  "forget_policy s org = s\<lparr>policy_cache := (policy_cache s)(org := None), any_policy := None\<rparr>"

definition org_policy :: "mfa_store \<Rightarrow> int \<Rightarrow> string" where
  "org_policy s org =
     (case first_row (filter (\<lambda>r. og_id r = org) (orgs s)) of
        None \<Rightarrow> ''optional'' | Some r \<Rightarrow> if og_mfa_policy r = [] then ''optional'' else og_mfa_policy r)"

definition some_org_requires :: "mfa_store \<Rightarrow> bool" where
  "some_org_requires s \<longleftrightarrow> list_ex (\<lambda>r. og_mfa_policy r \<noteq> ''optional'') (orgs s)"

definition any_organization_requires_mfa :: "rat \<Rightarrow> mfa_store \<Rightarrow> mfa_store \<times> bool" where
  "any_organization_requires_mfa now s =
     (case any_policy s of
        Some (t, b) \<Rightarrow> if now - t < POLICY_TTL_SECONDS then (s, b)
                       else (s\<lparr>any_policy := Some (now, some_org_requires s)\<rparr>, some_org_requires s)
      | None \<Rightarrow> (s\<lparr>any_policy := Some (now, some_org_requires s)\<rparr>, some_org_requires s))"

definition policy_for :: "rat \<Rightarrow> mfa_store \<Rightarrow> int \<Rightarrow> mfa_store \<times> string" where
  "policy_for now s org =
     (let read = (s\<lparr>policy_cache := (policy_cache s)(org \<mapsto> (now, org_policy s org))\<rparr>, org_policy s org)
      in case policy_cache s org of
           Some (t, p) \<Rightarrow> if now - t < POLICY_TTL_SECONDS then (s, p) else read
         | None \<Rightarrow> read)"

definition enrolment_outstanding ::
  "rat \<Rightarrow> mfa_store \<Rightarrow> int option \<Rightarrow> int option \<Rightarrow> string \<Rightarrow> (mfa_store \<times> bool) res" where
  "enrolment_outstanding now s user_id organization_id role =
     (case (user_id, organization_id) of
        (Some u, Some org) \<Rightarrow>
          (case any_organization_requires_mfa now s of (s1, any) \<Rightarrow>
             if \<not> any then Inr (s1, False)
             else (case policy_for now s1 org of (s2, policy) \<Rightarrow>
               if policy = ''optional'' then Inr (s2, False)
               else if policy = ''admins'' \<and> role \<notin> set PRIVILEGED_ROLES then Inr (s2, False)
               else rbind (is_challenged s2 u) (\<lambda>c. Inr (s2, \<not> c))))
      | _ \<Rightarrow> Inr (s, False))"

definition policy_requires_enrolment :: "mfa_store \<Rightarrow> mfa_user \<Rightarrow> bool" where
  "policy_requires_enrolment s user =
     (let policy = (case first_row (filter (\<lambda>r. og_id r = mu_organization_id user) (orgs s)) of
                      None \<Rightarrow> ''optional'' | Some r \<Rightarrow> og_mfa_policy r)
      in if policy = ''all'' then True
         else if policy = ''admins'' then (case mu_role user of None \<Rightarrow> [] | Some r \<Rightarrow> r) \<in> set PRIVILEGED_ROLES
         else False)"


text \<open>The administrator's change of the policy (\<open>routes/identity.py\<close>), after its role checks.\<close>

definition set_mfa_policy :: "mfa_store \<Rightarrow> int \<Rightarrow> string \<Rightarrow> mfa_store" where
  "set_mfa_policy s org policy =
     forget_policy (s\<lparr>orgs := update_rows (\<lambda>r. og_id r = org) (\<lambda>r. r\<lparr>og_mfa_policy := policy\<rparr>) (orgs s)\<rparr>) org"

section \<open>Requests in sequence and in parallel\<close>

definition used_step :: "mfa_store \<Rightarrow> int \<Rightarrow> int option" where
  "used_step s user_id = Option.bind (first_row (filter (\<lambda>c. mc_user_id c = user_id) (creds s))) mc_last_used_step"

text \<open>One user's codes, one request after the other; the steps that were accepted.\<close>

fun totp_run :: "mfa_env \<Rightarrow> mfa_store \<Rightarrow> int \<Rightarrow> (string \<times> rat) list \<Rightarrow> mfa_store \<times> int option list" where
  "totp_run M s u [] = (s, [])"
| "totp_run M s u ((code, now) # rest) =
     (case verify_code M s u code now of
        Inr (s', True) \<Rightarrow> (case totp_run M s' u rest of (s'', ns) \<Rightarrow> (s'', used_step s' u # ns))
      | Inr (s', False) \<Rightarrow> totp_run M s' u rest
      | Inl e \<Rightarrow> totp_run M s u rest)"

text \<open>Requests in parallel: a transaction reads the credential, decides, writes the spent step by
  primary key and commits, with no lock between the read and the write.\<close>

record mfa_system =
  ms_store :: mfa_store
  ms_reads :: "nat \<rightharpoonup> mfa_store"
  ms_log :: "(nat \<times> int \<times> int) list"

inductive totp_step :: "mfa_env \<Rightarrow> mfa_system \<Rightarrow> mfa_system \<Rightarrow> bool" for M where
  totp_read: "ms_reads S p = None \<Longrightarrow> totp_step M S (S\<lparr>ms_reads := (ms_reads S)(p \<mapsto> ms_store S)\<rparr>)"
| totp_accept: "ms_reads S p = Some snap \<Longrightarrow> verify_code M snap u code now = Inr (snap', True) \<Longrightarrow> used_step snap' u = Some n \<Longrightarrow>
    totp_step M S (S\<lparr>ms_store := spend_step u (\<lambda>c. c\<lparr>mc_last_used_step := Some n\<rparr>) (ms_store S),
      ms_reads := (ms_reads S)(p := None), ms_log := ms_log S @ [(p, u, n)]\<rparr>)"
| totp_refuse: "ms_reads S p = Some snap \<Longrightarrow> totp_step M S (S\<lparr>ms_reads := (ms_reads S)(p := None)\<rparr>)"

end
