(* ===== verification/Mfa_Laws.thy ===== *)
theory Mfa_Laws
  imports Mfa
begin

text \<open>
  What holds of multi-factor authentication: the shape of a one-time code, soundness and
  single use of codes and recovery codes, the enrolment state machine, and the agreement of
  the cached enrolment gate with the policy.
\<close>

section \<open>The shape of a code\<close>

lemma zfill_digits:
  "n < 10 ^ k \<Longrightarrow> 0 < k \<Longrightarrow> length (zfill k (str_of_nat n)) = k \<and> list_all is_digit (zfill k (str_of_nat n))"
  using length_str_of_nat [of n k] str_of_nat_digits [of n]
  by (auto simp: zfill_def list_all_iff is_digit_def in_range_def)

text \<open>A code is well formed. For a secret that decodes, a counter of 64 bits and a MAC of 20
  bytes, \<open>hotp\<close> never raises (the truncation offset always leaves four bytes) and yields exactly
  \<open>digits\<close> decimal digits.\<close>

theorem hotp_total:
  assumes "decode_secret secret = Inr key" "0 \<le> counter" "counter < 2 ^ 64" "\<And>k m. length (hmac k m) = 20" "0 < digits"
  shows "\<exists>c. hotp hmac secret counter digits = Inr c \<and> length c = digits \<and> list_all is_digit c"
proof -
  have off: "unat (and (b :: 8 word) 0x0F) \<le> 15" for b
  proof -
    have "and b 0x0F \<le> 0x0F" by (rule word_and_le1)
    then show ?thesis by (simp add: word_le_nat_alt)
  qed
  have four: "length (take 4 (drop (unat (and (last m) 0x0F)) m)) = 4" if "length m = 20" for m :: "8 word list"
    using off [of "last m"] that by simp
  obtain msg where msg: "pack_uint64 counter = Inr msg"
    using assms(2,3) by (simp add: pack_uint64_def Let_def)
  obtain w where w: "unpack_uint32 (take 4 (drop (unat (and (last (hmac key msg)) 0x0F)) (hmac key msg))) = Inr w"
    using four [OF assms(4) [of key msg]] by (simp only: unpack_uint32_def not_not if_False simp_thms)
  have "hotp hmac secret counter digits = Inr (zfill digits (str_of_nat (unat (and w 0x7FFFFFFF) mod 10 ^ digits)))"
    using w by (simp only: hotp_def assms(1) msg rbind_simps Let_def)
  moreover have "unat (and w 0x7FFFFFFF) mod 10 ^ digits < 10 ^ digits" by simp
  ultimately show ?thesis using zfill_digits [OF _ assms(5)] by metis
qed

definition sample_hmac :: "8 word list \<Rightarrow> 8 word list \<Rightarrow> 8 word list" where
  "sample_hmac k m = replicate 12 1 @ m"

lemma sample_secret: "decode_secret ''jbsw y3dp'' = Inr [0x48, 0x65, 0x6C, 0x6C, 0x6F]"
  by code_simp

theorem hotp_total_witness:
  "\<exists>c. hotp (\<lambda>k m. replicate 20 7) ''jbsw y3dp'' 5 6 = Inr c \<and> length c = 6 \<and> list_all is_digit c"
  by (rule hotp_total [OF sample_secret]) simp_all

section \<open>Codes are accepted once\<close>

lemma try_steps_Some:
  "try_steps hmac secret cleaned last_used steps = Inr (Some n) \<Longrightarrow>
     n \<in> set steps \<and> (\<forall>u. last_used = Some u \<longrightarrow> u < n) \<and> hotp hmac secret n DIGITS = Inr cleaned"
  by (induction steps)
     (auto simp: rbind_eq_Inr compare_digest_def split: if_split_asm option.splits)

lemma verify_Some:
  assumes "verify hmac secret code now last_used drift = Inr (Some n)"
  shows "hotp hmac secret n DIGITS = Inr (clean_code code)" "\<bar>n - timestep now\<bar> \<le> drift"
    "case last_used of None \<Rightarrow> True | Some u \<Rightarrow> u < n"
  using assms try_steps_Some [of hmac secret "clean_code code" last_used _ n]
  by (auto simp: verify_def Let_def split: if_split_asm option.split) fastforce+

text \<open>A code is accepted only for what it is. When \<open>verify\<close> returns a step, the submitted digits
  are that step's code, the step lies within the drift of the current one, and it is later than
  the last step spent.\<close>

theorem verify_sound:
  assumes "verify hmac secret code now last_used drift = Inr (Some n)"
  shows "hotp hmac secret n DIGITS = Inr (clean_code code) \<and> \<bar>n - timestep now\<bar> \<le> drift \<and>
    (case last_used of None \<Rightarrow> True | Some u \<Rightarrow> u < n)"
  using verify_Some [OF assms] by blast

definition zero_hmac :: "8 word list \<Rightarrow> 8 word list \<Rightarrow> 8 word list" where
  "zero_hmac k m = replicate 20 0"

lemma zero_hotp: "0 \<le> c \<Longrightarrow> c < 2 ^ 64 \<Longrightarrow> hotp zero_hmac ''jbsw y3dp'' c DIGITS = Inr ''000000''"
proof -
  assume c: "0 \<le> c" "c < 2 ^ 64"
  then obtain msg where msg: "pack_uint64 c = Inr msg" by (simp add: pack_uint64_def Let_def)
  have "unpack_uint32 (take 4 (drop (unat (and (last (replicate 20 (0 :: 8 word))) 0x0F)) (replicate 20 0))) = Inr 0"
    by code_simp
  then have "hotp zero_hmac ''jbsw y3dp'' c DIGITS = Inr (zfill DIGITS (str_of_nat (unat (and 0 0x7FFFFFFF :: 32 word) mod 10 ^ DIGITS)))"
    by (simp only: hotp_def sample_secret msg rbind_simps Let_def zero_hmac_def)
  moreover have "zfill DIGITS (str_of_nat 0) = ''000000''" by code_simp
  ultimately show ?thesis by (simp only: and_zero_eq and.left_neutral zero_and_eq unsigned_0 mod_0)
qed

lemma sample_verify: "verify zero_hmac ''jbsw y3dp'' '' 000 000'' 3000 (Some 99) 1 = Inr (Some 100)"
proof -
  have t: "timestep 3000 = 100" by (simp add: timestep_def trunc_def PERIOD_SECONDS_def)
  have c: "clean_code '' 000 000'' = ''000000''" "isdigit ''000000''" by code_simp+
  have "[99..101 :: int] = [99, 100, 101]" by (simp add: upto.simps)
  then show ?thesis
    using zero_hotp [of 100] c by (simp add: verify_def t Let_def compare_digest_def ascii_def) (simp add: DIGITS_def)
qed

theorem verify_sound_witness:
  "hotp zero_hmac ''jbsw y3dp'' 100 DIGITS = Inr (clean_code '' 000 000'') \<and> \<bar>100 - timestep 3000\<bar> \<le> 1"
  using verify_sound [OF sample_verify] by blast

abbreviation one_cred :: "mfa_store \<Rightarrow> bool" where
  "one_cred s \<equiv> distinct (map mc_user_id (creds s))"

lemma cred_lookup:
  assumes "one_cred s"
  obtains "credential_for s u = Inr None" "filter (\<lambda>c. mc_user_id c = u) (creds s) = []"
  | c where "credential_for s u = Inr (Some c)" "filter (\<lambda>c. mc_user_id c = u) (creds s) = [c]"
proof -
  have "length (filter (\<lambda>c. mc_user_id c = u) (creds s)) \<le> 1"
    by (rule distinct_filter_le1 [OF assms]) simp
  then show thesis using that by (cases "filter (\<lambda>c. mc_user_id c = u) (creds s)") (auto simp: credential_for_def)
qed

lemma filter_spend:
  "(\<And>c. mc_user_id (f c) = mc_user_id c) \<Longrightarrow>
   filter (\<lambda>c. mc_user_id c = u) (creds (spend_step u f s)) = map f (filter (\<lambda>c. mc_user_id c = u) (creds s))"
  unfolding spend_step_def update_rows_def by (induction "creds s" arbitrary: s) (auto simp: filter_map comp_def)

lemma one_cred_spend: "(\<And>c. mc_user_id (f c) = mc_user_id c) \<Longrightarrow> one_cred (spend_step u f s) = one_cred s"
  by (simp add: spend_step_def)

lemma verify_code_True:
  assumes "one_cred s" "verify_code M s u code now = Inr (s', True)"
  obtains n c secret where "credential_for s u = Inr (Some c)" "mc_activated_at c \<noteq> None"
    "me_decrypt M (mc_secret_encrypted c) = Inr secret"
    "verify (me_hmac M) secret code now (mc_last_used_step c) DRIFT_STEPS = Inr (Some n)"
    "s' = spend_step u (\<lambda>c. c\<lparr>mc_last_used_step := Some n\<rparr>) s" "used_step s u = mc_last_used_step c"
    "used_step s' u = Some n" "one_cred s'"
proof -
  from assms(2) obtain c secret n where c: "credential_for s u = Inr (Some c)" "mc_activated_at c \<noteq> None"
    "me_decrypt M (mc_secret_encrypted c) = Inr secret"
    "verify (me_hmac M) secret code now (mc_last_used_step c) DRIFT_STEPS = Inr (Some n)"
    "s' = spend_step u (\<lambda>c. c\<lparr>mc_last_used_step := Some n\<rparr>) s"
    by (auto simp: verify_code_def rbind_eq_Inr split: option.splits if_split_asm)
  have f: "filter (\<lambda>c. mc_user_id c = u) (creds s) = [c]"
    by (rule cred_lookup [OF assms(1), of u]) (use c(1) in simp_all)
  show thesis
    by (rule that [OF c]) (use f assms(1) c(5) in \<open>simp_all add: used_step_def first_row_def filter_spend one_cred_spend\<close>)
qed

lemma verify_code_False: "verify_code M s u code now = Inr (s', False) \<Longrightarrow> s' = s"
  by (auto simp: verify_code_def rbind_eq_Inr split: option.splits if_split_asm)

definition after :: "int option \<Rightarrow> int option \<Rightarrow> bool" where
  "after m n \<longleftrightarrow> n \<noteq> None \<and> (case m of None \<Rightarrow> True | Some k \<Rightarrow> k < the n)"

lemma verify_code_step:
  assumes "one_cred s" "verify_code M s u code now = Inr (s', True)"
  shows "after (used_step s u) (used_step s' u)" "one_cred s'"
proof -
  have "after (used_step s u) (used_step s' u) \<and> one_cred s'"
  proof (cases rule: verify_code_True [OF assms])
    case (1 n c secret)
    have "after (used_step s u) (used_step s' u)"
      unfolding 1(6,7) using verify_Some(3) [OF 1(4)] by (cases "mc_last_used_step c") (simp_all add: after_def)
    then show ?thesis using 1(8) by (rule conjI)
  qed
  then show "after (used_step s u) (used_step s' u)" "one_cred s'" by (rule conjunct1, rule conjunct2)
qed

lemma after_trans: "after a b \<Longrightarrow> after b c \<Longrightarrow> after a c"
  by (auto simp: after_def split: option.splits)


definition sample_mfa_env :: mfa_env where
  "sample_mfa_env = \<lparr>me_hmac = zero_hmac, me_sha = id, me_encrypt = id, me_decrypt = Inr\<rparr>"

definition sample_store :: mfa_store where
  "sample_store = \<lparr>creds = [\<lparr>mc_user_id = 4, mc_organization_id = 1, mc_secret_encrypted = ''jbsw y3dp'', mc_activated_at = Some 0,
      mc_last_used_step = Some 99\<rparr>],
     codes = [\<lparr>rc_user_id = 4, rc_organization_id = 1, rc_code_hash = ''ABCDEFGH'', rc_used_at = None, rc_revoked_at = None\<rparr>],
     orgs = [\<lparr>og_id = 1, og_mfa_policy = ''admins''\<rparr>], policy_cache = Map.empty, any_policy = None\<rparr>"

lemma sample_verify_code:
  "verify_code sample_mfa_env sample_store 4 '' 000 000'' 3000 =
     Inr (spend_step 4 (\<lambda>c. c\<lparr>mc_last_used_step := Some 100\<rparr>) sample_store, True)"
  using sample_verify
  by (simp add: verify_code_def sample_mfa_env_def sample_store_def credential_for_def DRIFT_STEPS_def)

lemma one_cred_sample: "one_cred sample_store"
  by (simp add: sample_store_def)


text \<open>Under concurrency a code is accepted twice. Two login transactions that both read the
  credential before either commits accept the same code for the same step: nothing locks the row
  between the read and the write of the spent step.\<close>

theorem concurrent_replay:
  assumes "verify_code M s u code now = Inr (s', True)" "used_step s' u = Some n"
  shows "\<exists>S. (totp_step M)\<^sup>*\<^sup>* \<lparr>ms_store = s, ms_reads = Map.empty, ms_log = []\<rparr> S \<and> ms_log S = [(1, u, n), (2, u, n)]"
proof -
  let ?S0 = "\<lparr>ms_store = s, ms_reads = Map.empty, ms_log = []\<rparr>"
  let ?S1 = "?S0\<lparr>ms_reads := (ms_reads ?S0)(1 \<mapsto> ms_store ?S0)\<rparr>"
  let ?S2 = "?S1\<lparr>ms_reads := (ms_reads ?S1)(2 \<mapsto> ms_store ?S1)\<rparr>"
  let ?w = "\<lambda>S p. S\<lparr>ms_store := spend_step u (\<lambda>c. c\<lparr>mc_last_used_step := Some n\<rparr>) (ms_store S),
      ms_reads := (ms_reads S)(p := None), ms_log := ms_log S @ [(p, u, n)]\<rparr>"
  have "totp_step M ?S0 ?S1" by (rule totp_read) simp
  moreover have "totp_step M ?S1 ?S2" by (rule totp_read) simp
  moreover have "totp_step M ?S2 (?w ?S2 1)" by (rule totp_accept [OF _ assms]) simp
  moreover have "totp_step M (?w ?S2 1) (?w (?w ?S2 1) 2)" by (rule totp_accept [OF _ assms]) simp
  ultimately have "(totp_step M)\<^sup>*\<^sup>* ?S0 (?w (?w ?S2 1) 2)"
    by (meson converse_rtranclp_into_rtranclp rtranclp.rtrancl_refl)
  then show ?thesis by (rule exI [of _ "?w (?w ?S2 1) 2", OF conjI]) simp
qed

theorem concurrent_replay_witness:
  "\<exists>S. (totp_step sample_mfa_env)\<^sup>*\<^sup>* \<lparr>ms_store = sample_store, ms_reads = Map.empty, ms_log = []\<rparr> S \<and>
     ms_log S = [(1, 4, 100), (2, 4, 100)]"
  by (rule concurrent_replay [OF sample_verify_code])
     (simp add: used_step_def first_row_def spend_step_def sample_store_def update_rows_def)

text \<open>A digit outside ASCII breaks the login instead of failing it. A six-character code that
  \<open>isdigit\<close> accepts but that is not ASCII raises \<open>TypeError\<close> as soon as one step of the window is
  still unspent, so the request ends in an error and no failed attempt is counted.\<close>

theorem superscript_code_raises:
  assumes "isdigit (clean_code code)" "length (clean_code code) = DIGITS" "\<not> ascii (clean_code code)"
    and "hotp hmac secret (timestep now - 1) DIGITS = Inr expected"
  shows "\<exists>e. verify hmac secret code now None 1 = Inl (TypeError e)"
proof -
  have "[timestep now - 1 .. timestep now + 1] = (timestep now - 1) # [timestep now .. timestep now + 1]"
    by (subst upto_rec1) simp_all
  then show ?thesis
    using assms by (simp add: verify_def Let_def compare_digest_def)
qed

theorem superscript_code_raises_witness:
  "\<exists>e. verify zero_hmac ''jbsw y3dp'' (CHR 0xB2 # ''00000'') 3000 None 1 = Inl (TypeError e)"
proof (rule superscript_code_raises)
  have "timestep 3000 - 1 = 99" by (simp add: timestep_def trunc_def PERIOD_SECONDS_def)
  then show "hotp zero_hmac ''jbsw y3dp'' (timestep 3000 - 1) DIGITS = Inr ''000000''"
    using zero_hotp [of 99] by simp
qed code_simp+

section \<open>Recovery codes\<close>

text \<open>A recovery code works once. After a code was accepted, no code of the same normal form
  (spaces, hyphens and case ignored) is accepted for that user again; the count of unused codes
  drops by one; and nothing else in the store changes.\<close>

theorem recovery_code_once:
  assumes "consume_recovery_code M clock s u code = Inr (s', True)"
  shows "(normalize_recovery_code code' = normalize_recovery_code code \<longrightarrow>
      consume_recovery_code M clock' s' u code' = Inr (s', False)) \<and>
    unused_recovery_code_count s u = unused_recovery_code_count s' u + 1 \<and> creds s' = creds s"
proof -
  let ?d = "hash_recovery_code (me_sha M) code"
  let ?f = "\<lambda>r. r\<lparr>rc_used_at := Some clock\<rparr>"
  from assms obtain r where r: "is_challenged s u = Inr True" "one_or_none (filter (matching_code u ?d) (codes s)) = Inr (Some r)"
    "s' = s\<lparr>codes := update_rows (matching_code u ?d) ?f (codes s)\<rparr>"
    by (auto simp: consume_recovery_code_def Let_def rbind_eq_Inr split: option.splits if_split_asm)
  have one: "filter (matching_code u ?d) (codes s) = [r]" using r(2) by simp
  have none: "filter (matching_code u ?d) (update_rows (matching_code u ?d) ?f rs) = []" for rs
    by (induction rs) (auto simp: update_rows_def matching_code_def live_code_def)
  have count: "count_if (live_code u) rs = count_if (live_code u) (update_rows (matching_code u ?d) ?f rs)
      + length (filter (matching_code u ?d) rs)" for rs
    by (induction rs) (auto simp: update_rows_def matching_code_def live_code_def)
  have ch: "is_challenged s' u = Inr True" using r(1,3) by (simp add: is_challenged_def credential_for_def)
  have "consume_recovery_code M clock' s' u code' = Inr (s', False)"
    if "normalize_recovery_code code' = normalize_recovery_code code"
    using that none [of "codes s"] ch r(3) by (simp add: consume_recovery_code_def hash_recovery_code_def Let_def)
  moreover have "unused_recovery_code_count s u = unused_recovery_code_count s' u + 1"
    using count [of "codes s"] one r(3) by (simp add: unused_recovery_code_count_def)
  ultimately show ?thesis using r(3) by simp
qed

theorem recovery_code_once_witness:
  "\<exists>s'. consume_recovery_code sample_mfa_env 5 sample_store 4 ''abcd-efgh'' = Inr (s', True) \<and>
     consume_recovery_code sample_mfa_env 6 s' 4 '' ABCDEFGH '' = Inr (s', False)"
proof -
  let ?s = "sample_store\<lparr>codes := [\<lparr>rc_user_id = 4, rc_organization_id = 1, rc_code_hash = ''ABCDEFGH'', rc_used_at = Some 5, rc_revoked_at = None\<rparr>]\<rparr>"
  have n: "normalize_recovery_code ''abcd-efgh'' = ''ABCDEFGH''" "normalize_recovery_code '' ABCDEFGH '' = ''ABCDEFGH''"
    by code_simp+
  have "consume_recovery_code sample_mfa_env 5 sample_store 4 ''abcd-efgh'' = Inr (?s, True)"
    by (simp add: consume_recovery_code_def is_challenged_def credential_for_def hash_recovery_code_def n
        sample_mfa_env_def sample_store_def matching_code_def live_code_def update_rows_def)
  then show ?thesis using recovery_code_once [of sample_mfa_env 5 sample_store 4 "''abcd-efgh''" ?s "'' ABCDEFGH ''" 6] n by auto
qed

section \<open>Enrolment\<close>

text \<open>The enrolment state machine. Starting an enrolment leaves the user unchallenged and is
  refused when the authenticator is active; activation succeeds only on a pending one, makes the
  user challenged, and leaves as live recovery codes exactly the fresh ones, so the codes of an
  earlier authenticator are dead.\<close>

theorem enrolment_machine:
  assumes "one_cred s"
  shows "(is_challenged s (mu_id user) = Inr True \<longrightarrow> (\<exists>e. begin_enrolment M s user secret = Inl (ValueError e))) \<and>
    (is_challenged s (mu_id user) = Inr False \<longrightarrow>
       (\<exists>s'. begin_enrolment M s user secret = Inr s' \<and> one_cred s' \<and> is_challenged s' (mu_id user) = Inr False)) \<and>
    (activate M clock raws s user code now = Inr (s', Some fresh) \<longrightarrow>
       is_challenged s (mu_id user) = Inr False \<and> is_challenged s' (mu_id user) = Inr True \<and>
       filter (live_code (mu_id user)) (codes s') = map (new_code M user) fresh)"
proof (intro conjI impI)
  show "\<exists>e. begin_enrolment M s user secret = Inl (ValueError e)" if "is_challenged s (mu_id user) = Inr True"
    using that by (auto simp: begin_enrolment_def is_challenged_def rbind_eq_Inr split: option.splits)
  show "\<exists>s'. begin_enrolment M s user secret = Inr s' \<and> one_cred s' \<and> is_challenged s' (mu_id user) = Inr False"
    if "is_challenged s (mu_id user) = Inr False"
  proof -
    let ?n = "\<lparr>mc_user_id = mu_id user, mc_organization_id = mu_organization_id user,
        mc_secret_encrypted = me_encrypt M secret, mc_activated_at = None, mc_last_used_step = None\<rparr>"
    let ?s = "s\<lparr>creds := filter (\<lambda>c. mc_user_id c \<noteq> mu_id user) (creds s) @ [?n]\<rparr>"
    have "distinct (map mc_user_id (filter (\<lambda>c. mc_user_id c \<noteq> mu_id user) (creds s)))"
      using assms by (rule distinct_map_filter)
    then have "one_cred ?s" by auto
    moreover have "filter (\<lambda>c. mc_user_id c = mu_id user) (creds ?s) = [?n]" by (simp add: filter_empty_conv)
    then have "is_challenged ?s (mu_id user) = Inr False" by (simp add: is_challenged_def credential_for_def)
    moreover have "begin_enrolment M s user secret = Inr ?s"
      by (cases rule: cred_lookup [OF assms, of "mu_id user"]) (use that in \<open>simp_all add: begin_enrolment_def is_challenged_def\<close>)
    ultimately show ?thesis by blast
  qed
next
  assume act: "activate M clock raws s user code now = Inr (s', Some fresh)"
  let ?u = "mu_id user"
  obtain c where c: "credential_for s ?u = Inr (Some c)" "mc_activated_at c = None"
    using act by (cases "credential_for s ?u") (auto simp: activate_def split: option.splits if_split_asm)
  obtain sec where sec: "me_decrypt M (mc_secret_encrypted c) = Inr sec"
    using act c by (cases "me_decrypt M (mc_secret_encrypted c)") (simp_all add: activate_def)
  obtain st where st: "verify (me_hmac M) sec code now (mc_last_used_step c) DRIFT_STEPS = Inr st"
    using act c sec by (cases "verify (me_hmac M) sec code now (mc_last_used_step c) DRIFT_STEPS") (simp_all add: activate_def)
  obtain n where n: "st = Some n" using act c sec st by (cases st) (simp_all add: activate_def)
  have fr: "fresh = map format_recovery_code raws"
    and s': "s' = (let s2 = fst (revoke_recovery_codes clock (spend_step ?u (\<lambda>c. c\<lparr>mc_activated_at := Some clock, mc_last_used_step := Some n\<rparr>) s) ?u)
           in s2\<lparr>codes := codes s2 @ map (new_code M user) fresh\<rparr>)"
    using act c sec st n by (auto simp: activate_def Let_def)
  show "is_challenged s ?u = Inr False" using c(1,2) by (simp add: is_challenged_def)
  have one: "filter (\<lambda>c. mc_user_id c = ?u) (creds s) = [c]"
    by (rule cred_lookup [OF assms, of ?u]) (use c(1) in simp_all)
  have cr: "creds s' = creds (spend_step ?u (\<lambda>c. c\<lparr>mc_activated_at := Some clock, mc_last_used_step := Some n\<rparr>) s)"
    by (simp add: s' revoke_recovery_codes_def Let_def)
  show "is_challenged s' ?u = Inr True"
    by (simp add: is_challenged_def credential_for_def cr filter_spend one)
  have dead: "filter (live_code ?u) (update_rows (live_code ?u) (\<lambda>r. r\<lparr>rc_revoked_at := Some clock\<rparr>) rs) = []" for rs
    by (induction rs) (auto simp: update_rows_def live_code_def)
  have live: "filter (live_code ?u) (map (new_code M user) xs) = map (new_code M user) xs" for xs
    by (induction xs) (simp_all add: new_code_def live_code_def)
  show "filter (live_code ?u) (codes s') = map (new_code M user) fresh"
    by (simp add: s' revoke_recovery_codes_def Let_def dead live)
qed

theorem enrolment_machine_witness:
  "\<exists>e. begin_enrolment sample_mfa_env sample_store \<lparr>mu_id = 4, mu_organization_id = 1, mu_role = None\<rparr> ''x'' = Inl (ValueError e)"
proof -
  have "is_challenged sample_store (mu_id \<lparr>mu_id = 4, mu_organization_id = 1, mu_role = None\<rparr>) = Inr True"
    by (simp add: is_challenged_def credential_for_def sample_store_def)
  then show ?thesis using enrolment_machine [OF one_cred_sample] by blast
qed

section \<open>The enrolment gate\<close>

definition cache_exact :: "mfa_store \<Rightarrow> bool" where
  "cache_exact s \<longleftrightarrow> (\<forall>t b. any_policy s = Some (t, b) \<longrightarrow> b = some_org_requires s) \<and>
     (\<forall>org t p. policy_cache s org = Some (t, p) \<longrightarrow> p = org_policy s org)"

definition valid_policies :: "mfa_store \<Rightarrow> bool" where
  "valid_policies s \<longleftrightarrow> list_all (\<lambda>r. og_mfa_policy r \<in> {''optional'', ''admins'', ''all''}) (orgs s)"

lemma some_org_requires_orgs: "orgs s' = orgs s \<Longrightarrow> some_org_requires s' = some_org_requires s"
  and org_policy_orgs: "orgs s' = orgs s \<Longrightarrow> org_policy s' org = org_policy s org"
  by (simp_all add: some_org_requires_def org_policy_def)

lemma any_policy_exact:
  assumes "cache_exact s"
  shows "snd (any_organization_requires_mfa now s) = some_org_requires s"
    "cache_exact (fst (any_organization_requires_mfa now s))"
    "orgs (fst (any_organization_requires_mfa now s)) = orgs s"
    "creds (fst (any_organization_requires_mfa now s)) = creds s"
proof -
  have upd: "cache_exact (s\<lparr>any_policy := Some (now, some_org_requires s)\<rparr>)"
    using assms by (simp add: cache_exact_def some_org_requires_def org_policy_def)
  have "any_organization_requires_mfa now s = (s, some_org_requires s) \<or>
      any_organization_requires_mfa now s = (s\<lparr>any_policy := Some (now, some_org_requires s)\<rparr>, some_org_requires s)"
    using assms unfolding any_organization_requires_mfa_def cache_exact_def
    by (cases "any_policy s") (simp, clarsimp)
  then show "snd (any_organization_requires_mfa now s) = some_org_requires s"
    "cache_exact (fst (any_organization_requires_mfa now s))"
    "orgs (fst (any_organization_requires_mfa now s)) = orgs s"
    "creds (fst (any_organization_requires_mfa now s)) = creds s"
    using assms upd by auto
qed

lemma policy_for_exact:
  assumes "cache_exact s"
  shows "snd (policy_for now s org) = org_policy s org" "cache_exact (fst (policy_for now s org))"
    "creds (fst (policy_for now s org)) = creds s"
proof -
  have upd: "cache_exact (s\<lparr>policy_cache := (policy_cache s)(org \<mapsto> (now, org_policy s org))\<rparr>)"
    using assms by (simp add: cache_exact_def some_org_requires_def org_policy_def)
  have "policy_for now s org = (s, org_policy s org) \<or>
      policy_for now s org = (s\<lparr>policy_cache := (policy_cache s)(org \<mapsto> (now, org_policy s org))\<rparr>, org_policy s org)"
    using assms unfolding policy_for_def cache_exact_def Let_def
    by (cases "policy_cache s org") (simp, clarsimp)
  then show "snd (policy_for now s org) = org_policy s org" "cache_exact (fst (policy_for now s org))"
    "creds (fst (policy_for now s org)) = creds s"
    using assms upd by auto
qed

lemma policy_unrequired: "\<not> some_org_requires s \<Longrightarrow> org_policy s org = ''optional''"
  unfolding some_org_requires_def org_policy_def
  by (cases "filter (\<lambda>r. og_id r = org) (orgs s)")
     (auto simp: first_row_def list_ex_iff dest!: Cons_eq_filterD [OF sym])

text \<open>The cached gate says what the policy says. While the caches are exact, the gate that runs
  on every request obliges a user to enrol exactly when the organization's policy covers the user
  and no active authenticator exists, and its reads leave the caches exact.\<close>

theorem gate_matches_policy:
  assumes "cache_exact s" "valid_policies s" "is_challenged s u = Inr c"
  shows "\<exists>s'. enrolment_outstanding now s (Some u) (Some org) role =
      Inr (s', policy_requires_enrolment s \<lparr>mu_id = u, mu_organization_id = org, mu_role = Some role\<rparr> \<and> \<not> c) \<and> cache_exact s'"
proof -
  let ?req = "policy_requires_enrolment s \<lparr>mu_id = u, mu_organization_id = org, mu_role = Some role\<rparr>"
  obtain s1 where s1: "any_organization_requires_mfa now s = (s1, some_org_requires s)" "cache_exact s1" "orgs s1 = orgs s" "creds s1 = creds s"
    using any_policy_exact [OF assms(1), of now] by (cases "any_organization_requires_mfa now s") simp
  obtain s2 where s2: "policy_for now s1 org = (s2, org_policy s org)" "cache_exact s2" "creds s2 = creds s"
    using policy_for_exact [OF s1(2), of now org] s1(4) org_policy_orgs [OF s1(3), of org]
    by (cases "policy_for now s1 org") simp
  have ch: "is_challenged s2 u = Inr c" using assms(3) s2(3) by (simp add: is_challenged_def credential_for_def)
  have pol: "org_policy s org = ''optional'' \<or> org_policy s org = ''admins'' \<or> org_policy s org = ''all''"
    and req: "?req = (org_policy s org = ''all'' \<or> org_policy s org = ''admins'' \<and> role \<in> set PRIVILEGED_ROLES)"
  proof -
    consider "filter (\<lambda>r. og_id r = org) (orgs s) = []" | r rs where "filter (\<lambda>r. og_id r = org) (orgs s) = r # rs"
      by (cases "filter (\<lambda>r. og_id r = org) (orgs s)")
    then have "(org_policy s org = ''optional'' \<or> org_policy s org = ''admins'' \<or> org_policy s org = ''all'') \<and>
      ?req = (org_policy s org = ''all'' \<or> org_policy s org = ''admins'' \<and> role \<in> set PRIVILEGED_ROLES)"
    proof cases
      case 1
      then show ?thesis by (simp add: org_policy_def policy_requires_enrolment_def first_row_def)
    next
      case (2 r rs)
      then have "r \<in> set (orgs s)" using Cons_eq_filterD [OF sym, of "\<lambda>r. og_id r = org" "orgs s"] by auto
      then have "og_mfa_policy r = ''optional'' \<or> og_mfa_policy r = ''admins'' \<or> og_mfa_policy r = ''all''"
        using assms(2) by (simp add: valid_policies_def list_all_iff)
      then show ?thesis using 2
        by (elim disjE) (simp_all add: org_policy_def policy_requires_enrolment_def first_row_def)
    qed
    then show "org_policy s org = ''optional'' \<or> org_policy s org = ''admins'' \<or> org_policy s org = ''all''"
      "?req = (org_policy s org = ''all'' \<or> org_policy s org = ''admins'' \<and> role \<in> set PRIVILEGED_ROLES)"
      by blast+
  qed
  show ?thesis
  proof (cases "some_org_requires s")
    case False
    then have "org_policy s org = ''optional''" by (rule policy_unrequired)
    then show ?thesis using s1 False by (simp add: enrolment_outstanding_def req)
  next
    case True
    from pol show ?thesis
      by (elim disjE) (use s1(1) s2 ch True in \<open>simp_all add: enrolment_outstanding_def req\<close>)
  qed
qed

theorem gate_matches_policy_witness:
  "\<exists>s' b. enrolment_outstanding 7 sample_store (Some 4) (Some 1) ''admin'' = Inr (s', b) \<and> cache_exact s'"
proof -
  have "cache_exact sample_store" "valid_policies sample_store" "is_challenged sample_store 4 = Inr True"
    by (simp_all add: cache_exact_def valid_policies_def is_challenged_def credential_for_def sample_store_def)
  from gate_matches_policy [OF this, of 7 1 "''admin''"] show ?thesis by blast
qed

text \<open>A policy change may stay unnoticed. The writer clears the cache before it commits: a
  request that runs in between reads the committed old policy and caches it again, so after the
  commit the cache is not exact, although within one process it is said to be.\<close>

theorem stale_policy_after_change:
  assumes "policy \<noteq> org_policy s org" "policy \<noteq> []" "\<exists>r \<in> set (orgs s). og_id r = org"
  shows "\<not> cache_exact ((fst (policy_for now (forget_policy s org) org))\<lparr>orgs := orgs (set_mfa_policy s org policy)\<rparr>)"
proof -
  let ?upd = "update_rows (\<lambda>r. og_id r = org) (\<lambda>r. r\<lparr>og_mfa_policy := policy\<rparr>)"
  have "org_policy (s'\<lparr>orgs := ?upd (orgs s)\<rparr>) org = policy" for s'
  proof -
    have "\<exists>r' rs. filter (\<lambda>r. og_id r = org) (?upd rows) = r'\<lparr>og_mfa_policy := policy\<rparr> # rs" if "\<exists>r \<in> set rows. og_id r = org" for rows
      using that by (induction rows) (auto simp: update_rows_def)
    then obtain r' rs where "filter (\<lambda>r. og_id r = org) (?upd (orgs s)) = r'\<lparr>og_mfa_policy := policy\<rparr> # rs"
      using assms(3) by blast
    then show ?thesis using assms(2) by (simp add: org_policy_def first_row_def)
  qed
  moreover have "org_policy (forget_policy s org) org = org_policy s org"
    by (simp add: forget_policy_def org_policy_def)
  ultimately show ?thesis
    using assms(1) by (auto simp: cache_exact_def policy_for_def forget_policy_def set_mfa_policy_def Let_def)
qed

theorem stale_policy_after_change_witness:
  "\<not> cache_exact ((fst (policy_for 7 (forget_policy sample_store 1) 1))\<lparr>orgs := orgs (set_mfa_policy sample_store 1 ''all'')\<rparr>)"
  by (rule stale_policy_after_change) (simp_all add: org_policy_def first_row_def sample_store_def)

end
