(* ===== verification/Patching_Sla.thy ===== *)
theory Patching_Sla
  imports Grc_Models PyFloat
begin

text \<open>
  Flaw-remediation measurement, \<open>patching/sla.py\<close>: which bucket a POA\&M falls in against the
  declared window, the CR26 accepted-weakness state, and the report over a system's flaws. The
  report is shown equal to counting, and its one number is shown not to improve when a risk is
  accepted or an identification date is lost.
\<close>

section \<open>Vocabulary and the declared window\<close>

definition FEDRAMP_TIMEFRAMES :: "(string \<times> int) list" where [vocab]:
  "FEDRAMP_TIMEFRAMES = [(''critical'', 30), (''high'', 30), (''moderate'', 90), (''low'', 180)]"

definition ACCEPTED_WEAKNESS_DAYS :: int where [vocab]:
  "ACCEPTED_WEAKNESS_DAYS = 192"

definition ACCEPTED_WEAKNESS_STATES :: "string list" where [vocab]:
  "ACCEPTED_WEAKNESS_STATES = [''accepted'', ''not_accepted'', ''unknown'']"

definition SLA_BUCKETS :: "string list" where [vocab]:
  "SLA_BUCKETS = [''within_sla'', ''breached'', ''accepted'', ''closed_on_time'', ''closed_late'', ''unknown'']"

definition FLAW_SOURCES :: "string list" where [vocab]:
  "FLAW_SOURCES = [''scan'']"

record remediation_window =
  rw_critical :: int
  rw_high :: int
  rw_moderate :: int
  rw_low :: int

definition default_window :: remediation_window where
  "default_window = \<lparr>rw_critical = get_default FEDRAMP_TIMEFRAMES ''critical'' 0,
     rw_high = get_default FEDRAMP_TIMEFRAMES ''high'' 0,
     rw_moderate = get_default FEDRAMP_TIMEFRAMES ''moderate'' 0,
     rw_low = get_default FEDRAMP_TIMEFRAMES ''low'' 0\<rparr>"

definition window_dict :: "remediation_window \<Rightarrow> (string \<times> int) list" where
  "window_dict w = [(''critical'', rw_critical w), (''high'', rw_high w),
     (''moderate'', rw_moderate w), (''low'', rw_low w)]"

definition days_for :: "remediation_window \<Rightarrow> string option \<Rightarrow> int" where
  "days_for w severity =
     (case map_of (window_dict w) (lower (case severity of None \<Rightarrow> [] | Some s \<Rightarrow> s)) of
        Some v \<Rightarrow> v
      | None \<Rightarrow> Min (snd ` set (window_dict w)))"

section \<open>One POA\&M\<close>

definition latency :: "poam \<Rightarrow> int option" where
  "latency p =
     (case (po_identified_on p, po_closed_on p) of
        (Some i, Some c) \<Rightarrow> if c - i \<ge> 0 then Some (c - i) else None
      | _ \<Rightarrow> None)"

definition classify :: "poam \<Rightarrow> int \<Rightarrow> date \<Rightarrow> string" where
  "classify p allowed_days today =
     (if po_status p = ''risk_accepted'' then ''accepted''
      else case po_identified_on p of
        None \<Rightarrow> ''unknown''
      | Some identified \<Rightarrow>
          if po_status p \<in> set POAM_CLOSED_STATUSES
          then (case latency p of
                  None \<Rightarrow> ''unknown''
                | Some l \<Rightarrow> if l \<le> allowed_days then ''closed_on_time'' else ''closed_late'')
          else if po_closed_on p \<noteq> None then ''unknown''
          else if today - identified \<le> allowed_days then ''within_sla'' else ''breached'')"

definition accepted_weakness_state :: "poam \<Rightarrow> date \<Rightarrow> string" where
  "accepted_weakness_state p today =
     (if po_status p = ''risk_accepted'' then ''accepted''
      else case po_identified_on p of
        None \<Rightarrow> ''unknown''
      | Some identified \<Rightarrow>
          if po_status p \<in> set POAM_CLOSED_STATUSES
          then (if latency p = None then ''unknown'' else ''not_accepted'')
          else if po_closed_on p \<noteq> None then ''unknown''
          else if today - identified > ACCEPTED_WEAKNESS_DAYS then ''accepted'' else ''not_accepted'')"

section \<open>The report\<close>

record sla_report =
  sr_measured :: nat
  sr_excluded :: nat
  sr_buckets :: "(string \<times> nat) list"
  sr_by_severity :: "(string \<times> (string \<times> nat) list) list"
  sr_breaching_ids :: "int list"
  sr_median_closed_latency_days :: "int option"
  sr_compliance_pct :: "rat option"
  sr_window :: "(string \<times> int) list"

definition zero_buckets :: "(string \<times> nat) list" where
  "zero_buckets = map (\<lambda>b. (b, 0)) SLA_BUCKETS"

definition severity_key :: "poam \<Rightarrow> string" where
  "severity_key p = lower (if po_severity p = [] then ''unknown'' else po_severity p)"

definition is_flaw :: "poam \<Rightarrow> bool" where
  "is_flaw p \<longleftrightarrow> (case po_source p of None \<Rightarrow> [] | Some s \<Rightarrow> s) \<in> set FLAW_SOURCES"

definition bucket_of :: "remediation_window \<Rightarrow> date \<Rightarrow> poam \<Rightarrow> string" where
  "bucket_of w today p = classify p (days_for w (Some (po_severity p))) today"

text \<open>One iteration of the loop of \<open>measure\<close>: the report so far and the latencies collected.\<close>

definition measure_one ::
  "remediation_window \<Rightarrow> date \<Rightarrow> poam \<Rightarrow> sla_report \<times> int list \<Rightarrow> sla_report \<times> int list" where
  "measure_one w today p acc =
     (case acc of (r, latencies) \<Rightarrow>
        if \<not> is_flaw p then (r\<lparr>sr_excluded := sr_excluded r + 1\<rparr>, latencies)
        else let bucket = bucket_of w today p;
                 severity = severity_key p;
                 per = get_default (sr_by_severity r) severity zero_buckets
             in (r\<lparr>sr_measured := sr_measured r + 1,
                   sr_buckets := bump_count bucket (sr_buckets r),
                   sr_by_severity := AList.update severity (bump_count bucket per) (sr_by_severity r),
                   sr_breaching_ids := sr_breaching_ids r @ (if bucket = ''breached'' then [po_id p] else [])\<rparr>,
                 latencies @ (if bucket \<in> {''closed_on_time'', ''closed_late''}
                              then (case latency p of None \<Rightarrow> [] | Some l \<Rightarrow> [l]) else [])))"

text \<open>\<open>int(statistics.median(xs))\<close> of a non-empty list of non-negative integers: the mean of the two
  middle values is truncated.\<close>

definition int_median :: "int list \<Rightarrow> int" where
  "int_median xs =
     (let s = sort xs; n = length s
      in if odd n then s ! (n div 2) else (s ! (n div 2 - 1) + s ! (n div 2)) div 2)"

definition start_report :: "remediation_window \<Rightarrow> sla_report" where
  "start_report w = \<lparr>sr_measured = 0, sr_excluded = 0, sr_buckets = zero_buckets, sr_by_severity = [],
     sr_breaching_ids = [], sr_median_closed_latency_days = None, sr_compliance_pct = None,
     sr_window = window_dict w\<rparr>"

definition finish_report :: "sla_report \<times> int list \<Rightarrow> sla_report" where
  "finish_report acc =
     (case acc of (r, latencies) \<Rightarrow>
        r\<lparr>sr_breaching_ids := sort (sr_breaching_ids r),
          sr_median_closed_latency_days := (if latencies = [] then None else Some (int_median latencies)),
          sr_compliance_pct :=
            (if sr_measured r = 0 then None
             else Some (pct1 (get_default (sr_buckets r) ''within_sla'' 0 +
                              get_default (sr_buckets r) ''closed_on_time'' 0) (sr_measured r)))\<rparr>)"

definition sla_measure :: "poam list \<Rightarrow> remediation_window \<Rightarrow> date \<Rightarrow> sla_report" where
  "sla_measure ps w today = finish_report (fold (measure_one w today) ps (start_report w, []))"

section \<open>Laws\<close>

lemma classify_in_buckets: "classify p n t \<in> set SLA_BUCKETS"
  by (auto simp: classify_def vocab split: option.splits)

lemma bucket_in_buckets: "bucket_of w t p \<in> set SLA_BUCKETS"
  by (simp add: bucket_of_def classify_in_buckets)

lemma distinct_buckets: "distinct SLA_BUCKETS"
  by (simp add: vocab)

definition bucket_tally :: "('a \<Rightarrow> string) \<Rightarrow> 'a list \<Rightarrow> (string \<times> nat) list" where
  "bucket_tally f xs = map (\<lambda>b. (b, count_if (\<lambda>x. f x = b) xs)) SLA_BUCKETS"

lemma bucket_tally_Nil: "bucket_tally f [] = zero_buckets"
  by (simp add: bucket_tally_def zero_buckets_def)

lemma bump_bucket_tally: "f x \<in> set SLA_BUCKETS \<Longrightarrow> bump_count (f x) (bucket_tally f xs) = bucket_tally f (xs @ [x])"
  unfolding bucket_tally_def by (subst bump_count_map) (auto simp: distinct_buckets)

lemma get_bucket_tally: "b \<in> set SLA_BUCKETS \<Longrightarrow> get_default (bucket_tally f xs) b 0 = count_if (\<lambda>x. f x = b) xs"
  by (simp add: bucket_tally_def get_default_map)

lemma sum_tally: "(\<And>x. x \<in> set xs \<Longrightarrow> f x \<in> set SLA_BUCKETS) \<Longrightarrow> sum_list (map snd (bucket_tally f xs)) = length xs"
proof (induction xs rule: rev_induct)
  case (snoc x xs)
  have "bucket_tally f (xs @ [x]) = bump_count (f x) (bucket_tally f xs)"
    using snoc.prems [of x] by (simp add: bump_bucket_tally)
  moreover have "distinct (map fst (bucket_tally f xs))"
    by (simp add: bucket_tally_def comp_def distinct_buckets)
  ultimately show ?case using snoc by (simp add: sum_bump_count)
qed (simp add: bucket_tally_def sum_list_0)

text \<open>What the loop has accumulated after the findings \<open>ps\<close>.\<close>

lemma measure_loop:
  assumes "fold (measure_one w t) ps (start_report w, []) = (r, ls)"
  shows "sr_measured r = count_if is_flaw ps \<and> sr_excluded r = count_if (\<lambda>p. \<not> is_flaw p) ps \<and>
    sr_buckets r = bucket_tally (bucket_of w t) (filter is_flaw ps) \<and>
    (\<forall>s. get_default (sr_by_severity r) s zero_buckets =
       bucket_tally (bucket_of w t) (filter (\<lambda>p. is_flaw p \<and> severity_key p = s) ps)) \<and>
    sr_breaching_ids r = map po_id (filter (\<lambda>p. is_flaw p \<and> bucket_of w t p = ''breached'') ps) \<and>
    sr_window r = window_dict w"
  using assms
proof (induction ps arbitrary: r ls rule: rev_induct)
  case Nil
  then have "r = start_report w" by simp
  then show ?case by (simp only:) (simp add: start_report_def bucket_tally_Nil get_default_def)
next
  case (snoc p ps)
  obtain r0 l0 where r0: "fold (measure_one w t) ps (start_report w, []) = (r0, l0)"
    by (cases "fold (measure_one w t) ps (start_report w, [])")
  note IH = snoc.IH [OF r0]
  have step: "measure_one w t p (r0, l0) = (r, ls)" using snoc.prems r0 by simp
  show ?case
  proof (cases "is_flaw p")
    case False
    then have "r = r0\<lparr>sr_excluded := sr_excluded r0 + 1\<rparr>" using step by (simp add: measure_one_def)
    then show ?thesis using IH False by simp
  next
    case True
    have f: "sr_measured r = Suc (sr_measured r0)" "sr_excluded r = sr_excluded r0"
      "sr_buckets r = bump_count (bucket_of w t p) (sr_buckets r0)"
      "sr_by_severity r = AList.update (severity_key p) (bump_count (bucket_of w t p)
         (get_default (sr_by_severity r0) (severity_key p) zero_buckets)) (sr_by_severity r0)"
      "sr_breaching_ids r = sr_breaching_ids r0 @ (if bucket_of w t p = ''breached'' then [po_id p] else [])"
      "sr_window r = sr_window r0"
      using step True by (auto simp: measure_one_def Let_def)
    have b: "bump_count (bucket_of w t p) (bucket_tally (bucket_of w t) xs) = bucket_tally (bucket_of w t) (xs @ [p])"
      for xs by (simp add: bump_bucket_tally bucket_in_buckets)
    show ?thesis using IH True unfolding f by (simp add: b)
  qed
qed

lemma measure_fields:
  "sr_measured (sla_measure ps w t) = count_if is_flaw ps"
  "sr_excluded (sla_measure ps w t) = count_if (\<lambda>p. \<not> is_flaw p) ps"
  "sr_buckets (sla_measure ps w t) = bucket_tally (bucket_of w t) (filter is_flaw ps)"
  "get_default (sr_by_severity (sla_measure ps w t)) s zero_buckets =
     bucket_tally (bucket_of w t) (filter (\<lambda>p. is_flaw p \<and> severity_key p = s) ps)"
  "sr_breaching_ids (sla_measure ps w t) =
     sort (map po_id (filter (\<lambda>p. is_flaw p \<and> bucket_of w t p = ''breached'') ps))"
proof -
  obtain r ls where r: "fold (measure_one w t) ps (start_report w, []) = (r, ls)"
    by (cases "fold (measure_one w t) ps (start_report w, [])")
  note m = measure_loop [OF r]
  show "sr_measured (sla_measure ps w t) = count_if is_flaw ps"
    "sr_excluded (sla_measure ps w t) = count_if (\<lambda>p. \<not> is_flaw p) ps"
    "sr_buckets (sla_measure ps w t) = bucket_tally (bucket_of w t) (filter is_flaw ps)"
    "get_default (sr_by_severity (sla_measure ps w t)) s zero_buckets =
       bucket_tally (bucket_of w t) (filter (\<lambda>p. is_flaw p \<and> severity_key p = s) ps)"
    "sr_breaching_ids (sla_measure ps w t) =
       sort (map po_id (filter (\<lambda>p. is_flaw p \<and> bucket_of w t p = ''breached'') ps))"
    using m by (simp_all add: sla_measure_def finish_report_def r)
qed

definition on_time :: "remediation_window \<Rightarrow> date \<Rightarrow> poam \<Rightarrow> bool" where
  "on_time w t p \<longleftrightarrow> bucket_of w t p = ''within_sla'' \<or> bucket_of w t p = ''closed_on_time''"

lemma measure_compliance:
  "sr_compliance_pct (sla_measure ps w t) =
     (if count_if is_flaw ps = 0 then None
      else Some (pct1 (count_if (\<lambda>p. is_flaw p \<and> on_time w t p) ps) (count_if is_flaw ps)))"
proof -
  obtain r ls where r: "fold (measure_one w t) ps (start_report w, []) = (r, ls)"
    by (cases "fold (measure_one w t) ps (start_report w, [])")
  note m = measure_loop [OF r]
  have b: "''within_sla'' \<in> set SLA_BUCKETS" "''closed_on_time'' \<in> set SLA_BUCKETS"
    by (simp_all add: vocab)
  have "get_default (sr_buckets r) ''within_sla'' 0 + get_default (sr_buckets r) ''closed_on_time'' 0
      = count_if (\<lambda>p. is_flaw p \<and> on_time w t p) ps"
    using m by (simp only: get_bucket_tally [OF b(1)] get_bucket_tally [OF b(2)])
      (subst count_if_disj, simp, simp add: count_if_filter on_time_def)
  then show ?thesis using m by (simp add: sla_measure_def finish_report_def r)
qed

section \<open>Properties\<close>

text \<open>The report counts every finding once. Measured and excluded findings add up to the input,
  the buckets are the closed vocabulary and add up to what was measured, overall and for each
  severity, the breaching list is sorted and as long as its bucket, and the compliance figure is
  absent exactly when nothing was measured and otherwise a percentage.\<close>

theorem measure_counts_every_flaw:
  "(let r = sla_measure ps w today in
      sr_measured r + sr_excluded r = length ps \<and>
      map fst (sr_buckets r) = SLA_BUCKETS \<and> sum_list (map snd (sr_buckets r)) = sr_measured r \<and>
      (\<forall>s. sum_list (map snd (get_default (sr_by_severity r) s zero_buckets)) =
         count_if (\<lambda>p. is_flaw p \<and> severity_key p = s) ps) \<and>
      sorted (sr_breaching_ids r) \<and>
      length (sr_breaching_ids r) = get_default (sr_buckets r) ''breached'' 0 \<and>
      (case sr_compliance_pct r of None \<Rightarrow> sr_measured r = 0
       | Some q \<Rightarrow> 0 < sr_measured r \<and> 0 \<le> q \<and> q \<le> 100))"
proof -
  have "count_if is_flaw ps + count_if (\<lambda>p. \<not> is_flaw p) ps = length ps"
    by (induction ps) auto
  moreover have "''breached'' \<in> set SLA_BUCKETS" by (simp add: vocab)
  moreover have le: "count_if (\<lambda>p. is_flaw p \<and> on_time w today p) ps \<le> count_if is_flaw ps"
    by (induction ps) auto
  moreover have "case sr_compliance_pct (sla_measure ps w today) of None \<Rightarrow> count_if is_flaw ps = 0
      | Some q \<Rightarrow> 0 < count_if is_flaw ps \<and> 0 \<le> q \<and> q \<le> 100"
    using pct1_bounds [OF le] by (simp add: measure_compliance del: count_if_0)
  ultimately show ?thesis
    unfolding Let_def measure_fields
    by (simp add: sum_tally bucket_in_buckets get_bucket_tally count_if_filter del: count_if_0)
      (simp add: bucket_tally_def comp_def count_if_def)
qed

text \<open>Either an acceptance of the risk or the loss of the identification date.\<close>

definition degraded :: "poam \<Rightarrow> poam \<Rightarrow> bool" where
  "degraded p q \<longleftrightarrow> q \<in> {p, p\<lparr>po_status := ''risk_accepted''\<rparr>, p\<lparr>po_identified_on := None\<rparr>}"

definition no_better :: "rat option \<Rightarrow> rat option \<Rightarrow> bool" where
  "no_better q p = (case (q, p) of (Some y, Some x) \<Rightarrow> y \<le> x | (None, None) \<Rightarrow> True | _ \<Rightarrow> False)"

lemma degraded_on_time:
  assumes "degraded p q"
  shows "is_flaw q = is_flaw p" "on_time w t q \<Longrightarrow> on_time w t p"
  using assms
  by (auto simp: degraded_def is_flaw_def on_time_def bucket_of_def classify_def)

text \<open>Accepting a risk, or losing the date a flaw was identified, never improves the compliance
  figure: whatever findings are so changed, the figure stays defined and does not grow.\<close>

theorem accepting_risk_never_improves:
  assumes "list_all2 degraded ps qs"
  shows "no_better (sr_compliance_pct (sla_measure qs w today)) (sr_compliance_pct (sla_measure ps w today))"
proof -
  have "count_if is_flaw qs = count_if is_flaw ps \<and>
      count_if (\<lambda>p. is_flaw p \<and> on_time w today p) qs \<le> count_if (\<lambda>p. is_flaw p \<and> on_time w today p) ps"
    using assms
  proof (induction rule: list_all2_induct)
    case (Cons p ps q qs)
    then show ?case using degraded_on_time [OF Cons(1)] by (auto simp: le_Suc_eq)
  qed simp
  then show ?thesis unfolding measure_compliance by (simp add: no_better_def pct1_mono)
qed

definition sample_flaw :: poam where
  "sample_flaw = \<lparr>po_id = 7, po_system_id = 1, po_control_id = None, po_title = ''t'', po_weakness = None,
     po_severity = ''High'', po_status = ''open'', po_identified_on = Some 19000, po_due_on = None,
     po_closed_on = None, po_source = Some ''scan'', po_remediation_plan = None,
     po_remediation_plan_source = ''generated'', po_original_due_on = None, po_source_ref = None,
     po_milestones = [],
     po_owner_user_id = None, po_acceptance_rationale = None\<rparr>"

theorem accepting_risk_never_improves_witness:
  "no_better (sr_compliance_pct (sla_measure [sample_flaw\<lparr>po_status := ''risk_accepted''\<rparr>] default_window 19010))
     (sr_compliance_pct (sla_measure [sample_flaw] default_window 19010)) \<and>
   sr_compliance_pct (sla_measure [sample_flaw] default_window 19010) = Some 100"
proof -
  have "list_all2 degraded [sample_flaw] [sample_flaw\<lparr>po_status := ''risk_accepted''\<rparr>]"
    by (simp add: degraded_def)
  note t = accepting_risk_never_improves [OF this, of default_window 19010]
  have "is_flaw sample_flaw" by (simp add: is_flaw_def sample_flaw_def vocab)
  moreover have "on_time default_window 19010 sample_flaw"
    by (simp add: on_time_def bucket_of_def classify_def sample_flaw_def days_for_def default_window_def
        window_dict_def get_default_def vocab lower_def lower_char_def is_upper_def in_range_def)
  moreover have "pct1 1 1 = 100"
    using py_round_of_int [of 100 1] fl_of_int [of 100] by (simp add: pct1_def fdiv_def)
  ultimately have "sr_compliance_pct (sla_measure [sample_flaw] default_window 19010) = Some 100"
    unfolding measure_compliance by simp
  with t show ?thesis by blast
qed

text \<open>The two projections of a weakness agree. They call the same rows unmeasurable and the same
  rows declared accepted, both stay in their closed vocabularies, and for a window of at most 192
  days what CR26 calls accepted by age is a breach of the declared window.\<close>

theorem accepted_weakness_agrees:
  "classify p n today \<in> set SLA_BUCKETS \<and> accepted_weakness_state p today \<in> set ACCEPTED_WEAKNESS_STATES \<and>
   (accepted_weakness_state p today = ''unknown'') = (classify p n today = ''unknown'') \<and>
   (po_status p = ''risk_accepted'') = (classify p n today = ''accepted'') \<and>
   \<not> (n \<le> ACCEPTED_WEAKNESS_DAYS \<and> accepted_weakness_state p today = ''accepted'' \<and>
       classify p n today \<notin> {''accepted'', ''breached''})"
  by (auto simp: classify_def accepted_weakness_state_def vocab split: option.splits)

text \<open>A severity outside the vocabulary is measured against the strictest window.\<close>

lemma days_for_known:
  "map_of (window_dict w) (lower s) = Some v \<Longrightarrow> days_for w (Some s) = v"
  by (simp add: days_for_def)

lemma days_for_strictest:
  assumes "map_of (window_dict w) (lower s) = None"
  shows "days_for w (Some s) \<le> days_for w (Some s')"
proof (cases "map_of (window_dict w) (lower s')")
  case (Some v)
  then have "v \<in> snd ` set (window_dict w)" by (force dest: map_of_SomeD)
  then have "Min (snd ` set (window_dict w)) \<le> v" by simp
  then show ?thesis using assms Some by (simp add: days_for_def)
qed (use assms in \<open>simp add: days_for_def\<close>)

end
