(* ===== verification/Patching.thy ===== *)
theory Patching
  imports Patching_Sla Audit_Trail
begin

text \<open>
  Patch campaigns, \<open>patching/service.py\<close> with the rows of \<open>models_patching.py\<close> and the endpoints of
  \<open>api/routes/patching.py\<close> that change them: the declared window, the measurement of a system, the
  waves of a campaign and their completion in order.

  A refusal is \<open>PatchingError\<close>: the request's transaction is rolled back, so it has no state. What
  \<open>create_campaign\<close> reads and what it writes are separate definitions, because two transactions may
  run the reads before either writes.
\<close>

section \<open>Rows\<close>

record patch_campaign =
  pg_id :: int
  pg_organization_id :: "int option"
  pg_system_id :: int
  pg_name :: string
  pg_status :: string
  pg_window_start :: date
  pg_window_end :: date
  pg_created_by :: "string option"
  pg_completed_at :: "datetime option"

record patch_wave =
  wv_id :: int
  wv_campaign_id :: int
  wv_sequence :: int
  wv_name :: "string option"
  wv_status :: string
  wv_poam_ids :: "int list"
  wv_window_start :: "date option"
  wv_window_end :: "date option"
  wv_completed_at :: "datetime option"
  wv_completed_by :: "string option"
  wv_evidence_ref :: "string option"
  wv_remediation_plan_id :: "int option"

record remediation_policy =
  rq_id :: int
  rq_organization_id :: "int option"
  rq_critical_days :: int
  rq_high_days :: int
  rq_moderate_days :: int
  rq_low_days :: int
  rq_source :: "string option"

record remediation_plan =
  rp_id :: int
  rp_organization_id :: "int option"
  rp_system_id :: int
  rp_status :: string

record patch_store =
  pt_systems :: "system list"
  pt_poams :: "poam list"
  pt_policies :: "remediation_policy list"
  pt_plans :: "remediation_plan list"
  pt_campaigns :: "patch_campaign list"
  pt_waves :: "patch_wave list"
  pt_audit :: audit_store
  pt_next_id :: int

definition CAMPAIGN_STATUSES :: "string list" where [vocab]:
  "CAMPAIGN_STATUSES = [''planned'', ''in_progress'', ''completed'', ''cancelled'']"

definition WAVE_STATUSES :: "string list" where [vocab]:
  "WAVE_STATUSES = [''pending'', ''completed'', ''skipped'']"

section \<open>The window and the measurement\<close>

definition resolve_window :: "patch_store \<Rightarrow> int option \<Rightarrow> remediation_window" where
  "resolve_window s org =
     (case first_row (filter (\<lambda>q. rq_organization_id q = org) (pt_policies s)) of
        None \<Rightarrow> default_window
      | Some q \<Rightarrow> \<lparr>rw_critical = rq_critical_days q, rw_high = rq_high_days q,
                   rw_moderate = rq_moderate_days q, rw_low = rq_low_days q\<rparr>)"

definition live_system :: "patch_store \<Rightarrow> int \<Rightarrow> system res" where
  "live_system s system_id =
     (case first_row (filter (\<lambda>y. sy_id y = system_id) (pt_systems s)) of
        None \<Rightarrow> Inl (PatchingError (fstr [''unknown system: '', str_of_int system_id]))
      | Some y \<Rightarrow> if sy_deleted_at y \<noteq> None
                 then Inl (PatchingError (fstr [''unknown system: '', str_of_int system_id])) else Inr y)"

definition flaw_poams :: "patch_store \<Rightarrow> int \<Rightarrow> bool \<Rightarrow> poam list" where
  "flaw_poams s system_id open_only =
     sort_key po_id (filter (\<lambda>p. po_system_id p = system_id \<and>
         (case po_source p of None \<Rightarrow> False | Some x \<Rightarrow> x \<in> set FLAW_SOURCES) \<and>
         (open_only \<longrightarrow> po_status p \<in> set POAM_ACTIVE_STATUSES)) (pt_poams s))"

definition measure_system :: "patch_store \<Rightarrow> int \<Rightarrow> date \<Rightarrow> sla_report res" where
  "measure_system s system_id today =
     rbind (live_system s system_id) (\<lambda>y.
       Inr (sla_measure (flaw_poams s system_id False) (resolve_window s (Some (sy_organization_id y))) today))"

text \<open>\<open>set_policy\<close> of the API: only the fields the request sets are changed, on the tenant's row or a
  new one with the model's defaults. \<open>pi_days\<close> holds the \<open>*_days\<close> fields that are set.\<close>

record policy_in =
  pi_days :: "(string \<times> int) list"
  pi_source :: "string option option"

definition default_policy :: "int \<Rightarrow> int option \<Rightarrow> remediation_policy" where
  "default_policy i org = \<lparr>rq_id = i, rq_organization_id = org, rq_critical_days = rw_critical default_window,
     rq_high_days = rw_high default_window, rq_moderate_days = rw_moderate default_window,
     rq_low_days = rw_low default_window, rq_source = None\<rparr>"

definition apply_policy :: "policy_in \<Rightarrow> remediation_policy \<Rightarrow> remediation_policy" where
  "apply_policy body q = q\<lparr>
     rq_critical_days := get_default (pi_days body) ''critical_days'' (rq_critical_days q),
     rq_high_days := get_default (pi_days body) ''high_days'' (rq_high_days q),
     rq_moderate_days := get_default (pi_days body) ''moderate_days'' (rq_moderate_days q),
     rq_low_days := get_default (pi_days body) ''low_days'' (rq_low_days q),
     rq_source := (case pi_source body of None \<Rightarrow> rq_source q | Some v \<Rightarrow> v)\<rparr>"

definition policy_event :: "string \<Rightarrow> policy_in \<Rightarrow> remediation_policy \<Rightarrow> audit_event" where
  "policy_event actor body q = \<lparr>ae_actor = actor, ae_action = ''update'', ae_entity_type = ''remediation_policy'',
     ae_entity_id = Some (str_of_int (rq_id q)),
     ae_diff = JObj ([(''event'', JStr ''declared'')] @ map (\<lambda>(k, v). (k, JInt v)) (pi_days body) @
       [(''source'', case rq_source q of None \<Rightarrow> JNull | Some x \<Rightarrow> JStr x)]),
     ae_organization_id = rq_organization_id q\<rparr>"

definition set_policy ::
  "(string \<Rightarrow> string) \<Rightarrow> patch_store \<Rightarrow> int option \<Rightarrow> string \<Rightarrow> policy_in \<Rightarrow> patch_store res" where
  "set_policy H s org actor body =
     (if \<exists>v \<in> snd ` set (pi_days body). v < 1
      then Inl (ValueError ''every window must be at least one day'')
      else case first_row (filter (\<lambda>q. rq_organization_id q = org) (pt_policies s)) of
        Some q \<Rightarrow>
          let q' = apply_policy body q
          in Inr (s\<lparr>pt_policies := update_rows (\<lambda>x. rq_id x = rq_id q) (apply_policy body) (pt_policies s),
                    pt_audit := record_event H (pt_audit s) (policy_event actor body q')\<rparr>)
      | None \<Rightarrow>
          let q' = apply_policy body (default_policy (pt_next_id s) org)
          in Inr (s\<lparr>pt_policies := pt_policies s @ [q'], pt_next_id := pt_next_id s + 1,
                    pt_audit := record_event H (pt_audit s) (policy_event actor body q')\<rparr>))"

section \<open>Planning a campaign\<close>

function chunks :: "nat \<Rightarrow> 'a list \<Rightarrow> 'a list list" where
  "chunks n xs = (if n = 0 \<or> xs = [] then [] else take n xs # chunks n (drop n xs))"
  by pat_completeness auto
termination by (relation "measure (length \<circ> snd)") auto

declare chunks.simps [simp del]

definition plan_waves :: "int list \<Rightarrow> int \<Rightarrow> int list list res" where
  "plan_waves poam_ids wave_size =
     (if wave_size < 1
      then Inl (PatchingError (fstr [''wave_size must be at least 1, got '', str_of_int wave_size]))
      else Inr (case poam_ids of
          [] \<Rightarrow> []
        | p # rest \<Rightarrow> if rest = [] then [[p]] else [p] # chunks (nat wave_size) rest))"

definition active_campaign :: "patch_campaign \<Rightarrow> bool" where
  "active_campaign c \<longleftrightarrow> pg_status c \<in> {''planned'', ''in_progress''}"

definition overlapping :: "patch_store \<Rightarrow> int \<Rightarrow> date \<Rightarrow> date \<Rightarrow> patch_campaign option" where
  "overlapping s system_id start finish =
     first_row (sort_key pg_id (filter (\<lambda>c. pg_system_id c = system_id \<and> active_campaign c \<and>
       pg_window_start c \<le> finish \<and> start \<le> pg_window_end c) (pt_campaigns s)))"

record campaign_request =
  rc_system_id :: int
  rc_name :: string
  rc_window_start :: date
  rc_window_end :: date
  rc_actor :: string
  rc_wave_size :: int

definition clash_message :: "patch_campaign \<Rightarrow> string" where
  "clash_message c = fstr [''campaign '', str_of_int (pg_id c), '' ('', py_repr (pg_name c), '') already covers '',
     date_str (pg_window_start c), ''..'', date_str (pg_window_end c), '' on this system'']"

text \<open>The reads and refusals of \<open>create_campaign\<close>: the system's organization, and the batches.\<close>

definition campaign_checks :: "patch_store \<Rightarrow> campaign_request \<Rightarrow> (int \<times> int list list) res" where
  "campaign_checks s r =
     rbind (live_system s (rc_system_id r)) (\<lambda>y.
       if rc_window_end r < rc_window_start r then Inl (PatchingError ''window_end is before window_start'')
       else case overlapping s (rc_system_id r) (rc_window_start r) (rc_window_end r) of
         Some c \<Rightarrow> Inl (PatchingError (clash_message c))
       | None \<Rightarrow>
           let open_flaws = flaw_poams s (rc_system_id r) True
           in if open_flaws = []
              then Inl (PatchingError ''no open scan-sourced findings to remediate on this system'')
              else rbind (plan_waves (map po_id open_flaws) (rc_wave_size r)) (\<lambda>batches.
                     Inr (sy_organization_id y, batches)))"

definition new_wave :: "campaign_request \<Rightarrow> int \<Rightarrow> nat \<Rightarrow> int list \<Rightarrow> patch_wave" where
  "new_wave r cid k batch = \<lparr>wv_id = cid + int k + 1, wv_campaign_id = cid, wv_sequence = int k + 1,
     wv_name = Some (fstr [''Wave '', str_of_nat (k + 1), if k = 0 then '' (canary)'' else []]),
     wv_status = ''pending'', wv_poam_ids = batch, wv_window_start = Some (rc_window_start r),
     wv_window_end = Some (rc_window_end r), wv_completed_at = None, wv_completed_by = None,
     wv_evidence_ref = None, wv_remediation_plan_id = None\<rparr>"

definition new_campaign :: "campaign_request \<Rightarrow> int \<Rightarrow> int \<Rightarrow> patch_campaign" where
  "new_campaign r cid org = \<lparr>pg_id = cid, pg_organization_id = Some org, pg_system_id = rc_system_id r,
     pg_name = rc_name r, pg_status = ''planned'', pg_window_start = rc_window_start r,
     pg_window_end = rc_window_end r, pg_created_by = Some (rc_actor r), pg_completed_at = None\<rparr>"

definition campaign_event :: "campaign_request \<Rightarrow> int \<Rightarrow> int \<Rightarrow> int list list \<Rightarrow> audit_event" where
  "campaign_event r cid org batches = \<lparr>ae_actor = rc_actor r, ae_action = ''create'',
     ae_entity_type = ''patch_campaign'', ae_entity_id = Some (str_of_int cid),
     ae_diff = JObj [(''event'', JStr ''planned''), (''system_id'', JInt (rc_system_id r)),
       (''window'', JList [JStr (date_str (rc_window_start r)), JStr (date_str (rc_window_end r))]),
       (''findings'', JInt (int (length (concat batches)))),
       (''waves'', JList (map (\<lambda>b. JInt (int (length b))) batches))],
     ae_organization_id = Some org\<rparr>"

definition insert_campaign ::
  "(string \<Rightarrow> string) \<Rightarrow> campaign_request \<Rightarrow> int \<times> int list list \<Rightarrow> patch_store \<Rightarrow> patch_store" where
  "insert_campaign H r checked s =
     (case checked of (org, batches) \<Rightarrow>
        let cid = pt_next_id s
        in s\<lparr>pt_campaigns := pt_campaigns s @ [new_campaign r cid org],
             pt_waves := pt_waves s @ map (\<lambda>(k, b). new_wave r cid k b) (enumerate 0 batches),
             pt_audit := record_event H (pt_audit s) (campaign_event r cid org batches),
             pt_next_id := cid + int (length batches) + 1\<rparr>)"

definition create_campaign :: "(string \<Rightarrow> string) \<Rightarrow> patch_store \<Rightarrow> campaign_request \<Rightarrow> patch_store res" where
  "create_campaign H s r = rbind (campaign_checks s r) (\<lambda>checked. Inr (insert_campaign H r checked s))"

section \<open>Completing a wave\<close>

definition waves_for :: "patch_store \<Rightarrow> int \<Rightarrow> patch_wave list" where
  "waves_for s cid = sort_key wv_sequence (filter (\<lambda>w. wv_campaign_id w = cid) (pt_waves s))"

record completion =
  cp_actor :: string
  cp_evidence_ref :: "string option"
  cp_plan_id :: "int option"

definition clean_ref :: "string option \<Rightarrow> string option" where
  "clean_ref e = (let t = strip (case e of None \<Rightarrow> [] | Some x \<Rightarrow> x) in if t = [] then None else Some t)"

definition applied_plan :: "patch_store \<Rightarrow> patch_campaign \<Rightarrow> int \<Rightarrow> bool" where
  "applied_plan s c plan_id \<longleftrightarrow>
     (case first_row (filter (\<lambda>p. rp_id p = plan_id) (pt_plans s)) of
        None \<Rightarrow> False
      | Some p \<Rightarrow> rp_organization_id p = pg_organization_id c \<and> rp_system_id p = pg_system_id c \<and>
                 rp_status p = ''applied'')"

text \<open>The refusals, in the order of the code; the campaign when there is none.\<close>

definition completion_checks :: "patch_store \<Rightarrow> patch_wave \<Rightarrow> completion \<Rightarrow> patch_campaign res" where
  "completion_checks s w r =
     (if wv_status w \<noteq> ''pending''
      then Inl (PatchingError (fstr [''wave '', str_of_int (wv_sequence w), '' is already '', wv_status w]))
      else case first_row (filter (\<lambda>c. pg_id c = wv_campaign_id w) (pt_campaigns s)) of
        None \<Rightarrow> Inl (PatchingError (fstr [''wave '', str_of_int (wv_id w), '' has no campaign'']))
      | Some c \<Rightarrow>
          if pg_status c \<in> {''cancelled'', ''completed''}
          then Inl (PatchingError (fstr [''campaign '', str_of_int (pg_id c), '' is '', pg_status c,
                 ''; its waves can no longer be completed'']))
          else case filter (\<lambda>v. wv_sequence v < wv_sequence w \<and> wv_status v = ''pending'') (waves_for s (wv_campaign_id w)) of
            e # _ \<Rightarrow> Inl (PatchingError (fstr [''wave '', str_of_int (wv_sequence e),
                        '' is still pending; complete waves in order'']))
          | [] \<Rightarrow>
              if (case cp_plan_id r of None \<Rightarrow> False | Some i \<Rightarrow> \<not> applied_plan s c i)
              then Inl (PatchingError (fstr [''remediation plan '', str_of_int (the (cp_plan_id r)),
                     '' is not an applied plan for this campaign'', [CHR 0x27], ''s system'']))
              else if clean_ref (cp_evidence_ref r) = None \<and> cp_plan_id r = None
              then Inl (PatchingError ''completing a wave requires evidence_ref or an applied remediation_plan_id'')
              else Inr c)"

definition mark_completed :: "datetime \<Rightarrow> completion \<Rightarrow> patch_wave \<Rightarrow> patch_wave" where
  "mark_completed now r w = w\<lparr>wv_status := ''completed'', wv_completed_at := Some now,
     wv_completed_by := Some (cp_actor r), wv_evidence_ref := clean_ref (cp_evidence_ref r),
     wv_remediation_plan_id := cp_plan_id r\<rparr>"

definition advance_campaign :: "datetime \<Rightarrow> bool \<Rightarrow> patch_campaign \<Rightarrow> patch_campaign" where
  "advance_campaign now finished c =
     (if finished then c\<lparr>pg_status := ''completed'', pg_completed_at := Some now\<rparr>
      else c\<lparr>pg_status := ''in_progress''\<rparr>)"

definition wave_event :: "patch_campaign \<Rightarrow> patch_wave \<Rightarrow> completion \<Rightarrow> audit_event" where
  "wave_event c w r = \<lparr>ae_actor = cp_actor r, ae_action = ''update'', ae_entity_type = ''patch_wave'',
     ae_entity_id = Some (str_of_int (wv_id w)),
     ae_diff = JObj [(''event'', JStr ''completed''), (''campaign_id'', JInt (wv_campaign_id w)),
       (''sequence'', JInt (wv_sequence w)), (''poams'', JList (map JInt (wv_poam_ids w))),
       (''evidence_ref'', case clean_ref (cp_evidence_ref r) of None \<Rightarrow> JNull | Some e \<Rightarrow> JStr e),
       (''remediation_plan_id'', case cp_plan_id r of None \<Rightarrow> JNull | Some i \<Rightarrow> JInt i)],
     ae_organization_id = pg_organization_id c\<rparr>"

definition complete_wave ::
  "(string \<Rightarrow> string) \<Rightarrow> datetime \<Rightarrow> patch_store \<Rightarrow> patch_wave \<Rightarrow> completion \<Rightarrow> patch_store res" where
  "complete_wave H now s w r =
     rbind (completion_checks s w r) (\<lambda>c.
       let s1 = s\<lparr>pt_waves := update_rows (\<lambda>v. wv_id v = wv_id w) (mark_completed now r) (pt_waves s)\<rparr>;
           remaining = filter (\<lambda>v. wv_status v = ''pending'') (waves_for s1 (wv_campaign_id w))
       in Inr (s1\<lparr>pt_campaigns := update_rows (\<lambda>d. pg_id d = pg_id c)
                    (advance_campaign now (remaining = [])) (pt_campaigns s1),
                  pt_audit := record_event H (pt_audit s1) (wave_event c w r)\<rparr>))"

section \<open>What can happen to the tables\<close>

text \<open>A committed request, or any change the rest of the platform makes to systems, POA\&Ms and
  enforcement plans.\<close>

inductive patch_step :: "(string \<Rightarrow> string) \<Rightarrow> patch_store \<Rightarrow> patch_store \<Rightarrow> bool" for H where
  Create: "create_campaign H s r = Inr s' \<Longrightarrow> patch_step H s s'"
| Complete: "w \<in> set (pt_waves s) \<Longrightarrow> complete_wave H now s w r = Inr s' \<Longrightarrow> patch_step H s s'"
| Declare: "set_policy H s org actor body = Inr s' \<Longrightarrow> patch_step H s s'"
| Elsewhere: "patch_step H s (s\<lparr>pt_systems := sys, pt_poams := ps, pt_plans := plans\<rparr>)"

inductive_cases patch_step_elim: "patch_step H s s'"

definition empty_patch_store :: patch_store where
  "empty_patch_store = \<lparr>pt_systems = [], pt_poams = [], pt_policies = [], pt_plans = [], pt_campaigns = [],
     pt_waves = [], pt_audit = \<lparr>rows = [], row_seq = 1\<rparr>, pt_next_id = 1\<rparr>"

definition patch_reachable :: "(string \<Rightarrow> string) \<Rightarrow> patch_store \<Rightarrow> bool" where
  "patch_reachable H s \<longleftrightarrow> (patch_step H)\<^sup>*\<^sup>* empty_patch_store s"

end
