(* ===== verification/Patching_Laws.thy ===== *)
theory Patching_Laws
  imports Patching
begin

text \<open>
  What holds of patch campaigns: the batches of a campaign are its findings behind a canary of one,
  waves complete in order, no two active campaigns of a system overlap when requests are serial (and
  how two concurrent requests break that), and the audit trail of every reachable store verifies.
\<close>

section \<open>Batches\<close>

lemma chunks_Nil [simp]: "chunks n [] = []"
  by (simp add: chunks.simps)

lemma concat_chunks: "n > 0 \<Longrightarrow> concat (chunks n xs) = xs"
proof (induction n xs rule: chunks.induct)
  case (1 n xs)
  then show ?case by (cases "xs = []") (simp_all add: chunks.simps [of n xs])
qed

lemma chunks_sizes: "b \<in> set (chunks n xs) \<Longrightarrow> 0 < length b \<and> length b \<le> n"
proof (induction n xs rule: chunks.induct)
  case (1 n xs)
  then show ?case by (auto simp: chunks.simps [of n xs] split: if_splits)
qed

text \<open>A campaign's batches are exactly the findings, in order, behind a canary of one: planning
  refuses exactly a wave size below one, and otherwise returns non-empty batches whose concatenation
  is the input, the first of one finding and none above the wave size.\<close>

theorem plan_waves_partition:
  "(case plan_waves ids n of
      Inl e \<Rightarrow> n < 1 \<and> (\<exists>m. e = PatchingError m)
    | Inr bs \<Rightarrow> 1 \<le> n \<and> concat bs = ids \<and> (bs = []) = (ids = []) \<and> map length (take 1 bs) = map (\<lambda>_. 1) (take 1 ids) \<and>
        list_all (\<lambda>b. 0 < length b \<and> int (length b) \<le> n) bs)"
proof (cases "n < 1")
  case False
  then have "list_all (\<lambda>b. 0 < length b \<and> int (length b) \<le> n) (chunks (nat n) rest)" for rest :: "int list"
    using chunks_sizes [of _ "nat n" rest] by (fastforce simp: list_all_iff)
  with False show ?thesis
    by (cases ids) (simp_all add: plan_waves_def concat_chunks)
qed (simp add: plan_waves_def)

section \<open>The invariant\<close>

definition wave_pattern :: "nat \<Rightarrow> nat \<Rightarrow> (int \<times> string) list" where
  "wave_pattern k n = map (\<lambda>i. (int i + 1, if i < k then ''completed'' else ''pending'')) [0..<n]"

definition progress_status :: "nat \<Rightarrow> nat \<Rightarrow> string" where
  "progress_status k n = (if k = 0 then ''planned'' else if k = n then ''completed'' else ''in_progress'')"

definition in_order :: "patch_store \<Rightarrow> patch_campaign \<Rightarrow> bool" where
  "in_order s c \<longleftrightarrow> (\<exists>n k. 0 < n \<and> k \<le> n \<and>
     map (\<lambda>w. (wv_sequence w, wv_status w)) (waves_for s (pg_id c)) = wave_pattern k n \<and>
     pg_status c = progress_status k n)"

definition backed :: "patch_wave \<Rightarrow> bool" where
  "backed w \<longleftrightarrow> wv_status w = ''pending'' \<or> wv_evidence_ref w \<noteq> None \<or> wv_remediation_plan_id w \<noteq> None"

definition clash :: "patch_campaign \<Rightarrow> patch_campaign \<Rightarrow> bool" where
  "clash c d \<longleftrightarrow> pg_system_id c = pg_system_id d \<and> active_campaign c \<and> active_campaign d \<and>
     pg_window_start c \<le> pg_window_end d \<and> pg_window_start d \<le> pg_window_end c"

definition patch_inv :: "(string \<Rightarrow> string) \<Rightarrow> patch_store \<Rightarrow> bool" where
  "patch_inv H s \<longleftrightarrow>
     distinct (map pg_id (pt_campaigns s)) \<and> distinct (map wv_id (pt_waves s)) \<and>
     (\<forall>c \<in> set (pt_campaigns s). pg_id c < pt_next_id s \<and> in_order s c) \<and>
     (\<forall>w \<in> set (pt_waves s). wv_id w < pt_next_id s \<and> wv_campaign_id w \<in> pg_id ` set (pt_campaigns s) \<and> backed w) \<and>
     pairwise (\<lambda>c d. \<not> clash c d) (set (pt_campaigns s)) \<and>
     audit_inv H (pt_audit s)"

lemma waves_for_cong: "pt_waves s' = pt_waves s \<Longrightarrow> waves_for s' cid = waves_for s cid"
  by (simp add: waves_for_def)

lemma in_order_cong: "waves_for s' (pg_id c) = waves_for s (pg_id c) \<Longrightarrow> in_order s' c = in_order s c"
  by (simp add: in_order_def)

lemma set_waves_for: "set (waves_for s cid) = {w \<in> set (pt_waves s). wv_campaign_id w = cid}"
  by (simp add: waves_for_def)

lemma distinct_map_filter: "distinct (map f xs) \<Longrightarrow> distinct (map f (filter P xs))"
  by (induction xs) auto

lemma distinct_waves_for: "distinct (map wv_id (pt_waves s)) \<Longrightarrow> distinct (map wv_id (waves_for s cid))"
  using distinct_map_filter [of wv_id "pt_waves s" "\<lambda>w. wv_campaign_id w = cid"]
  by (simp add: waves_for_def distinct_map)

subsection \<open>Completing a wave\<close>

lemma completion_ok:
  assumes "completion_checks s w r = Inr c"
  shows "wv_status w = ''pending''" "c \<in> set (pt_campaigns s)" "pg_id c = wv_campaign_id w"
    "filter (\<lambda>v. wv_sequence v < wv_sequence w \<and> wv_status v = ''pending'') (waves_for s (wv_campaign_id w)) = []"
    "clean_ref (cp_evidence_ref r) \<noteq> None \<or> cp_plan_id r \<noteq> None"
proof -
  have c: "first_row (filter (\<lambda>c. pg_id c = wv_campaign_id w) (pt_campaigns s)) = Some c"
    using assms by (auto simp: completion_checks_def split: if_splits option.splits list.splits)
  from first_row_filter [OF this] show "c \<in> set (pt_campaigns s)" "pg_id c = wv_campaign_id w" by simp_all
  show "wv_status w = ''pending''" using assms by (simp add: completion_checks_def split: if_splits)
  show "filter (\<lambda>v. wv_sequence v < wv_sequence w \<and> wv_status v = ''pending'') (waves_for s (wv_campaign_id w)) = []"
    using assms by (simp add: completion_checks_def c split: if_splits list.splits)
  show "clean_ref (cp_evidence_ref r) \<noteq> None \<or> cp_plan_id r \<noteq> None"
    using assms by (auto simp: completion_checks_def c split: if_splits list.splits)
qed

lemma mark_keeps [simp]:
  "wv_id (mark_completed now r w) = wv_id w" "wv_sequence (mark_completed now r w) = wv_sequence w"
  "wv_campaign_id (mark_completed now r w) = wv_campaign_id w"
  "wv_status (mark_completed now r w) = ''completed''"
  by (simp_all add: mark_completed_def)

lemma advance_keeps [simp]:
  "pg_id (advance_campaign now b c) = pg_id c" "pg_system_id (advance_campaign now b c) = pg_system_id c"
  "pg_window_start (advance_campaign now b c) = pg_window_start c"
  "pg_window_end (advance_campaign now b c) = pg_window_end c"
  by (simp_all add: advance_campaign_def)

text \<open>The wave a completion may mark is the first pending one.\<close>

lemma first_pending:
  assumes pat: "map (\<lambda>w. (wv_sequence w, wv_status w)) ws = wave_pattern k n"
    and w: "w \<in> set ws" "wv_status w = ''pending''"
    and none: "filter (\<lambda>v. wv_sequence v < wv_sequence w \<and> wv_status v = ''pending'') ws = []"
  shows "k < n" "k < length ws" "w = ws ! k" "length ws = n"
proof -
  show len: "length ws = n" using arg_cong [OF pat, of length] by (simp add: wave_pattern_def)
  obtain j where j: "j < n" "w = ws ! j" using w(1) len by (auto simp: in_set_conv_nth)
  have at: "(wv_sequence (ws ! i), wv_status (ws ! i)) = (int i + 1, if i < k then ''completed'' else ''pending'')"
    if "i < n" for i
    using arg_cong [OF pat, of "\<lambda>l. l ! i"] that len by (simp add: wave_pattern_def)
  have "\<not> j < k" using at [OF j(1)] w(2) j(2) by (auto split: if_splits)
  moreover have "\<not> k < j"
  proof
    assume kj: "k < j"
    with j(1) have kn: "k < n" by simp
    then have "ws ! k \<in> set ws" using len by simp
    moreover have "wv_sequence (ws ! k) < wv_sequence w" "wv_status (ws ! k) = ''pending''"
      using at [OF kn] at [OF j(1)] kj j(2) by auto
    ultimately show False using none by (auto simp: filter_empty_conv)
  qed
  ultimately have "j = k" by simp
  with j show "k < n" "w = ws ! k" by simp_all
  with len show "k < length ws" by simp
qed

lemma wave_pattern_next:
  assumes pat: "map (\<lambda>w. (wv_sequence w, wv_status w)) ws = wave_pattern k n" and len: "length ws = n" and kn: "k < n"
    and dist: "distinct (map wv_id ws)"
    and g: "g = (\<lambda>v. if wv_id v = wv_id (ws ! k) then mark_completed now r v else v)"
  shows "map (\<lambda>w. (wv_sequence w, wv_status w)) (map g ws) = wave_pattern (Suc k) n"
proof (rule nth_equalityI)
  fix i assume "i < length (map (\<lambda>w. (wv_sequence w, wv_status w)) (map g ws))"
  then have i: "i < n" using len by simp
  have eq: "(wv_id (ws ! i) = wv_id (ws ! k)) = (i = k)"
    using nth_eq_iff_index_eq [OF dist, of i k] i kn len by simp
  have "(wv_sequence (ws ! i), wv_status (ws ! i)) = (int i + 1, if i < k then ''completed'' else ''pending'')"
    using arg_cong [OF pat, of "\<lambda>l. l ! i"] i len by (simp add: wave_pattern_def)
  then show "map (\<lambda>w. (wv_sequence w, wv_status w)) (map g ws) ! i = wave_pattern (Suc k) n ! i"
    using i len eq by (auto simp: wave_pattern_def g)
qed (simp add: wave_pattern_def len)

lemma pattern_remaining:
  "map (\<lambda>w. (wv_sequence w, wv_status w)) ws = wave_pattern k n \<Longrightarrow>
     (filter (\<lambda>v. wv_status v = ''pending'') ws = []) = (n \<le> k)"
proof -
  assume pat: "map (\<lambda>w. (wv_sequence w, wv_status w)) ws = wave_pattern k n"
  have "(filter (\<lambda>v. wv_status v = ''pending'') ws = []) = (\<forall>x \<in> set (map (\<lambda>w. (wv_sequence w, wv_status w)) ws). snd x \<noteq> ''pending'')"
    by (auto simp: filter_empty_conv)
  also have "\<dots> = (n \<le> k)"
    unfolding pat by (auto simp: wave_pattern_def not_le [symmetric])
  finally show ?thesis .
qed

lemma waves_for_update:
  assumes "\<And>v. wv_sequence (f v) = wv_sequence v" "\<And>v. wv_campaign_id (f v) = wv_campaign_id v"
    "pt_waves s' = update_rows P f (pt_waves s)"
  shows "waves_for s' cid = map (\<lambda>v. if P v then f v else v) (waves_for s cid)"
proof -
  let ?g = "\<lambda>v. if P v then f v else v"
  have "filter (\<lambda>w. wv_campaign_id w = cid) (map ?g ws) = map ?g (filter (\<lambda>w. wv_campaign_id w = cid) ws)" for ws
    by (induction ws) (simp_all add: assms)
  then show ?thesis
    by (simp add: waves_for_def assms(3) update_rows_def sort_key_map [of wv_sequence ?g] assms(1))
qed

lemma pairwise_no_clash_update:
  assumes "pairwise (\<lambda>c d. \<not> clash c d) (set cs)" "\<And>c. c \<in> set cs \<Longrightarrow> P c \<Longrightarrow> active_campaign c"
    "\<And>c. pg_system_id (f c) = pg_system_id c" "\<And>c. pg_window_start (f c) = pg_window_start c"
    "\<And>c. pg_window_end (f c) = pg_window_end c"
  shows "pairwise (\<lambda>c d. \<not> clash c d) (set (update_rows P f cs))"
proof (rule pairwiseI)
  fix x y assume x: "x \<in> set (update_rows P f cs)" and y: "y \<in> set (update_rows P f cs)" and ne: "x \<noteq> y"
  obtain c where c: "c \<in> set cs" "x = (if P c then f c else c)" using x by (auto simp: set_update_rows)
  obtain d where d: "d \<in> set cs" "y = (if P d then f d else d)" using y by (auto simp: set_update_rows)
  have "c \<noteq> d" using ne c(2) d(2) by auto
  then have "\<not> clash c d" using assms(1) c(1) d(1) by (simp add: pairwise_def)
  moreover have "clash x y \<Longrightarrow> clash c d"
    using assms(2) [OF c(1)] assms(2) [OF d(1)] c(2) d(2)
    by (cases "P c"; cases "P d") (simp_all add: clash_def assms(3-5))
  ultimately show "\<not> clash x y" by blast
qed

lemma complete_in_order:
  assumes inv: "in_order s c" and dist: "distinct (map wv_id (pt_waves s))"
    and w: "w \<in> set (pt_waves s)" "completion_checks s w r = Inr c"
    and s1: "pt_waves s1 = update_rows (\<lambda>v. wv_id v = wv_id w) (mark_completed now r) (pt_waves s)"
    and c': "c' = advance_campaign now (filter (\<lambda>v. wv_status v = ''pending'') (waves_for s1 (pg_id c)) = []) c"
  shows "in_order s1 c'" "active_campaign c"
proof -
  note ok = completion_ok [OF w(2)]
  obtain n k where nk: "0 < n" "k \<le> n" and pat: "map (\<lambda>w. (wv_sequence w, wv_status w)) (waves_for s (pg_id c)) = wave_pattern k n"
    and st: "pg_status c = progress_status k n"
    using inv by (auto simp: in_order_def)
  have win: "w \<in> set (waves_for s (pg_id c))" using w(1) ok(3) by (simp add: set_waves_for)
  note fp = first_pending [OF pat win ok(1) ok(4) [folded ok(3)]]
  show "active_campaign c" using st fp(1) by (simp add: active_campaign_def progress_status_def)
  have ws: "waves_for s1 (pg_id c) = map (\<lambda>v. if wv_id v = wv_id w then mark_completed now r v else v) (waves_for s (pg_id c))"
    by (rule waves_for_update [OF _ _ s1]) simp_all
  have pat': "map (\<lambda>w. (wv_sequence w, wv_status w)) (waves_for s1 (pg_id c)) = wave_pattern (Suc k) n"
    unfolding ws
    by (rule wave_pattern_next [OF pat fp(4) fp(1) distinct_waves_for [OF dist]]) (simp add: fp(3) [symmetric])
  have "(filter (\<lambda>v. wv_status v = ''pending'') (waves_for s1 (pg_id c)) = []) = (Suc k = n)"
    using pattern_remaining [OF pat'] fp(1) by auto
  then have "pg_status c' = progress_status (Suc k) n" "pg_id c' = pg_id c"
    by (simp_all add: c' advance_campaign_def progress_status_def)
  then show "in_order s1 c'"
    unfolding in_order_def using pat' nk(1) fp(1) by (metis Suc_leI)
qed

lemma other_in_order:
  assumes "in_order s d" "distinct (map wv_id (pt_waves s))" "w \<in> set (pt_waves s)" "wv_campaign_id w \<noteq> pg_id d"
    and s1: "pt_waves s1 = update_rows (\<lambda>v. wv_id v = wv_id w) (mark_completed now r) (pt_waves s)"
  shows "in_order s1 d"
proof -
  have "waves_for s1 (pg_id d) = map (\<lambda>v. if wv_id v = wv_id w then mark_completed now r v else v) (waves_for s (pg_id d))"
    by (rule waves_for_update [OF _ _ s1]) simp_all
  also have "\<dots> = waves_for s (pg_id d)"
  proof (rule map_idI)
    fix v assume v: "v \<in> set (waves_for s (pg_id d))"
    have "wv_id v \<noteq> wv_id w"
    proof
      assume "wv_id v = wv_id w"
      then have "v = w" using assms(2,3) v by (auto simp: set_waves_for distinct_map inj_on_def)
      then show False using v assms(4) by (simp add: set_waves_for)
    qed
    then show "(if wv_id v = wv_id w then mark_completed now r v else v) = v" by simp
  qed
  finally show ?thesis using assms(1) in_order_cong by blast
qed

lemma complete_keeps_inv:
  assumes inv: "patch_inv H s" and H: "hex64 H" and w: "w \<in> set (pt_waves s)"
    and run: "complete_wave H now s w r = Inr s'"
  shows "patch_inv H s'"
proof -
  obtain c where c: "completion_checks s w r = Inr c"
    using run by (cases "completion_checks s w r") (simp_all add: complete_wave_def)
  note ok = completion_ok [OF c]
  define ws where "ws = update_rows (\<lambda>v. wv_id v = wv_id w) (mark_completed now r) (pt_waves s)"
  define fin where "fin = (filter (\<lambda>v. wv_status v = ''pending'') (waves_for (s\<lparr>pt_waves := ws\<rparr>) (wv_campaign_id w)) = [])"
  define cs where "cs = update_rows (\<lambda>d. pg_id d = pg_id c) (advance_campaign now fin) (pt_campaigns s)"
  have s': "s' = s\<lparr>pt_waves := ws, pt_campaigns := cs, pt_audit := record_event H (pt_audit s) (wave_event c w r)\<rparr>"
    using run c by (simp add: complete_wave_def Let_def ws_def fin_def cs_def)
  have ids: "distinct (map pg_id (pt_campaigns s))" "distinct (map wv_id (pt_waves s))"
    using inv by (simp_all add: patch_inv_def)
  have only: "d = c" if "d \<in> set (pt_campaigns s)" "pg_id d = pg_id c" for d
    using that ok(2) ids(1) by (auto simp: distinct_map inj_on_def)
  have co: "in_order s c" using inv ok(2) by (simp add: patch_inv_def)
  have s'w: "pt_waves s' = update_rows (\<lambda>v. wv_id v = wv_id w) (mark_completed now r) (pt_waves s)"
    by (simp add: s' ws_def)
  have same: "waves_for s' x = waves_for (s\<lparr>pt_waves := ws\<rparr>) x" for x
    by (rule waves_for_cong) (simp add: s')
  note mine = complete_in_order [OF co ids(2) w c s'w, of "advance_campaign now fin c"]
  have "\<forall>d \<in> set cs. pg_id d < pt_next_id s \<and> in_order s' d"
    unfolding cs_def ball_update_rows
  proof
    fix d assume d: "d \<in> set (pt_campaigns s)"
    then have base: "pg_id d < pt_next_id s" "in_order s d" using inv by (simp_all add: patch_inv_def)
    show "if pg_id d = pg_id c then pg_id (advance_campaign now fin d) < pt_next_id s \<and> in_order s' (advance_campaign now fin d)
          else pg_id d < pt_next_id s \<and> in_order s' d"
    proof (cases "pg_id d = pg_id c")
      case True
      then have "d = c" using only d by blast
      then show ?thesis using base mine(1) ok(3) by (simp add: fin_def same)
    next
      case False
      then show ?thesis using base other_in_order [OF base(2) ids(2) w _ s'w] ok(3) by simp
    qed
  qed
  moreover have m: "map pg_id cs = map pg_id (pt_campaigns s)" by (simp add: cs_def)
  then have "distinct (map pg_id cs)" "pg_id ` set cs = pg_id ` set (pt_campaigns s)"
    using ids(1) by simp_all (metis list.set_map)
  moreover have "distinct (map wv_id ws)" using ids(2) by (simp add: ws_def)
  moreover have "\<forall>v \<in> set ws. wv_id v < pt_next_id s \<and> wv_campaign_id v \<in> pg_id ` set (pt_campaigns s) \<and> backed v"
    unfolding ws_def ball_update_rows using inv ok(5)
    by (auto simp: patch_inv_def backed_def mark_completed_def)
  moreover have "pairwise (\<lambda>c d. \<not> clash c d) (set cs)"
    unfolding cs_def
  proof (rule pairwise_no_clash_update)
    show "pairwise (\<lambda>c d. \<not> clash c d) (set (pt_campaigns s))" using inv by (simp add: patch_inv_def)
    show "active_campaign d" if "d \<in> set (pt_campaigns s)" "pg_id d = pg_id c" for d
      using only [OF that] mine(2) ok(3) by (simp add: fin_def same)
  qed simp_all
  moreover have "audit_inv H (pt_audit s')"
    using trail.append_inv H inv by (simp add: s' patch_inv_def)
  ultimately show ?thesis by (simp add: patch_inv_def s')
qed

subsection \<open>Planning a campaign\<close>

lemma campaign_checks_ok:
  assumes "campaign_checks s r = Inr (org, bs)"
  shows "bs \<noteq> []" "overlapping s (rc_system_id r) (rc_window_start r) (rc_window_end r) = None"
    "rc_window_start r \<le> rc_window_end r"
proof -
  let ?flaws = "flaw_poams s (rc_system_id r) True"
  have ok: "\<not> rc_window_end r < rc_window_start r"
    "overlapping s (rc_system_id r) (rc_window_start r) (rc_window_end r) = None"
    "?flaws \<noteq> []" "plan_waves (map po_id ?flaws) (rc_wave_size r) = Inr bs"
    using assms by (auto simp: campaign_checks_def Let_def rbind_eq_Inr split: if_splits option.splits)
  show "overlapping s (rc_system_id r) (rc_window_start r) (rc_window_end r) = None"
    "rc_window_start r \<le> rc_window_end r" using ok by simp_all
  show "bs \<noteq> []" using ok(3,4) by (auto simp: plan_waves_def split: if_splits list.splits)
qed

lemma sort_key_Nil_iff: "sort_key f xs = [] \<longleftrightarrow> xs = []"
  by (metis length_0_conv length_sort)

lemma no_overlap_no_clash:
  assumes "overlapping s (rc_system_id r) (rc_window_start r) (rc_window_end r) = None"
    "d \<in> set (pt_campaigns s)"
  shows "\<not> clash d (new_campaign r cid org)" "\<not> clash (new_campaign r cid org) d"
proof -
  have "filter (\<lambda>c. pg_system_id c = rc_system_id r \<and> active_campaign c \<and>
      pg_window_start c \<le> rc_window_end r \<and> rc_window_start r \<le> pg_window_end c) (pt_campaigns s) = []"
    using assms(1) unfolding overlapping_def first_row_None sort_key_Nil_iff .
  then show "\<not> clash d (new_campaign r cid org)" "\<not> clash (new_campaign r cid org) d"
    using assms(2) by (auto simp: filter_empty_conv clash_def new_campaign_def)
qed

abbreviation new_waves :: "campaign_request \<Rightarrow> int \<Rightarrow> int list list \<Rightarrow> patch_wave list" where
  "new_waves r cid bs \<equiv> map (\<lambda>(k, b). new_wave r cid k b) (enumerate 0 bs)"

lemma map_new_waves:
  assumes "\<And>k b. f (new_wave r cid k b) = g k"
  shows "map f (new_waves r cid bs) = map g [0..<length bs]"
proof -
  have "map f (new_waves r cid bs) = map (g \<circ> fst) (enumerate 0 bs)"
    by (simp add: assms comp_def case_prod_beta)
  also have "\<dots> = map g (map fst (enumerate 0 bs))" by (simp only: map_map)
  finally show ?thesis by simp
qed

lemma in_new_waves: "w \<in> set (new_waves r cid bs) \<Longrightarrow>
  wv_campaign_id w = cid \<and> cid < wv_id w \<and> wv_id w \<le> cid + int (length bs) \<and> backed w"
  by (auto simp: in_set_enumerate_eq new_wave_def backed_def)

lemma create_keeps_inv:
  assumes inv: "patch_inv H s" and H: "hex64 H" and run: "create_campaign H s r = Inr s'"
  shows "patch_inv H s'"
proof -
  obtain org bs where ck: "campaign_checks s r = Inr (org, bs)"
    using run by (auto simp: create_campaign_def rbind_eq_Inr)
  note ok = campaign_checks_ok [OF ck]
  define cid where "cid = pt_next_id s"
  define c where "c = new_campaign r cid org"
  define ws where "ws = new_waves r cid bs"
  have s': "s' = s\<lparr>pt_campaigns := pt_campaigns s @ [c], pt_waves := pt_waves s @ ws,
      pt_audit := record_event H (pt_audit s) (campaign_event r cid org bs), pt_next_id := cid + int (length bs) + 1\<rparr>"
    using run ck by (simp add: create_campaign_def insert_campaign_def Let_def cid_def c_def ws_def)
  have old: "distinct (map pg_id (pt_campaigns s))" "distinct (map wv_id (pt_waves s))"
    "\<forall>d \<in> set (pt_campaigns s). pg_id d < cid \<and> in_order s d"
    "\<forall>w \<in> set (pt_waves s). wv_id w < cid \<and> wv_campaign_id w \<in> pg_id ` set (pt_campaigns s) \<and> backed w"
    "pairwise (\<lambda>c d. \<not> clash c d) (set (pt_campaigns s))" "audit_inv H (pt_audit s)"
    using inv by (simp_all add: patch_inv_def cid_def)
  have cid: "pg_id c = cid" "pg_status c = ''planned''" by (simp_all add: c_def new_campaign_def)
  have new: "w \<in> set ws \<Longrightarrow> wv_campaign_id w = cid \<and> cid < wv_id w \<and> wv_id w \<le> cid + int (length bs) \<and> backed w" for w
    unfolding ws_def by (rule in_new_waves)
  have "filter (\<lambda>w. wv_campaign_id w = x) ws = (if x = cid then ws else [])" for x
    using new by (auto simp: filter_empty_conv)
  then have wf: "waves_for s' x = (if x = cid then sort_key wv_sequence (filter (\<lambda>w. wv_campaign_id w = cid) (pt_waves s) @ ws)
      else waves_for s x)" for x
    by (simp add: waves_for_def s')
  have "filter (\<lambda>w. wv_campaign_id w = cid) (pt_waves s) = []"
    using old(3,4) by (fastforce simp: filter_empty_conv)
  moreover have "map wv_sequence ws = map (\<lambda>i. int i + 1) [0..<length bs]"
    unfolding ws_def by (rule map_new_waves) (simp add: new_wave_def)
  then have "sorted (map wv_sequence ws)" by (simp add: sorted_iff_nth_mono)
  then have "sort_key wv_sequence ws = ws" by (rule sort_key_id_if_sorted)
  ultimately have mine: "waves_for s' cid = ws" by (simp add: wf)
  have pat: "map (\<lambda>w. (wv_sequence w, wv_status w)) ws = wave_pattern 0 (length bs)"
    unfolding ws_def wave_pattern_def by (rule map_new_waves) (simp add: new_wave_def)
  have "\<exists>n k. 0 < n \<and> k \<le> n \<and> map (\<lambda>w. (wv_sequence w, wv_status w)) (waves_for s' (pg_id c)) = wave_pattern k n \<and>
      pg_status c = progress_status k n"
    by (rule exI [of _ "length bs"], rule exI [of _ 0]) (simp add: mine pat cid progress_status_def ok(1))
  then have co: "in_order s' c" by (simp add: in_order_def)
  have others: "in_order s' d" if "d \<in> set (pt_campaigns s)" for d
    using old(3) that in_order_cong [of s' d s] by (auto simp: wf)
  have "map wv_id ws = map (\<lambda>i. cid + int i + 1) [0..<length bs]"
    unfolding ws_def by (rule map_new_waves) (simp add: new_wave_def)
  then have "distinct (map wv_id ws)" by (simp add: distinct_map inj_on_def)
  moreover have "wv_id ` set (pt_waves s) \<inter> wv_id ` set ws = {}"
    using old(4) new by fastforce
  ultimately have "distinct (map wv_id (pt_waves s @ ws))" using old(2) by simp
  moreover have "distinct (map pg_id (pt_campaigns s @ [c]))" using old(1,3) cid(1) by auto
  moreover have "pairwise (\<lambda>c d. \<not> clash c d) (set (pt_campaigns s @ [c]))"
    using old(5) no_overlap_no_clash [OF ok(2)] by (simp add: pairwise_insert c_def)
  moreover have "audit_inv H (record_event H (pt_audit s) (campaign_event r cid org bs))"
    using trail.append_inv H old(6) by simp
  moreover have "pg_id d < cid + int (length bs) + 1 \<and> in_order s' d" if "d \<in> set (pt_campaigns s @ [c])" for d
    using that old(3) others co cid(1) by fastforce
  moreover have "wv_id w < cid + int (length bs) + 1 \<and> wv_campaign_id w \<in> pg_id ` set (pt_campaigns s @ [c]) \<and> backed w"
    if "w \<in> set (pt_waves s @ ws)" for w
    using that old(4) new [of w] cid(1) by fastforce
  ultimately show ?thesis
    by (simp only: patch_inv_def) (simp add: s')
qed

lemma patch_inv_cong:
  assumes "patch_inv H s" "pt_campaigns s' = pt_campaigns s" "pt_waves s' = pt_waves s"
    "pt_next_id s \<le> pt_next_id s'" "audit_inv H (pt_audit s')"
  shows "patch_inv H s'"
proof -
  have "in_order s' c = in_order s c" for c by (rule in_order_cong, rule waves_for_cong, rule assms)
  then show ?thesis using assms unfolding patch_inv_def by fastforce
qed

lemma set_policy_frame:
  assumes "set_policy H s org actor body = Inr s'"
  obtains e where "pt_campaigns s' = pt_campaigns s" "pt_waves s' = pt_waves s"
    "pt_next_id s \<le> pt_next_id s'" "pt_audit s' = record_event H (pt_audit s) e"
proof (cases "first_row (filter (\<lambda>q. rq_organization_id q = org) (pt_policies s))")
  case None
  show thesis by (rule that) (use assms None in \<open>auto simp: set_policy_def Let_def split: if_splits\<close>)
next
  case (Some q)
  show thesis by (rule that) (use assms Some in \<open>auto simp: set_policy_def Let_def split: if_splits\<close>)
qed

lemma patch_step_keeps_inv: "patch_step H s s' \<Longrightarrow> hex64 H \<Longrightarrow> patch_inv H s \<Longrightarrow> patch_inv H s'"
proof (induction rule: patch_step.induct)
  case (Create s r s')
  then show ?case using create_keeps_inv by blast
next
  case (Complete w s now r s')
  then show ?case using complete_keeps_inv by blast
next
  case (Declare s org actor body s')
  from set_policy_frame [OF Declare(1)] obtain e where f: "pt_campaigns s' = pt_campaigns s"
    "pt_waves s' = pt_waves s" "pt_next_id s \<le> pt_next_id s'" "pt_audit s' = record_event H (pt_audit s) e" .
  have "audit_inv H (record_event H (pt_audit s) e)"
    using trail.append_inv Declare(2,3) by (simp add: patch_inv_def)
  then show ?case using patch_inv_cong [OF Declare(3) f(1-3)] f(4) by simp
next
  case (Elsewhere s sys ps plans)
  then show ?case by (simp add: patch_inv_def in_order_def waves_for_def)
qed

lemma patch_reachable_inv: "patch_reachable H s \<Longrightarrow> hex64 H \<Longrightarrow> patch_inv H s"
  unfolding patch_reachable_def
proof (induction rule: rtranclp_induct)
  case base
  then show ?case by (simp add: patch_inv_def empty_patch_store_def audit_inv_empty)
next
  case (step s s')
  then show ?case using patch_step_keeps_inv by blast
qed

section \<open>Properties of campaigns\<close>

lemma wave_pattern_status: "k \<le> n \<Longrightarrow> map snd (wave_pattern k n) = replicate k ''completed'' @ replicate (n - k) ''pending''"
  by (intro nth_equalityI) (auto simp: wave_pattern_def nth_append)

lemma wave_pattern_sequence: "map fst (wave_pattern k n) = map (\<lambda>i. int i + 1) [0..<n]"
  by (simp add: wave_pattern_def)

text \<open>C12: waves complete in order. However requests follow each other and whatever else changes in
  between, every campaign has waves numbered from 1 of which some first ones are completed and the
  rest pending, its status says exactly how far it is, every completed wave carries evidence or a
  plan, and the audit trail verifies.\<close>

theorem waves_complete_in_order:
  assumes "hex64 H" "patch_reachable H s" "c \<in> set (pt_campaigns s)"
  shows "(\<exists>n k. 0 < n \<and> k \<le> n \<and>
      map wv_sequence (waves_for s (pg_id c)) = map (\<lambda>i. int i + 1) [0..<n] \<and>
      map wv_status (waves_for s (pg_id c)) = replicate k ''completed'' @ replicate (n - k) ''pending'' \<and>
      pg_status c = (if k = 0 then ''planned'' else if k = n then ''completed'' else ''in_progress'')) \<and>
    list_all (\<lambda>w. wv_status w = ''pending'' \<or> wv_evidence_ref w \<noteq> None \<or> wv_remediation_plan_id w \<noteq> None)
      (waves_for s (pg_id c)) \<and>
    vr_ok (verify_chain H (rows (pt_audit s)))"
proof -
  have inv: "patch_inv H s" using patch_reachable_inv assms by blast
  then have "in_order s c" using assms(3) by (simp add: patch_inv_def)
  then obtain n k where nk: "0 < n" "k \<le> n"
    and pat: "map (\<lambda>w. (wv_sequence w, wv_status w)) (waves_for s (pg_id c)) = wave_pattern k n"
    and st: "pg_status c = progress_status k n"
    by (auto simp: in_order_def)
  have "map wv_sequence (waves_for s (pg_id c)) = map fst (map (\<lambda>w. (wv_sequence w, wv_status w)) (waves_for s (pg_id c)))"
    "map wv_status (waves_for s (pg_id c)) = map snd (map (\<lambda>w. (wv_sequence w, wv_status w)) (waves_for s (pg_id c)))"
    by simp_all
  note seqs = this [unfolded pat wave_pattern_status [OF nk(2)] wave_pattern_sequence]
  have "list_all backed (waves_for s (pg_id c))"
    using inv by (auto simp: patch_inv_def list_all_iff set_waves_for)
  moreover have "vr_ok (verify_chain H (rows (pt_audit s)))"
    using inv by (simp add: patch_inv_def audit_inv_def)
  ultimately show ?thesis
    using nk seqs st unfolding backed_def progress_status_def by blast
qed

definition sample_request :: campaign_request where
  "sample_request = \<lparr>rc_system_id = 1, rc_name = ''c'', rc_window_start = 100, rc_window_end = 107,
     rc_actor = ''ana'', rc_wave_size = 2\<rparr>"

definition sample_store :: patch_store where
  "sample_store = empty_patch_store\<lparr>pt_systems := [\<lparr>sy_id = 1, sy_organization_id = 1, sy_name = ''core'', sy_deleted_at = None\<rparr>],
     pt_poams := [sample_flaw], pt_plans := []\<rparr>"

lemma sample_store_reachable: "patch_reachable H sample_store"
  unfolding patch_reachable_def sample_store_def by (rule r_into_rtranclp) (rule patch_step.Elsewhere)

lemma sample_checks: "campaign_checks sample_store sample_request = Inr (1, [[7]])"
  by (simp add: campaign_checks_def sample_store_def sample_request_def live_system_def empty_patch_store_def
      overlapping_def flaw_poams_def sample_flaw_def plan_waves_def vocab)

lemma sample_create: "patch_reachable H (insert_campaign H sample_request (1, [[7]]) sample_store)"
proof -
  have "patch_step H sample_store (insert_campaign H sample_request (1, [[7]]) sample_store)"
    by (rule patch_step.Create [of _ _ sample_request]) (simp add: create_campaign_def sample_checks)
  with sample_store_reachable show ?thesis
    unfolding patch_reachable_def by (rule rtranclp.rtrancl_into_rtrancl)
qed

lemma insert_adds: "new_campaign r (pt_next_id s) org \<in> set (pt_campaigns (insert_campaign H r (org, bs) s))"
  by (simp add: insert_campaign_def Let_def)

theorem waves_complete_in_order_witness:
  "vr_ok (verify_chain const_hash (rows (pt_audit (insert_campaign const_hash sample_request (1, [[7]]) sample_store))))"
  using waves_complete_in_order [OF hex64_const_hash sample_create insert_adds] by blast

text \<open>Two active campaigns never patch one system at the same time, as long as requests are
  serial: their windows are disjoint.\<close>

theorem active_campaigns_disjoint:
  assumes "hex64 H" "patch_reachable H s" "c \<in> set (pt_campaigns s)" "d \<in> set (pt_campaigns s)" "c \<noteq> d"
    "pg_system_id c = pg_system_id d" "active_campaign c" "active_campaign d"
  shows "pg_window_end c < pg_window_start d \<or> pg_window_end d < pg_window_start c"
proof -
  have "pairwise (\<lambda>c d. \<not> clash c d) (set (pt_campaigns s))"
    using patch_reachable_inv [OF assms(2,1)] by (simp add: patch_inv_def)
  then have "\<not> clash c d" using assms(3-5) by (simp add: pairwise_def)
  then show ?thesis using assms(6-) by (auto simp: clash_def)
qed

definition later_request :: campaign_request where
  "later_request = sample_request\<lparr>rc_window_start := 200, rc_window_end := 207\<rparr>"

lemma later_checks: "campaign_checks (insert_campaign H sample_request (1, [[7]]) sample_store) later_request = Inr (1, [[7]])"
  by (simp add: campaign_checks_def insert_campaign_def Let_def new_campaign_def sample_store_def sample_request_def
      later_request_def live_system_def empty_patch_store_def overlapping_def flaw_poams_def sample_flaw_def
      plan_waves_def vocab)

theorem active_campaigns_disjoint_witness:
  "pg_window_end (new_campaign sample_request 1 1) < pg_window_start (new_campaign later_request 3 1) \<or>
   pg_window_end (new_campaign later_request 3 1) < pg_window_start (new_campaign sample_request 1 1)"
proof (rule active_campaigns_disjoint [OF hex64_const_hash])
  let ?s1 = "insert_campaign const_hash sample_request (1, [[7]]) sample_store"
  let ?s2 = "insert_campaign const_hash later_request (1, [[7]]) ?s1"
  have "patch_step const_hash ?s1 ?s2"
    by (rule patch_step.Create [of _ _ later_request]) (simp add: create_campaign_def later_checks)
  with sample_create show "patch_reachable const_hash ?s2"
    unfolding patch_reachable_def by (rule rtranclp.rtrancl_into_rtrancl)
qed (simp_all add: insert_campaign_def Let_def new_campaign_def sample_store_def sample_request_def
      later_request_def empty_patch_store_def active_campaign_def)

text \<open>Two requests at the same moment defeat the overlap check. The check reads and the insert
  writes without a lock or a constraint, so when a request is sent twice and both transactions read
  before either commits, both campaigns are created and cover the same window of the system.\<close>

theorem concurrent_campaigns_overlap:
  assumes "patch_reachable H s" "hex64 H" "campaign_checks s r = Inr (org, bs)"
  shows "\<exists>c d. {c, d} \<subseteq> set (pt_campaigns (insert_campaign H r (org, bs) (insert_campaign H r (org, bs) s))) \<and>
    pg_id c \<noteq> pg_id d \<and> pg_system_id c = rc_system_id r \<and> pg_system_id d = rc_system_id r \<and>
    active_campaign c \<and> active_campaign d \<and>
    pg_window_start c \<le> pg_window_end d \<and> pg_window_start d \<le> pg_window_end c"
  using campaign_checks_ok(3) [OF assms(3)]
  by (intro exI [of _ "new_campaign r (pt_next_id s) org"]
        exI [of _ "new_campaign r (pt_next_id s + int (length bs) + 1) org"])
    (simp add: insert_campaign_def Let_def new_campaign_def active_campaign_def)

theorem concurrent_campaigns_overlap_witness:
  "\<exists>c d. {c, d} \<subseteq> set (pt_campaigns (insert_campaign const_hash sample_request (1, [[7]])
      (insert_campaign const_hash sample_request (1, [[7]]) sample_store))) \<and> pg_id c \<noteq> pg_id d"
  using concurrent_campaigns_overlap [OF sample_store_reachable hex64_const_hash sample_checks] by blast

end
