(* ===== verification/Sprs_Scoring.thy ===== *)
theory Sprs_Scoring
  imports Prelude PyFloat
begin

text \<open>
  SPRS scoring for CMMC Level 2: the pure engine of \<open>scoring/engine.py\<close> and the helpers of
  \<open>scoring/service.py\<close> that read and write the recorded states.

  A row of the reference matrix is a record of strings (the columns are not null), so the
  conversions \<open>str(...)\<close> of the engine are the identity on it.
\<close>

section \<open>Vocabulary and deductions\<close>

definition MAX_SPRS_SCORE :: int where [vocab]: "MAX_SPRS_SCORE = 110"
definition SPRS_FLOOR :: int where [vocab]: "SPRS_FLOOR = -203"
definition SSP_CONTROL_ID :: string where "SSP_CONTROL_ID = ''CA.L2-3.12.4''"

definition STATES :: "string list" where [vocab]:
  "STATES = [''not_assessed'', ''not_implemented'', ''planned'', ''partial'', ''implemented'', ''inherited'',
     ''not_applicable'']"

definition MET_STATES :: "string list" where [vocab]:
  "MET_STATES = [''implemented'', ''inherited'', ''not_applicable'']"

definition MISS_STATES :: "string list" where [vocab]:
  "MISS_STATES = [''not_assessed'', ''not_implemented'', ''planned'']"

definition BASE_POINTS :: "(string \<times> int) list" where [vocab]:
  "BASE_POINTS = [(''5'', 5), (''3'', 3), (''1'', 1), (''3/5'', 5), (''Special'', 0)]"

definition PARTIAL_POINTS :: "(string \<times> int) list" where [vocab]:
  "PARTIAL_POINTS = [(''5'', 5), (''3'', 3), (''1'', 1), (''3/5'', 3), (''Special'', 0)]"

definition DERIVED :: string where [vocab]: "DERIVED = ''derived''"
definition ASSESSED :: string where [vocab]: "ASSESSED = ''assessed''"

definition normalize_point_value :: "string option \<Rightarrow> string" where
  "normalize_point_value point_value =
     (let pv = strip (case point_value of None \<Rightarrow> [] | Some p \<Rightarrow> p)
      in if pv \<in> fst ` set BASE_POINTS then pv else ''1'')"

definition deduction_for :: "string option \<Rightarrow> string option \<Rightarrow> int" where
  "deduction_for point_value state =
     (let pv = normalize_point_value point_value;
          st = strip (case state of None \<Rightarrow> ''not_assessed'' | Some s \<Rightarrow> if s = [] then ''not_assessed'' else s)
      in if st \<in> set MET_STATES then 0
         else if st = ''partial'' then get_default PARTIAL_POINTS pv 0
         else get_default BASE_POINTS pv 0)"

definition credit_for :: "string option \<Rightarrow> string option \<Rightarrow> int" where
  "credit_for point_value state =
     (let pv = normalize_point_value point_value in get_default BASE_POINTS pv 0 - deduction_for (Some pv) state)"

lemma normalize_known: "normalize_point_value p \<in> fst ` set BASE_POINTS"
  by (simp add: normalize_point_value_def Let_def) (simp add: vocab)

lemma strip_known [simp]: "pv \<in> fst ` set BASE_POINTS \<Longrightarrow> strip pv = pv" "st \<in> set STATES \<Longrightarrow> strip st = st"
  by (auto simp: vocab strip_def lstrip_def is_space_def in_range_def)

lemma normalize_idem [simp]: "normalize_point_value (Some (normalize_point_value p)) = normalize_point_value p"
  using normalize_known [of p] by (simp add: normalize_point_value_def [of "Some _"])

lemma deduction_for_normalized [simp]: "deduction_for (Some (normalize_point_value v)) = deduction_for v"
  by (rule ext) (simp add: deduction_for_def)

lemma credit_for_normalized [simp]: "credit_for (Some (normalize_point_value v)) = credit_for v"
  by (rule ext) (simp add: credit_for_def)

section \<open>The summary\<close>

record control_score =
  cq_control_id :: string
  cq_domain :: string
  cq_point_value :: string
  cq_state :: string
  cq_deduction :: int
  cq_source :: string
  cq_credited :: int

record score_bucket =
  sb_controls :: nat
  sb_met :: nat
  sb_deductions :: int

record score_summary =
  su_score :: int
  su_deductions_total :: int
  su_percentage :: rat
  su_total_controls :: nat
  su_met_controls :: nat
  su_ssp_present :: bool
  su_ssp_present_source :: "string option"
  su_assessed_controls :: nat
  su_derived_controls :: nat
  su_derived_credit :: int
  su_state_counts :: "(string \<times> nat) list"
  su_by_domain :: "(string \<times> score_bucket) list"
  su_by_point_value :: "(string \<times> score_bucket) list"
  su_controls :: "control_score list"

record matrix_row =
  mr_control_id :: string
  mr_domain :: string
  mr_point_value :: string

definition empty_bucket :: score_bucket where
  "empty_bucket = \<lparr>sb_controls = 0, sb_met = 0, sb_deductions = 0\<rparr>"

definition add_to_bucket :: "control_score \<Rightarrow> score_bucket \<Rightarrow> score_bucket" where
  "add_to_bucket c b = b\<lparr>sb_controls := sb_controls b + 1,
     sb_met := sb_met b + (if cq_state c \<in> set MET_STATES then 1 else 0),
     sb_deductions := sb_deductions b + cq_deduction c\<rparr>"

definition start_summary :: score_summary where
  "start_summary = \<lparr>su_score = MAX_SPRS_SCORE, su_deductions_total = 0, su_percentage = 0, su_total_controls = 0,
     su_met_controls = 0, su_ssp_present = True, su_ssp_present_source = None, su_assessed_controls = 0,
     su_derived_controls = 0, su_derived_credit = 0, su_state_counts = map (\<lambda>s. (s, 0)) STATES,
     su_by_domain = [], su_by_point_value = [], su_controls = []\<rparr>"

text \<open>The state, deduction and provenance of one row of the matrix.\<close>

definition row_score ::
  "(string \<times> string) list \<Rightarrow> (string \<times> string) list \<Rightarrow> string \<Rightarrow> matrix_row \<Rightarrow> control_score" where
  "row_score states sources default_state ref =
     (let cid = mr_control_id ref;
          pv = normalize_point_value (Some (if mr_point_value ref = [] then ''1'' else mr_point_value ref));
          recorded = get_default states cid default_state;
          state = (if recorded \<notin> set STATES then default_state else recorded);
          src0 = get_default sources cid ASSESSED;
          src = (if src0 \<noteq> DERIVED \<or> state = ''not_assessed'' then ASSESSED else src0)
      in \<lparr>cq_control_id = cid, cq_domain = (if mr_domain ref = [] then ''?'' else mr_domain ref),
          cq_point_value = pv, cq_state = state, cq_deduction = deduction_for (Some pv) (Some state),
          cq_source = src, cq_credited = credit_for (Some pv) (Some state)\<rparr>)"

definition add_score :: "control_score \<Rightarrow> score_summary \<Rightarrow> score_summary" where
  "add_score c u =
     (let u1 = u\<lparr>su_total_controls := su_total_controls u + 1,
                 su_state_counts := bump_count (cq_state c) (su_state_counts u),
                 su_met_controls := su_met_controls u + (if cq_state c \<in> set MET_STATES then 1 else 0)\<rparr>;
          u2 = (if cq_source c = DERIVED
                then u1\<lparr>su_derived_controls := su_derived_controls u1 + 1,
                        su_derived_credit := su_derived_credit u1 + cq_credited c\<rparr>
                else if cq_state c \<noteq> ''not_assessed''
                then u1\<lparr>su_assessed_controls := su_assessed_controls u1 + 1\<rparr> else u1);
          u3 = u2\<lparr>su_deductions_total := su_deductions_total u2 + cq_deduction c,
                  su_controls := su_controls u2 @ [c],
                  su_by_domain := AList.update (cq_domain c)
                     (add_to_bucket c (get_default (su_by_domain u2) (cq_domain c) empty_bucket)) (su_by_domain u2),
                  su_by_point_value := AList.update (cq_point_value c)
                     (add_to_bucket c (get_default (su_by_point_value u2) (cq_point_value c) empty_bucket))
                     (su_by_point_value u2)\<rparr>
      in if cq_control_id c = SSP_CONTROL_ID
         then let present = (cq_state c \<in> set MET_STATES \<or> cq_state c = ''partial'')
              in u3\<lparr>su_ssp_present := present, su_ssp_present_source := (if present then Some (cq_source c) else None)\<rparr>
         else u3)"

definition finish_summary :: "score_summary \<Rightarrow> score_summary" where
  "finish_summary u =
     (let score = max SPRS_FLOOR (MAX_SPRS_SCORE - su_deductions_total u)
      in u\<lparr>su_score := score,
           su_percentage := py_round 1 (fmul (fdiv (of_int score) (of_int MAX_SPRS_SCORE)) 100)\<rparr>)"

definition score_system ::
  "matrix_row list \<Rightarrow> (string \<times> string) list \<Rightarrow> (string \<times> string) list \<Rightarrow> string \<Rightarrow> score_summary" where
  "score_system refs states sources default_state =
     finish_summary (fold (add_score \<circ> row_score states sources default_state)
       (filter (\<lambda>r. mr_control_id r \<noteq> []) refs) start_summary)"

section \<open>Recorded states\<close>

record scoring_control =
  sc_id :: int
  sc_control_id :: string
  sc_domain :: string
  sc_point_value :: string
  sc_sort_order :: int

record scoring_status =
  ss_system_id :: int
  ss_scoring_control_id :: int
  ss_state :: string
  ss_notes :: "string option"
  ss_evidence_ref :: "string option"
  ss_source :: string
  ss_derived_from :: "string option"

record scoring_store =
  st_controls :: "scoring_control list"
  st_statuses :: "scoring_status list"

definition recorded_rows :: "scoring_store \<Rightarrow> int \<Rightarrow> (string \<times> string \<times> string) list" where
  "recorded_rows s system_id =
     concat (map (\<lambda>x. map (\<lambda>c. (sc_control_id c, ss_state x, ss_source x))
         (filter (\<lambda>c. sc_id c = ss_scoring_control_id x) (st_controls s)))
       (filter (\<lambda>x. ss_system_id x = system_id) (st_statuses s)))"

definition dict_of :: "(string \<times> 'v) list \<Rightarrow> (string \<times> 'v) list" where
  "dict_of ps = fold (\<lambda>(k, v) d. AList.update k v d) ps []"

definition system_score_summary :: "scoring_store \<Rightarrow> int \<Rightarrow> score_summary" where
  "system_score_summary s system_id =
     (let recorded = recorded_rows s system_id;
          states = dict_of (map (\<lambda>(cid, state, _). (cid, state)) recorded);
          sources = dict_of (map (\<lambda>(cid, _, source). (cid, source)) recorded);
          refs = map (\<lambda>c. \<lparr>mr_control_id = sc_control_id c, mr_domain = sc_domain c, mr_point_value = sc_point_value c\<rparr>)
            (sort_key sc_sort_order (st_controls s))
      in score_system refs states sources ''not_assessed'')"

definition record_assessed_state ::
  "scoring_status \<Rightarrow> string \<Rightarrow> string option \<Rightarrow> string option \<Rightarrow> scoring_status" where
  "record_assessed_state x state notes evidence_ref =
     x\<lparr>ss_state := state, ss_source := ASSESSED, ss_derived_from := None,
       ss_notes := (case notes of
           Some n \<Rightarrow> Some n
         | None \<Rightarrow> (case ss_notes x of
              Some n \<Rightarrow> if is_prefix_of ''derived: '' n then None else Some n
            | None \<Rightarrow> None)),
       ss_evidence_ref := (case evidence_ref of Some e \<Rightarrow> Some e | None \<Rightarrow> ss_evidence_ref x)\<rparr>"

definition record_derived_state :: "scoring_status \<Rightarrow> string \<Rightarrow> string \<Rightarrow> scoring_status" where
  "record_derived_state x state derived_from =
     x\<lparr>ss_state := state, ss_source := DERIVED, ss_derived_from := Some (take 64 derived_from),
       ss_notes := Some (fstr [''derived: '', derived_from])\<rparr>"

section \<open>Deductions\<close>

lemma deduction_bounds: "0 \<le> deduction_for p s \<and> deduction_for p s \<le> get_default BASE_POINTS (normalize_point_value p) 0"
  using normalize_known [of p]
  by (auto simp: deduction_for_def Let_def vocab get_default_def)

lemma deduction_not_assessed:
  "deduction_for p (Some ''not_assessed'') = get_default BASE_POINTS (normalize_point_value p) 0"
proof -
  have "strip ''not_assessed'' = ''not_assessed''" by (rule strip_known(2)) (simp add: vocab)
  then show ?thesis by (simp add: deduction_for_def MET_STATES_def)
qed

lemma credit_deduction: "deduction_for p s + credit_for p s = deduction_for p (Some ''not_assessed'')"
  by (simp add: credit_for_def deduction_not_assessed)

lemma credit_nonneg: "0 \<le> credit_for p s"
  using deduction_bounds by (simp add: credit_for_def)

lemma credit_not_assessed [simp]: "credit_for p (Some ''not_assessed'') = 0"
  using credit_deduction [of p "Some ''not_assessed''"] by simp

section \<open>The summary counts its rows\<close>

definition rows_of ::
  "matrix_row list \<Rightarrow> (string \<times> string) list \<Rightarrow> (string \<times> string) list \<Rightarrow> string \<Rightarrow> control_score list" where
  "rows_of refs states sources default_state =
     map (row_score states sources default_state) (filter (\<lambda>r. mr_control_id r \<noteq> []) refs)"

definition bucket_sum :: "control_score list \<Rightarrow> score_bucket" where
  "bucket_sum cs = \<lparr>sb_controls = length cs, sb_met = count_if (\<lambda>c. cq_state c \<in> set MET_STATES) cs,
     sb_deductions = sum_list (map cq_deduction cs)\<rparr>"

lemma bucket_sum_snoc: "bucket_sum (cs @ [c]) = add_to_bucket c (bucket_sum cs)"
  by (simp add: bucket_sum_def add_to_bucket_def)

lemma bucket_sum_Nil: "bucket_sum [] = empty_bucket"
  by (simp add: bucket_sum_def empty_bucket_def)

definition counts_rows :: "control_score list \<Rightarrow> score_summary \<Rightarrow> bool" where
  "counts_rows cs u \<longleftrightarrow>
     su_controls u = cs \<and> su_total_controls u = length cs \<and>
     su_met_controls u = count_if (\<lambda>c. cq_state c \<in> set MET_STATES) cs \<and>
     su_deductions_total u = sum_list (map cq_deduction cs) \<and>
     su_derived_controls u = count_if (\<lambda>c. cq_source c = DERIVED) cs \<and>
     su_derived_credit u = sum_list (map cq_credited (filter (\<lambda>c. cq_source c = DERIVED) cs)) \<and>
     su_assessed_controls u = count_if (\<lambda>c. cq_source c \<noteq> DERIVED \<and> cq_state c \<noteq> ''not_assessed'') cs \<and>
     (\<forall>s. get_default (su_state_counts u) s 0 = count_if (\<lambda>c. cq_state c = s) cs) \<and>
     (\<forall>d. get_default (su_by_domain u) d empty_bucket = bucket_sum (filter (\<lambda>c. cq_domain c = d) cs)) \<and>
     (\<forall>d. get_default (su_by_point_value u) d empty_bucket = bucket_sum (filter (\<lambda>c. cq_point_value c = d) cs))"

lemma add_score_fields:
  "su_controls (add_score c u) = su_controls u @ [c]"
  "su_total_controls (add_score c u) = su_total_controls u + 1"
  "su_met_controls (add_score c u) = su_met_controls u + (if cq_state c \<in> set MET_STATES then 1 else 0)"
  "su_deductions_total (add_score c u) = su_deductions_total u + cq_deduction c"
  "su_derived_controls (add_score c u) = su_derived_controls u + (if cq_source c = DERIVED then 1 else 0)"
  "su_derived_credit (add_score c u) = su_derived_credit u + (if cq_source c = DERIVED then cq_credited c else 0)"
  "su_assessed_controls (add_score c u) =
     su_assessed_controls u + (if cq_source c \<noteq> DERIVED \<and> cq_state c \<noteq> ''not_assessed'' then 1 else 0)"
  "su_state_counts (add_score c u) = bump_count (cq_state c) (su_state_counts u)"
  "su_by_domain (add_score c u) = AList.update (cq_domain c)
     (add_to_bucket c (get_default (su_by_domain u) (cq_domain c) empty_bucket)) (su_by_domain u)"
  "su_by_point_value (add_score c u) = AList.update (cq_point_value c)
     (add_to_bucket c (get_default (su_by_point_value u) (cq_point_value c) empty_bucket)) (su_by_point_value u)"
  by (simp_all add: add_score_def Let_def)

lemma counts_rows_fold: "counts_rows cs (fold add_score cs start_summary)"
proof (induction cs rule: rev_induct)
  case Nil
  have "get_default (map (\<lambda>s. (s, 0)) STATES) s 0 = (0::nat)" for s
    by (simp add: get_default_def STATES_def)
  then show ?case
    by (simp add: counts_rows_def start_summary_def bucket_sum_Nil) (simp add: get_default_def)
next
  case (snoc c cs)
  then show ?case
    by (simp add: counts_rows_def add_score_fields bucket_sum_snoc) (simp add: bump_count_def)
qed

lemma finish_counts: "counts_rows cs u \<Longrightarrow> counts_rows cs (finish_summary u)"
  by (simp add: counts_rows_def finish_summary_def Let_def)

lemma score_system_counts: "counts_rows (rows_of refs states sources ds) (score_system refs states sources ds)"
  unfolding score_system_def rows_of_def fold_map [symmetric] by (rule finish_counts [OF counts_rows_fold])

lemma score_system_score:
  "su_score (score_system refs states sources ds) =
     max SPRS_FLOOR (MAX_SPRS_SCORE - sum_list (map cq_deduction (rows_of refs states sources ds)))"
proof -
  have "su_deductions_total (fold add_score (rows_of refs states sources ds) start_summary)
      = sum_list (map cq_deduction (rows_of refs states sources ds))"
    using counts_rows_fold unfolding counts_rows_def by blast
  then show ?thesis
    by (simp add: score_system_def finish_summary_def Let_def fold_map [symmetric] rows_of_def)
qed

lemma rows_source: "c \<in> set (rows_of refs states sources ds) \<Longrightarrow> cq_source c = DERIVED \<Longrightarrow> cq_state c \<noteq> ''not_assessed''"
  by (auto simp: rows_of_def row_score_def Let_def ASSESSED_def DERIVED_def split: if_splits)

lemma rows_deduction: "c \<in> set (rows_of refs states sources ds) \<Longrightarrow> 0 \<le> cq_deduction c"
  by (auto simp: rows_of_def row_score_def Let_def deduction_bounds)

lemma partition_rows:
  "list_all (\<lambda>c. \<not> (cq_source c = DERIVED \<and> cq_state c = ''not_assessed'')) cs \<Longrightarrow>
   count_if (\<lambda>c. cq_source c = DERIVED) cs + count_if (\<lambda>c. cq_source c \<noteq> DERIVED \<and> cq_state c \<noteq> ''not_assessed'') cs +
     count_if (\<lambda>c. cq_state c = ''not_assessed'') cs = length cs"
  by (induction cs) auto

section \<open>Properties\<close>


definition without_derived :: "(string \<times> string) list \<Rightarrow> (string \<times> string) list \<Rightarrow> (string \<times> string) list" where
  "without_derived sources states = filter (\<lambda>(cid, _). get_default sources cid ASSESSED \<noteq> DERIVED) states"

lemma get_without_derived:
  "get_default (without_derived sources states) cid v =
     (if get_default sources cid ASSESSED = DERIVED then v else get_default states cid v)"
proof -
  have "map_of (without_derived sources states) cid =
      (if get_default sources cid ASSESSED = DERIVED then None else map_of states cid)"
    by (induction states) (auto simp: without_derived_def)
  then show ?thesis by (simp add: get_default_def)
qed

lemma row_counterfactual:
  "cq_deduction (row_score (without_derived sources states) sources ''not_assessed'' r) =
     cq_deduction (row_score states sources ''not_assessed'' r) +
     (if cq_source (row_score states sources ''not_assessed'' r) = DERIVED
      then cq_credited (row_score states sources ''not_assessed'' r) else 0)"
proof -
  have "''not_assessed'' \<in> set STATES" by (simp add: vocab)
  then show ?thesis
    using credit_deduction
    by (simp add: row_score_def Let_def get_without_derived) (simp add: ASSESSED_def DERIVED_def)
qed

text \<open>The reported derived credit is what the derivation is worth. Erasing every derived state
  and scoring again deducts exactly the derived credit more, so the part of the score nobody
  assessed is neither hidden nor overstated.\<close>

theorem derived_credit_is_counterfactual:
  "(let u = score_system refs states sources ''not_assessed'';
        v = score_system refs (without_derived sources states) sources ''not_assessed''
    in su_deductions_total v = su_deductions_total u + su_derived_credit u \<and> su_derived_controls v = 0 \<and>
       0 \<le> su_derived_credit u \<and> su_score v = max (-203) (110 - su_deductions_total u - su_derived_credit u))"
proof -
  let ?rs = "filter (\<lambda>r. mr_control_id r \<noteq> []) refs"
  let ?f = "row_score states sources ''not_assessed''"
  let ?g = "row_score (without_derived sources states) sources ''not_assessed''"
  let ?u = "score_system refs states sources ''not_assessed''"
  let ?v = "score_system refs (without_derived sources states) sources ''not_assessed''"
  have "sum_list (map cq_deduction (map ?g rs)) =
      sum_list (map cq_deduction (map ?f rs)) + sum_list (map cq_credited (filter (\<lambda>c. cq_source c = DERIVED) (map ?f rs)))" for rs
    by (induction rs) (simp_all add: row_counterfactual)
  then have ded: "su_deductions_total ?v = su_deductions_total ?u + su_derived_credit ?u"
    using score_system_counts [of refs states sources "''not_assessed''"]
      score_system_counts [of refs "without_derived sources states" sources "''not_assessed''"]
    unfolding counts_rows_def rows_of_def by presburger
  have "cq_source (?g r) \<noteq> DERIVED" for r
    by (simp add: row_score_def Let_def get_without_derived) (simp add: ASSESSED_def DERIVED_def vocab)
  then have none: "su_derived_controls ?v = 0"
    using score_system_counts [of refs "without_derived sources states" sources "''not_assessed''"]
    unfolding counts_rows_def rows_of_def by simp
  have "0 \<le> cq_credited (?f r)" for r
    by (simp add: row_score_def Let_def credit_nonneg)
  then have "0 \<le> sum_list (map cq_credited (filter (\<lambda>c. cq_source c = DERIVED) (map ?f ?rs)))"
    by (intro sum_list_nonneg) auto
  then have "0 \<le> su_derived_credit ?u"
    using score_system_counts [of refs states sources "''not_assessed''"] unfolding counts_rows_def rows_of_def by simp
  moreover have "su_score ?v = max (-203) (110 - su_deductions_total ?v)"
    using score_system_score [of refs "without_derived sources states" sources "''not_assessed''"]
      score_system_counts [of refs "without_derived sources states" sources "''not_assessed''"]
    unfolding counts_rows_def by (simp add: vocab)
  ultimately show ?thesis using ded none by (simp add: Let_def)
qed

text \<open>A state a person records loses the derivation's label and note.\<close>

lemma assessed_after_derived:
  "(let x' = record_assessed_state (record_derived_state x a d) b None e
    in ss_source x' = ASSESSED \<and> ss_derived_from x' = None \<and> ss_notes x' = None \<and> ss_state x' = b)"
  by (simp add: record_assessed_state_def record_derived_state_def fstr_def Let_def)

end
