(* ===== verification/Credential_Token.thy ===== *)
theory Credential_Token
  imports Prelude "HOL-Library.Word"
begin

text \<open>
  The stored form of an encrypted credential, \<open>ai/cipher.py\<close>: bytes, hexadecimal, URL-safe base64
  with the leniency of Python's decoder, and the envelope \<open>_parse\<close> reads and \<open>encrypt\<close> writes.
\<close>

section \<open>Bytes\<close>

type_synonym byte = "8 word"

definition bytes_of :: "string \<Rightarrow> byte list" where
  "bytes_of s = map (\<lambda>c. of_nat (of_char c)) s"

definition chars_of :: "byte list \<Rightarrow> string" where
  "chars_of bs = map (\<lambda>b. char_of (unat b)) bs"

lemma chars_of_bytes [simp]: "chars_of (bytes_of s) = s"
proof -
  have "char_of (unat (of_nat (of_char c) :: byte)) = c" for c :: char
  proof -
    have "(of_char c :: nat) < 256" using nat_of_char_less_256 by simp
    then have "unat (of_nat (of_char c) :: byte) = of_char c" by (simp add: unat_of_nat)
    then show ?thesis by simp
  qed
  then show ?thesis by (simp add: chars_of_def bytes_of_def comp_def)
qed

lemma byte_less: "unat (b :: byte) < 256"
proof -
  have "unat b < 2 ^ LENGTH(8)" by (rule unsigned_less)
  then show ?thesis by simp
qed

lemma byte_back: "n = unat (b :: byte) \<Longrightarrow> of_nat n = b"
  by simp

lemma bytes_of_chars [simp]: "bytes_of (chars_of bs) = bs"
  using byte_less by (simp add: bytes_of_def chars_of_def comp_def map_idI)

text \<open>\<open>int.from_bytes(bs, "big")\<close> and \<open>n.to_bytes(2, "big")\<close>.\<close>

definition nat_of_bytes :: "byte list \<Rightarrow> nat" where
  "nat_of_bytes bs = foldl (\<lambda>acc b. 256 * acc + unat b) 0 bs"

definition two_bytes :: "nat \<Rightarrow> byte list option" where
  "two_bytes n = (if n < 65536 then Some [of_nat (n div 256), of_nat (n mod 256)] else None)"

lemma nat_of_two_bytes: "two_bytes n = Some bs \<Longrightarrow> length bs = 2 \<and> nat_of_bytes bs = n"
proof -
  assume t: "two_bytes n = Some bs"
  then have "n < 65536" "bs = [of_nat (n div 256), of_nat (n mod 256)]"
    by (simp_all add: two_bytes_def split: if_splits)
  then show ?thesis by (simp add: nat_of_bytes_def unat_of_nat)
qed

text \<open>\<open>bytes.hex()\<close> and \<open>bytes.fromhex\<close> of a text of hexadecimal digits.\<close>

definition hex_of :: "byte list \<Rightarrow> string" where
  "hex_of bs = concat (map (\<lambda>b. [hex_digit (unat b div 16), hex_digit (unat b mod 16)]) bs)"

definition hex_value :: "char \<Rightarrow> nat option" where
  "hex_value c = (if is_digit c then Some (of_char c - 48)
     else if in_range CHR ''a'' CHR ''f'' c then Some (of_char c - 87)
     else if in_range CHR ''A'' CHR ''F'' c then Some (of_char c - 55) else None)"

fun fromhex :: "string \<Rightarrow> byte list option" where
  "fromhex [] = Some []"
| "fromhex [c] = None"
| "fromhex (c # d # cs) = (case (hex_value c, hex_value d, fromhex cs) of
     (Some x, Some y, Some bs) \<Rightarrow> Some (of_nat (16 * x + y) # bs) | _ \<Rightarrow> None)"

lemma hex_value_digit: "d < 16 \<Longrightarrow> hex_value (hex_digit d) = Some d"
  by (cases "d < 10") (simp_all add: hex_value_def hex_digit_def is_digit_def in_range_def)

lemma fromhex_hex [simp]: "fromhex (hex_of bs) = Some bs"
proof (induction bs)
  case (Cons b bs)
  have "unat b div 16 < 16" "unat b mod 16 < 16" using byte_less [of b] by simp_all
  moreover have "of_nat (16 * (unat b div 16) + unat b mod 16) = b" by (rule byte_back) simp
  ultimately show ?case using Cons by (simp add: hex_of_def hex_value_digit del: of_nat_add of_nat_mult)
qed (simp add: hex_of_def)

lemma length_hex [simp]: "length (hex_of bs) = 2 * length bs"
  by (induction bs) (simp_all add: hex_of_def)

lemma take_hex: "take (2 * n) (hex_of bs) = hex_of (take n bs)"
proof (induction bs arbitrary: n)
  case (Cons b bs)
  then show ?case by (cases n) (simp_all add: hex_of_def)
qed (simp add: hex_of_def)

section \<open>URL-safe base64\<close>

text \<open>The alphabet \<open>A-Z a-z 0-9 - _\<close>; the decoder also reads \<open>+\<close> and \<open>/\<close>.\<close>

definition b64_char :: "nat \<Rightarrow> char" where
  "b64_char v =
     (if v < 26 then char_of (65 + v) else if v < 52 then char_of (71 + v) else if v < 62 then char_of (v - 4)
      else if v = 62 then CHR ''-'' else CHR ''_'')"

definition b64_value :: "char \<Rightarrow> nat option" where
  "b64_value c =
     (if is_upper c then Some (of_char c - 65)
      else if is_lower c then Some (of_char c - 71)
      else if is_digit c then Some (of_char c + 4)
      else if c = CHR ''-'' \<or> c = CHR ''+'' then Some 62
      else if c = CHR ''_'' \<or> c = CHR ''/'' then Some 63 else None)"

fun b64encode :: "byte list \<Rightarrow> string" where
  "b64encode [] = []"
| "b64encode [a] = [b64_char (unat a div 4), b64_char ((unat a mod 4) * 16), CHR ''='', CHR ''='']"
| "b64encode [a, b] = [b64_char (unat a div 4), b64_char ((unat a mod 4) * 16 + unat b div 16),
     b64_char ((unat b mod 16) * 4), CHR ''='']"
| "b64encode (a # b # c # bs) = [b64_char (unat a div 4), b64_char ((unat a mod 4) * 16 + unat b div 16),
     b64_char ((unat b mod 16) * 4 + unat c div 64), b64_char (unat c mod 64)] @ b64encode bs"

text \<open>\<open>binascii.a2b_base64\<close> without strict mode: the position in the group of four, the bits left over
  and the padding seen. Characters outside the alphabet are skipped, a complete padding ends the
  input, and an incomplete group at the end is an error.\<close>

fun a2b_base64 :: "nat \<Rightarrow> nat \<Rightarrow> nat \<Rightarrow> string \<Rightarrow> byte list option" where
  "a2b_base64 quad left_bits pads [] = (if quad = 0 then Some [] else None)"
| "a2b_base64 quad left_bits pads (ch # cs) =
     (if ch = CHR ''='' then
        (if 2 \<le> quad then (if 4 \<le> quad + Suc pads then Some [] else a2b_base64 quad left_bits (Suc pads) cs)
         else a2b_base64 quad left_bits pads cs)
      else case b64_value ch of
        None \<Rightarrow> a2b_base64 quad left_bits pads cs
      | Some v \<Rightarrow>
          if quad = 0 then a2b_base64 1 v 0 cs
          else if quad = 1 then map_option ((#) (of_nat (left_bits * 4 + v div 16))) (a2b_base64 2 (v mod 16) 0 cs)
          else if quad = 2 then map_option ((#) (of_nat (left_bits * 16 + v div 4))) (a2b_base64 3 (v mod 4) 0 cs)
          else map_option ((#) (of_nat (left_bits * 64 + v))) (a2b_base64 0 0 0 cs))"

definition b64decode :: "string \<Rightarrow> byte list option" where
  "b64decode s = a2b_base64 0 0 0 s"

lemma b64_value_char: "v < 64 \<Longrightarrow> b64_value (b64_char v) = Some v"
  by (auto simp: b64_value_def b64_char_def is_upper_def is_lower_def is_digit_def in_range_def)

lemma b64_char_ascii: "(of_char (b64_char v) :: nat) < 128"
  by (auto simp: b64_char_def)

lemma b64_char_pad: "b64_char v \<noteq> CHR ''=''"
proof -
  have "(of_char (b64_char v) :: nat) \<noteq> 61" by (auto simp: b64_char_def)
  then show ?thesis by auto
qed

lemma a2b_quad:
  assumes "x < 64" "y < 64" "z < 64" "w < 64"
  shows "a2b_base64 0 l p (b64_char x # b64_char y # b64_char z # b64_char w # cs) =
    map_option (\<lambda>bs. of_nat (x * 4 + y div 16) # of_nat ((y mod 16) * 16 + z div 4) # of_nat ((z mod 4) * 64 + w) # bs)
      (a2b_base64 0 0 0 cs)"
  using assms by (simp add: b64_value_char b64_char_pad option.map_comp comp_def)

lemma a2b_pad1:
  assumes "x < 64" "y < 64" "z < 64"
  shows "a2b_base64 0 l p [b64_char x, b64_char y, b64_char z, CHR ''=''] =
    Some [of_nat (x * 4 + y div 16), of_nat ((y mod 16) * 16 + z div 4)]"
  using assms by (simp add: b64_value_char b64_char_pad)

lemma a2b_pad2:
  assumes "x < 64" "y < 64"
  shows "a2b_base64 0 l p [b64_char x, b64_char y, CHR ''='', CHR ''=''] = Some [of_nat (x * 4 + y div 16)]"
  using assms by (simp add: b64_value_char b64_char_pad)

lemma b64_digits:
  "unat (a :: byte) div 4 < 64" "(unat a mod 4) * 16 < 64" "(unat a mod 4) * 16 + unat (b :: byte) div 16 < 64"
  "(unat b mod 16) * 4 < 64" "(unat b mod 16) * 4 + unat (c :: byte) div 64 < 64" "unat c mod 64 < 64"
  using byte_less [of a] byte_less [of b] byte_less [of c] by simp_all

lemma b64_nat:
  fixes a b c :: nat
  assumes "a < 256" "b < 256" "c < 256"
  shows "a div 4 * 4 + (a mod 4 * 16) div 16 = a" "a div 4 * 4 + (a mod 4 * 16 + b div 16) div 16 = a"
    "(a mod 4 * 16 + b div 16) mod 16 * 16 + (b mod 16 * 4) div 4 = b"
    "(a mod 4 * 16 + b div 16) mod 16 * 16 + (b mod 16 * 4 + c div 64) div 4 = b"
    "(b mod 16 * 4 + c div 64) mod 4 * 64 + c mod 64 = c"
proof -
  have lt: "b div 16 < 16" "c div 64 < 4"
    by (rule less_mult_imp_div_less; use assms in simp)+
  show "a div 4 * 4 + (a mod 4 * 16) div 16 = a" "(b mod 16 * 4 + c div 64) mod 4 * 64 + c mod 64 = c"
    "a div 4 * 4 + (a mod 4 * 16 + b div 16) div 16 = a"
    "(a mod 4 * 16 + b div 16) mod 16 * 16 + (b mod 16 * 4) div 4 = b"
    "(a mod 4 * 16 + b div 16) mod 16 * 16 + (b mod 16 * 4 + c div 64) div 4 = b"
    using lt by simp_all
qed

lemma b64_roundtrip [simp]: "b64decode (b64encode bs) = Some bs"
  unfolding b64decode_def
proof (induction bs rule: b64encode.induct)
  case (2 a)
  show ?case unfolding b64encode.simps
    by (subst a2b_pad2 [OF b64_digits(1,2)]) (simp only: b64_nat [OF byte_less byte_less byte_less] byte_back [OF refl])
next
  case (3 a b)
  show ?case unfolding b64encode.simps
    by (subst a2b_pad1 [OF b64_digits(1,3,4)]) (simp only: b64_nat [OF byte_less byte_less byte_less] byte_back [OF refl])
next
  case (4 a b c bs)
  show ?case unfolding b64encode.simps append_Cons append_Nil
    by (subst a2b_quad [OF b64_digits(1,3,5,6)])
      (simp only: b64_nat [OF byte_less byte_less byte_less] byte_back [OF refl] 4 option.map)
qed simp

lemma b64_ascii: "c \<in> set (b64encode bs) \<Longrightarrow> (of_char c :: nat) < 128"
  by (induction bs rule: b64encode.induct) (auto simp: b64_char_ascii)

end
