(* ===== verification/Credential_Cipher.thy ===== *)
theory Credential_Cipher
  imports Credential_Token
begin

text \<open>
  Envelope encryption of stored credentials, \<open>ai/cipher.py\<close>, and the sweep that moves them onto a new
  key, \<open>ai/rotation.py\<close>.

  The primitives are parameters, collected in \<open>crypto\<close>: HMAC, SHA-256, PBKDF2, AES-GCM (\<open>cy_open\<close> is
  \<open>None\<close> on any exception of the library), the operating system's random bytes (the \<open>i\<close>-th draw) and
  the KMS client (\<open>None\<close> when the call raises). A \<open>str\<close> is its UTF-8 encoding, so \<open>encode\<close> is
  \<open>bytes_of\<close> and \<open>decode\<close> fails on bytes that are not UTF-8.
\<close>

section \<open>Parameters, errors and constants\<close>

record crypto =
  cy_hmac :: "byte list \<Rightarrow> byte list \<Rightarrow> byte list"
  cy_sha256 :: "byte list \<Rightarrow> byte list"
  cy_pbkdf2 :: "byte list \<Rightarrow> byte list \<Rightarrow> nat \<Rightarrow> byte list"
  cy_seal :: "byte list \<Rightarrow> byte list \<Rightarrow> byte list \<Rightarrow> byte list \<Rightarrow> byte list"
  cy_open :: "byte list \<Rightarrow> byte list \<Rightarrow> byte list \<Rightarrow> byte list \<Rightarrow> byte list option"
  cy_random :: "nat \<Rightarrow> nat \<Rightarrow> byte list"
  cy_kms_generate :: "string \<Rightarrow> nat \<Rightarrow> byte list \<times> byte list"
  cy_kms_decrypt :: "byte list \<Rightarrow> byte list option"

datatype cred_error =
    Credential_storage_error string
  | Payload_authentication_error
  | Kms_unavailable_error "string option"
  | Unknown_key_error "string option"
  | Other_error string

definition VERSION :: nat where [vocab]: "VERSION = 2"
definition LEGACY_VERSION :: nat where [vocab]: "LEGACY_VERSION = 1"
definition NONCE_LEN :: nat where [vocab]: "NONCE_LEN = 12"
definition DEK_LEN :: nat where [vocab]: "DEK_LEN = 32"
definition KEY_ID_LEN :: nat where [vocab]: "KEY_ID_LEN = 8"
definition KDF_ROUNDS :: nat where "KDF_ROUNDS = 600000"
definition KEY_ID_LABEL :: "byte list" where "KEY_ID_LABEL = bytes_of ''ccf-kek-id-v1''"
definition KDF_SALT :: "byte list" where "KDF_SALT = bytes_of ''ccf-kek-pbkdf2-v1''"
definition DEK_LABEL :: "byte list" where "DEK_LABEL = bytes_of ''ccf-dek''"
definition AAD_CREDENTIAL :: "byte list" where "AAD_CREDENTIAL = bytes_of ''ccf-cred''"
definition AAD_MFA :: "byte list" where "AAD_MFA = bytes_of ''ccf-mfa''"

text \<open>The byte sequences \<open>bytes.decode("utf-8")\<close> accepts.\<close>

definition tail_byte :: "byte \<Rightarrow> bool" where
  "tail_byte b \<longleftrightarrow> 128 \<le> unat b \<and> unat b < 192"

fun utf8_valid :: "byte list \<Rightarrow> bool" where
  "utf8_valid [] = True"
| "utf8_valid (a # bs) =
     (let x = unat a in
      if x < 128 then utf8_valid bs
      else case bs of
        [] \<Rightarrow> False
      | b # bs1 \<Rightarrow>
          if 194 \<le> x \<and> x < 224 then tail_byte b \<and> utf8_valid bs1
          else case bs1 of
            [] \<Rightarrow> False
          | c # bs2 \<Rightarrow>
              if 224 \<le> x \<and> x < 240
              then tail_byte b \<and> tail_byte c \<and> (x = 224 \<longrightarrow> 160 \<le> unat b) \<and> (x = 237 \<longrightarrow> unat b < 160) \<and> utf8_valid bs2
              else case bs2 of
                [] \<Rightarrow> False
              | d # bs3 \<Rightarrow>
                  240 \<le> x \<and> x < 245 \<and> tail_byte b \<and> tail_byte c \<and> tail_byte d \<and>
                  (x = 240 \<longrightarrow> 144 \<le> unat b) \<and> (x = 244 \<longrightarrow> unat b < 144) \<and> utf8_valid bs3)"

section \<open>Key-encryption keys\<close>

definition key_id :: "crypto \<Rightarrow> string \<Rightarrow> string" where
  "key_id C master_key = take (KEY_ID_LEN * 2) (hex_of (cy_hmac C (bytes_of master_key) KEY_ID_LABEL))"

definition legacy_kek :: "crypto \<Rightarrow> string \<Rightarrow> byte list" where
  "legacy_kek C master_key = cy_sha256 C (bytes_of master_key)"

definition pbkdf2_kek :: "crypto \<Rightarrow> string \<Rightarrow> byte list" where
  "pbkdf2_kek C master_key = cy_pbkdf2 C (bytes_of master_key) KDF_SALT KDF_ROUNDS"

text \<open>The process-wide cache of derived keys, and the derivation through it.\<close>

record kek_cache =
  kc_entries :: "(string \<times> byte list) list"
  kc_derivations :: nat

definition derive_kek :: "crypto \<Rightarrow> kek_cache \<Rightarrow> string \<Rightarrow> byte list \<times> kek_cache" where
  "derive_kek C st master_key =
     (let kid = key_id C master_key
      in case map_of (kc_entries st) kid of
           Some cached \<Rightarrow> (cached, st)
         | None \<Rightarrow> let kek = pbkdf2_kek C master_key
                   in (kek, \<lparr>kc_entries = AList.update kid kek (kc_entries st), kc_derivations = kc_derivations st + 1\<rparr>))"

section \<open>Key providers\<close>

datatype key_provider = Local_key_provider "string list" | Kms_key_provider string

fun add_previous :: "crypto \<Rightarrow> string set \<Rightarrow> string list \<Rightarrow> string list" where
  "add_previous C seen [] = []"
| "add_previous C seen (k # ks) =
     (if k \<noteq> [] \<and> key_id C k \<notin> seen then k # add_previous C (insert (key_id C k) seen) ks
      else add_previous C seen ks)"

definition local_key_provider :: "crypto \<Rightarrow> string \<Rightarrow> string list \<Rightarrow> cred_error + key_provider" where
  "local_key_provider C master_key previous_keys =
     (if length master_key < 16
      then Inl (Credential_storage_error ''ai_credential_master_key must be set to a strong value (>=16 chars) to store AI credentials'')
      else Inr (Local_key_provider (master_key # add_previous C {key_id C master_key} previous_keys)))"

definition kms_key_provider :: "string \<Rightarrow> cred_error + key_provider" where
  "kms_key_provider kms_key_id =
     (if kms_key_id = []
      then Inl (Credential_storage_error ''ai_credential_kms_key_id must be set to use the aws_kms key provider'')
      else Inr (Kms_key_provider kms_key_id))"

fun current_key_id :: "crypto \<Rightarrow> key_provider \<Rightarrow> string" where
  "current_key_id C (Local_key_provider ks) = key_id C (hd ks)"
| "current_key_id C (Kms_key_provider i) = key_id C i"

text \<open>\<open>generate_data_key\<close>: the data key, its wrapped form, and the number of the next draw.\<close>

fun generate_data_key :: "crypto \<Rightarrow> key_provider \<Rightarrow> nat \<Rightarrow> byte list \<times> byte list \<times> nat" where
  "generate_data_key C (Local_key_provider ks) i =
     (let dek = cy_random C i DEK_LEN; nonce = cy_random C (i + 1) NONCE_LEN
      in (dek, nonce @ cy_seal C (pbkdf2_kek C (hd ks)) nonce dek DEK_LABEL, i + 2))"
| "generate_data_key C (Kms_key_provider k) i =
     (case cy_kms_generate C k i of (plain, blob) \<Rightarrow> (plain, blob, i + 1))"

fun first_open :: "crypto \<Rightarrow> byte list \<Rightarrow> byte list \<Rightarrow> byte list list \<Rightarrow> byte list option" where
  "first_open C nonce blob [] = None"
| "first_open C nonce blob (kek # keks) =
     (case cy_open C kek nonce blob DEK_LABEL of Some dek \<Rightarrow> Some dek | None \<Rightarrow> first_open C nonce blob keks)"

fun unwrap_data_key :: "crypto \<Rightarrow> key_provider \<Rightarrow> byte list \<Rightarrow> string option \<Rightarrow> cred_error + byte list" where
  "unwrap_data_key C (Local_key_provider ks) wrapped kid =
     (let nonce = take NONCE_LEN wrapped; blob = drop NONCE_LEN wrapped
      in case kid of
           Some i \<Rightarrow>
             (case List.find (\<lambda>k. key_id C k = i) ks of
                None \<Rightarrow> Inl (Unknown_key_error (Some i))
              | Some k \<Rightarrow> (case cy_open C (pbkdf2_kek C k) nonce blob DEK_LABEL of
                  None \<Rightarrow> Inl (Other_error ''InvalidTag'') | Some dek \<Rightarrow> Inr dek))
         | None \<Rightarrow>
             (case first_open C nonce blob (concat (map (\<lambda>k. [legacy_kek C k, pbkdf2_kek C k]) ks)) of
                None \<Rightarrow> Inl (Unknown_key_error None) | Some dek \<Rightarrow> Inr dek))"
| "unwrap_data_key C (Kms_key_provider k) wrapped kid =
     (case cy_kms_decrypt C wrapped of None \<Rightarrow> Inl (Kms_unavailable_error kid) | Some dek \<Rightarrow> Inr dek)"

section \<open>The envelope\<close>

definition print_token :: "string \<Rightarrow> byte list \<Rightarrow> byte list \<Rightarrow> byte list \<Rightarrow> cred_error + string" where
  "print_token kid wrapped nonce ct =
     (case (fromhex kid, two_bytes (length wrapped)) of
        (Some k, Some n) \<Rightarrow> Inr (b64encode ([of_nat VERSION] @ k @ n @ wrapped @ nonce @ ct))
      | (None, _) \<Rightarrow> Inl (Other_error ''non-hexadecimal number found in fromhex() arg'')
      | (_, None) \<Rightarrow> Inl (Other_error ''int too big to convert''))"

definition split_blob :: "string option \<Rightarrow> byte list \<Rightarrow> string option \<times> byte list \<times> byte list \<times> byte list" where
  "split_blob kid rest =
     (let wl = nat_of_bytes (take 2 rest); r = drop 2 rest; r' = drop wl r
      in (kid, take wl r, take NONCE_LEN r', drop NONCE_LEN r'))"

definition parse_token :: "string \<Rightarrow> cred_error + (string option \<times> byte list \<times> byte list \<times> byte list)" where
  "parse_token token =
     (if \<exists>c \<in> set token. 128 \<le> (of_char c :: nat) then Inl (Other_error ''ordinal not in range(128)'')
      else case b64decode token of
        None \<Rightarrow> Inl (Other_error ''Incorrect padding'')
      | Some [] \<Rightarrow> Inl (Other_error ''empty credential token'')
      | Some (v # blob) \<Rightarrow>
          if unat v = VERSION then Inr (split_blob (Some (hex_of (take KEY_ID_LEN blob))) (drop KEY_ID_LEN blob))
          else if unat v = LEGACY_VERSION then Inr (split_blob None blob)
          else Inl (Other_error (fstr [''unsupported credential token version '', str_of_nat (unat v)])))"

definition token_key_id :: "string \<Rightarrow> cred_error + string option" where
  "token_key_id token = rbind (parse_token token) (\<lambda>(kid, _). Inr kid)"

definition mask :: "string \<Rightarrow> string" where
  "mask secret = (if secret = [] then [] else [CHR 0xE2, CHR 0x80, CHR 0xA6] @ drop (length secret - 4) secret)"

section \<open>The cipher\<close>

definition encrypt :: "crypto \<Rightarrow> key_provider \<Rightarrow> byte list \<Rightarrow> nat \<Rightarrow> string \<Rightarrow> cred_error + (string \<times> nat)" where
  "encrypt C P aad i plaintext =
     (case generate_data_key C P i of (dek, wrapped, j) \<Rightarrow>
        let nonce = cy_random C j NONCE_LEN; ct = cy_seal C dek nonce (bytes_of plaintext) aad
        in rbind (print_token (current_key_id C P) wrapped nonce ct) (\<lambda>token. Inr (token, j + 1)))"

definition decrypt :: "crypto \<Rightarrow> key_provider \<Rightarrow> byte list \<Rightarrow> string \<Rightarrow> cred_error + string" where
  "decrypt C P aad token =
     rbind (parse_token token) (\<lambda>(kid, wrapped, nonce, ct).
     rbind (unwrap_data_key C P wrapped kid) (\<lambda>dek.
       case cy_open C dek nonce ct aad of
         None \<Rightarrow> Inl Payload_authentication_error
       | Some bs \<Rightarrow> if utf8_valid bs then Inr (chars_of bs) else Inl Payload_authentication_error))"

definition needs_rewrap :: "crypto \<Rightarrow> key_provider \<Rightarrow> string \<Rightarrow> cred_error + bool" where
  "needs_rewrap C P token = rbind (parse_token token) (\<lambda>(kid, _). Inr (kid \<noteq> Some (current_key_id C P)))"

definition rewrap :: "crypto \<Rightarrow> key_provider \<Rightarrow> byte list \<Rightarrow> nat \<Rightarrow> string \<Rightarrow> cred_error + (string \<times> nat)" where
  "rewrap C P aad i token = rbind (decrypt C P aad token) (encrypt C P aad i)"

record cipher_settings =
  cf_key_provider :: string
  cf_master_key :: "string option"
  cf_previous_keys :: "string list"
  cf_kms_key_id :: "string option"

definition build_cipher :: "crypto \<Rightarrow> cipher_settings \<Rightarrow> cred_error + key_provider" where
  "build_cipher C S =
     (if cf_key_provider S = ''local'' then
        (case cf_master_key S of
           Some (c # cs) \<Rightarrow> local_key_provider C (c # cs) (cf_previous_keys S)
         | _ \<Rightarrow> Inl (Credential_storage_error ''AI credential storage is disabled: set CCF_AI_CREDENTIAL_MASTER_KEY (local key provider) or configure a KMS key provider''))
      else if cf_key_provider S = ''aws_kms'' then
        kms_key_provider (case cf_kms_key_id S of None \<Rightarrow> [] | Some k \<Rightarrow> k)
      else Inl (Credential_storage_error (fstr [''AI credential key provider '', py_repr (cf_key_provider S), '' is not implemented yet''])))"

section \<open>Rotation\<close>

record cred_row =
  cw_id :: int
  cw_token :: "string option"

record key_store =
  ks_ai_provider_configs :: "cred_row list"
  ks_connector_configs :: "cred_row list"
  ks_user_mfa_credentials :: "cred_row list"

record rewrap_report =
  rr_rewrapped :: nat
  rr_already_current :: nat
  rr_unreadable :: "(string \<times> int \<times> string option) list"

definition report_ok :: "rewrap_report \<Rightarrow> bool" where
  "report_ok r \<longleftrightarrow> rr_unreadable r = []"

definition rewrap_row ::
  "crypto \<Rightarrow> key_provider \<Rightarrow> byte list \<Rightarrow> string \<Rightarrow> cred_row \<Rightarrow> nat \<times> rewrap_report \<Rightarrow>
     cred_error + (cred_row \<times> nat \<times> rewrap_report)" where
  "rewrap_row C P aad label row acc =
     (case acc of (i, report) \<Rightarrow>
        case cw_token row of
          None \<Rightarrow> Inr (row, i, report)
        | Some token \<Rightarrow>
            if token = [] then Inr (row, i, report)
            else rbind (needs_rewrap C P token) (\<lambda>needed.
              if \<not> needed then Inr (row, i, report\<lparr>rr_already_current := rr_already_current report + 1\<rparr>)
              else case rewrap C P aad i token of
                Inr (token', i') \<Rightarrow>
                  Inr (row\<lparr>cw_token := Some token'\<rparr>, i', report\<lparr>rr_rewrapped := rr_rewrapped report + 1\<rparr>)
              | Inl (Unknown_key_error kid) \<Rightarrow>
                  Inr (row, i, report\<lparr>rr_unreadable := rr_unreadable report @ [(label, cw_id row, kid)]\<rparr>)
              | Inl (Kms_unavailable_error kid) \<Rightarrow> Inl (Kms_unavailable_error kid)
              | Inl e \<Rightarrow> rbind (token_key_id token) (\<lambda>kid.
                  Inr (row, i, report\<lparr>rr_unreadable := rr_unreadable report @ [(label, cw_id row, kid)]\<rparr>))))"

fun rewrap_rows ::
  "crypto \<Rightarrow> key_provider \<Rightarrow> byte list \<Rightarrow> string \<Rightarrow> cred_row list \<Rightarrow> nat \<times> rewrap_report \<Rightarrow>
     cred_error + (cred_row list \<times> nat \<times> rewrap_report)" where
  "rewrap_rows C P aad label [] acc = Inr ([], acc)"
| "rewrap_rows C P aad label (r # rs) acc =
     rbind (rewrap_row C P aad label r acc) (\<lambda>(r', acc1).
     rbind (rewrap_rows C P aad label rs acc1) (\<lambda>(rs', acc2). Inr (r' # rs', acc2)))"

text \<open>The three encrypted columns, in the order of \<open>ENCRYPTED_COLUMNS\<close>, each with its context.\<close>

definition rewrap_all :: "crypto \<Rightarrow> cipher_settings \<Rightarrow> nat \<Rightarrow> key_store \<Rightarrow> cred_error + (key_store \<times> rewrap_report)" where
  "rewrap_all C S i st =
     rbind (build_cipher C S) (\<lambda>P.
     rbind (rewrap_rows C P AAD_CREDENTIAL ''ai_provider_configs'' (ks_ai_provider_configs st)
              (i, \<lparr>rr_rewrapped = 0, rr_already_current = 0, rr_unreadable = []\<rparr>)) (\<lambda>(ai, acc1).
     rbind (rewrap_rows C P AAD_CREDENTIAL ''connector_configs'' (ks_connector_configs st) acc1) (\<lambda>(conn, acc2).
     rbind (rewrap_rows C P AAD_MFA ''user_mfa_credentials'' (ks_user_mfa_credentials st) acc2) (\<lambda>(mfa, _, report).
       Inr (\<lparr>ks_ai_provider_configs = ai, ks_connector_configs = conn, ks_user_mfa_credentials = mfa\<rparr>, report)))))"

end
