(* ===== verification/Cipher_Laws.thy ===== *)
theory Cipher_Laws
  imports Credential_Cipher
begin

text \<open>
  What credential storage promises: a token is read back by every provider that holds its key, the
  rotation sweep moves tokens without changing what they decrypt to, one context's tokens are
  useless in another; and the two ways the sweep stops at a single row.
\<close>

section \<open>Hypotheses on the primitives\<close>

text \<open>What the code relies on: opening what was sealed under the same key, nonce and context gives
  the plaintext; the lengths of digests, random draws and sealed texts (AES-GCM adds a tag of 16
  bytes).\<close>

definition sound_crypto :: "crypto \<Rightarrow> bool" where
  "sound_crypto C \<longleftrightarrow>
     (\<forall>k n p a. cy_open C k n (cy_seal C k n p a) a = Some p) \<and>
     (\<forall>k n p a. length (cy_seal C k n p a) \<le> length p + 16) \<and>
     (\<forall>i m. length (cy_random C i m) = m) \<and>
     (\<forall>k m. length (cy_hmac C k m) = 32)"

text \<open>No two of the configured keys have the same identifier.\<close>

definition distinct_ids :: "crypto \<Rightarrow> string set \<Rightarrow> bool" where
  "distinct_ids C ks \<longleftrightarrow> inj_on (key_id C) ks"

section \<open>The envelope round trip\<close>

lemma nat_of_two: "length (take 2 (n @ xs)) = 2 \<Longrightarrow> length n = 2 \<Longrightarrow> take 2 (n @ xs) = n"
  by simp

lemma parse_print:
  assumes "fromhex kid = Some k" "length k = KEY_ID_LEN" "kid = hex_of k"
    "length wrapped < 65536" "length nonce = NONCE_LEN"
  shows "\<exists>token. print_token kid wrapped nonce ct = Inr token \<and> token \<noteq> [] \<and>
    parse_token token = Inr (Some kid, wrapped, nonce, ct)"
proof -
  obtain n where n: "two_bytes (length wrapped) = Some n" using assms(4) by (simp add: two_bytes_def)
  from nat_of_two_bytes [OF n] have n2: "length n = 2" "nat_of_bytes n = length wrapped" by simp_all
  define blob where "blob = [of_nat VERSION] @ k @ n @ wrapped @ nonce @ ct"
  have print: "print_token kid wrapped nonce ct = Inr (b64encode blob)"
    using assms(1) n by (simp add: print_token_def blob_def)
  have dec: "b64decode (b64encode blob) = Some (of_nat VERSION # k @ n @ wrapped @ nonce @ ct)"
    by (simp add: blob_def)
  have ascii: "\<not> (\<exists>c \<in> set (b64encode blob). 128 \<le> (of_char c :: nat))"
    using b64_ascii by (auto simp: not_le)
  have ver: "unat (of_nat VERSION :: byte) = VERSION" by (simp add: VERSION_def)
  have "parse_token (b64encode blob) =
      Inr (split_blob (Some (hex_of (take KEY_ID_LEN (k @ n @ wrapped @ nonce @ ct))))
        (drop KEY_ID_LEN (k @ n @ wrapped @ nonce @ ct)))"
    by (simp only: parse_token_def ascii if_False dec option.case list.case ver if_True refl)
  also have "\<dots> = Inr (Some kid, wrapped, nonce, ct)"
    using assms(2,3,5) n2 by (simp add: split_blob_def Let_def)
  finally have "parse_token (b64encode blob) = Inr (Some kid, wrapped, nonce, ct)" .
  moreover have "b64encode blob \<noteq> []"
    by (cases "k @ n @ wrapped @ nonce @ ct" rule: list.exhaust; cases "tl (k @ n @ wrapped @ nonce @ ct)")
      (simp_all add: blob_def)
  ultimately show ?thesis using print by blast
qed

lemma key_id_hex:
  assumes "sound_crypto C"
  obtains k where "key_id C m = hex_of k" "length k = KEY_ID_LEN" "fromhex (key_id C m) = Some k"
proof -
  let ?h = "cy_hmac C (bytes_of m) KEY_ID_LABEL"
  have "key_id C m = hex_of (take KEY_ID_LEN ?h)"
    unfolding key_id_def by (simp add: take_hex mult.commute [of _ 2])
  moreover have "length (take KEY_ID_LEN ?h) = KEY_ID_LEN"
    using assms by (simp add: sound_crypto_def KEY_ID_LEN_def)
  ultimately show thesis using that by simp
qed

section \<open>Writing and reading\<close>

definition keys_of_provider :: "key_provider \<Rightarrow> string list" where
  "keys_of_provider P = (case P of Local_key_provider ks \<Rightarrow> ks | Kms_key_provider _ \<Rightarrow> [])"

lemma find_key:
  assumes "k \<in> set ks" "inj_on (key_id C) (set ks)"
  shows "List.find (\<lambda>x. key_id C x = key_id C k) ks = Some k"
  using assms
proof (induction ks)
  case (Cons x ks)
  show ?case
  proof (cases "key_id C x = key_id C k")
    case True
    then have "x = k" using inj_onD [OF Cons.prems(2) True] Cons.prems(1) by simp
    then show ?thesis by simp
  next
    case False
    then have "k \<in> set ks" using Cons.prems(1) by auto
    then show ?thesis using Cons False by (simp add: inj_on_insert)
  qed
qed simp

lemma encrypt_local:
  assumes "sound_crypto C"
  obtains token wrapped nonce ct dek j where
    "encrypt C (Local_key_provider (m # ms)) aad i s = Inr (token, j)" "token \<noteq> []"
    "parse_token token = Inr (Some (key_id C m), wrapped, nonce, ct)"
    "cy_open C (pbkdf2_kek C m) (take NONCE_LEN wrapped) (drop NONCE_LEN wrapped) DEK_LABEL = Some dek"
    "ct = cy_seal C dek nonce (bytes_of s) aad"
proof -
  define dek where "dek = cy_random C i DEK_LEN"
  define n1 where "n1 = cy_random C (i + 1) NONCE_LEN"
  define wrapped where "wrapped = n1 @ cy_seal C (pbkdf2_kek C m) n1 dek DEK_LABEL"
  define nonce where "nonce = cy_random C (i + 2) NONCE_LEN"
  define ct where "ct = cy_seal C dek nonce (bytes_of s) aad"
  have len: "length n1 = NONCE_LEN" "length nonce = NONCE_LEN" "length dek = DEK_LEN"
    using assms by (simp_all add: sound_crypto_def n1_def nonce_def dek_def)
  have "length (cy_seal C (pbkdf2_kek C m) n1 dek DEK_LABEL) \<le> DEK_LEN + 16"
    using assms len by (simp add: sound_crypto_def) (metis len(3))
  then have wl: "length wrapped < 65536" using len by (simp add: wrapped_def NONCE_LEN_def DEK_LEN_def)
  obtain k where k: "key_id C m = hex_of k" "length k = KEY_ID_LEN" "fromhex (key_id C m) = Some k"
    using key_id_hex [OF assms] .
  obtain token where t: "print_token (key_id C m) wrapped nonce ct = Inr token" "token \<noteq> []"
    "parse_token token = Inr (Some (key_id C m), wrapped, nonce, ct)"
    using parse_print [OF k(3,2,1) wl len(2)] by blast
  show thesis
  proof (rule that)
    show "encrypt C (Local_key_provider (m # ms)) aad i s = Inr (token, i + 3)"
      using t(1) unfolding ct_def nonce_def wrapped_def n1_def dek_def by (simp add: encrypt_def Let_def)
    show "cy_open C (pbkdf2_kek C m) (take NONCE_LEN wrapped) (drop NONCE_LEN wrapped) DEK_LABEL = Some dek"
      using assms len by (simp add: wrapped_def sound_crypto_def)
  qed (use t ct_def in simp_all)
qed

lemma decrypt_local:
  assumes "parse_token token = Inr (Some (key_id C m), wrapped, nonce, ct)" "m \<in> set ks" "inj_on (key_id C) (set ks)"
    "cy_open C (pbkdf2_kek C m) (take NONCE_LEN wrapped) (drop NONCE_LEN wrapped) DEK_LABEL = Some dek"
  shows "decrypt C (Local_key_provider ks) aad token =
    (case cy_open C dek nonce ct aad of None \<Rightarrow> Inl Payload_authentication_error
     | Some bs \<Rightarrow> if utf8_valid bs then Inr (chars_of bs) else Inl Payload_authentication_error)"
  using assms find_key [OF assms(2,3)] by (simp add: decrypt_def Let_def)

lemma write_then_read:
  assumes "sound_crypto C" "m \<in> set ks" "inj_on (key_id C) (set ks)" "utf8_valid (bytes_of s)"
  obtains token j where "encrypt C (Local_key_provider (m # ms)) aad i s = Inr (token, j)" "token \<noteq> []"
    "token_key_id token = Inr (Some (key_id C m))" "decrypt C (Local_key_provider ks) aad token = Inr s"
proof -
  obtain token wrapped nonce ct dek j where t:
    "encrypt C (Local_key_provider (m # ms)) aad i s = Inr (token, j)" "token \<noteq> []"
    "parse_token token = Inr (Some (key_id C m), wrapped, nonce, ct)"
    "cy_open C (pbkdf2_kek C m) (take NONCE_LEN wrapped) (drop NONCE_LEN wrapped) DEK_LABEL = Some dek"
    "ct = cy_seal C dek nonce (bytes_of s) aad"
    by (rule encrypt_local [OF assms(1)])
  have "cy_open C dek nonce ct aad = Some (bytes_of s)" using assms(1) t(5) by (simp add: sound_crypto_def)
  then have "decrypt C (Local_key_provider ks) aad token = Inr s"
    using decrypt_local [OF t(3) assms(2,3) t(4)] assms(4) by simp
  then show thesis by (rule that [OF t(1,2), rotated]) (simp add: token_key_id_def t(3))
qed

lemma utf8_of_decrypt: "decrypt C P aad token = Inr s \<Longrightarrow> utf8_valid (bytes_of s)"
  by (auto simp: decrypt_def rbind_eq_Inr split: option.splits if_splits)

section \<open>The configured keys\<close>

lemma add_previous_subset: "set (add_previous C seen ks) \<subseteq> set ks"
  by (induction ks arbitrary: seen) auto

lemma add_previous_covers:
  "k \<in> set ks \<Longrightarrow> k \<noteq> [] \<Longrightarrow> key_id C k \<in> seen \<or> (\<exists>x \<in> set (add_previous C seen ks). key_id C x = key_id C k)"
proof (induction ks arbitrary: seen)
  case (Cons y ks)
  then show ?case by (cases "k = y") (auto split: if_splits, (metis insert_iff)+)
qed simp

definition configured :: "cipher_settings \<Rightarrow> string list" where
  "configured S = the (cf_master_key S) # cf_previous_keys S"

lemma build_local:
  assumes "build_cipher C S = Inr P" "cf_key_provider S = ''local''"
  obtains m ms where "cf_master_key S = Some m" "m \<noteq> []" "P = Local_key_provider (m # ms)"
    "ms = add_previous C {key_id C m} (cf_previous_keys S)"
  using assms by (auto simp: build_cipher_def local_key_provider_def split: option.splits list.splits if_splits)

lemma provider_keys:
  assumes "P = Local_key_provider (m # ms)" "ms = add_previous C {key_id C m} (cf_previous_keys S)"
    "cf_master_key S = Some m" "distinct_ids C (set (configured S))"
  shows "inj_on (key_id C) (set (m # ms))" "k \<in> set (configured S) \<Longrightarrow> k \<noteq> [] \<Longrightarrow> k \<in> set (m # ms)"
proof -
  have sub: "set (m # ms) \<subseteq> set (configured S)"
    using add_previous_subset [of C "{key_id C m}" "cf_previous_keys S"] assms(2,3) by (auto simp: configured_def)
  have inj: "inj_on (key_id C) (set (configured S))" using assms(4) by (simp add: distinct_ids_def)
  show "inj_on (key_id C) (set (m # ms))" by (rule inj_on_subset [OF inj sub])
  assume k: "k \<in> set (configured S)" "k \<noteq> []"
  have "\<exists>x \<in> set (m # ms). key_id C x = key_id C k"
  proof (cases "k = m")
    case False
    then have "k \<in> set (cf_previous_keys S)" using k(1) assms(3) by (simp add: configured_def)
    then show ?thesis
      using add_previous_covers [of k "cf_previous_keys S" C "{key_id C m}"] k(2) assms(2) by auto
  qed simp
  then obtain x where x: "x \<in> set (m # ms)" "key_id C x = key_id C k" by blast
  then have "x = k" using inj_onD [OF inj x(2)] sub k(1) by blast
  then show "k \<in> set (m # ms)" using x by simp
qed

section \<open>The sweep, row by row\<close>

definition settled :: "crypto \<Rightarrow> key_provider \<Rightarrow> cred_row \<Rightarrow> bool" where
  "settled C P r \<longleftrightarrow> (case cw_token r of None \<Rightarrow> True | Some t \<Rightarrow> t = [] \<or> needs_rewrap C P t = Inr False)"

definition has_token :: "cred_row \<Rightarrow> bool" where
  "has_token r \<longleftrightarrow> cw_token r \<noteq> None \<and> cw_token r \<noteq> Some []"

definition row_view :: "crypto \<Rightarrow> key_provider \<Rightarrow> byte list \<Rightarrow> cred_row \<Rightarrow> int \<times> (cred_error + string) option" where
  "row_view C P aad r = (cw_id r, map_option (decrypt C P aad) (cw_token r))"

definition handled :: "rewrap_report \<Rightarrow> nat" where
  "handled r = rr_rewrapped r + rr_already_current r + length (rr_unreadable r)"

lemma rewrap_row_laws:
  assumes "sound_crypto C" "P = Local_key_provider (m # ms)" "inj_on (key_id C) (set (m # ms))"
    "rewrap_row C P aad label r (i, rep) = Inr (r', j, rep')"
  shows "row_view C P aad r' = row_view C P aad r \<and> has_token r' = has_token r \<and>
    handled rep' = handled rep + (if has_token r then 1 else 0) \<and>
    (settled C P r' \<and> rr_unreadable rep' = rr_unreadable rep \<or> length (rr_unreadable rep) < length (rr_unreadable rep'))"
proof (cases "has_token r")
  case False
  then have "r' = r \<and> rep' = rep" "settled C P r"
    using assms(4) by (auto simp: rewrap_row_def has_token_def settled_def split: option.splits if_splits)
  then show ?thesis using False by simp
next
  case True
  then obtain t where t: "cw_token r = Some t" "t \<noteq> []" by (auto simp: has_token_def)
  obtain b where b: "needs_rewrap C P t = Inr b"
    using assms(4) t by (cases "needs_rewrap C P t") (simp_all add: rewrap_row_def)
  show ?thesis
  proof (cases b)
    case False
    then have "r' = r" "rep' = rep\<lparr>rr_already_current := rr_already_current rep + 1\<rparr>"
      using assms(4) t b by (simp_all add: rewrap_row_def)
    then show ?thesis using True t b False by (simp add: settled_def handled_def)
  next
    case needed: True
    show ?thesis
    proof (cases "rewrap C P aad i t")
      case (Inl e)
      have "r' = r \<and> (\<exists>kid. rep' = rep\<lparr>rr_unreadable := rr_unreadable rep @ [(label, cw_id r, kid)]\<rparr>)"
        using assms(4) t b needed Inl
        by (cases e) (auto simp: rewrap_row_def rbind_eq_Inr)
      then show ?thesis using True by (auto simp: handled_def)
    next
      case (Inr u)
      obtain t' i' where u: "u = (t', i')" by (cases u)
      obtain s where s: "decrypt C P aad t = Inr s" "encrypt C P aad i s = Inr (t', i')"
        using Inr u by (auto simp: rewrap_def rbind_eq_Inr)
      obtain token j where w: "encrypt C (Local_key_provider (m # ms)) aad i s = Inr (token, j)" "token \<noteq> []"
        "token_key_id token = Inr (Some (key_id C m))" "decrypt C (Local_key_provider (m # ms)) aad token = Inr s"
        by (rule write_then_read [OF assms(1) _ assms(3) utf8_of_decrypt [OF s(1)], of m ms aad i]) simp_all
      have tok: "token = t'" using w(1) s(2) assms(2) by simp
      have eqs: "r' = r\<lparr>cw_token := Some t'\<rparr>" "rep' = rep\<lparr>rr_rewrapped := rr_rewrapped rep + 1\<rparr>"
        using assms(4) t b needed Inr u by (simp_all add: rewrap_row_def)
      have "needs_rewrap C P t' = Inr False"
        using w(3) tok assms(2) by (auto simp: needs_rewrap_def token_key_id_def rbind_eq_Inr split: prod.splits)
      then have "settled C P r'" by (simp add: settled_def eqs)
      moreover have "row_view C P aad r' = row_view C P aad r"
        using w(4) tok s(1) assms(2) t(1) by (simp add: row_view_def eqs)
      moreover have "has_token r'" using w(2) tok by (simp add: has_token_def eqs)
      ultimately show ?thesis using True by (simp add: eqs(2) handled_def)
    qed
  qed
qed

lemma rewrap_row_settled:
  "settled C P r \<Longrightarrow> \<exists>n. rewrap_row C P aad label r (i, rep) = Inr (r, i, rep\<lparr>rr_already_current := n\<rparr>)"
  by (auto simp: rewrap_row_def settled_def split: option.splits)
    (metis rewrap_report.surjective rewrap_report.update_convs(2))+

lemma rewrap_rows_laws:
  assumes "sound_crypto C" "P = Local_key_provider (m # ms)" "inj_on (key_id C) (set (m # ms))"
    "rewrap_rows C P aad label rs (i, rep) = Inr (rs', j, rep')"
  shows "map (row_view C P aad) rs' = map (row_view C P aad) rs \<and>
    handled rep' = handled rep + count_if has_token rs \<and>
    (list_all (settled C P) rs' \<and> rr_unreadable rep' = rr_unreadable rep \<or> length (rr_unreadable rep) < length (rr_unreadable rep'))"
  using assms(4)
proof (induction rs arbitrary: i rep rs')
  case (Cons r rs)
  obtain r1 i1 rep1 rs1 where step: "rewrap_row C P aad label r (i, rep) = Inr (r1, i1, rep1)"
    "rewrap_rows C P aad label rs (i1, rep1) = Inr (rs1, j, rep')" "rs' = r1 # rs1"
    using Cons.prems by (auto simp: rbind_eq_Inr)
  from rewrap_row_laws [OF assms(1-3) step(1)] Cons.IH [OF step(2)] show ?case
    unfolding step(3) by auto
qed simp

lemma rewrap_rows_settled:
  "list_all (settled C P) rs \<Longrightarrow>
     \<exists>n. rewrap_rows C P aad label rs (i, rep) = Inr (rs, i, rep\<lparr>rr_already_current := n\<rparr>)"
proof (induction rs arbitrary: rep)
  case Nil
  then show ?case by simp (metis rewrap_report.surjective rewrap_report.update_convs(2))
next
  case (Cons r rs)
  obtain n where n: "rewrap_row C P aad label r (i, rep) = Inr (r, i, rep\<lparr>rr_already_current := n\<rparr>)"
    using rewrap_row_settled Cons.prems by fastforce
  obtain k where "rewrap_rows C P aad label rs (i, rep\<lparr>rr_already_current := n\<rparr>)
      = Inr (rs, i, rep\<lparr>rr_already_current := n, rr_already_current := k\<rparr>)"
    using Cons by fastforce
  then show ?case using n by (intro exI [of _ k]) simp
qed

section \<open>Properties\<close>

text \<open>C29: rotating the master key loses nothing. What one configuration encrypts, every configuration
  whose keys include the first one's master key decrypts to the same text, provided no two of its
  keys share an identifier; and the token is marked for rewrapping exactly when the master changed.\<close>

theorem rotated_key_still_reads:
  assumes "sound_crypto C" "cf_key_provider S = ''local''" "cf_key_provider S' = ''local''"
    "build_cipher C S = Inr P" "build_cipher C S' = Inr P'"
    "the (cf_master_key S) \<in> set (configured S')" "distinct_ids C (set (configured S'))"
    "utf8_valid (bytes_of text)"
  shows "\<exists>token j. encrypt C P aad i text = Inr (token, j) \<and> decrypt C P' aad token = Inr text \<and>
    needs_rewrap C P' token = Inr (cf_master_key S' \<noteq> cf_master_key S)"
proof -
  obtain m ms where m: "cf_master_key S = Some m" "m \<noteq> []" "P = Local_key_provider (m # ms)"
    using build_local [OF assms(4,2)] by metis
  obtain k ks where k: "cf_master_key S' = Some k" "P' = Local_key_provider (k # ks)"
    "ks = add_previous C {key_id C k} (cf_previous_keys S')"
    using build_local [OF assms(5,3)] by metis
  note pk = provider_keys [OF k(2,3,1) assms(7)]
  have mem: "m \<in> set (k # ks)" using pk(2) [of m] assms(6) m(1,2) by simp
  obtain token j where w: "encrypt C (Local_key_provider (m # ms)) aad i text = Inr (token, j)"
    "token_key_id token = Inr (Some (key_id C m))" "decrypt C (Local_key_provider (k # ks)) aad token = Inr text"
    by (rule write_then_read [OF assms(1) mem pk(1) assms(8), of ms aad i])
  have "(key_id C m = key_id C k) = (m = k)" using inj_onD [OF pk(1) _ mem, of k] by auto
  then have "needs_rewrap C P' token = Inr (cf_master_key S' \<noteq> cf_master_key S)"
    using w(2) by (auto simp: needs_rewrap_def token_key_id_def rbind_eq_Inr k(1,2) m(1) split: prod.splits)
  with w(1,3) m(3) k(2) show ?thesis by blast
qed

definition tag_of :: "byte list \<Rightarrow> byte list" where
  "tag_of a = replicate 16 (if a = AAD_MFA then 1 else 0)"

definition sample_crypto :: crypto where
  "sample_crypto = \<lparr>cy_hmac = (\<lambda>k m. take 32 (k @ replicate 32 0)), cy_sha256 = (\<lambda>x. x), cy_pbkdf2 = (\<lambda>k s n. k),
     cy_seal = (\<lambda>k n p a. p @ tag_of a),
     cy_open = (\<lambda>k n c a. if 16 \<le> length c \<and> drop (length c - 16) c = tag_of a then Some (take (length c - 16) c) else None),
     cy_random = (\<lambda>i m. replicate m 0), cy_kms_generate = (\<lambda>k i. ([], [])), cy_kms_decrypt = (\<lambda>b. None)\<rparr>"

lemma sound_sample: "sound_crypto sample_crypto"
  by (simp add: sound_crypto_def sample_crypto_def tag_of_def min_def)

definition old_settings :: cipher_settings where
  "old_settings = \<lparr>cf_key_provider = ''local'', cf_master_key = Some ''aaaaaaaaaaaaaaaa'', cf_previous_keys = [],
     cf_kms_key_id = None\<rparr>"

definition new_settings :: cipher_settings where
  "new_settings = \<lparr>cf_key_provider = ''local'', cf_master_key = Some ''bbbbbbbbbbbbbbbb'',
     cf_previous_keys = [''aaaaaaaaaaaaaaaa''], cf_kms_key_id = None\<rparr>"

lemma sample_digits: "char_of (49::nat) = CHR ''1''" "char_of (50::nat) = CHR ''2''" "char_of (54::nat) = CHR ''6''"
  by (simp_all add: char_of_def bit_iff_odd)

lemma sample_key_ids: "key_id sample_crypto ''aaaaaaaaaaaaaaaa'' = ''6161616161616161''"
  "key_id sample_crypto ''bbbbbbbbbbbbbbbb'' = ''6262626262626262''"
  by (simp_all add: key_id_def sample_crypto_def KEY_ID_LEN_def bytes_of_def hex_of_def hex_digit_def sample_digits)

lemma sample_settings:
  "build_cipher sample_crypto old_settings = Inr (Local_key_provider [''aaaaaaaaaaaaaaaa''])"
  "build_cipher sample_crypto new_settings = Inr (Local_key_provider [''bbbbbbbbbbbbbbbb'', ''aaaaaaaaaaaaaaaa''])"
  "distinct_ids sample_crypto (set (configured new_settings))"
  "the (cf_master_key old_settings) \<in> set (configured new_settings)"
  by (simp_all add: build_cipher_def old_settings_def new_settings_def local_key_provider_def sample_key_ids
      distinct_ids_def configured_def)

theorem rotated_key_still_reads_witness:
  "\<exists>token j. encrypt sample_crypto (Local_key_provider [''aaaaaaaaaaaaaaaa'']) AAD_CREDENTIAL 0 ''hunter2'' = Inr (token, j) \<and>
     decrypt sample_crypto (Local_key_provider [''bbbbbbbbbbbbbbbb'', ''aaaaaaaaaaaaaaaa'']) AAD_CREDENTIAL token = Inr ''hunter2''"
proof -
  have "cf_key_provider old_settings = ''local''" "cf_key_provider new_settings = ''local''"
    by (simp_all add: old_settings_def new_settings_def)
  moreover have "utf8_valid (bytes_of ''hunter2'')" by (simp add: bytes_of_def)
  ultimately show ?thesis
    using rotated_key_still_reads [OF sound_sample _ _ sample_settings(1,2,4,3), of "''hunter2''" AAD_CREDENTIAL 0] by blast
qed

definition store_view :: "crypto \<Rightarrow> key_provider \<Rightarrow> key_store \<Rightarrow> (int \<times> (cred_error + string) option) list list" where
  "store_view C P st =
     [map (row_view C P AAD_CREDENTIAL) (ks_ai_provider_configs st),
      map (row_view C P AAD_CREDENTIAL) (ks_connector_configs st),
      map (row_view C P AAD_MFA) (ks_user_mfa_credentials st)]"

definition all_rows :: "key_store \<Rightarrow> cred_row list" where
  "all_rows st = ks_ai_provider_configs st @ ks_connector_configs st @ ks_user_mfa_credentials st"

text \<open>C13: the rotation sweep refines the identity on secrets. Whatever it returns, every row of the
  three tables decrypts to what it decrypted to before and every stored token is accounted for as
  rewrapped, already current or unreadable; when none is unreadable, every token is under the
  current key, and running the sweep again changes nothing and rewraps nothing.\<close>

theorem rewrap_all_preserves_secrets:
  assumes "sound_crypto C" "cf_key_provider S = ''local''" "build_cipher C S = Inr P"
    "distinct_ids C (set (configured S))" "rewrap_all C S i st = Inr (st', report)"
  shows "store_view C P st' = store_view C P st \<and> handled report = count_if has_token (all_rows st) \<and>
    (report_ok report \<longrightarrow> list_all (settled C P) (all_rows st') \<and>
       (\<exists>again. rewrap_all C S j st' = Inr (st', again) \<and> rr_rewrapped again = 0 \<and> report_ok again))"
proof -
  obtain m ms where m: "P = Local_key_provider (m # ms)" "ms = add_previous C {key_id C m} (cf_previous_keys S)"
    "cf_master_key S = Some m"
    using build_local [OF assms(3,2)] by metis
  note inj = provider_keys(1) [OF m assms(4)]
  let ?r0 = "\<lparr>rr_rewrapped = 0, rr_already_current = 0, rr_unreadable = []\<rparr>"
  obtain ai i1 r1 conn i2 r2 mfa i3 where
    run: "rewrap_rows C P AAD_CREDENTIAL ''ai_provider_configs'' (ks_ai_provider_configs st) (i, ?r0) = Inr (ai, i1, r1)"
    "rewrap_rows C P AAD_CREDENTIAL ''connector_configs'' (ks_connector_configs st) (i1, r1) = Inr (conn, i2, r2)"
    "rewrap_rows C P AAD_MFA ''user_mfa_credentials'' (ks_user_mfa_credentials st) (i2, r2) = Inr (mfa, i3, report)"
    and st': "st' = \<lparr>ks_ai_provider_configs = ai, ks_connector_configs = conn, ks_user_mfa_credentials = mfa\<rparr>"
    using assms(5) by (auto simp: rewrap_all_def assms(3) rbind_eq_Inr)
  note laws = rewrap_rows_laws [OF assms(1) m(1) inj run(1)] rewrap_rows_laws [OF assms(1) m(1) inj run(2)]
    rewrap_rows_laws [OF assms(1) m(1) inj run(3)]
  have "store_view C P st' = store_view C P st" using laws by (simp add: store_view_def st')
  moreover have "handled report = count_if has_token (all_rows st)"
    using laws by (simp add: all_rows_def handled_def)
  moreover have "list_all (settled C P) (all_rows st') \<and>
      (\<exists>again. rewrap_all C S j st' = Inr (st', again) \<and> rr_rewrapped again = 0 \<and> report_ok again)"
    if ok: "report_ok report"
  proof -
    have "rr_unreadable report = []" using ok by (simp add: report_ok_def)
    then have all: "list_all (settled C P) ai" "list_all (settled C P) conn" "list_all (settled C P) mfa"
      using laws by auto
    obtain a where a: "rewrap_rows C P AAD_CREDENTIAL ''ai_provider_configs'' ai (j, ?r0) = Inr (ai, j, ?r0\<lparr>rr_already_current := a\<rparr>)"
      using rewrap_rows_settled [OF all(1)] by blast
    obtain b where b: "rewrap_rows C P AAD_CREDENTIAL ''connector_configs'' conn (j, ?r0\<lparr>rr_already_current := a\<rparr>)
        = Inr (conn, j, ?r0\<lparr>rr_already_current := a, rr_already_current := b\<rparr>)"
      using rewrap_rows_settled [OF all(2)] by blast
    obtain c where c: "rewrap_rows C P AAD_MFA ''user_mfa_credentials'' mfa (j, ?r0\<lparr>rr_already_current := b\<rparr>)
        = Inr (mfa, j, ?r0\<lparr>rr_already_current := b, rr_already_current := c\<rparr>)"
      using rewrap_rows_settled [OF all(3)] by blast
    have "rewrap_all C S j st' = Inr (st', ?r0\<lparr>rr_already_current := c\<rparr>)"
      using a b c by (simp add: rewrap_all_def assms(3) st')
    then show ?thesis using all by (simp add: all_rows_def st' report_ok_def)
  qed
  ultimately show ?thesis by blast
qed

definition empty_key_store :: key_store where
  "empty_key_store = \<lparr>ks_ai_provider_configs = [], ks_connector_configs = [], ks_user_mfa_credentials = []\<rparr>"

theorem rewrap_all_preserves_secrets_witness:
  "\<exists>token j st' report. encrypt sample_crypto (Local_key_provider [''aaaaaaaaaaaaaaaa'']) AAD_MFA 0 ''JBSWY3DP'' = Inr (token, j) \<and>
     rewrap_all sample_crypto new_settings 5
       (empty_key_store\<lparr>ks_user_mfa_credentials := [\<lparr>cw_id = 3, cw_token = Some token\<rparr>]\<rparr>) = Inr (st', report) \<and>
     store_view sample_crypto (Local_key_provider [''bbbbbbbbbbbbbbbb'', ''aaaaaaaaaaaaaaaa'']) st' =
       [[], [], [(3, Some (Inr ''JBSWY3DP''))]]"
proof -
  let ?old = "Local_key_provider [''aaaaaaaaaaaaaaaa'']"
  let ?new = "Local_key_provider [''bbbbbbbbbbbbbbbb'', ''aaaaaaaaaaaaaaaa'']"
  have inj: "inj_on (key_id sample_crypto) (set [''bbbbbbbbbbbbbbbb'', ''aaaaaaaaaaaaaaaa''])"
    by (simp add: sample_key_ids)
  have utf8: "utf8_valid (bytes_of ''JBSWY3DP'')" by (simp add: bytes_of_def)
  obtain token j where w: "encrypt sample_crypto ?old AAD_MFA 0 ''JBSWY3DP'' = Inr (token, j)" "token \<noteq> []"
    "token_key_id token = Inr (Some (key_id sample_crypto ''aaaaaaaaaaaaaaaa''))"
    "decrypt sample_crypto ?new AAD_MFA token = Inr ''JBSWY3DP''"
    by (rule write_then_read [OF sound_sample _ inj utf8, of "''aaaaaaaaaaaaaaaa''" "[]" AAD_MFA 0]) simp_all
  obtain t' j' where "encrypt sample_crypto ?new AAD_MFA 5 ''JBSWY3DP'' = Inr (t', j')"
    by (rule write_then_read [OF sound_sample _ inj utf8, of "''bbbbbbbbbbbbbbbb''" "[''aaaaaaaaaaaaaaaa'']" AAD_MFA 5]) simp_all
  moreover have "needs_rewrap sample_crypto ?new token = Inr True"
    using w(3) by (auto simp: needs_rewrap_def token_key_id_def rbind_eq_Inr sample_key_ids split: prod.splits)
  ultimately obtain st' report where run: "rewrap_all sample_crypto new_settings 5
      (empty_key_store\<lparr>ks_user_mfa_credentials := [\<lparr>cw_id = 3, cw_token = Some token\<rparr>]\<rparr>) = Inr (st', report)"
    using w(2,4) by (simp add: rewrap_all_def sample_settings(2) empty_key_store_def rewrap_row_def rewrap_def)
  have "cf_key_provider new_settings = ''local''" by (simp add: new_settings_def)
  from rewrap_all_preserves_secrets [OF sound_sample this sample_settings(2,3) run]
  have "store_view sample_crypto ?new st' = store_view sample_crypto ?new
      (empty_key_store\<lparr>ks_user_mfa_credentials := [\<lparr>cw_id = 3, cw_token = Some token\<rparr>]\<rparr>)" by blast
  then have "store_view sample_crypto ?new st' = [[], [], [(3, Some (Inr ''JBSWY3DP''))]]"
    using w(4) by (simp add: store_view_def row_view_def empty_key_store_def)
  with w(1) run show ?thesis by blast
qed

subsection \<open>A sweep that stops\<close>

lemma rewrap_rows_stop:
  assumes "r \<in> set rs" "\<And>acc. \<exists>e. rewrap_row C P aad label r acc = Inl e"
  shows "\<exists>e. rewrap_rows C P aad label rs acc = Inl e"
  using assms(1)
proof (induction rs arbitrary: acc)
  case (Cons x rs)
  show ?case
  proof (cases "rewrap_row C P aad label x acc")
    case (Inr u)
    then have "r \<in> set rs" using Cons.prems assms(2) [of acc] by auto
    then obtain e where "rewrap_rows C P aad label rs (snd u) = Inl e" using Cons.IH by blast
    then show ?thesis using Inr by (cases u) simp
  qed simp
qed simp

definition unparsable :: "string \<Rightarrow> bool" where
  "unparsable t \<longleftrightarrow> (case parse_token t of Inl _ \<Rightarrow> True | Inr _ \<Rightarrow> False)"

text \<open>A token another provider wrapped, which the configured KMS key cannot unwrap.\<close>

definition foreign_to_kms :: "crypto \<Rightarrow> key_provider \<Rightarrow> string \<Rightarrow> bool" where
  "foreign_to_kms C P t \<longleftrightarrow>
     (case (P, parse_token t) of
        (Kms_key_provider k, Inr (kid, wrapped, _)) \<Rightarrow> kid \<noteq> Some (key_id C k) \<and> cy_kms_decrypt C wrapped = None
      | _ \<Rightarrow> False)"

lemma rewrap_row_stop:
  assumes "cw_token r = Some t" "t \<noteq> []" "unparsable t \<or> foreign_to_kms C P t"
  shows "\<exists>e. rewrap_row C P aad label r acc = Inl e"
proof (cases "parse_token t")
  case (Inl e)
  then show ?thesis using assms(1,2) by (cases acc) (simp add: rewrap_row_def needs_rewrap_def)
next
  case (Inr u)
  obtain kid wrapped nonce ct where u: "u = (kid, wrapped, nonce, ct)" by (cases u) auto
  have "\<not> unparsable t" using Inr by (simp add: unparsable_def)
  then obtain k where "P = Kms_key_provider k" "kid \<noteq> Some (key_id C k)" "cy_kms_decrypt C wrapped = None"
    using assms(3) Inr u by (auto simp: foreign_to_kms_def split: key_provider.splits)
  then show ?thesis
    using assms(1,2) Inr u by (cases acc) (simp add: rewrap_row_def needs_rewrap_def rewrap_def decrypt_def)
qed

text \<open>One row can stop a rotation. When any of the three tables holds a token that does not parse,
  or the configuration has moved to KMS and a token was wrapped by the local provider (KMS cannot
  unwrap it), the sweep raises: no row is rewrapped and nothing is reported.\<close>

theorem one_row_stops_the_sweep:
  assumes "build_cipher C S = Inr P" "r \<in> set (all_rows st)" "cw_token r = Some t" "t \<noteq> []"
    "unparsable t \<or> foreign_to_kms C P t"
  shows "\<exists>e. rewrap_all C S i st = Inl e"
proof -
  have stop: "r \<in> set rs \<Longrightarrow> \<exists>e. rewrap_rows C P aad label rs acc = Inl e" for rs aad label acc
    by (rule rewrap_rows_stop [OF _ rewrap_row_stop [OF assms(3-5)]])
  let ?r0 = "\<lparr>rr_rewrapped = 0, rr_already_current = 0, rr_unreadable = []\<rparr>"
  let ?a = "rewrap_rows C P AAD_CREDENTIAL ''ai_provider_configs'' (ks_ai_provider_configs st) (i, ?r0)"
  have "r \<in> set (ks_ai_provider_configs st) \<or> r \<in> set (ks_connector_configs st) \<or> r \<in> set (ks_user_mfa_credentials st)"
    using assms(2) by (auto simp: all_rows_def)
  then show ?thesis
  proof (elim disjE)
    assume "r \<in> set (ks_ai_provider_configs st)"
    from stop [OF this] obtain e where "?a = Inl e" by blast
    then show ?thesis by (simp add: rewrap_all_def assms(1))
  next
    assume h: "r \<in> set (ks_connector_configs st)"
    show ?thesis
    proof (cases ?a)
      case (Inr u)
      from stop [OF h] obtain e where
        "rewrap_rows C P AAD_CREDENTIAL ''connector_configs'' (ks_connector_configs st) (snd u) = Inl e" by blast
      then show ?thesis using Inr by (cases u) (simp add: rewrap_all_def assms(1))
    qed (simp add: rewrap_all_def assms(1))
  next
    assume h: "r \<in> set (ks_user_mfa_credentials st)"
    show ?thesis
    proof (cases ?a)
      case (Inr u)
      let ?b = "rewrap_rows C P AAD_CREDENTIAL ''connector_configs'' (ks_connector_configs st) (snd u)"
      show ?thesis
      proof (cases ?b)
        case Inr2: (Inr v)
        from stop [OF h] obtain e where
          "rewrap_rows C P AAD_MFA ''user_mfa_credentials'' (ks_user_mfa_credentials st) (snd v) = Inl e" by blast
        then show ?thesis using Inr Inr2 by (cases u; cases v) (simp add: rewrap_all_def assms(1))
      qed (use Inr in \<open>cases u; simp add: rewrap_all_def assms(1)\<close>)
    qed (simp add: rewrap_all_def assms(1))
  qed
qed

definition kms_settings :: cipher_settings where
  "kms_settings = \<lparr>cf_key_provider = ''aws_kms'', cf_master_key = None, cf_previous_keys = [],
     cf_kms_key_id = Some ''bbbbbbbbbbbbbbbb''\<rparr>"

theorem one_row_stops_the_sweep_witness:
  "\<exists>e e' token j. rewrap_all sample_crypto new_settings 0
       (empty_key_store\<lparr>ks_connector_configs := [\<lparr>cw_id = 1, cw_token = Some ''A''\<rparr>]\<rparr>) = Inl e \<and>
     encrypt sample_crypto (Local_key_provider [''aaaaaaaaaaaaaaaa'']) AAD_CREDENTIAL 0 ''hunter2'' = Inr (token, j) \<and>
     rewrap_all sample_crypto kms_settings 0
       (empty_key_store\<lparr>ks_connector_configs := [\<lparr>cw_id = 1, cw_token = Some token\<rparr>]\<rparr>) = Inl e'"
proof -
  have bad: "unparsable ''A''" by (simp add: unparsable_def parse_token_def b64decode_def b64_value_def is_upper_def in_range_def)
  have "utf8_valid (bytes_of ''hunter2'')" by (simp add: bytes_of_def)
  then obtain token j where w: "encrypt sample_crypto (Local_key_provider [''aaaaaaaaaaaaaaaa'']) AAD_CREDENTIAL 0 ''hunter2'' = Inr (token, j)"
    "token \<noteq> []" "token_key_id token = Inr (Some (key_id sample_crypto ''aaaaaaaaaaaaaaaa''))"
    by (rule write_then_read [OF sound_sample, of "''aaaaaaaaaaaaaaaa''" "[''aaaaaaaaaaaaaaaa'']" _ "[]" AAD_CREDENTIAL 0, rotated 2])
      simp_all
  have built: "build_cipher sample_crypto kms_settings = Inr (Kms_key_provider ''bbbbbbbbbbbbbbbb'')"
    by (simp add: build_cipher_def kms_settings_def kms_key_provider_def)
  have "foreign_to_kms sample_crypto (Kms_key_provider ''bbbbbbbbbbbbbbbb'') token"
    using w(3) by (auto simp: foreign_to_kms_def token_key_id_def rbind_eq_Inr sample_key_ids split: prod.splits)
      (simp add: sample_crypto_def)
  then have "\<exists>e'. rewrap_all sample_crypto kms_settings 0
      (empty_key_store\<lparr>ks_connector_configs := [\<lparr>cw_id = 1, cw_token = Some token\<rparr>]\<rparr>) = Inl e'"
    using one_row_stops_the_sweep [OF built, of "\<lparr>cw_id = 1, cw_token = Some token\<rparr>"] w(2)
    by (simp add: all_rows_def empty_key_store_def)
  moreover have "\<exists>e. rewrap_all sample_crypto new_settings 0
      (empty_key_store\<lparr>ks_connector_configs := [\<lparr>cw_id = 1, cw_token = Some ''A''\<rparr>]\<rparr>) = Inl e"
    using one_row_stops_the_sweep [OF sample_settings(2), of "\<lparr>cw_id = 1, cw_token = Some ''A''\<rparr>"] bad
    by (simp add: all_rows_def empty_key_store_def)
  ultimately show ?thesis using w(1) by blast
qed

subsection \<open>Contexts and the key cache\<close>

definition contexts_separate :: "crypto \<Rightarrow> bool" where
  "contexts_separate C \<longleftrightarrow>
     (\<forall>k n p. cy_open C k n (cy_seal C k n p AAD_CREDENTIAL) AAD_MFA = None \<and>
              cy_open C k n (cy_seal C k n p AAD_MFA) AAD_CREDENTIAL = None)"

text \<open>A credential is useless as an authenticator secret and the reverse. A token encrypted for one
  context and read in the other fails its authentication, it does not give a wrong plaintext.\<close>

theorem contexts_not_interchangeable:
  assumes "sound_crypto C" "contexts_separate C" "cf_key_provider S = ''local''" "build_cipher C S = Inr P"
    "distinct_ids C (set (configured S))" "encrypt C P a i text = Inr (token, j)"
    "(a, b) \<in> {(AAD_CREDENTIAL, AAD_MFA), (AAD_MFA, AAD_CREDENTIAL)}"
  shows "decrypt C P b token = Inl Payload_authentication_error"
proof -
  obtain m ms where m: "P = Local_key_provider (m # ms)" "ms = add_previous C {key_id C m} (cf_previous_keys S)"
    "cf_master_key S = Some m"
    using build_local [OF assms(4,3)] by metis
  note inj = provider_keys(1) [OF m assms(5)]
  obtain t wrapped nonce ct dek j' where e: "encrypt C (Local_key_provider (m # ms)) a i text = Inr (t, j')"
    "parse_token t = Inr (Some (key_id C m), wrapped, nonce, ct)"
    "cy_open C (pbkdf2_kek C m) (take NONCE_LEN wrapped) (drop NONCE_LEN wrapped) DEK_LABEL = Some dek"
    "ct = cy_seal C dek nonce (bytes_of text) a"
    by (rule encrypt_local [OF assms(1), of m ms a i "text"])
  have "t = token" using e(1) assms(6) m(1) by simp
  moreover have "cy_open C dek nonce ct b = None"
    using assms(2,7) e(4) by (auto simp: contexts_separate_def)
  ultimately show ?thesis
    using decrypt_local [OF e(2) _ inj e(3), of b] m(1) by simp
qed

theorem contexts_not_interchangeable_witness:
  "\<exists>token j. encrypt sample_crypto (Local_key_provider [''aaaaaaaaaaaaaaaa'']) AAD_MFA 0 ''s'' = Inr (token, j) \<and>
     decrypt sample_crypto (Local_key_provider [''aaaaaaaaaaaaaaaa'']) AAD_CREDENTIAL token = Inl Payload_authentication_error"
proof -
  have sep: "contexts_separate sample_crypto"
    by (simp add: contexts_separate_def sample_crypto_def tag_of_def) (simp add: AAD_MFA_def AAD_CREDENTIAL_def bytes_of_def)
  have "utf8_valid (bytes_of ''s'')" by (simp add: bytes_of_def)
  then obtain token j where w: "encrypt sample_crypto (Local_key_provider [''aaaaaaaaaaaaaaaa'']) AAD_MFA 0 ''s'' = Inr (token, j)"
    by (rule write_then_read [OF sound_sample, of "''aaaaaaaaaaaaaaaa''" "[''aaaaaaaaaaaaaaaa'']" _ "[]" AAD_MFA 0, rotated 2])
      simp_all
  have "cf_key_provider old_settings = ''local''" by (simp add: old_settings_def)
  moreover have "distinct_ids sample_crypto (set (configured old_settings))"
    by (simp add: distinct_ids_def configured_def old_settings_def)
  ultimately have "decrypt sample_crypto (Local_key_provider [''aaaaaaaaaaaaaaaa'']) AAD_CREDENTIAL token = Inl Payload_authentication_error"
    using contexts_not_interchangeable [OF sound_sample sep _ sample_settings(1) _ w, of AAD_CREDENTIAL] by simp
  with w show ?thesis by blast
qed

fun derive_all :: "crypto \<Rightarrow> kek_cache \<Rightarrow> string list \<Rightarrow> byte list list \<times> kek_cache" where
  "derive_all C st [] = ([], st)"
| "derive_all C st (k # ks) = (case derive_kek C st k of (kek, st1) \<Rightarrow>
     case derive_all C st1 ks of (keks, st2) \<Rightarrow> (kek # keks, st2))"

definition cache_of :: "crypto \<Rightarrow> string set \<Rightarrow> kek_cache \<Rightarrow> bool" where
  "cache_of C K st \<longleftrightarrow> finite K \<and> kc_derivations st = card K \<and>
     (\<forall>k \<in> K. map_of (kc_entries st) (key_id C k) = Some (pbkdf2_kek C k)) \<and>
     (\<forall>i. map_of (kc_entries st) i \<noteq> None \<longrightarrow> i \<in> key_id C ` K)"

lemma derive_kek_step:
  assumes "cache_of C K st" "inj_on (key_id C) (insert k K)"
  shows "fst (derive_kek C st k) = pbkdf2_kek C k \<and> cache_of C (insert k K) (snd (derive_kek C st k))"
proof (cases "k \<in> K")
  case True
  then have "map_of (kc_entries st) (key_id C k) = Some (pbkdf2_kek C k)" using assms(1) by (simp add: cache_of_def)
  then show ?thesis using assms(1) True by (simp add: derive_kek_def insert_absorb)
next
  case False
  then have "key_id C k \<notin> key_id C ` K" using assms(2) by (simp add: inj_on_insert)
  then have "map_of (kc_entries st) (key_id C k) = None" using assms(1) unfolding cache_of_def by blast
  then have d: "derive_kek C st k = (pbkdf2_kek C k,
      \<lparr>kc_entries = AList.update (key_id C k) (pbkdf2_kek C k) (kc_entries st), kc_derivations = kc_derivations st + 1\<rparr>)"
    by (simp add: derive_kek_def Let_def)
  have "key_id C j \<noteq> key_id C k" if "j \<in> K" for j
    using \<open>key_id C k \<notin> key_id C ` K\<close> imageI [OF that, of "key_id C"] by auto
  then show ?thesis using assms(1) False unfolding d cache_of_def by auto
qed

text \<open>The process-wide cache of derived keys is transparent. Any sequence of derivations for keys
  with distinct identifiers returns what PBKDF2 returns, and PBKDF2 runs once per distinct key.\<close>

theorem key_cache_transparent:
  assumes "inj_on (key_id C) (set ks)"
  shows "(case derive_all C \<lparr>kc_entries = [], kc_derivations = 0\<rparr> ks of (keks, st) \<Rightarrow>
    keks = map (pbkdf2_kek C) ks \<and> kc_derivations st = card (set ks))"
proof -
  have "cache_of C K st \<Longrightarrow> inj_on (key_id C) (set ks \<union> K) \<Longrightarrow>
    fst (derive_all C st ks) = map (pbkdf2_kek C) ks \<and> cache_of C (set ks \<union> K) (snd (derive_all C st ks))" for K st
  proof (induction ks arbitrary: K st)
    case (Cons k ks)
    have "inj_on (key_id C) (insert k K)" using Cons.prems(2) by (rule inj_on_subset) auto
    from derive_kek_step [OF Cons.prems(1) this] Cons.IH [of "insert k K" "snd (derive_kek C st k)"] Cons.prems(2)
    show ?case by (simp add: case_prod_beta)
  qed simp
  from this [of "{}" "\<lparr>kc_entries = [], kc_derivations = 0\<rparr>"] assms show ?thesis
    by (simp add: cache_of_def case_prod_beta)
qed

theorem key_cache_transparent_witness:
  "(case derive_all sample_crypto \<lparr>kc_entries = [], kc_derivations = 0\<rparr>
      [''aaaaaaaaaaaaaaaa'', ''bbbbbbbbbbbbbbbb'', ''aaaaaaaaaaaaaaaa''] of (keks, st) \<Rightarrow>
    keks = map (pbkdf2_kek sample_crypto) [''aaaaaaaaaaaaaaaa'', ''bbbbbbbbbbbbbbbb'', ''aaaaaaaaaaaaaaaa''] \<and>
    kc_derivations st = card (set [''aaaaaaaaaaaaaaaa'', ''bbbbbbbbbbbbbbbb'', ''aaaaaaaaaaaaaaaa'']))"
  by (rule key_cache_transparent) (auto simp: sample_key_ids inj_on_def)

end
