(* ===== verification/Retention.thy ===== *)
theory Retention
  imports Grc_Models Audit_Trail "HOL-Library.Product_Lexorder"
begin

text \<open>
  The latest informative result of a test, \<open>posture/latest.py\<close>, and the pruning of per-resource detail,
  \<open>posture/retention.py\<close>: the batched deletion terminates, and what it deletes is what one deletion of
  the doomed rows would.
\<close>

section \<open>The latest result\<close>

definition OUT_OF_SCOPE_EVIDENCE_REF :: string where
  "OUT_OF_SCOPE_EVIDENCE_REF = ''ccf:scope:outside-environment''"

definition informative :: "control_test_result \<Rightarrow> bool" where
  "informative r \<longleftrightarrow> 0 < cr_evaluated r \<or> cr_evidence_ref r = Some OUT_OF_SCOPE_EVIDENCE_REF"

definition latest_result_id :: "control_test_result list \<Rightarrow> int \<Rightarrow> int option" where
  "latest_result_id rs test_id =
     map_option cr_id (py_max_by (\<lambda>r. (cr_run_at r, cr_id r))
       (filter (\<lambda>r. cr_control_test_id r = test_id \<and> informative r) rs))"

definition latest_result_ids :: "db \<Rightarrow> (int \<times> int) list" where
  "latest_result_ids d =
     concat (map (\<lambda>t. case latest_result_id (results d) (ct_id t) of None \<Rightarrow> [] | Some i \<Rightarrow> [(ct_id t, i)]) (tests d))"

section \<open>Pruning\<close>

definition BATCH_SIZE :: nat where
  "BATCH_SIZE = 5000"

definition doomed_row :: "db \<Rightarrow> datetime \<Rightarrow> resource_result \<Rightarrow> bool" where
  "doomed_row d cutoff x \<longleftrightarrow>
     (\<exists>r \<in> set (results d). cr_id r = rr_result_id x \<and> cr_run_at r < cutoff \<and>
        cr_id r \<notin> snd ` set (latest_result_ids d)) \<and> rr_waiver_id x = None"

definition doomed_ids :: "db \<Rightarrow> datetime \<Rightarrow> int list" where
  "doomed_ids d cutoff = sort (map rr_id (filter (doomed_row d cutoff) (resource_results d)))"

definition delete_ids :: "int list \<Rightarrow> db \<Rightarrow> db" where
  "delete_ids ids d = d\<lparr>resource_results := filter (\<lambda>x. rr_id x \<notin> set ids) (resource_results d)\<rparr>"

lemma doomed_delete [simp]: "doomed_row (delete_ids ids d) c = doomed_row d c"
  by (rule ext) (simp add: doomed_row_def delete_ids_def latest_result_ids_def)

lemma delete_shrinks:
  assumes "doomed_ids d c \<noteq> []"
  shows "length (resource_results (delete_ids (take BATCH_SIZE (doomed_ids d c)) d)) < length (resource_results d)"
proof -
  obtain i js where i: "doomed_ids d c = i # js" using assms by (cases "doomed_ids d c") auto
  then have "i \<in> set (doomed_ids d c)" by simp
  then obtain x where x: "x \<in> set (resource_results d)" "rr_id x = i" by (auto simp: doomed_ids_def)
  have "i \<in> set (take BATCH_SIZE (doomed_ids d c))" by (simp add: i BATCH_SIZE_def)
  with x show ?thesis
    unfolding delete_ids_def by (auto intro: length_filter_less)
qed

text \<open>The loop: the next batch in id order is deleted and committed until nothing is doomed.\<close>

function prune_loop :: "datetime \<Rightarrow> db \<Rightarrow> nat \<Rightarrow> db \<times> nat" where
  "prune_loop cutoff d deleted =
     (let batch_ids = take BATCH_SIZE (doomed_ids d cutoff)
      in if batch_ids = [] then (d, deleted)
         else let d' = delete_ids batch_ids d
              in prune_loop cutoff d' (deleted + (length (resource_results d) - length (resource_results d'))))"
  by pat_completeness auto
termination
  by (relation "measure (\<lambda>(c, d, n). length (resource_results d))") (use delete_shrinks in auto)

declare prune_loop.simps [simp del]

record prune_report =
  pn_deleted :: nat
  pn_retain_days :: int
  pn_cutoff :: datetime
  pn_dry_run :: bool

definition prune_event :: "string \<Rightarrow> int \<Rightarrow> datetime \<Rightarrow> nat \<Rightarrow> audit_event" where
  "prune_event actor window cutoff deleted = \<lparr>ae_actor = actor, ae_action = ''delete'',
     ae_entity_type = ''posture_resource_detail'', ae_entity_id = None,
     ae_diff = JObj [(''retain_days'', JInt window), (''cutoff'', JStr (isoformat cutoff)),
       (''deleted'', JInt (int deleted))],
     ae_organization_id = None\<rparr>"

definition prune_resource_detail ::
  "(string \<Rightarrow> string) \<Rightarrow> datetime \<Rightarrow> int \<Rightarrow> db \<Rightarrow> audit_store \<Rightarrow> int option \<Rightarrow> bool \<Rightarrow> string \<Rightarrow>
     (db \<times> audit_store \<times> prune_report) res" where
  "prune_resource_detail H now default_days d log retain_days dry_run actor =
     (let window = (case retain_days of None \<Rightarrow> default_days | Some n \<Rightarrow> n)
      in if window \<le> 0
         then Inl (ValueError (fstr [''retain_days must be positive, got '', str_of_int window,
                '': a zero or negative window would delete all non-exempt detail'']))
         else let cutoff = now - window * us_per_day
              in if dry_run
                 then Inr (d, log, \<lparr>pn_deleted = length (doomed_ids d cutoff), pn_retain_days = window,
                        pn_cutoff = cutoff, pn_dry_run = True\<rparr>)
                 else case prune_loop cutoff d 0 of (d', deleted) \<Rightarrow>
                        Inr (d', record_event H log (prune_event actor window cutoff deleted),
                          \<lparr>pn_deleted = deleted, pn_retain_days = window, pn_cutoff = cutoff, pn_dry_run = False\<rparr>))"

section \<open>Laws\<close>

lemma distinct_id_iff:
  "distinct (map f xs) \<Longrightarrow> x \<in> set xs \<Longrightarrow> y \<in> set xs \<Longrightarrow> f x = f y \<longleftrightarrow> x = y"
  by (auto simp: distinct_map inj_on_def)

lemma delete_batch:
  assumes dist: "distinct (map rr_id (resource_results d))" and ids: "set ids \<subseteq> set (doomed_ids d c)"
  shows "filter (\<lambda>x. \<not> doomed_row d c x) (resource_results (delete_ids ids d)) =
      filter (\<lambda>x. \<not> doomed_row d c x) (resource_results d)"
proof -
  have "rr_id x \<notin> set ids" if x: "x \<in> set (resource_results d)" "\<not> doomed_row d c x" for x
  proof
    assume "rr_id x \<in> set ids"
    then obtain y where "y \<in> set (resource_results d)" "doomed_row d c y" "rr_id y = rr_id x"
      using ids by (auto simp: doomed_ids_def)
    then show False using distinct_id_iff [OF dist, of y x] x by simp
  qed
  then show ?thesis
    unfolding delete_ids_def by (auto simp: filter_empty_conv intro: filter_cong)
qed

lemma prune_loop_spec:
  "distinct (map rr_id (resource_results d)) \<Longrightarrow>
     prune_loop c d n = (d\<lparr>resource_results := filter (\<lambda>x. \<not> doomed_row d c x) (resource_results d)\<rparr>,
       n + length (filter (doomed_row d c) (resource_results d)))"
proof (induction c d n rule: prune_loop.induct)
  case (1 c d n)
  let ?b = "take BATCH_SIZE (doomed_ids d c)"
  let ?d = "delete_ids ?b d"
  show ?case
  proof (cases "?b = []")
    case True
    then have "doomed_ids d c = []" by (simp add: BATCH_SIZE_def)
    then have "filter (doomed_row d c) (resource_results d) = []"
      unfolding doomed_ids_def by (metis length_0_conv length_map length_sort)
    moreover then have "filter (\<lambda>x. \<not> doomed_row d c x) (resource_results d) = resource_results d"
      by (simp add: filter_empty_conv filter_id_conv)
    ultimately show ?thesis using True by (subst prune_loop.simps) simp
  next
    case False
    have dist: "distinct (map rr_id (resource_results ?d))"
      using 1(2) unfolding delete_ids_def by (simp add: distinct_map inj_on_def)
    have same: "filter (\<lambda>x. \<not> doomed_row d c x) (resource_results ?d) = filter (\<lambda>x. \<not> doomed_row d c x) (resource_results d)"
      by (rule delete_batch [OF 1(2)]) (auto dest: in_set_takeD)
    have split: "length rs = length (filter (doomed_row d c) rs) + length (filter (\<lambda>x. \<not> doomed_row d c x) rs)" for rs
      by (simp add: sum_length_filter_compl)
    have "length (filter (doomed_row d c) (resource_results d)) =
        (length (resource_results d) - length (resource_results ?d)) + length (filter (doomed_row d c) (resource_results ?d))"
    proof -
      have "length (resource_results ?d) \<le> length (resource_results d)" by (simp add: delete_ids_def)
      then show ?thesis using split [of "resource_results d"] split [of "resource_results ?d"] arg_cong [OF same, of length] by simp
    qed
    moreover have "prune_loop c d n = prune_loop c ?d (n + (length (resource_results d) - length (resource_results ?d)))"
      using False by (subst prune_loop.simps) (simp add: Let_def)
    moreover have "?d\<lparr>resource_results := xs\<rparr> = d\<lparr>resource_results := xs\<rparr>" for xs
      by (simp add: delete_ids_def)
    ultimately show ?thesis using 1(1) [OF refl False refl dist] same by simp
  qed
qed

lemma latest_of_test:
  "t \<in> set (tests d) \<Longrightarrow> latest_result_id (results d) (ct_id t) = Some i \<Longrightarrow> i \<in> snd ` set (latest_result_ids d)"
  by (force simp: latest_result_ids_def)


definition sample_detail :: db where
  "sample_detail = \<lparr>tests = [], results = [\<lparr>cr_id = 1, cr_control_test_id = 9, cr_run_at = 0, cr_status = ''pass'',
       cr_detail = None, cr_evidence_ref = None, cr_evaluated = 1, cr_failing = 0, cr_waived = 0, cr_expected = None\<rparr>],
     resource_results = [\<lparr>rr_id = 5, rr_result_id = 1, rr_resource_id = ''u'', rr_resource_type = ''user'',
       rr_verdict = ''pass'', rr_observed = None, rr_waiver_id = None, rr_detail = []\<rparr>],
     waivers = [], connectors = [], captures = [], tasks = [], poams = [], notifications = [], events = [],
     webhooks = [], controls = [], outbox = [], next_id = 6\<rparr>"


end
