(* ===== verification/Approvals.thy ===== *)
theory Approvals
  imports Bus
begin

text \<open>
  The approval workflow, \<open>governance/approvals.py\<close>: a review row per governed entity, submission and
  decision with separation of duties, and what a decision does to an SSP project. A \<open>WorkflowError\<close>
  rolls the request's transaction back, so it has no state.
\<close>

section \<open>State\<close>

record approval =
  ap_id :: int
  ap_organization_id :: "int option"
  ap_entity_type :: string
  ap_entity_id :: string
  ap_state :: string
  ap_submitted_by :: "string option"
  ap_submitted_at :: "datetime option"
  ap_reviewed_by :: "string option"
  ap_reviewed_at :: "datetime option"
  ap_decision_note :: "string option"

record ssp_project =
  sp_id :: int
  sp_status :: string

record approval_store =
  as_db :: db
  as_approvals :: "approval list"
  as_projects :: "ssp_project list"

definition ENTITY_TYPES :: "string list" where [vocab]:
  "ENTITY_TYPES = [''ssp_project'', ''poam'', ''risk'', ''assessment'']"

definition APPROVER_ROLES :: "string list" where [vocab]:
  "APPROVER_ROLES = [''admin'', ''authorizing_official'']"

definition concerns :: "string \<Rightarrow> string \<Rightarrow> approval \<Rightarrow> bool" where
  "concerns entity_type entity_id a \<longleftrightarrow> ap_entity_type a = entity_type \<and> ap_entity_id a = entity_id"

definition new_approval :: "int \<Rightarrow> string \<Rightarrow> string \<Rightarrow> int option \<Rightarrow> approval" where
  "new_approval i entity_type entity_id org_id = \<lparr>ap_id = i, ap_organization_id = org_id, ap_entity_type = entity_type,
     ap_entity_id = entity_id, ap_state = ''draft'', ap_submitted_by = None, ap_submitted_at = None,
     ap_reviewed_by = None, ap_reviewed_at = None, ap_decision_note = None\<rparr>"

definition get_or_create ::
  "approval_store \<Rightarrow> string \<Rightarrow> string \<Rightarrow> int option \<Rightarrow> (approval \<times> approval_store) res" where
  "get_or_create s entity_type entity_id org_id =
     rbind (one_or_none (filter (concerns entity_type entity_id) (as_approvals s))) (\<lambda>found.
       case found of
         Some a \<Rightarrow> Inr (a, s)
       | None \<Rightarrow> let a = new_approval (next_id (as_db s)) entity_type entity_id org_id
                 in Inr (a, s\<lparr>as_approvals := as_approvals s @ [a],
                             as_db := (as_db s)\<lparr>next_id := next_id (as_db s) + 1\<rparr>\<rparr>))"

definition entity_state :: "approval_store \<Rightarrow> string \<Rightarrow> string \<Rightarrow> string res" where
  "entity_state s entity_type entity_id =
     rbind (one_or_none (filter (concerns entity_type entity_id) (as_approvals s))) (\<lambda>found.
       Inr (case found of None \<Rightarrow> ''draft'' | Some a \<Rightarrow> ap_state a))"

definition entity_states :: "approval_store \<Rightarrow> string \<Rightarrow> string list \<Rightarrow> (string \<times> string) list" where
  "entity_states s entity_type ids =
     (let found = fold (\<lambda>a d. AList.update (ap_entity_id a) (ap_state a) d)
        (filter (\<lambda>a. ap_entity_type a = entity_type \<and> ap_entity_id a \<in> set ids) (as_approvals s)) []
      in fold (\<lambda>i d. AList.update i (get_default found i ''draft'') d) ids [])"

definition opt_str :: "string option \<Rightarrow> string" where
  "opt_str x = (case x of None \<Rightarrow> ''None'' | Some s \<Rightarrow> s)"

definition announce ::
  "env \<Rightarrow> db \<Rightarrow> string \<Rightarrow> string \<Rightarrow> string \<Rightarrow> string \<Rightarrow> int option \<Rightarrow> string option \<Rightarrow> notice \<Rightarrow> db res" where
  "announce E d verb entity_type entity_id summary org_id actor note =
     notify E note (fst (emit E d verb entity_type summary org_id actor (Some entity_id) [] True))"

section \<open>Submission\<close>

definition mark_submitted :: "datetime \<Rightarrow> string option \<Rightarrow> approval \<Rightarrow> approval" where
  "mark_submitted now actor a = a\<lparr>ap_state := ''submitted'', ap_submitted_by := actor, ap_submitted_at := Some now,
     ap_reviewed_by := None, ap_reviewed_at := None\<rparr>"

definition submit_notice :: "string \<Rightarrow> string \<Rightarrow> string option \<Rightarrow> int option \<Rightarrow> notice" where
  "submit_notice entity_type entity_id actor org_id = \<lparr>nc_category = ''approval'',
     nc_title = fstr [''Review requested: '', entity_type, '' '', entity_id], nc_org_id = org_id, nc_user_id = None,
     nc_severity = ''info'', nc_body = Some (fstr [''Submitted by '', opt_str actor, ''.'']),
     nc_entity_type = Some entity_type, nc_entity_id = Some entity_id,
     nc_dedupe_key = Some (fstr [''review-req:'', entity_type, '':'', entity_id])\<rparr>"

definition submit ::
  "env \<Rightarrow> approval_store \<Rightarrow> string \<Rightarrow> string \<Rightarrow> string option \<Rightarrow> int option \<Rightarrow> approval_store res" where
  "submit E s entity_type entity_id actor org_id =
     (if entity_type \<notin> set ENTITY_TYPES then Inl (WorkflowError (fstr [''unsupported entity type: '', entity_type]))
      else rbind (get_or_create s entity_type entity_id org_id) (\<lambda>(a, s1).
        if ap_state a = ''approved'' then Inl (WorkflowError ''already approved'')
        else rbind (announce E (as_db s1) ''submitted'' entity_type entity_id
               (fstr [entity_type, '' '', entity_id, '' submitted for review by '', opt_str actor]) org_id actor
               (submit_notice entity_type entity_id actor org_id)) (\<lambda>d.
          Inr (s1\<lparr>as_approvals := update_rows (concerns entity_type entity_id)
                     (mark_submitted (en_now E) actor) (as_approvals s1),
                  as_db := d\<rparr>))))"

section \<open>Decision\<close>

definition mark_decided :: "datetime \<Rightarrow> bool \<Rightarrow> string option \<Rightarrow> string option \<Rightarrow> approval \<Rightarrow> approval" where
  "mark_decided now approve actor note a = a\<lparr>ap_state := (if approve then ''approved'' else ''rejected''),
     ap_reviewed_by := actor, ap_reviewed_at := Some now, ap_decision_note := note\<rparr>"

definition decision_word :: "bool \<Rightarrow> string" where
  "decision_word approve = (if approve then ''approved'' else ''rejected'')"

definition decision_notice :: "string \<Rightarrow> string \<Rightarrow> bool \<Rightarrow> string option \<Rightarrow> int option \<Rightarrow> notice" where
  "decision_notice entity_type entity_id approve note org_id = \<lparr>nc_category = ''approval'',
     nc_title = fstr [entity_type, '' '', entity_id, '' '', decision_word approve], nc_org_id = org_id,
     nc_user_id = None, nc_severity = (if approve then ''info'' else ''warning''),
     nc_body = Some (case note of None \<Rightarrow> [] | Some n \<Rightarrow> n), nc_entity_type = Some entity_type,
     nc_entity_id = Some entity_id,
     nc_dedupe_key = Some (fstr [''decision:'', entity_type, '':'', entity_id, '':'', decision_word approve])\<rparr>"

definition same_person :: "string option \<Rightarrow> string option \<Rightarrow> bool" where
  "same_person actor submitter \<longleftrightarrow> actor \<noteq> None \<and> actor \<noteq> Some [] \<and> submitter \<noteq> None \<and> submitter \<noteq> Some [] \<and>
     actor = submitter"

definition stamp_project :: "bool \<Rightarrow> string \<Rightarrow> string \<Rightarrow> approval_store \<Rightarrow> approval_store res" where
  "stamp_project approve entity_type entity_id s =
     (if approve \<and> entity_type = ''ssp_project''
      then rbind (py_int entity_id) (\<lambda>i.
             Inr (s\<lparr>as_projects := update_rows (\<lambda>p. sp_id p = i) (\<lambda>p. p\<lparr>sp_status := ''approved''\<rparr>) (as_projects s)\<rparr>))
      else Inr s)"

definition decide ::
  "env \<Rightarrow> bool \<Rightarrow> approval_store \<Rightarrow> string \<Rightarrow> string \<Rightarrow> bool \<Rightarrow> string option \<Rightarrow> string option \<Rightarrow> string option \<Rightarrow>
     int option \<Rightarrow> approval_store res" where
  "decide E auth_on s entity_type entity_id approve actor role note org_id =
     (if entity_type \<notin> set ENTITY_TYPES then Inl (WorkflowError (fstr [''unsupported entity type: '', entity_type]))
      else rbind (get_or_create s entity_type entity_id org_id) (\<lambda>(a, s1).
        if ap_state a \<noteq> ''submitted''
        then Inl (WorkflowError (fstr [''cannot decide from state '', [CHR 0x27], ap_state a, [CHR 0x27], '' (must be submitted)'']))
        else if auth_on \<and> (case role of None \<Rightarrow> True | Some r \<Rightarrow> r \<notin> set APPROVER_ROLES)
        then Inl (WorkflowError ''approver must hold an authorizing role'')
        else if auth_on \<and> same_person actor (ap_submitted_by a)
        then Inl (WorkflowError ''separation of duties: approver must differ from submitter'')
        else rbind (stamp_project approve entity_type entity_id
               (s1\<lparr>as_approvals := update_rows (concerns entity_type entity_id)
                      (mark_decided (en_now E) approve actor note) (as_approvals s1)\<rparr>)) (\<lambda>s2.
             rbind (announce E (as_db s2) (decision_word approve) entity_type entity_id
               (fstr [entity_type, '' '', entity_id, '' '', decision_word approve, '' by '', opt_str actor]) org_id actor
               (decision_notice entity_type entity_id approve note org_id)) (\<lambda>d.
               Inr (s2\<lparr>as_db := d\<rparr>)))))"

section \<open>The workflow\<close>

text \<open>The committed requests while authentication is on.\<close>

inductive approval_step :: "approval_store \<Rightarrow> approval_store \<Rightarrow> bool" where
  Submit: "submit E s entity_type entity_id actor org_id = Inr s' \<Longrightarrow> approval_step s s'"
| Decide: "decide E True s entity_type entity_id approve actor role note org_id = Inr s' \<Longrightarrow> approval_step s s'"

definition well_decided :: "approval \<Rightarrow> bool" where
  "well_decided a \<longleftrightarrow>
     ap_state a \<in> {''draft'', ''submitted'', ''approved'', ''rejected''} \<and>
     (ap_state a \<in> {''approved'', ''rejected''} \<longrightarrow> ap_reviewed_at a \<noteq> None \<and> \<not> same_person (ap_reviewed_by a) (ap_submitted_by a)) \<and>
     (ap_state a \<in> {''draft'', ''submitted''} \<longrightarrow> ap_reviewed_by a = None)"

definition one_per_entity :: "approval list \<Rightarrow> bool" where
  "one_per_entity as \<longleftrightarrow> distinct (map (\<lambda>a. (ap_entity_type a, ap_entity_id a)) as)"

definition approvals_ok :: "approval_store \<Rightarrow> bool" where
  "approvals_ok s \<longleftrightarrow> one_per_entity (as_approvals s) \<and> list_all well_decided (as_approvals s)"

lemma get_or_create_ok:
  assumes "get_or_create s et eid org = Inr (a, s1)" "approvals_ok s"
  shows "approvals_ok s1" "a \<in> set (as_approvals s1)" "concerns et eid a" "set (as_approvals s) \<subseteq> set (as_approvals s1)"
proof -
  obtain found where f: "one_or_none (filter (concerns et eid) (as_approvals s)) = Inr found"
    using assms(1) by (auto simp: get_or_create_def rbind_eq_Inr)
  have "approvals_ok s1 \<and> a \<in> set (as_approvals s1) \<and> concerns et eid a \<and> set (as_approvals s) \<subseteq> set (as_approvals s1)"
  proof (cases found)
    case None
    then have "\<forall>x \<in> set (as_approvals s). \<not> concerns et eid x" using f by (simp add: filter_empty_conv)
    then have "one_per_entity (as_approvals s @ [new_approval i et eid org])" for i
      using assms(2) by (auto simp: approvals_ok_def one_per_entity_def concerns_def new_approval_def)
    then show ?thesis
      using assms f None
      by (auto simp: get_or_create_def Let_def approvals_ok_def concerns_def new_approval_def well_decided_def)
  next
    case (Some x)
    then have "filter (concerns et eid) (as_approvals s) = [x]" using f by simp
    then have "x \<in> set (as_approvals s) \<and> concerns et eid x"
      using filter_eq_Cons_iff [of "concerns et eid" "as_approvals s" x "[]"] by auto
    then show ?thesis using assms f Some by (simp add: get_or_create_def)
  qed
  then show "approvals_ok s1" "a \<in> set (as_approvals s1)" "concerns et eid a"
    "set (as_approvals s) \<subseteq> set (as_approvals s1)" by blast+
qed

lemma concerned_unique:
  assumes "approvals_ok s" "a \<in> set (as_approvals s)" "concerns et eid a" "b \<in> set (as_approvals s)" "concerns et eid b"
  shows "b = a"
  using assms by (auto simp: approvals_ok_def one_per_entity_def concerns_def distinct_map inj_on_def)

lemma update_concerned_ok:
  assumes "approvals_ok s" "a \<in> set (as_approvals s)" "concerns et eid a"
    "\<And>x. ap_entity_type (f x) = ap_entity_type x" "\<And>x. ap_entity_id (f x) = ap_entity_id x" "well_decided (f a)"
  shows "approvals_ok (s\<lparr>as_approvals := update_rows (concerns et eid) f (as_approvals s), as_projects := ps, as_db := d\<rparr>)"
proof -
  have "list_all well_decided (update_rows (concerns et eid) f (as_approvals s))"
    using concerned_unique [OF assms(1-3)] assms(1,6)
    by (auto simp: list_all_iff set_update_rows approvals_ok_def)
  moreover have "map (\<lambda>a. (ap_entity_type a, ap_entity_id a)) (update_rows (concerns et eid) f (as_approvals s))
      = map (\<lambda>a. (ap_entity_type a, ap_entity_id a)) (as_approvals s)"
    by (rule map_update_rows) (simp add: assms(4,5))
  ultimately show ?thesis using assms(1) by (simp add: approvals_ok_def one_per_entity_def)
qed

lemma submit_frame:
  assumes "submit E s et eid actor org = Inr s'"
  obtains a s1 d where "get_or_create s et eid org = Inr (a, s1)" "ap_state a \<noteq> ''approved''"
    "s' = s1\<lparr>as_approvals := update_rows (concerns et eid) (mark_submitted (en_now E) actor) (as_approvals s1), as_db := d\<rparr>"
  using assms by (auto simp: submit_def rbind_eq_Inr split: if_splits)

lemma decide_frame:
  assumes "decide E True s et eid approve actor role note org = Inr s'"
  obtains a s1 ps d where "get_or_create s et eid org = Inr (a, s1)" "ap_state a = ''submitted''"
    "\<not> same_person actor (ap_submitted_by a)"
    "s' = s1\<lparr>as_approvals := update_rows (concerns et eid) (mark_decided (en_now E) approve actor note) (as_approvals s1),
       as_projects := ps, as_db := d\<rparr>"
proof -
  obtain a s1 where g: "get_or_create s et eid org = Inr (a, s1)"
    using assms by (auto simp: decide_def rbind_eq_Inr split: if_splits)
  have st: "ap_state a = ''submitted''" "\<not> same_person actor (ap_submitted_by a)"
    using assms g by (auto simp: decide_def rbind_eq_Inr split: if_splits)
  let ?u = "s1\<lparr>as_approvals := update_rows (concerns et eid) (mark_decided (en_now E) approve actor note) (as_approvals s1)\<rparr>"
  obtain s2 d where s2: "stamp_project approve et eid ?u = Inr s2" "s' = s2\<lparr>as_db := d\<rparr>"
    using assms g by (auto simp: decide_def rbind_eq_Inr split: if_splits)
  obtain ps where "s2 = ?u\<lparr>as_projects := ps\<rparr>"
  proof (cases "approve \<and> et = ''ssp_project''")
    case True
    then show thesis using s2(1) that by (auto simp: stamp_project_def rbind_eq_Inr)
  next
    case False
    then have "s2 = ?u\<lparr>as_projects := as_projects ?u\<rparr>"
      using s2(1) unfolding stamp_project_def if_not_P [OF False] by simp
    then show thesis by (rule that)
  qed
  then show thesis using that [OF g st] s2(2) by simp
qed

lemma approved_stays:
  assumes "approvals_ok s1" "a \<in> set (as_approvals s1)" "concerns et eid a" "ap_state a \<noteq> ''approved''"
    "b \<in> set (as_approvals s1)" "ap_state b = ''approved''"
  shows "b \<in> set (update_rows (concerns et eid) f (as_approvals s1))"
proof -
  have "\<not> concerns et eid b" using concerned_unique [OF assms(1-3) assms(5)] assms(4,6) by auto
  then show ?thesis using assms(5) by (force simp: set_update_rows)
qed

lemma approval_step_keeps:
  assumes "approval_step s s'" "approvals_ok s"
  shows "approvals_ok s' \<and> (\<forall>b \<in> set (as_approvals s). ap_state b = ''approved'' \<longrightarrow> b \<in> set (as_approvals s'))"
  using assms(1)
proof (cases rule: approval_step.cases)
  case (Submit E et eid actor org)
  obtain a s1 d where f: "get_or_create s et eid org = Inr (a, s1)" "ap_state a \<noteq> ''approved''"
    "s' = s1\<lparr>as_approvals := update_rows (concerns et eid) (mark_submitted (en_now E) actor) (as_approvals s1), as_db := d\<rparr>"
    by (rule submit_frame [OF Submit])
  note g = get_or_create_ok [OF f(1) assms(2)]
  have "well_decided (mark_submitted (en_now E) actor a)" by (simp add: well_decided_def mark_submitted_def)
  from update_concerned_ok [where f = "mark_submitted (en_now E) actor" and ps = "as_projects s1" and d = d, OF g(1-3) _ _ this]
  have "approvals_ok s'" by (simp add: f(3) mark_submitted_def)
  moreover have "b \<in> set (as_approvals s')" if "b \<in> set (as_approvals s)" "ap_state b = ''approved''" for b
    using approved_stays [OF g(1-3) f(2)] g(4) that by (auto simp: f(3))
  ultimately show ?thesis by blast
next
  case (Decide E et eid approve actor role remark org)
  obtain a s1 ps d where f: "get_or_create s et eid org = Inr (a, s1)" "ap_state a = ''submitted''"
    "\<not> same_person actor (ap_submitted_by a)"
    "s' = s1\<lparr>as_approvals := update_rows (concerns et eid) (mark_decided (en_now E) approve actor remark) (as_approvals s1),
       as_projects := ps, as_db := d\<rparr>"
    by (rule decide_frame [OF Decide])
  note g = get_or_create_ok [OF f(1) assms(2)]
  have "well_decided (mark_decided (en_now E) approve actor remark a)"
    using f(3) by (simp add: well_decided_def mark_decided_def)
  from update_concerned_ok [where f = "mark_decided (en_now E) approve actor remark" and ps = ps and d = d, OF g(1-3) _ _ this]
  have "approvals_ok s'" by (simp add: f(4) mark_decided_def)
  moreover have "ap_state a \<noteq> ''approved''" using f(2) by simp
  then have "b \<in> set (as_approvals s')" if "b \<in> set (as_approvals s)" "ap_state b = ''approved''" for b
    using approved_stays [OF g(1-3)] g(4) that by (auto simp: f(4))
  ultimately show ?thesis by blast
qed

section \<open>Properties\<close>

text \<open>C23: with authentication on, approval separates duties and is final. After any sequence of
  submissions and decisions there is one review per entity, its state is one of the four, a decided
  review was decided by somebody other than the submitter it records, and an approved review is
  never changed again.\<close>

theorem approval_separates_duties:
  assumes "approvals_ok s" "approval_step\<^sup>*\<^sup>* s s'"
  shows "distinct (map (\<lambda>a. (ap_entity_type a, ap_entity_id a)) (as_approvals s')) \<and>
    (\<forall>a \<in> set (as_approvals s').
       ap_state a \<in> {''draft'', ''submitted'', ''approved'', ''rejected''} \<and>
       (ap_state a \<in> {''approved'', ''rejected''} \<longrightarrow> \<not> same_person (ap_reviewed_by a) (ap_submitted_by a))) \<and>
    (\<forall>a \<in> set (as_approvals s). ap_state a = ''approved'' \<longrightarrow> a \<in> set (as_approvals s'))"
proof -
  have "approvals_ok s' \<and> (\<forall>b \<in> set (as_approvals s). ap_state b = ''approved'' \<longrightarrow> b \<in> set (as_approvals s'))"
    using assms(2)
  proof (induction rule: rtranclp_induct)
    case base
    then show ?case using assms(1) by simp
  next
    case (step t u)
    from step(3) approval_step_keeps [OF step(2)] show ?case by blast
  qed
  then show ?thesis unfolding approvals_ok_def one_per_entity_def well_decided_def list_all_iff by blast
qed

definition start_approvals :: approval_store where
  "start_approvals = \<lparr>as_db = empty_db, as_approvals = [], as_projects = []\<rparr>"

lemmas run_approvals = submit_def decide_def get_or_create_def announce_def emit_def notify_def insert_notification_def
  insert_unique_def new_notification_def refresh_notification_def submit_notice_def decision_notice_def deliver_def
  dispatch_webhooks_def dispatch_hooks_def mark_submitted_def mark_decided_def new_approval_def concerns_def
  update_rows_def stamp_project_def same_person_def start_approvals_def empty_db_def entity_state_def Let_def
  ENTITY_TYPES_def APPROVER_ROLES_def fstr_def opt_str_def decision_word_def

text \<open>The separation binds the last submitter only. A review that is under way can be submitted again
  by anyone, which replaces the recorded submitter; the person who first submitted it then approves
  it, with authentication on.\<close>

theorem resubmission_lifts_the_separation:
  "\<exists>s1 s2 s3. submit E start_approvals ''poam'' ''3'' (Some ''ana'') (Some 1) = Inr s1 \<and>
     (\<exists>m. decide E True s1 ''poam'' ''3'' True (Some ''ana'') (Some ''admin'') None (Some 1) = Inl (WorkflowError m)) \<and>
     submit E s1 ''poam'' ''3'' (Some ''bob'') (Some 1) = Inr s2 \<and>
     decide E True s2 ''poam'' ''3'' True (Some ''ana'') (Some ''admin'') None (Some 1) = Inr s3 \<and>
     entity_state s3 ''poam'' ''3'' = Inr ''approved''"
  by (simp add: run_approvals)

theorem approval_separates_duties_witness:
  "\<exists>s1. submit sample_env start_approvals ''poam'' ''3'' (Some ''ana'') (Some 1) = Inr s1 \<and>
     distinct (map (\<lambda>a. (ap_entity_type a, ap_entity_id a)) (as_approvals s1)) \<and> as_approvals s1 \<noteq> []"
proof -
  obtain s1 where s1: "submit sample_env start_approvals ''poam'' ''3'' (Some ''ana'') (Some 1) = Inr s1" "as_approvals s1 \<noteq> []"
    by (simp add: run_approvals)
  have "approvals_ok start_approvals" by (simp add: approvals_ok_def one_per_entity_def start_approvals_def)
  moreover have "approval_step\<^sup>*\<^sup>* start_approvals s1"
    by (rule r_into_rtranclp, rule approval_step.Submit, rule s1(1))
  ultimately show ?thesis using approval_separates_duties s1 by blast
qed

end
