(* ===== verification/Control_Ids.thy ===== *)
theory Control_Ids
  imports Prelude
begin

text \<open>
  Control identifiers: \<open>catalog/canonical.py\<close> (\<open>canonicalize\<close> and its OSCAL form) and the inverse in
  \<open>catalog/oscal.py\<close>. The regular expressions are written out as the scanners they describe;
  identifiers are ASCII, where \<open>\s\<close> is \<open>is_space\<close> and \<open>\d\<close> is \<open>is_digit\<close>.
\<close>

section \<open>Scanners\<close>

record canonical_id =
  ci_value :: string
  ci_family :: string
  ci_number :: nat
  ci_enhancements :: "nat list"

definition is_alpha :: "char \<Rightarrow> bool" where
  "is_alpha c \<longleftrightarrow> is_upper c \<or> is_lower c"

text \<open>\<open>0*\d{1,3}\<close> before a character that is not a digit: the whole run of digits, at most three of them
  significant.\<close>

definition small_number :: "string \<Rightarrow> (nat \<times> string) option" where
  "small_number s =
     (let ds = takeWhile is_digit s
      in if ds \<noteq> [] \<and> length (dropWhile (\<lambda>c. c = CHR ''0'') ds) \<le> 3
         then Some (nat_of_digits ds, dropWhile is_digit s) else None)"

lemma small_number_shorter: "small_number s = Some (n, r) \<Longrightarrow> length r < length s"
  by (cases s) (auto simp: small_number_def Let_def length_dropWhile_le le_imp_less_Suc split: if_splits)

lemma length_lstrip: "length (lstrip s) \<le> length s"
  by (simp add: lstrip_def length_dropWhile_le)

text \<open>The rest of the identifier, \<open>(\s*\(\s*0*\d{1,3}\s*\))*\s*$\<close>.\<close>

function enhancements :: "string \<Rightarrow> nat list option" where
  "enhancements s =
     (case lstrip s of
        [] \<Rightarrow> Some []
      | c # cs \<Rightarrow>
          if c \<noteq> CHR ''('' then None
          else case small_number (lstrip cs) of
            None \<Rightarrow> None
          | Some (n, r) \<Rightarrow>
              (case lstrip r of
                 [] \<Rightarrow> None
               | d # ds \<Rightarrow> if d = CHR '')'' then map_option ((#) n) (enhancements ds) else None))"
  by pat_completeness auto
termination
proof (relation "measure length", goal_cases)
  case (2 s c cs p n r d ds)
  then have "length (d # ds) \<le> length r" "length r < length (lstrip cs)" "length (lstrip cs) \<le> length cs"
    "length (c # cs) \<le> length s"
    using length_lstrip [of r] length_lstrip [of cs] length_lstrip [of s] small_number_shorter [of "lstrip cs" n r] by simp_all
  then show ?case by simp
qed simp

declare enhancements.simps [simp del]

definition canonical_value :: "string \<Rightarrow> nat \<Rightarrow> nat list \<Rightarrow> string" where
  "canonical_value fam n es = fam @ ''-'' @ str_of_nat n @ concat (map (\<lambda>e. ''('' @ str_of_nat e @ '')'') es)"

definition canonicalize :: "string option \<Rightarrow> canonical_id option" where
  "canonicalize raw =
     (case lstrip (case raw of None \<Rightarrow> [] | Some r \<Rightarrow> r) of
        a # b # d # s \<Rightarrow>
          if is_alpha a \<and> is_alpha b \<and> d = CHR ''-'' then
            (case small_number s of
               None \<Rightarrow> None
             | Some (n, r) \<Rightarrow>
                 (case enhancements r of
                    None \<Rightarrow> None
                  | Some es \<Rightarrow> Some \<lparr>ci_value = canonical_value (upper [a, b]) n es, ci_family = upper [a, b],
                                 ci_number = n, ci_enhancements = es\<rparr>))
          else None
      | _ \<Rightarrow> None)"

text \<open>\<open>re.sub(r"\((\d+)\)", r".\1", s)\<close>.\<close>

function dot_groups :: "string \<Rightarrow> string" where
  "dot_groups [] = []"
| "dot_groups (c # cs) =
     (let ds = takeWhile is_digit cs; r = dropWhile is_digit cs
      in if c = CHR ''('' \<and> ds \<noteq> [] \<and> r \<noteq> [] \<and> hd r = CHR '')'' then CHR ''.'' # ds @ dot_groups (tl r)
         else c # dot_groups cs)"
  by pat_completeness auto
termination
proof (relation "measure length", goal_cases)
  case (2 c cs ds r)
  then have "length (tl r) < length r" "length r \<le> length cs" by (simp_all add: length_dropWhile_le)
  then show ?case by simp
qed simp_all

definition canonical_to_oscal_id :: "string \<Rightarrow> string" where
  "canonical_to_oscal_id canonical = lower (dot_groups canonical)"

text \<open>\<open>^([a-zA-Z]+)-(\d+)$\<close>; the anchor also matches before a final newline.\<close>

definition split_base :: "string \<Rightarrow> (string \<times> string) option" where
  "split_base base =
     (let fam = takeWhile is_alpha base; r = dropWhile is_alpha base;
          num = (if r \<noteq> [] \<and> last r = CHR 0x0A then butlast (tl r) else tl r)
      in if fam \<noteq> [] \<and> r \<noteq> [] \<and> hd r = CHR ''-'' \<and> all_digits num then Some (fam, num) else None)"

definition oscal_id_to_canonical :: "string \<Rightarrow> string" where
  "oscal_id_to_canonical oscal_id =
     (let parts = split_on CHR ''.'' oscal_id; base = hd parts;
          canon = (case split_base base of
                     Some (fam, num) \<Rightarrow> upper fam @ ''-'' @ str_of_nat (nat_of_digits num)
                   | None \<Rightarrow> upper base)
      in canon @ concat (map (\<lambda>enh. ''('' @ (if all_digits enh then str_of_nat (nat_of_digits enh) else enh) @ '')'') (tl parts)))"

section \<open>Laws\<close>

lemma zero_digit [simp]: "is_digit CHR ''0''"
  by (simp add: is_digit_def in_range_def)

lemma nat_of_digits_zeros: "nat_of_digits (replicate z CHR ''0'' @ s) = nat_of_digits s"
  by (induction z) (simp_all add: nat_of_digits_def)

lemma length_small: "n < 1000 \<Longrightarrow> length (str_of_nat n) \<le> 3"
  using length_str_of_nat [of n 3] by simp

lemma small_number_spelled:
  assumes "n < 1000" "r = [] \<or> \<not> is_digit (hd r)"
  shows "small_number (replicate z CHR ''0'' @ str_of_nat n @ r) = Some (n, r)"
proof -
  let ?ds = "replicate z CHR ''0'' @ str_of_nat n"
  have d: "list_all is_digit ?ds" using str_of_nat_digits [of n] by (auto simp: list_all_iff)
  have "takeWhile is_digit (?ds @ r) = ?ds" "dropWhile is_digit (?ds @ r) = r"
    using takeWhile_digits [OF d assms(2)] takeWhile_dropWhile_id [of is_digit "?ds @ r"] by simp_all
  moreover have "length (dropWhile (\<lambda>c. c = CHR ''0'') ?ds) \<le> 3"
    using le_trans [OF length_dropWhile_le length_small [OF assms(1)]] by (simp add: dropWhile_append)
  ultimately show ?thesis
    using str_of_nat_not_Nil [of n] by (simp add: small_number_def nat_of_digits_zeros nat_of_digits_str_of_nat)
qed

lemma small_number_bound: "small_number s = Some (n, r) \<Longrightarrow> n < 1000"
proof -
  have fold: "list_all is_digit ds \<Longrightarrow> nat_of_digits ds < 10 ^ length ds" for ds
  proof (induction ds rule: rev_induct)
    case (snoc c ds)
    then have "of_char c - (48 :: nat) \<le> 9" by (auto simp: is_digit_def in_range_def)
    with snoc show ?case by (simp add: nat_of_digits_append)
  qed (simp add: nat_of_digits_def)
  assume s: "small_number s = Some (n, r)"
  let ?ds = "takeWhile is_digit s"
  let ?sig = "dropWhile (\<lambda>c. c = CHR ''0'') ?ds"
  let ?zs = "takeWhile (\<lambda>c. c = CHR ''0'') ?ds"
  have "\<And>x. x \<in> set ?zs \<Longrightarrow> x = CHR ''0''" using set_takeWhileD by fast
  then have zs: "?zs = replicate (length ?zs) CHR ''0''" by (simp add: replicate_length_same)
  have "nat_of_digits ?ds = nat_of_digits (?zs @ ?sig)" by (simp only: takeWhile_dropWhile_id)
  also have "\<dots> = nat_of_digits ?sig" by (subst zs) (rule nat_of_digits_zeros)
  finally have n: "n = nat_of_digits ?sig" using s by (simp add: small_number_def Let_def split: if_splits)
  have "list_all is_digit ?sig" by (auto simp: list_all_iff dest!: set_dropWhileD set_takeWhileD)
  then have "n < 10 ^ length ?sig" using fold n by simp
  moreover have "length ?sig \<le> 3" using s by (simp add: small_number_def Let_def split: if_splits)
  then have "(10 :: nat) ^ length ?sig \<le> 10 ^ 3" by (rule power_increasing) simp
  ultimately show ?thesis by simp
qed

lemma lstrip_spaces: "list_all is_space w \<Longrightarrow> \<not> is_space c \<Longrightarrow> lstrip (w @ c # r) = c # r"
  by (induction w) (simp_all add: lstrip_def)

lemma lstrip_all: "list_all is_space w \<Longrightarrow> lstrip w = []"
  by (simp add: lstrip_def list_all_iff)

lemma not_space [simp]: "is_digit c \<Longrightarrow> \<not> is_space c" "is_alpha c \<Longrightarrow> \<not> is_space c"
  by (auto simp: is_digit_def is_space_def is_alpha_def is_upper_def is_lower_def in_range_def)

lemma lstrip_digits: "list_all is_space u \<Longrightarrow> s \<noteq> [] \<Longrightarrow> list_all is_digit s \<Longrightarrow> lstrip (u @ s @ r) = s @ r"
  by (cases s) (simp_all add: lstrip_spaces)

lemma not_digit_after: "list_all is_space v \<Longrightarrow> \<not> is_digit (hd (v @ CHR '')'' # r))"
  by (cases v) (auto simp: is_digit_def in_range_def is_space_def)

text \<open>One enhancement as a person may write it: blanks, leading zeros.\<close>

fun spelled_group :: "string \<times> string \<times> nat \<times> nat \<times> string \<Rightarrow> string" where
  "spelled_group (w, u, z, e, v) = w @ ''('' @ u @ replicate z CHR ''0'' @ str_of_nat e @ v @ '')''"

fun blank_group :: "string \<times> string \<times> nat \<times> nat \<times> string \<Rightarrow> bool" where
  "blank_group (w, u, z, e, v) \<longleftrightarrow> list_all is_space w \<and> list_all is_space u \<and> list_all is_space v \<and> e < 1000"

lemma parens_not_space [simp]: "\<not> is_space CHR ''(''" "\<not> is_space CHR '')''"
  by (simp_all add: is_space_def in_range_def)

lemma enhancements_spelled:
  "list_all blank_group gs \<Longrightarrow> list_all is_space t \<Longrightarrow>
     enhancements (concat (map spelled_group gs) @ t) = Some (map (\<lambda>(w, u, z, e, v). e) gs)"
proof (induction gs)
  case Nil
  then show ?case by (simp add: enhancements.simps [of t] lstrip_all)
next
  case (Cons g gs)
  obtain w u z e v where g: "g = (w, u, z, e, v)" by (cases g)
  let ?num = "replicate z CHR ''0'' @ str_of_nat e"
  let ?rest = "concat (map spelled_group gs) @ t"
  have b: "list_all is_space w" "list_all is_space u" "list_all is_space v" "e < 1000" using Cons.prems(1) g by simp_all
  have num: "?num \<noteq> []" "list_all is_digit ?num"
    using str_of_nat_not_Nil [of e] str_of_nat_digits [of e] by (auto simp: list_all_iff)
  have "lstrip (w @ CHR ''('' # u @ ?num @ v @ CHR '')'' # ?rest) = CHR ''('' # u @ ?num @ v @ CHR '')'' # ?rest"
    by (rule lstrip_spaces [OF b(1)]) simp
  moreover have "lstrip (u @ ?num @ v @ CHR '')'' # ?rest) = ?num @ v @ CHR '')'' # ?rest"
    by (rule lstrip_digits [OF b(2) num])
  moreover have "small_number (?num @ v @ CHR '')'' # ?rest) = Some (e, v @ CHR '')'' # ?rest)"
    using small_number_spelled [OF b(4), of "v @ CHR '')'' # ?rest" z] not_digit_after [OF b(3), of ?rest] by simp
  moreover have "lstrip (v @ CHR '')'' # ?rest) = CHR '')'' # ?rest" by (rule lstrip_spaces [OF b(3)]) simp
  moreover have "enhancements ?rest = Some (map (\<lambda>(w, u, z, e, v). e) gs)" using Cons by simp
  ultimately show ?case by (simp add: g enhancements.simps [of "w @ _"])
qed

lemma hyphen_not_digit [simp]: "\<not> is_digit CHR ''-''" "\<not> is_space CHR ''-''"
  by (simp_all add: is_digit_def is_space_def in_range_def)

lemma group_head: "list_all blank_group gs \<Longrightarrow> list_all is_space t \<Longrightarrow>
   concat (map spelled_group gs) @ t = [] \<or> \<not> is_digit (hd (concat (map spelled_group gs) @ t))"
proof (cases gs)
  case Nil
  assume "list_all is_space t"
  then show ?thesis using Nil not_space(1) by (cases t) auto
next
  case (Cons g hs)
  assume "list_all blank_group gs"
  moreover obtain w u z e v where "g = (w, u, z, e, v)" by (cases g)
  ultimately show ?thesis
    using Cons not_space(1) by (cases w) (auto simp: is_digit_def in_range_def)
qed

lemma canonicalize_spelled:
  assumes "list_all is_space s" "is_alpha a" "is_alpha b" "n < 1000" "list_all blank_group gs" "list_all is_space t"
  shows "canonicalize (Some (s @ [a, b] @ ''-'' @ replicate z CHR ''0'' @ str_of_nat n @ concat (map spelled_group gs) @ t)) =
    Some \<lparr>ci_value = canonical_value (upper [a, b]) n (map (\<lambda>(w, u, z, e, v). e) gs), ci_family = upper [a, b],
          ci_number = n, ci_enhancements = map (\<lambda>(w, u, z, e, v). e) gs\<rparr>"
proof -
  let ?r = "concat (map spelled_group gs) @ t"
  let ?m = "replicate z CHR ''0'' @ str_of_nat n @ ?r"
  have "lstrip (s @ a # b # CHR ''-'' # ?m) = a # b # CHR ''-'' # ?m"
    by (rule lstrip_spaces [OF assms(1)]) (simp add: assms(2))
  moreover have "small_number ?m = Some (n, ?r)"
    by (rule small_number_spelled [OF assms(4) group_head [OF assms(5,6)]])
  moreover note enhancements_spelled [OF assms(5,6)]
  ultimately show ?thesis using assms(2,3) by (simp add: canonicalize_def)
qed

lemma canonicalize_SomeD:
  assumes "canonicalize raw = Some c"
  obtains a b where "is_alpha a" "is_alpha b" "ci_family c = upper [a, b]" "ci_number c < 1000"
    "list_all (\<lambda>e. e < 1000) (ci_enhancements c)"
    "ci_value c = canonical_value (ci_family c) (ci_number c) (ci_enhancements c)"
proof -
  have enh: "enhancements s = Some es \<Longrightarrow> list_all (\<lambda>e. e < 1000) es" for s es
  proof (induction s arbitrary: es rule: enhancements.induct)
    case (1 s)
    from 1(2) show ?case
      by (subst (asm) enhancements.simps)
        (auto simp: 1(1) small_number_bound split: list.splits if_splits option.splits)
  qed
  obtain a b s n r es where c: "is_alpha a" "is_alpha b" "small_number s = Some (n, r)" "enhancements r = Some es"
    "c = \<lparr>ci_value = canonical_value (upper [a, b]) n es, ci_family = upper [a, b], ci_number = n, ci_enhancements = es\<rparr>"
    using assms by (auto simp: canonicalize_def split: list.splits if_splits option.splits)
  show thesis by (rule that [of a b]) (simp_all add: c small_number_bound [OF c(3)] enh [OF c(4)])
qed

section \<open>The OSCAL form\<close>

lemma upper_alpha: "is_alpha a \<Longrightarrow> is_upper (upper_char a)"
  by (auto simp: is_alpha_def upper_char_def is_upper_def is_lower_def in_range_def)

lemma upper_upper: "is_upper c \<Longrightarrow> upper_char c = c \<and> is_alpha (lower_char c) \<and> upper_char (lower_char c) = c"
  by (auto simp: is_alpha_def upper_char_def lower_char_def is_upper_def is_lower_def in_range_def)

lemma lower_digits: "list_all is_digit s \<Longrightarrow> lower s = s"
  by (induction s) (auto simp: lower_def lower_char_def is_upper_def is_digit_def in_range_def)

lemma dot_groups_plain: "CHR ''('' \<notin> set s \<Longrightarrow> dot_groups (s @ r) = s @ dot_groups r"
  by (induction s) (auto simp: Let_def)

lemma dot_groups_spelled:
  "dot_groups (concat (map (\<lambda>e. ''('' @ str_of_nat e @ '')'') es)) = concat (map (\<lambda>e. CHR ''.'' # str_of_nat e) es)"
proof (induction es)
  case (Cons e es)
  let ?r = "concat (map (\<lambda>e. ''('' @ str_of_nat e @ '')'') es)"
  have "takeWhile is_digit (str_of_nat e @ CHR '')'' # ?r) = str_of_nat e"
    by (rule takeWhile_digits [OF str_of_nat_digits]) (simp add: is_digit_def in_range_def)
  moreover from this have "dropWhile is_digit (str_of_nat e @ CHR '')'' # ?r) = CHR '')'' # ?r"
    by (metis append_eq_append_conv takeWhile_dropWhile_id)
  ultimately show ?case using Cons str_of_nat_not_Nil [of e] by simp
qed simp

lemma split_on_plain: "c \<notin> set s \<Longrightarrow> split_on c s = [s]"
  by (induction s) auto

lemma split_on_sep: "c \<notin> set s \<Longrightarrow> split_on c (s @ c # r) = s # split_on c r"
  by (induction s) auto

lemma split_on_dotted:
  "(\<And>e. c \<notin> set (f e)) \<Longrightarrow> c \<notin> set s \<Longrightarrow> split_on c (s @ concat (map (\<lambda>e. c # f e) es)) = s # map f es"
  by (induction es arbitrary: s) (simp_all add: split_on_plain split_on_sep)

lemma not_in_digits: "\<not> is_digit c \<Longrightarrow> c \<notin> set (str_of_nat n)"
  using str_of_nat_digits [of n] by (auto simp: list_all_iff)

lemma lower_append: "lower (s @ t) = lower s @ lower t"
  by (simp add: lower_def)

lemma lower_dotted: "lower (concat (map (\<lambda>e. CHR ''.'' # str_of_nat e) es)) = concat (map (\<lambda>e. CHR ''.'' # str_of_nat e) es)"
proof (induction es)
  case (Cons e es)
  have "lower (CHR ''.'' # str_of_nat e) = CHR ''.'' # str_of_nat e"
    using lower_digits [OF str_of_nat_digits] by (simp add: lower_def lower_char_def is_upper_def in_range_def)
  with Cons show ?case by (simp add: lower_append del: append.simps)
qed (simp add: lower_def)

lemma newline_not_digit: "\<not> is_digit CHR 0x0A"
  by (simp add: is_digit_def in_range_def)

lemma split_base_spelled:
  assumes "is_alpha a" "is_alpha b"
  shows "split_base ([a, b] @ ''-'' @ str_of_nat n) = Some ([a, b], str_of_nat n)"
proof -
  have h: "\<not> is_alpha CHR ''-''" by (simp add: is_alpha_def is_upper_def is_lower_def in_range_def)
  have "last (str_of_nat n) \<in> set (str_of_nat n)" using str_of_nat_not_Nil by (rule last_in_set)
  then have "last (str_of_nat n) \<noteq> CHR 0x0A"
    using not_in_digits [of "CHR 0x0A" n] by (metis newline_not_digit)
  then show ?thesis
    using assms h str_of_nat_not_Nil [of n] str_of_nat_digits [of n] by (simp add: split_base_def all_digits_def)
qed

lemma oscal_roundtrip:
  assumes "is_upper a" "is_upper b"
  shows "oscal_id_to_canonical (canonical_to_oscal_id (canonical_value [a, b] n es)) = canonical_value [a, b] n es"
proof -
  let ?lo = "[lower_char a, lower_char b] @ ''-'' @ str_of_nat n"
  have np: "CHR ''('' \<notin> set ([a, b] @ ''-'' @ str_of_nat n)"
    using assms not_in_digits [of "CHR ''(''" n] by (auto simp: is_upper_def is_digit_def in_range_def)
  have low: "lower ([a, b] @ ''-'' @ str_of_nat n) = ?lo"
    using lower_digits [OF str_of_nat_digits] by (simp add: lower_def lower_char_def is_upper_def in_range_def)
  have "dot_groups (([a, b] @ ''-'' @ str_of_nat n) @ concat (map (\<lambda>e. ''('' @ str_of_nat e @ '')'') es)) =
      ([a, b] @ ''-'' @ str_of_nat n) @ concat (map (\<lambda>e. CHR ''.'' # str_of_nat e) es)"
    by (simp only: dot_groups_plain [OF np] dot_groups_spelled)
  then have osc: "canonical_to_oscal_id (canonical_value [a, b] n es) = ?lo @ concat (map (\<lambda>e. CHR ''.'' # str_of_nat e) es)"
    using low by (simp only: canonical_to_oscal_id_def canonical_value_def append_assoc)
      (simp only: append_assoc [symmetric] lower_append lower_dotted)
  have "\<not> is_alpha CHR ''.''" "\<not> is_digit CHR ''.''" by (simp_all add: is_alpha_def is_upper_def is_lower_def is_digit_def in_range_def)
  then have "CHR ''.'' \<notin> set ?lo"
    using upper_upper [OF assms(1)] upper_upper [OF assms(2)] not_in_digits [of "CHR ''.''" n] by auto
  then have "split_on CHR ''.'' (?lo @ concat (map (\<lambda>e. CHR ''.'' # str_of_nat e) es)) = ?lo # map str_of_nat es"
    by (intro split_on_dotted not_in_digits) (simp_all add: is_digit_def in_range_def)
  moreover have "split_base ?lo = Some ([lower_char a, lower_char b], str_of_nat n)"
    using upper_upper [OF assms(1)] upper_upper [OF assms(2)] by (intro split_base_spelled) simp_all
  moreover have "all_digits (str_of_nat e)" for e
    using str_of_nat_not_Nil str_of_nat_digits by (simp add: all_digits_def)
  ultimately show ?thesis
    using upper_upper [OF assms(1)] upper_upper [OF assms(2)]
    by (simp only: osc oscal_id_to_canonical_def Let_def list.sel option.case prod.case)
      (simp add: canonical_value_def upper_def nat_of_digits_str_of_nat comp_def)
qed

text \<open>Control identifiers round trip. Every spelling of an identifier, in either case, with blanks and
  leading zeros, has the one canonical form; a canonical form is its own canonical form; and
  translating it to the OSCAL form and back gives it again.\<close>

theorem canonical_roundtrip:
  assumes "list_all is_space s" "is_alpha a" "is_alpha b" "n < 1000" "list_all blank_group gs" "list_all is_space t"
  shows "\<exists>c. canonicalize (Some (s @ [a, b] @ ''-'' @ replicate z CHR ''0'' @ str_of_nat n @
        concat (map spelled_group gs) @ t)) = Some c \<and>
      ci_number c = n \<and> ci_enhancements c = map (\<lambda>(w, u, z, e, v). e) gs \<and>
      canonicalize (Some (ci_value c)) = Some c \<and>
      oscal_id_to_canonical (canonical_to_oscal_id (ci_value c)) = ci_value c"
proof -
  let ?es = "map (\<lambda>(w, u, z, e, v). e) gs" and ?fam = "upper [a, b]"
  let ?c = "\<lparr>ci_value = canonical_value ?fam n ?es, ci_family = ?fam, ci_number = n, ci_enhancements = ?es\<rparr>"
  let ?gs = "map (\<lambda>e. ([], [], 0, e, [])) ?es :: (string \<times> string \<times> nat \<times> nat \<times> string) list"
  have fam: "?fam = [upper_char a, upper_char b]" by (simp add: upper_def)
  have up: "is_upper (upper_char a)" "is_upper (upper_char b)" using upper_alpha assms(2,3) by blast+
  have "list_all blank_group ?gs" using assms(5) by (auto simp: list_all_iff)
  then have "canonicalize (Some ([] @ [upper_char a, upper_char b] @ ''-'' @ replicate 0 CHR ''0'' @ str_of_nat n @
      concat (map spelled_group ?gs) @ [])) = Some ?c"
    using up assms(4) upper_upper [OF up(1)] upper_upper [OF up(2)]
    by (subst canonicalize_spelled) (simp_all add: is_alpha_def upper_def comp_def split_def)
  moreover have "concat (map spelled_group ?gs) = concat (map (\<lambda>e. ''('' @ str_of_nat e @ '')'') ?es)"
    by (simp add: comp_def)
  ultimately have "canonicalize (Some (canonical_value ?fam n ?es)) = Some ?c"
    by (simp add: canonical_value_def fam)
  moreover have "oscal_id_to_canonical (canonical_to_oscal_id (canonical_value ?fam n ?es)) = canonical_value ?fam n ?es"
    unfolding fam by (rule oscal_roundtrip [OF up])
  ultimately show ?thesis using canonicalize_spelled [OF assms, of z] by (intro exI [of _ ?c]) simp
qed

theorem canonical_roundtrip_witness:
  "\<exists>c. canonicalize (Some ('' '' @ ''ac'' @ ''-'' @ ''0'' @ str_of_nat 2 @ '' ( 0'' @ str_of_nat 1 @ '')'')) = Some c \<and>
     ci_number c = 2 \<and> ci_enhancements c = [1] \<and> canonicalize (Some (ci_value c)) = Some c \<and>
     oscal_id_to_canonical (canonical_to_oscal_id (ci_value c)) = ci_value c"
  using canonical_roundtrip [of "'' ''" "CHR ''a''" "CHR ''c''" 2 "[('' '', '' '', 1, 1, [])]" "[]" 1]
  by (simp add: is_space_def is_alpha_def is_lower_def in_range_def)

end
