(* ===== verification/Capability.thy ===== *)
theory Capability
  imports Control_Ids Rollup Grc_Models
begin

text \<open>
  The capability ontology: rolling capability statuses up (\<open>capability/rollup.py\<close>), annotating control
  implementations from them (\<open>capability/derive.py\<close>) and reading the annotations back
  (\<open>capability/divergence.py\<close>, \<open>capability/service.py\<close>). The rows a query without an order returns are
  taken in insertion order.
\<close>

section \<open>Rows\<close>

record capability =
  ca_id :: int
  ca_organization_id :: "int option"
  ca_key :: string
  ca_title :: string
  ca_status :: string

record capability_control =
  ce_capability_id :: int
  ce_control_id :: string

record capability_component =
  cb_capability_id :: int
  cb_component_id :: int

record system_component =
  cm_id :: int
  cm_system_id :: int

record implementation =
  im_id :: int
  im_system_id :: int
  im_control_id :: int
  im_status :: string
  im_derived_status :: "string option"
  im_derived_at :: "datetime option"
  im_derived_from :: "(string \<times> json) list"

record capability_store =
  kp_systems :: "system list"
  kp_catalog :: "catalog_control list"
  kp_capabilities :: "capability list"
  kp_control_edges :: "capability_control list"
  kp_component_edges :: "capability_component list"
  kp_components :: "system_component list"
  kp_implementations :: "implementation list"

section \<open>Rolling statuses up\<close>

definition SATISFIED :: "string list" where [vocab]:
  "SATISFIED = [''implemented'', ''inherited'']"

definition IMPL_RANK :: "string list" where [vocab]:
  "IMPL_RANK = [''not_implemented'', ''planned'', ''partial'', ''implemented'', ''inherited'']"

definition EXCLUDED :: "string list" where [vocab]:
  "EXCLUDED = [''not_applicable'']"

text \<open>\<open>RANK.index(s)\<close>\<close>

definition rank_index :: "string \<Rightarrow> int" where
  "rank_index s = int (length (takeWhile (\<lambda>r. r \<noteq> s) IMPL_RANK))"

fun considered_statuses :: "string list \<Rightarrow> string list res" where
  "considered_statuses [] = Inr []"
| "considered_statuses (s # ss) =
     (if s \<in> set EXCLUDED then considered_statuses ss
      else if s \<notin> set IMPL_RANK then Inl (ValueError (fstr [''unknown capability status: '', py_repr s]))
      else rbind (considered_statuses ss) (\<lambda>c. Inr (s # c)))"

definition roll_up :: "string list \<Rightarrow> string option res" where
  "roll_up statuses = rbind (considered_statuses statuses) (\<lambda>considered. Inr (
     case py_min_by rank_index considered of
       None \<Rightarrow> None
     | Some worst \<Rightarrow>
         if worst \<notin> set SATISFIED \<and> list_ex (\<lambda>s. s \<in> set SATISFIED) considered then Some ''partial'' else Some worst))"

section \<open>Deriving\<close>

definition capabilities_for_system :: "capability_store \<Rightarrow> int \<Rightarrow> (capability \<times> string) list" where
  "capabilities_for_system st system_id =
     [(c, ce_control_id e). c \<leftarrow> kp_capabilities st,
        b \<leftarrow> kp_component_edges st, cb_capability_id b = ca_id c,
        m \<leftarrow> kp_components st, cm_id m = cb_component_id b, cm_system_id m = system_id,
        y \<leftarrow> kp_systems st, sy_id y = cm_system_id m, ca_organization_id c = Some (sy_organization_id y),
        e \<leftarrow> kp_control_edges st, ce_capability_id e = ca_id c]"

definition canonical_text :: "string \<Rightarrow> string option" where
  "canonical_text raw = map_option ci_value (canonicalize (Some raw))"

definition add_to_group :: "capability \<times> string \<Rightarrow> (string \<times> capability list) list \<Rightarrow> (string \<times> capability list) list" where
  "add_to_group p grouped =
     (case canonical_text (snd p) of
        None \<Rightarrow> grouped
      | Some v \<Rightarrow> AList.update v (get_default grouped v [] @ [fst p]) grouped)"

definition grouped_claims :: "capability_store \<Rightarrow> int \<Rightarrow> (string \<times> capability list) list" where
  "grouped_claims st system_id = fold add_to_group (capabilities_for_system st system_id) []"

definition control_rows_by_canonical :: "capability_store \<Rightarrow> string list \<Rightarrow> (string \<times> int) list" where
  "control_rows_by_canonical st canonical_ids =
     (if canonical_ids = [] then []
      else fold (\<lambda>k out. case canonical_text (ctl_identifier k) of
               None \<Rightarrow> out
             | Some v \<Rightarrow> if v \<in> set canonical_ids then AList.update v (ctl_id k) out else out) (kp_catalog st) [])"

fun covered_ctl_ids :: "(string \<times> int) list \<Rightarrow> (string \<times> capability list) list \<Rightarrow> int list res" where
  "covered_ctl_ids control_ids [] = Inr []"
| "covered_ctl_ids control_ids ((v, caps) # gs) =
     (case map_of control_ids v of
        None \<Rightarrow> covered_ctl_ids control_ids gs
      | Some i \<Rightarrow> rbind (roll_up (map ca_status caps)) (\<lambda>derived.
          rbind (covered_ctl_ids control_ids gs) (\<lambda>ids. Inr (if derived = None then ids else i # ids))))"

definition clear_derived :: "implementation \<Rightarrow> implementation" where
  "clear_derived r = r\<lparr>im_derived_status := None, im_derived_at := None, im_derived_from := []\<rparr>"

definition stale_row :: "int \<Rightarrow> int list \<Rightarrow> implementation \<Rightarrow> bool" where
  "stale_row system_id covered r \<longleftrightarrow>
     im_system_id r = system_id \<and> im_derived_status r \<noteq> None \<and> im_control_id r \<notin> set covered"

definition contributors_doc :: "capability list \<Rightarrow> (string \<times> json) list" where
  "contributors_doc caps =
     [(''capabilities'', JList (map JStr (sort (map ca_key caps)))),
      (''detail'', JList (map JStr (sort (map (\<lambda>c. fstr [ca_key c, ''='', ca_status c]) caps))))]"

text \<open>Equality of dictionaries does not depend on the order of the keys.\<close>

definition same_dict :: "(string \<times> json) list \<Rightarrow> (string \<times> json) list \<Rightarrow> bool" where
  "same_dict d e \<longleftrightarrow> list_all (\<lambda>k. map_of d k = map_of e k) (map fst d @ map fst e)"

definition write_derived :: "datetime \<Rightarrow> string \<Rightarrow> (string \<times> json) list \<Rightarrow> implementation \<Rightarrow> implementation" where
  "write_derived now derived doc r =
     r\<lparr>im_derived_status := Some derived, im_derived_at := Some now, im_derived_from := doc\<rparr>"

definition derive_one ::
  "datetime \<Rightarrow> int \<Rightarrow> (string \<times> int) list \<Rightarrow> string \<times> capability list \<Rightarrow> implementation list \<times> nat \<Rightarrow>
     (implementation list \<times> nat) res" where
  "derive_one now system_id control_ids g acc =
     (case map_of control_ids (fst g) of
        None \<Rightarrow> Inr acc
      | Some ctl_row_id \<Rightarrow> rbind (roll_up (map ca_status (snd g))) (\<lambda>rolled.
          case rolled of
            None \<Rightarrow> Inr acc
          | Some derived \<Rightarrow>
              (case first_row (filter (\<lambda>r. im_system_id r = system_id \<and> im_control_id r = ctl_row_id) (fst acc)) of
                 None \<Rightarrow> Inr acc
               | Some impl \<Rightarrow>
                   let doc = contributors_doc (snd g)
                   in if im_derived_status impl = Some derived \<and> same_dict (im_derived_from impl) doc then Inr acc
                      else Inr (update_rows (\<lambda>r. im_id r = im_id impl) (write_derived now derived doc) (fst acc),
                                snd acc + 1))))"

fun derive_groups ::
  "datetime \<Rightarrow> int \<Rightarrow> (string \<times> int) list \<Rightarrow> (string \<times> capability list) list \<Rightarrow> implementation list \<times> nat \<Rightarrow>
     (implementation list \<times> nat) res" where
  "derive_groups now system_id control_ids [] acc = Inr acc"
| "derive_groups now system_id control_ids (g # gs) acc =
     rbind (derive_one now system_id control_ids g acc) (derive_groups now system_id control_ids gs)"

definition derive_for_system :: "capability_store \<Rightarrow> datetime \<Rightarrow> int \<Rightarrow> (capability_store \<times> nat) res" where
  "derive_for_system st now system_id =
     (let grouped = grouped_claims st system_id;
          control_ids = control_rows_by_canonical st (map fst grouped)
      in rbind (covered_ctl_ids control_ids grouped) (\<lambda>covered.
         let stale = stale_row system_id covered;
             cleared = update_rows stale clear_derived (kp_implementations st)
         in rbind (derive_groups now system_id control_ids grouped (cleared, count_if stale (kp_implementations st))) (\<lambda>(rows, touched).
              Inr (st\<lparr>kp_implementations := rows\<rparr>, touched))))"

text \<open>Every live system of one organization, in id order.\<close>

fun derive_systems :: "datetime \<Rightarrow> int list \<Rightarrow> capability_store \<times> nat \<Rightarrow> (capability_store \<times> nat) res" where
  "derive_systems now [] acc = Inr acc"
| "derive_systems now (i # ids) acc =
     rbind (derive_for_system (fst acc) now i) (\<lambda>(st, n). derive_systems now ids (st, snd acc + n))"

record org_report =
  og_systems :: nat
  og_rows_annotated :: nat

definition derive_for_org :: "capability_store \<Rightarrow> datetime \<Rightarrow> int \<Rightarrow> (capability_store \<times> org_report) res" where
  "derive_for_org st now organization_id =
     (let system_ids = sort (map sy_id (filter (\<lambda>y. sy_organization_id y = organization_id \<and> sy_deleted_at y = None) (kp_systems st)))
      in rbind (derive_systems now system_ids (st, 0)) (\<lambda>(st', n).
           Inr (st', \<lparr>og_systems = length system_ids, og_rows_annotated = n\<rparr>)))"

section \<open>Reading the annotations\<close>

record contributor =
  cn_key :: string
  cn_status :: "string option"
  cn_title :: "string option"

record derivation =
  dn_system_id :: int
  dn_system_name :: string
  dn_authored_status :: string
  dn_derived_status :: "string option"
  dn_derived_at :: "datetime option"
  dn_contributors :: "contributor list"

definition NO_COVERAGE :: string where [vocab]:
  "NO_COVERAGE = ''no_capability_coverage''"

definition cn_label :: "contributor \<Rightarrow> string" where
  "cn_label c = (case cn_title c of Some (x # xs) \<Rightarrow> x # xs | _ \<Rightarrow> cn_key c)"

definition dn_covered :: "derivation \<Rightarrow> bool" where
  "dn_covered d \<longleftrightarrow> dn_derived_status d \<noteq> None"

definition dn_divergent :: "derivation \<Rightarrow> bool" where
  "dn_divergent d \<longleftrightarrow> dn_covered d \<and> dn_derived_status d \<noteq> Some (dn_authored_status d)"

definition dn_state :: "derivation \<Rightarrow> string" where
  "dn_state d = (if \<not> dn_covered d then NO_COVERAGE else if dn_divergent d then ''diverges'' else ''agrees'')"

definition org_systems :: "capability_store \<Rightarrow> int option \<Rightarrow> int list" where
  "org_systems st org_id =
     map sy_id (case org_id of None \<Rightarrow> kp_systems st | Some i \<Rightarrow> filter (\<lambda>y. sy_organization_id y = i) (kp_systems st))"

text \<open>SQL's comparison with NULL is not true, which is what the explicit test repeats.\<close>

definition divergence_count :: "capability_store \<Rightarrow> int option \<Rightarrow> nat" where
  "divergence_count st org_id =
     length (filter (\<lambda>r. im_system_id r \<in> set (org_systems st org_id) \<and> im_derived_status r \<noteq> None \<and>
        (case im_derived_status r of None \<Rightarrow> False | Some d \<Rightarrow> d \<noteq> im_status r)) (kp_implementations st))"

text \<open>\<open>x.get(k) or []\<close>, iterated: a list yields its items, a string its characters, an object its keys;
  a number is not iterable.\<close>

definition json_items :: "json option \<Rightarrow> json list res" where
  "json_items j = (case j of
       None \<Rightarrow> Inr []
     | Some JNull \<Rightarrow> Inr []
     | Some (JList xs) \<Rightarrow> Inr xs
     | Some (JStr s) \<Rightarrow> Inr (map (\<lambda>c. JStr [c]) s)
     | Some (JObj kvs) \<Rightarrow> Inr (map (\<lambda>kv. JStr (fst kv)) kvs)
     | Some (JBool b) \<Rightarrow> if b then Inl (TypeError ''bool object is not iterable'') else Inr []
     | Some (JInt i) \<Rightarrow> if i = 0 then Inr [] else Inl (TypeError ''int object is not iterable''))"

definition json_strings :: "json list \<Rightarrow> string list" where
  "json_strings js = [s. JStr s \<leftarrow> js]"

text \<open>\<open>statuses[k] = v\<close> for the entries with an equals sign, split at the first one.\<close>

definition add_status :: "string \<Rightarrow> (string \<times> string) list \<Rightarrow> (string \<times> string) list" where
  "add_status entry d =
     (if CHR ''='' \<in> set entry
      then AList.update (takeWhile (\<lambda>c. c \<noteq> CHR ''='') entry) (tl (dropWhile (\<lambda>c. c \<noteq> CHR ''='') entry)) d else d)"

definition contributors :: "(string \<times> json) list \<Rightarrow> contributor list res" where
  "contributors derived_from =
     (if derived_from = [] then Inr []
      else rbind (json_items (map_of derived_from ''capabilities'')) (\<lambda>ks.
           rbind (json_items (map_of derived_from ''detail'')) (\<lambda>ds.
             let statuses = fold add_status (json_strings ds) []
             in Inr (map (\<lambda>k. \<lparr>cn_key = k, cn_status = map_of statuses k, cn_title = None\<rparr>) (json_strings ks)))))"

definition resolve_titles :: "capability_store \<Rightarrow> int option \<Rightarrow> contributor list \<Rightarrow> contributor list" where
  "resolve_titles st org_id cs =
     (if cs = [] \<or> org_id = None then cs
      else let titles = fold (\<lambda>c d. AList.update (ca_key c) (ca_title c) d)
             (filter (\<lambda>c. ca_organization_id c = org_id \<and> ca_key c \<in> set (map cn_key cs)) (kp_capabilities st)) []
           in map (\<lambda>c. c\<lparr>cn_title := map_of titles (cn_key c)\<rparr>) cs)"

definition derivation_of :: "capability_store \<Rightarrow> int option \<Rightarrow> implementation \<Rightarrow> system \<Rightarrow> derivation res" where
  "derivation_of st org_id r y = rbind (contributors (im_derived_from r)) (\<lambda>cs.
     Inr \<lparr>dn_system_id = im_system_id r, dn_system_name = sy_name y, dn_authored_status = im_status r,
          dn_derived_status = im_derived_status r, dn_derived_at = im_derived_at r,
          dn_contributors = resolve_titles st org_id cs\<rparr>)"

definition implementation_rows :: "capability_store \<Rightarrow> int option \<Rightarrow> int \<Rightarrow> (implementation \<times> system) list" where
  "implementation_rows st org_id control_id =
     sort_key (\<lambda>(r, y). sy_name y) (sort_key (\<lambda>(r, y). im_system_id r)
       [(r, y). r \<leftarrow> kp_implementations st, im_control_id r = control_id, im_system_id r \<in> set (org_systems st org_id),
          y \<leftarrow> kp_systems st, sy_id y = im_system_id r])"

definition derivations_for_control :: "capability_store \<Rightarrow> int option \<Rightarrow> int \<Rightarrow> derivation list res" where
  "derivations_for_control st org_id control_id =
     rmap (\<lambda>(r, y). derivation_of st org_id r y) (implementation_rows st org_id control_id)"

end
