(* ===== verification/Capability_Laws.thy ===== *)
theory Capability_Laws
  imports Capability
begin

text \<open>
  What holds of the capability ontology: the roll-up never claims more than its capabilities, deriving
  is a function of each row alone that never touches an authored status, and what the readers show is
  what was derived.
\<close>

section \<open>The roll-up\<close>

definition known_status :: "string \<Rightarrow> bool" where
  "known_status s \<longleftrightarrow> s \<in> set IMPL_RANK \<or> s \<in> set EXCLUDED"

definition counted_status :: "string \<Rightarrow> bool" where
  "counted_status s \<longleftrightarrow> s \<in> set IMPL_RANK"

definition worst_status :: "string list \<Rightarrow> string option" where
  "worst_status ss = py_min_by rank_index (filter counted_status ss)"

lemma rank_index_values:
  "rank_index ''not_implemented'' = 0" "rank_index ''planned'' = 1" "rank_index ''partial'' = 2"
  "rank_index ''implemented'' = 3" "rank_index ''inherited'' = 4"
  by (simp_all add: rank_index_def IMPL_RANK_def)

lemma counted_cases:
  "counted_status s \<Longrightarrow> s = ''not_implemented'' \<or> s = ''planned'' \<or> s = ''partial'' \<or> s = ''implemented'' \<or> s = ''inherited''"
  by (simp add: counted_status_def IMPL_RANK_def)

lemma nth_takeWhile_neq: "s \<in> set xs \<Longrightarrow> xs ! length (takeWhile (\<lambda>r. r \<noteq> s) xs) = s"
  by (induction xs) auto

lemma rank_index_inj: "counted_status u \<Longrightarrow> counted_status v \<Longrightarrow> rank_index u = rank_index v \<Longrightarrow> u = v"
proof -
  have at: "IMPL_RANK ! nat (rank_index s) = s" if "counted_status s" for s
    using that unfolding rank_index_def nat_int counted_status_def by (rule nth_takeWhile_neq)
  assume uv: "counted_status u" "counted_status v" "rank_index u = rank_index v"
  have "u = IMPL_RANK ! nat (rank_index u)" by (rule at [OF uv(1), symmetric])
  also have "\<dots> = v" unfolding uv(3) by (rule at [OF uv(2)])
  finally show ?thesis .
qed

interpretation capability: worst_wins rank_index counted_status worst_status
proof unfold_locales
  fix vs :: "string list" and m v
  show "worst_status vs = None \<longleftrightarrow> (\<forall>v \<in> set vs. \<not> counted_status v)"
    by (simp add: worst_status_def filter_empty_conv)
  assume m: "worst_status vs = Some m"
  show "m \<in> set vs \<and> counted_status m"
    using py_min_by_Some [OF m [unfolded worst_status_def]] by simp
  assume "v \<in> set vs" "counted_status v"
  then show "rank_index m \<le> rank_index v"
    using py_min_by_Some [OF m [unfolded worst_status_def]] by simp
qed (rule rank_index_inj)

lemma considered_statuses_known:
  "considered_statuses ss = Inr cs \<longleftrightarrow> list_all known_status ss \<and> cs = filter counted_status ss"
proof (induction ss arbitrary: cs)
  case (Cons s ss)
  have "s \<in> set EXCLUDED \<Longrightarrow> \<not> counted_status s" by (auto simp: counted_status_def vocab)
  then show ?case using Cons
    by (cases "s \<in> set EXCLUDED"; cases "counted_status s")
      (auto simp: known_status_def counted_status_def rbind_eq_Inr)
qed auto

lemma considered_statuses_unknown: "\<not> list_all known_status ss \<Longrightarrow> \<exists>m. considered_statuses ss = Inl (ValueError m)"
proof (induction ss)
  case (Cons s ss)
  show ?case
  proof (cases "known_status s")
    case True
    with Cons show ?thesis by (auto simp: known_status_def)
  qed (simp add: known_status_def)
qed simp

lemma roll_up_eq:
  assumes "list_all known_status ss"
  shows "roll_up ss = Inr (case worst_status ss of None \<Rightarrow> None
     | Some w \<Rightarrow> if w \<notin> set SATISFIED \<and> (\<exists>s \<in> set ss. s \<in> set SATISFIED) then Some ''partial'' else Some w)"
proof -
  have "considered_statuses ss = Inr (filter counted_status ss)"
    using considered_statuses_known [of ss] assms by simp
  moreover have "s \<in> set SATISFIED \<Longrightarrow> counted_status s" for s by (auto simp: counted_status_def vocab)
  ultimately show ?thesis
    by (auto simp: roll_up_def worst_status_def list_ex_iff split: option.splits)
qed



section \<open>Deriving, row by row\<close>

text \<open>What a run does to one row, stated without the loops: the capabilities claiming its control are
  rolled up; an answer is written unless it is there already, no answer clears what is there.\<close>

definition catalog_row :: "capability_store \<Rightarrow> string \<Rightarrow> int option" where
  "catalog_row st v =
     map_option ctl_id (first_row (rev (filter (\<lambda>k. canonical_text (ctl_identifier k) = Some v) (kp_catalog st))))"

definition claims :: "capability_store \<Rightarrow> int \<Rightarrow> int \<Rightarrow> capability list" where
  "claims st system_id ctl =
     map fst (filter (\<lambda>p. \<exists>v. canonical_text (snd p) = Some v \<and> catalog_row st v = Some ctl) (capabilities_for_system st system_id))"

definition refresh_derived :: "datetime \<Rightarrow> string \<Rightarrow> (string \<times> json) list \<Rightarrow> implementation \<Rightarrow> implementation" where
  "refresh_derived now d doc r =
     (if im_derived_status r = Some d \<and> same_dict (im_derived_from r) doc then r else write_derived now d doc r)"

definition annotate :: "capability_store \<Rightarrow> datetime \<Rightarrow> int \<Rightarrow> implementation \<Rightarrow> implementation" where
  "annotate st now system_id r =
     (if im_system_id r \<noteq> system_id then r
      else let caps = claims st system_id (im_control_id r)
           in case roll_up (map ca_status caps) of
                Inr (Some d) \<Rightarrow> refresh_derived now d (contributors_doc caps) r
              | _ \<Rightarrow> if im_derived_status r = None then r else clear_derived r)"

definition capability_ok :: "capability_store \<Rightarrow> bool" where
  "capability_ok st \<longleftrightarrow>
     distinct (map im_id (kp_implementations st)) \<and>
     distinct (map (\<lambda>r. (im_system_id r, im_control_id r)) (kp_implementations st)) \<and>
     distinct (map ctl_id (kp_catalog st)) \<and> list_all (\<lambda>c. known_status (ca_status c)) (kp_capabilities st)"

lemma fold_add_to_group:
  "get_default (fold add_to_group ps g) v [] = get_default g v [] @ map fst (filter (\<lambda>p. canonical_text (snd p) = Some v) ps)"
  "set (map fst (fold add_to_group ps g)) = set (map fst g) \<union> {v. \<exists>p \<in> set ps. canonical_text (snd p) = Some v}"
  "distinct (map fst g) \<Longrightarrow> distinct (map fst (fold add_to_group ps g))"
proof (induction ps arbitrary: g)
  case (Cons p ps)
  { case 1 then show ?case by (simp add: Cons(1) add_to_group_def [of p] split: option.splits) }
  { case 2 then show ?case
      using Cons(2) by (auto simp: add_to_group_def [of p] keys_update split: option.splits) }
  { case 3 then show ?case by (auto intro!: Cons(3) simp: add_to_group_def [of p] distinct_update split: option.splits) }
qed simp_all

lemma first_row_rev_Cons:
  "first_row (rev (filter P (k # ks))) =
     (case first_row (rev (filter P ks)) of Some x \<Rightarrow> Some x | None \<Rightarrow> if P k then Some k else None)"
  by (cases "rev (filter P ks)") auto

lemma map_of_control_rows:
  "map_of (control_rows_by_canonical st ids) v = (if v \<in> set ids then catalog_row st v else None)"
proof -
  let ?f = "\<lambda>k out. case canonical_text (ctl_identifier k) of
       None \<Rightarrow> out | Some v \<Rightarrow> if v \<in> set ids then AList.update v (ctl_id k) out else out"
  have loop: "map_of (fold ?f ks d) v =
      (if v \<in> set ids then (case map_option ctl_id (first_row (rev (filter (\<lambda>k. canonical_text (ctl_identifier k) = Some v) ks))) of
          None \<Rightarrow> map_of d v | Some i \<Rightarrow> Some i) else map_of d v)" for ks d
  proof (induction ks arbitrary: d)
    case (Cons k ks)
    show ?case
      by (simp add: Cons first_row_rev_Cons del: filter.simps split: option.splits)
  qed simp
  show ?thesis
  proof (cases "ids = []")
    case False
    then show ?thesis
      unfolding control_rows_by_canonical_def if_not_P [OF False] loop catalog_row_def by (simp split: option.split)
  qed (simp add: control_rows_by_canonical_def)
qed


text \<open>The capabilities grouped under one canonical identifier, and the row it stands for.\<close>

definition claimed_as :: "capability_store \<Rightarrow> int \<Rightarrow> string \<Rightarrow> capability list" where
  "claimed_as st system_id v =
     map fst (filter (\<lambda>p. canonical_text (snd p) = Some v) (capabilities_for_system st system_id))"

lemma grouped_props:
  "distinct (map fst (grouped_claims st i))"
  "(v, caps) \<in> set (grouped_claims st i) \<longleftrightarrow> caps \<noteq> [] \<and> caps = claimed_as st i v"
proof -
  show d: "distinct (map fst (grouped_claims st i))"
    using fold_add_to_group(3) [of "[]"] by (simp add: grouped_claims_def)
  have get: "get_default (grouped_claims st i) v [] = claimed_as st i v" for v
    using fold_add_to_group(1) [of _ "[]"] by (simp add: grouped_claims_def claimed_as_def get_default_def)
  have keys: "v \<in> set (map fst (grouped_claims st i)) \<longleftrightarrow> claimed_as st i v \<noteq> []" for v
    using fold_add_to_group(2) [of _ "[]"] by (auto simp: grouped_claims_def claimed_as_def filter_empty_conv)
  show "(v, caps) \<in> set (grouped_claims st i) \<longleftrightarrow> caps \<noteq> [] \<and> caps = claimed_as st i v"
  proof
    assume v: "(v, caps) \<in> set (grouped_claims st i)"
    then have "caps = claimed_as st i v" using get [of v] d by (simp add: get_default_def)
    moreover have "v \<in> set (map fst (grouped_claims st i))" using v by force
    ultimately show "caps \<noteq> [] \<and> caps = claimed_as st i v" using keys by simp
  next
    assume c: "caps \<noteq> [] \<and> caps = claimed_as st i v"
    then have "v \<in> set (map fst (grouped_claims st i))" using keys [of v] by blast
    then obtain y where "(v, y) \<in> set (grouped_claims st i)" by auto
    moreover from this have "y = caps" using get [of v] c d by (simp add: get_default_def)
    ultimately show "(v, caps) \<in> set (grouped_claims st i)" by simp
  qed
qed

lemma roll_up_known:
  "list_all (\<lambda>c. known_status (ca_status c)) caps \<Longrightarrow> \<exists>r. roll_up (map ca_status caps) = Inr r"
  by (simp add: roll_up_eq list_all_iff)

lemma claimed_known:
  "capability_ok st \<Longrightarrow> list_all (\<lambda>c. known_status (ca_status c)) (claimed_as st i v)"
  by (auto simp: capability_ok_def claimed_as_def capabilities_for_system_def list_all_iff)

lemma covered_spec:
  assumes "\<And>v caps. (v, caps) \<in> set gs \<Longrightarrow> \<exists>r. roll_up (map ca_status caps) = Inr r"
  shows "\<exists>ids. covered_ctl_ids cids gs = Inr ids \<and>
    set ids = {i. \<exists>v caps d. (v, caps) \<in> set gs \<and> map_of cids v = Some i \<and> roll_up (map ca_status caps) = Inr (Some d)}"
  using assms
proof (induction gs)
  case (Cons g gs)
  obtain v caps where g: "g = (v, caps)" by (cases g)
  obtain ids where ids: "covered_ctl_ids cids gs = Inr ids"
    "set ids = {i. \<exists>v caps d. (v, caps) \<in> set gs \<and> map_of cids v = Some i \<and> roll_up (map ca_status caps) = Inr (Some d)}"
    using Cons by fastforce
  obtain r where r: "roll_up (map ca_status caps) = Inr r" using Cons.prems [of v caps] g by auto
  let ?new = "{j. map_of cids v = Some j \<and> (\<exists>d. roll_up (map ca_status caps) = Inr (Some d))}"
  have split: "{i. \<exists>v caps d. (v, caps) \<in> set (g # gs) \<and> map_of cids v = Some i \<and> roll_up (map ca_status caps) = Inr (Some d)} =
      ?new \<union> set ids"
    unfolding ids(2) g by auto
  show ?case
  proof (cases "map_of cids v")
    case None
    then have "covered_ctl_ids cids (g # gs) = Inr ids" "?new = {}" using ids(1) by (simp_all add: g)
    then show ?thesis unfolding split by auto
  next
    case (Some i)
    have "covered_ctl_ids cids (g # gs) = Inr (if r = None then ids else i # ids)" using ids(1) r Some by (simp add: g)
    moreover have "?new = (if r = None then {} else {i})" using r Some by auto
    ultimately show ?thesis unfolding split by simp
  qed
qed simp

text \<open>What one group does to one row.\<close>

definition matches :: "int \<Rightarrow> (string \<times> int) list \<Rightarrow> string \<Rightarrow> implementation \<Rightarrow> bool" where
  "matches system_id cids v r \<longleftrightarrow> im_system_id r = system_id \<and> map_of cids v = Some (im_control_id r)"

definition apply_group ::
  "datetime \<Rightarrow> int \<Rightarrow> (string \<times> int) list \<Rightarrow> string \<times> capability list \<Rightarrow> implementation \<Rightarrow> implementation" where
  "apply_group now system_id cids g r =
     (if matches system_id cids (fst g) r then
        (case roll_up (map ca_status (snd g)) of
           Inr (Some d) \<Rightarrow> refresh_derived now d (contributors_doc (snd g)) r | _ \<Rightarrow> r)
      else r)"

definition unique_rows :: "implementation list \<Rightarrow> bool" where
  "unique_rows rows \<longleftrightarrow> distinct (map im_id rows) \<and> distinct (map (\<lambda>r. (im_system_id r, im_control_id r)) rows)"

lemma refresh_keeps [simp]:
  "im_id (refresh_derived now d doc r) = im_id r" "im_system_id (refresh_derived now d doc r) = im_system_id r"
  "im_control_id (refresh_derived now d doc r) = im_control_id r" "im_status (refresh_derived now d doc r) = im_status r"
  by (simp_all add: refresh_derived_def write_derived_def)

lemma apply_group_keeps [simp]:
  "im_id (apply_group now i cids g r) = im_id r" "im_system_id (apply_group now i cids g r) = im_system_id r"
  "im_control_id (apply_group now i cids g r) = im_control_id r" "im_status (apply_group now i cids g r) = im_status r"
  by (simp_all add: apply_group_def split: sum.split option.split)

lemma refresh_changes:
  "refresh_derived now d doc r \<noteq> r \<longleftrightarrow> \<not> (im_derived_status r = Some d \<and> same_dict (im_derived_from r) doc)"
proof -
  have "write_derived now d doc r = r \<Longrightarrow> im_derived_status r = Some d \<and> im_derived_from r = doc"
    by (metis implementation.select_convs(5,7) implementation.surjective implementation.update_convs(5,6,7) write_derived_def)
  moreover have "same_dict doc doc" by (simp add: same_dict_def list_all_iff)
  ultimately show ?thesis by (auto simp: refresh_derived_def)
qed

lemma unique_rows_eq:
  "unique_rows rows \<Longrightarrow> r \<in> set rows \<Longrightarrow> q \<in> set rows \<Longrightarrow>
     im_id r = im_id q \<or> im_system_id r = im_system_id q \<and> im_control_id r = im_control_id q \<Longrightarrow> r = q"
  by (auto simp: unique_rows_def distinct_map inj_on_def)

lemma count_single: "distinct xs \<Longrightarrow> x \<in> set xs \<Longrightarrow> count_if (\<lambda>y. y = x) xs = 1"
  by (induction xs) auto

lemma derive_one_spec:
  assumes "unique_rows rows" "\<exists>d. roll_up (map ca_status (snd g)) = Inr d"
  shows "derive_one now i cids g (rows, t) =
    Inr (map (apply_group now i cids g) rows, t + count_if (\<lambda>r. apply_group now i cids g r \<noteq> r) rows)"
proof -
  have same: "?thesis" if "\<And>r. r \<in> set rows \<Longrightarrow> apply_group now i cids g r = r" "derive_one now i cids g (rows, t) = Inr (rows, t)"
  proof -
    have "map (apply_group now i cids g) rows = rows" using that(1) by (simp add: map_idI)
    then show ?thesis using that by simp
  qed
  show ?thesis
  proof (cases "map_of cids (fst g)")
    case None
    then show ?thesis by (intro same) (simp_all add: derive_one_def apply_group_def matches_def)
  next
    case (Some c)
    obtain rolled where rolled: "roll_up (map ca_status (snd g)) = Inr rolled" using assms(2) by blast
    show ?thesis
    proof (cases rolled)
      case None
      then show ?thesis using Some rolled by (intro same) (simp_all add: derive_one_def apply_group_def)
    next
      case (Some d)
      let ?doc = "contributors_doc (snd g)"
      let ?P = "\<lambda>r. im_system_id r = i \<and> im_control_id r = c"
      note c = \<open>map_of cids (fst g) = Some c\<close>
      have ap: "apply_group now i cids g r = (if ?P r then refresh_derived now d ?doc r else r)" for r
        using c rolled Some by (auto simp: apply_group_def matches_def)
      show ?thesis
      proof (cases "first_row (filter ?P rows)")
        case None
        then have "\<And>r. r \<in> set rows \<Longrightarrow> \<not> ?P r" by (simp add: filter_empty_conv)
        then show ?thesis using c rolled Some None by (intro same) (auto simp: derive_one_def ap)
      next
        case (Some q)
        then have q: "q \<in> set rows" "?P q" using first_row_filter [OF Some] by simp_all
        have only: "r \<in> set rows \<Longrightarrow> ?P r \<longleftrightarrow> r = q" for r
          using unique_rows_eq [OF assms(1), of r q] q by auto
        have byid: "r \<in> set rows \<Longrightarrow> im_id r = im_id q \<longleftrightarrow> r = q" for r
          using unique_rows_eq [OF assms(1), of r q] q by auto
        show ?thesis
        proof (cases "im_derived_status q = Some d \<and> same_dict (im_derived_from q) ?doc")
          case True
          then have "refresh_derived now d ?doc q = q" by (simp add: refresh_derived_def)
          then show ?thesis
            using c rolled \<open>rolled = Some d\<close> Some True only by (intro same) (auto simp: derive_one_def ap)
        next
          case False
          have "update_rows (\<lambda>r. im_id r = im_id q) (write_derived now d ?doc) rows = map (apply_group now i cids g) rows"
            unfolding update_rows_def using False only byid by (intro map_cong) (auto simp: ap refresh_derived_def)
          moreover have "distinct rows" using assms(1) by (simp add: unique_rows_def distinct_map)
          then have "count_if (\<lambda>r. apply_group now i cids g r \<noteq> r) rows = 1"
            using count_single [OF _ q(1)] False only refresh_changes [of now d ?doc q]
            by (subst count_if_cong [of rows _ "\<lambda>r. r = q"]) (auto simp: ap)
          ultimately show ?thesis
            using c rolled \<open>rolled = Some d\<close> Some False by (simp add: derive_one_def Let_def)
        qed
      qed
    qed
  qed
qed


lemma unique_rows_map:
  assumes "unique_rows rows" "\<And>r. im_id (f r) = im_id r \<and> im_system_id (f r) = im_system_id r \<and> im_control_id (f r) = im_control_id r"
  shows "unique_rows (map f rows)"
  using assms by (simp add: unique_rows_def comp_def)

lemma count_if_split:
  assumes "\<And>x. x \<in> set xs \<Longrightarrow> \<not> (P x \<and> Q x)" "\<And>x. x \<in> set xs \<Longrightarrow> R x = (P x \<or> Q x)"
  shows "count_if P xs + count_if Q xs = count_if R xs"
  using assms by (induction xs) auto

lemma matches_apply [simp]: "matches i cids v (apply_group now i cids g r) = matches i cids v r"
  by (simp add: matches_def)

lemma fold_apply_none: "(\<And>g. g \<in> set gs \<Longrightarrow> \<not> matches i cids (fst g) r) \<Longrightarrow> fold (apply_group now i cids) gs r = r"
  by (induction gs) (simp_all add: apply_group_def)

definition one_group_each :: "(string \<times> int) list \<Rightarrow> (string \<times> capability list) list \<Rightarrow> bool" where
  "one_group_each cids gs \<longleftrightarrow> distinct (map fst gs) \<and> inj_on (map_of cids) {v. map_of cids v \<noteq> None}"

lemma one_group_matches:
  "one_group_each cids gs \<Longrightarrow> matches i cids u r \<Longrightarrow> matches i cids v r \<Longrightarrow> u = v"
  by (auto simp: one_group_each_def matches_def inj_on_def)

lemma fold_apply_one:
  assumes "one_group_each cids gs" "g \<in> set gs" "matches i cids (fst g) r"
  shows "fold (apply_group now i cids) gs r = apply_group now i cids g r"
  using assms
proof (induction gs)
  case (Cons h gs)
  have o: "one_group_each cids gs" using Cons.prems(1) by (simp add: one_group_each_def)
  show ?case
  proof (cases "g = h")
    case True
    have "\<not> matches i cids (fst g') (apply_group now i cids g r)" if "g' \<in> set gs" for g'
    proof
      assume "matches i cids (fst g') (apply_group now i cids g r)"
      then have "fst g' = fst g" using one_group_matches [OF o _ Cons.prems(3), of "fst g'"] by simp
      then show False using imageI [OF that, of fst] True Cons.prems(1) by (simp add: one_group_each_def)
    qed
    then show ?thesis using True by (simp add: fold_apply_none)
  next
    case False
    then have g: "g \<in> set gs" using Cons.prems(2) by simp
    have "\<not> matches i cids (fst h) r"
    proof
      assume "matches i cids (fst h) r"
      then have "fst h = fst g" using one_group_matches [OF o _ Cons.prems(3)] by simp
      then show False using imageI [OF g, of fst] Cons.prems(1) by (simp add: one_group_each_def)
    qed
    then have "apply_group now i cids h r = r" by (simp add: apply_group_def)
    then show ?thesis using Cons.IH [OF o g Cons.prems(3)] by simp
  qed
qed simp

lemma derive_groups_spec:
  assumes "unique_rows rows" "one_group_each cids gs" "\<And>g. g \<in> set gs \<Longrightarrow> \<exists>d. roll_up (map ca_status (snd g)) = Inr d"
  shows "derive_groups now i cids gs (rows, t) =
    Inr (map (fold (apply_group now i cids) gs) rows,
      t + count_if (\<lambda>r. fold (apply_group now i cids) gs r \<noteq> r) rows)"
  using assms
proof (induction gs arbitrary: rows t)
  case Nil
  then show ?case by simp
next
  case (Cons g gs)
  let ?a = "apply_group now i cids g" and ?f = "fold (apply_group now i cids) gs"
  have o: "one_group_each cids gs" using Cons.prems(2) by (simp add: one_group_each_def)
  have one: "derive_one now i cids g (rows, t) = Inr (map ?a rows, t + count_if (\<lambda>r. ?a r \<noteq> r) rows)"
    using derive_one_spec [OF Cons.prems(1), of g] Cons.prems(3) [of g] by simp
  have rest: "derive_groups now i cids gs (map ?a rows, u) = Inr (map ?f (map ?a rows), u + count_if (\<lambda>r. ?f r \<noteq> r) (map ?a rows))" for u
    by (rule Cons.IH [OF unique_rows_map [OF Cons.prems(1)] o]) (simp_all add: Cons.prems(3))
  have "count_if (\<lambda>r. ?a r \<noteq> r) rows + count_if (\<lambda>r. ?f (?a r) \<noteq> ?a r) rows = count_if (\<lambda>r. ?f (?a r) \<noteq> r) rows"
  proof (rule count_if_split)
    fix r
    have "?f (?a r) = ?a r \<or> ?a r = r"
    proof (cases "matches i cids (fst g) r")
      case True
      have "fold (apply_group now i cids) (g # gs) r = ?a r"
        by (rule fold_apply_one [OF Cons.prems(2) _ True]) simp
      then show ?thesis by simp
    qed (simp add: apply_group_def)
    then show "\<not> (?a r \<noteq> r \<and> ?f (?a r) \<noteq> ?a r)" "(?f (?a r) \<noteq> r) = (?a r \<noteq> r \<or> ?f (?a r) \<noteq> ?a r)" by auto
  qed
  then show ?case using one rest by (simp add: count_if_map comp_def)
qed

lemma catalog_row_inj:
  assumes "capability_ok st" "catalog_row st u = Some c" "catalog_row st v = Some c"
  shows "u = v"
proof -
  obtain k l where k: "k \<in> set (kp_catalog st)" "canonical_text (ctl_identifier k) = Some u" "ctl_id k = c"
    and l: "l \<in> set (kp_catalog st)" "canonical_text (ctl_identifier l) = Some v" "ctl_id l = c"
    using assms(2,3) by (auto simp: catalog_row_def dest!: first_row_in)
  then have "k = l" using assms(1) by (auto simp: capability_ok_def distinct_map inj_on_def)
  then show ?thesis using k l by simp
qed

lemma claims_of_group:
  assumes "capability_ok st" "catalog_row st v = Some c"
  shows "claims st i c = claimed_as st i v"
proof -
  have "(\<exists>u. canonical_text x = Some u \<and> catalog_row st u = Some c) \<longleftrightarrow> canonical_text x = Some v" for x
  proof
    assume "\<exists>u. canonical_text x = Some u \<and> catalog_row st u = Some c"
    then obtain u where u: "canonical_text x = Some u" "catalog_row st u = Some c" by blast
    then have "u = v" using catalog_row_inj [OF assms(1) u(2) assms(2)] by simp
    then show "canonical_text x = Some v" using u(1) by simp
  qed (use assms(2) in blast)
  then show ?thesis by (simp add: claims_def claimed_as_def)
qed

lemma derive_pointwise:
  assumes "capability_ok st"
  shows "derive_for_system st now i =
    Inr (st\<lparr>kp_implementations := map (annotate st now i) (kp_implementations st)\<rparr>,
      count_if (\<lambda>r. annotate st now i r \<noteq> r) (kp_implementations st))"
proof -
  let ?gs = "grouped_claims st i" and ?rows = "kp_implementations st"
  let ?cids = "control_rows_by_canonical st (map fst ?gs)"
  have known: "\<exists>d. roll_up (map ca_status (snd g)) = Inr d" if "g \<in> set ?gs" for g
    using that grouped_props(2) [of "fst g" "snd g" st i] claimed_known [OF assms] by (intro roll_up_known) simp
  have cids: "map_of ?cids v = (if claimed_as st i v \<noteq> [] then catalog_row st v else None)" for v
    using grouped_props(2) [of v _ st i] by (force simp: map_of_control_rows)
  have each: "one_group_each ?cids ?gs"
    using grouped_props(1) catalog_row_inj [OF assms] by (auto simp: one_group_each_def inj_on_def cids split: if_splits)
  obtain ids where ids: "covered_ctl_ids ?cids ?gs = Inr ids"
    "set ids = {c. \<exists>v caps d. (v, caps) \<in> set ?gs \<and> map_of ?cids v = Some c \<and> roll_up (map ca_status caps) = Inr (Some d)}"
    using covered_spec [of ?gs ?cids] known by force
  let ?stale = "stale_row i ids"
  let ?c = "\<lambda>r. if ?stale r then clear_derived r else r" and ?f = "fold (apply_group now i ?cids) ?gs"
  have u: "unique_rows ?rows" using assms by (simp add: capability_ok_def unique_rows_def)
  have row: "?f (?c r) = annotate st now i r \<and> \<not> (?stale r \<and> ?f (?c r) \<noteq> ?c r)" for r
  proof (cases "\<exists>v. im_system_id r = i \<and> claimed_as st i v \<noteq> [] \<and> catalog_row st v = Some (im_control_id r)")
    case True
    then obtain v where v: "im_system_id r = i" "claimed_as st i v \<noteq> []" "catalog_row st v = Some (im_control_id r)" by blast
    let ?g = "(v, claimed_as st i v)"
    have g: "?g \<in> set ?gs" using v(2) by (simp add: grouped_props(2))
    have m: "matches i ?cids (fst ?g) q" if "im_system_id q = i" "im_control_id q = im_control_id r" for q
      using v that by (simp add: matches_def cids)
    have f: "?f q = apply_group now i ?cids ?g q" if "im_system_id q = i" "im_control_id q = im_control_id r" for q
      by (rule fold_apply_one [OF each g m]) (use that in simp_all)
    obtain d where d: "roll_up (map ca_status (claimed_as st i v)) = Inr d" using known [OF g] by auto
    have c: "im_system_id (?c r) = i" "im_control_id (?c r) = im_control_id r" using v(1) by (simp_all add: clear_derived_def)
    have inids: "im_control_id r \<in> set ids \<longleftrightarrow> d \<noteq> None"
    proof -
      have xv: "x = v" if "map_of ?cids x = Some (im_control_id r)" for x
        using that catalog_row_inj [OF assms _ v(3)] by (simp add: cids split: if_splits)
      have here: "map_of ?cids v = Some (im_control_id r)" using v by (simp add: cids)
      have "im_control_id r \<in> set ids \<longleftrightarrow> (\<exists>e. roll_up (map ca_status (claimed_as st i v)) = Inr (Some e))"
      proof
        assume "im_control_id r \<in> set ids"
        then obtain x caps e where x: "(x, caps) \<in> set ?gs" "map_of ?cids x = Some (im_control_id r)"
          "roll_up (map ca_status caps) = Inr (Some e)" unfolding ids(2) by blast
        then have "caps = claimed_as st i v" using xv [OF x(2)] by (simp add: grouped_props(2))
        then show "\<exists>e. roll_up (map ca_status (claimed_as st i v)) = Inr (Some e)" using x(3) by simp
      qed (use g here in \<open>unfold ids(2), blast\<close>)
      then show ?thesis using d by simp
    qed
    show ?thesis
      using d v inids m [OF c] m [of r] unfolding f [OF c] annotate_def claims_of_group [OF assms v(3)]
      by (cases d) (auto simp: apply_group_def stale_row_def clear_derived_def)
  next
    case False
    have "\<not> matches i ?cids (fst g) q" if "im_system_id q = im_system_id r" "im_control_id q = im_control_id r" for q g
      using False that by (auto simp: matches_def cids split: if_splits)
    then have f: "?f q = q" if "im_system_id q = im_system_id r" "im_control_id q = im_control_id r" for q
      using that by (intro fold_apply_none) blast
    have "?f (?c r) = ?c r" by (rule f) (simp_all add: clear_derived_def)
    moreover have "annotate st now i r = ?c r"
    proof (cases "im_system_id r = i")
      case True
      have "claims st i (im_control_id r) = []"
        using False True by (auto simp: claims_def claimed_as_def filter_empty_conv)
      moreover have "im_control_id r \<notin> set ids"
        using False True by (auto simp: ids(2) cids split: if_splits)
      ultimately show ?thesis using True by (simp add: annotate_def roll_up_def stale_row_def)
    qed (simp add: annotate_def stale_row_def)
    ultimately show ?thesis by simp
  qed
  have cl: "update_rows ?stale clear_derived ?rows = map ?c ?rows" by (simp add: update_rows_def)
  have uc: "unique_rows (map ?c ?rows)" by (rule unique_rows_map [OF u]) (simp add: clear_derived_def)
  have changed: "clear_derived r \<noteq> r" if "?stale r" for r
  proof
    assume "clear_derived r = r"
    then have "im_derived_status r = None" by (metis clear_derived_def implementation.select_convs(5) implementation.surjective implementation.update_convs(5,6,7))
    then show False using that by (simp add: stale_row_def)
  qed
  have "count_if ?stale ?rows + count_if (\<lambda>r. ?f (?c r) \<noteq> ?c r) ?rows = count_if (\<lambda>r. annotate st now i r \<noteq> r) ?rows"
  proof (rule count_if_split)
    fix r
    show "\<not> (?stale r \<and> ?f (?c r) \<noteq> ?c r)" using row [of r] by blast
    show "(annotate st now i r \<noteq> r) = (?stale r \<or> ?f (?c r) \<noteq> ?c r)"
      using row [of r] changed [of r] by (cases "?stale r") auto
  qed
  then show ?thesis
    using derive_groups_spec [OF uc each known] ids(1) row
    by (simp add: derive_for_system_def Let_def cl count_if_map comp_def)
qed

text \<open>Deriving is the function \<open>annotate\<close> on each row. On a store with unique keys and known
  statuses a run succeeds, whatever order the capabilities, groups and rows come in: every
  implementation row becomes what its own control's capabilities say of it, every other table and row
  is unchanged, and the number returned is the number of rows that changed.\<close>

theorem derive_is_row_by_row:
  assumes "capability_ok st"
  shows "derive_for_system st now i =
    Inr (st\<lparr>kp_implementations := map (annotate st now i) (kp_implementations st)\<rparr>,
      count_if (\<lambda>r. annotate st now i r \<noteq> r) (kp_implementations st))"
  by (rule derive_pointwise [OF assms])

lemma same_dict_refl [simp]: "same_dict d d"
  by (simp add: same_dict_def list_all_iff)

lemma annotate_keeps [simp]:
  "im_id (annotate st now i r) = im_id r" "im_system_id (annotate st now i r) = im_system_id r"
  "im_control_id (annotate st now i r) = im_control_id r" "im_status (annotate st now i r) = im_status r"
  by (simp_all add: annotate_def Let_def clear_derived_def split: sum.split option.split)

lemma annotate_other: "im_system_id r \<noteq> i \<Longrightarrow> annotate st now i r = r"
  by (simp add: annotate_def)

lemma claims_cong [simp]: "claims (st\<lparr>kp_implementations := rs\<rparr>) i c = claims st i c"
proof -
  have "catalog_row (st\<lparr>kp_implementations := rs\<rparr>) = catalog_row st" by (rule ext) (simp add: catalog_row_def)
  moreover have "capabilities_for_system (st\<lparr>kp_implementations := rs\<rparr>) = capabilities_for_system st"
    by (rule ext) (simp add: capabilities_for_system_def cong: if_cong)
  ultimately show ?thesis by (simp only: claims_def)
qed

lemma annotate_again: "annotate (st\<lparr>kp_implementations := rs\<rparr>) later i (annotate st now i r) = annotate st now i r"
proof (cases "im_system_id r = i")
  case True
  let ?caps = "claims st i (im_control_id r)"
  show ?thesis
  proof (cases "\<exists>d. roll_up (map ca_status ?caps) = Inr (Some d)")
    case True
    then obtain d where d: "roll_up (map ca_status ?caps) = Inr (Some d)" by blast
    then have "annotate st now i r = refresh_derived now d (contributors_doc ?caps) r"
      using \<open>im_system_id r = i\<close> by (simp add: annotate_def)
    moreover have "annotate (st\<lparr>kp_implementations := rs\<rparr>) later i q = refresh_derived later d (contributors_doc ?caps) q"
      if "im_system_id q = i" "im_control_id q = im_control_id r" for q
      using d that by (simp add: annotate_def)
    ultimately show ?thesis using True \<open>im_system_id r = i\<close> by (simp add: refresh_derived_def write_derived_def)
  next
    case False
    then have "annotate s t i q = (if im_derived_status q = None then q else clear_derived q)"
      if "im_system_id q = i" "claims s i (im_control_id q) = ?caps" for q s t
      using that False by (auto simp: annotate_def Let_def split: sum.split option.split)
    then show ?thesis using True by (simp add: clear_derived_def)
  qed
qed (simp add: annotate_def)

text \<open>Deriving annotates and never asserts. A run creates and deletes no implementation row and
  changes no authored status, leaves the other systems' rows and every other table alone, and a
  second run at any later time changes nothing and reports zero.\<close>

theorem derive_never_asserts:
  assumes "capability_ok st" "derive_for_system st now i = Inr (st', n)"
  shows "map (\<lambda>r. (im_id r, im_system_id r, im_control_id r, im_status r)) (kp_implementations st') =
      map (\<lambda>r. (im_id r, im_system_id r, im_control_id r, im_status r)) (kp_implementations st) \<and>
    filter (\<lambda>r. im_system_id r \<noteq> i) (kp_implementations st') = filter (\<lambda>r. im_system_id r \<noteq> i) (kp_implementations st) \<and>
    st'\<lparr>kp_implementations := kp_implementations st\<rparr> = st \<and> derive_for_system st' later i = Inr (st', 0)"
proof -
  have st': "st' = st\<lparr>kp_implementations := map (annotate st now i) (kp_implementations st)\<rparr>"
    using derive_pointwise [OF assms(1), of now i] assms(2) by simp
  have ok: "capability_ok st'" using assms(1) by (simp add: st' capability_ok_def comp_def)
  have again: "annotate st' later i (annotate st now i r) = annotate st now i r" for r
    unfolding st' by (rule annotate_again)
  have "map (annotate st' later i) (kp_implementations st') = kp_implementations st'"
    by (simp add: st' again [unfolded st'])
  moreover have "count_if (\<lambda>r. annotate st' later i r \<noteq> r) (kp_implementations st') = 0"
    using again by (simp add: st' count_if_map)
  ultimately have "derive_for_system st' later i = Inr (st', 0)"
    using derive_pointwise [OF ok, of later i] by simp
  moreover have "filter (\<lambda>r. im_system_id r \<noteq> i) (map (annotate st now i) rs) = filter (\<lambda>r. im_system_id r \<noteq> i) rs" for rs
    by (induction rs) (simp_all add: annotate_other)
  ultimately show ?thesis by (simp add: st' comp_def)
qed

section \<open>What the readers show\<close>

lemma before_equals:
  assumes "CHR ''='' \<notin> set k"
  shows "takeWhile (\<lambda>c. c \<noteq> CHR ''='') (k @ CHR ''='' # s) = k" "dropWhile (\<lambda>c. c \<noteq> CHR ''='') (k @ CHR ''='' # s) = CHR ''='' # s"
  using assms by (auto simp: takeWhile_append dropWhile_append)

lemma add_status_entry: "CHR ''='' \<notin> set k \<Longrightarrow> add_status (k @ CHR ''='' # s) d = AList.update k s d"
  by (simp add: add_status_def before_equals)

lemma fold_add_status:
  assumes "\<And>e. e \<in> set es \<Longrightarrow> \<exists>c \<in> set caps. e = ca_key c @ CHR ''='' # ca_status c"
    and "\<And>c. c \<in> set caps \<Longrightarrow> CHR ''='' \<notin> set (ca_key c)"
    and "\<And>c c'. c \<in> set caps \<Longrightarrow> c' \<in> set caps \<Longrightarrow> ca_key c = ca_key c' \<Longrightarrow> ca_status c = ca_status c'"
    and "c \<in> set caps" "map_of d (ca_key c) = Some (ca_status c) \<or> ca_key c @ CHR ''='' # ca_status c \<in> set es"
  shows "map_of (fold add_status es d) (ca_key c) = Some (ca_status c)"
  using assms(1,5)
proof (induction es arbitrary: d)
  case (Cons e es)
  obtain c' where c': "c' \<in> set caps" "e = ca_key c' @ CHR ''='' # ca_status c'" using Cons.prems(1) [of e] by auto
  have e: "add_status e d = AList.update (ca_key c') (ca_status c') d"
    using add_status_entry [OF assms(2) [OF c'(1)]] c'(2) by simp
  have "map_of (add_status e d) (ca_key c) = Some (ca_status c) \<or> ca_key c @ CHR ''='' # ca_status c \<in> set es"
  proof (cases "ca_key c = ca_key c'")
    case True
    then show ?thesis using assms(3) [OF assms(4) c'(1)] by (simp add: e)
  next
    case False
    then have "ca_key c @ CHR ''='' # ca_status c \<noteq> e"
      using c'(2) before_equals(1) [OF assms(2) [OF assms(4)]] before_equals(1) [OF assms(2) [OF c'(1)]] by metis
    then show ?thesis using False Cons.prems(2) by (auto simp: e)
  qed
  then show ?case using Cons.IH [of "add_status e d"] Cons.prems(1) by simp
qed simp

lemma contributors_of_doc:
  assumes "same_dict d (contributors_doc caps)"
    and "\<And>c. c \<in> set caps \<Longrightarrow> CHR ''='' \<notin> set (ca_key c)"
    and "\<And>c c'. c \<in> set caps \<Longrightarrow> c' \<in> set caps \<Longrightarrow> ca_key c = ca_key c' \<Longrightarrow> ca_status c = ca_status c'"
  shows "contributors d = Inr (map (\<lambda>c. \<lparr>cn_key = ca_key c, cn_status = Some (ca_status c), cn_title = None\<rparr>) (sort_key ca_key caps))"
proof -
  let ?es = "sort (map (\<lambda>c. fstr [ca_key c, ''='', ca_status c]) caps)"
  have d: "map_of d ''capabilities'' = Some (JList (map JStr (sort (map ca_key caps))))"
    "map_of d ''detail'' = Some (JList (map JStr ?es))"
    using assms(1) by (simp_all add: same_dict_def contributors_doc_def)
  have ne: "d \<noteq> []" using d by auto
  have strs: "json_strings (map JStr xs) = xs" for xs by (induction xs) (simp_all add: json_strings_def)
  have st: "map_of (fold add_status ?es []) (ca_key c) = Some (ca_status c)" if "c \<in> set caps" for c
    by (rule fold_add_status [OF _ assms(2,3) that]) (use that in \<open>auto simp: fstr_def\<close>)
  have "sort (map ca_key caps) = map ca_key (sort_key ca_key caps)"
    by (simp add: sort_key_of_map)
  then have ks: "map_of d ''capabilities'' = Some (JList (map JStr (map ca_key (sort_key ca_key caps))))" using d(1) by simp
  show ?thesis
    unfolding contributors_def if_not_P [OF ne] ks d(2) json_items_def option.case json.case rbind_simps strs Let_def
    using st by simp
qed

lemma refresh_result:
  "im_derived_status (refresh_derived now d doc q) = Some d" "same_dict (im_derived_from (refresh_derived now d doc q)) doc"
  by (simp_all add: refresh_derived_def write_derived_def)

lemma annotate_derived:
  assumes "im_system_id q = i" "im_derived_status (annotate st now i q) \<noteq> None"
  shows "\<exists>d. roll_up (map ca_status (claims st i (im_control_id q))) = Inr (Some d) \<and>
    annotate st now i q = refresh_derived now d (contributors_doc (claims st i (im_control_id q))) q"
  using assms by (simp add: annotate_def Let_def clear_derived_def split: sum.splits option.splits if_splits)

text \<open>A derivation names its sources. After a run, the contributors read back from an annotated row
  are exactly the capabilities that claim its control, in key order and each with the status it
  rolled up, when keys are unique within an organization and hold no equals sign.\<close>

theorem derivation_names_its_sources:
  assumes "capability_ok st" "distinct (map sy_id (kp_systems st))"
    "\<And>c. c \<in> set (kp_capabilities st) \<Longrightarrow> CHR ''='' \<notin> set (ca_key c)"
    "\<And>c c'. c \<in> set (kp_capabilities st) \<Longrightarrow> c' \<in> set (kp_capabilities st) \<Longrightarrow>
       ca_organization_id c = ca_organization_id c' \<Longrightarrow> ca_key c = ca_key c' \<Longrightarrow> c = c'"
    "derive_for_system st now i = Inr (st', n)" "r \<in> set (kp_implementations st')" "im_system_id r = i"
    "im_derived_status r \<noteq> None"
  shows "contributors (im_derived_from r) =
      Inr (map (\<lambda>c. \<lparr>cn_key = ca_key c, cn_status = Some (ca_status c), cn_title = None\<rparr>)
        (sort_key ca_key (claims st i (im_control_id r)))) \<and>
    roll_up (map ca_status (claims st i (im_control_id r))) = Inr (im_derived_status r)"
proof -
  have st': "st' = st\<lparr>kp_implementations := map (annotate st now i) (kp_implementations st)\<rparr>"
    using derive_pointwise [OF assms(1), of now i] assms(5) by simp
  then obtain q where q: "r = annotate st now i q" using assms(6) by auto
  let ?caps = "claims st i (im_control_id r)"
  have i: "im_system_id q = i" "im_control_id q = im_control_id r" using assms(7) q by simp_all
  have "\<exists>d. roll_up (map ca_status ?caps) = Inr (Some d) \<and> r = refresh_derived now d (contributors_doc ?caps) q"
    using annotate_derived [OF i(1), of st now] assms(8) by (simp only: i(2) q [symmetric] simp_thms)
  then obtain d where d: "roll_up (map ca_status ?caps) = Inr (Some d)" "r = refresh_derived now d (contributors_doc ?caps) q"
    by blast
  have r: "same_dict (im_derived_from r) (contributors_doc ?caps)" "im_derived_status r = Some d"
    using refresh_result [of now d "contributors_doc ?caps" q] by (simp_all only: d(2) [symmetric])
  have caps: "c \<in> set (kp_capabilities st) \<and> (\<exists>y \<in> set (kp_systems st). sy_id y = i \<and> ca_organization_id c = Some (sy_organization_id y))"
    if "c \<in> set ?caps" for c
    using that by (auto simp: claims_def capabilities_for_system_def split: if_splits)
  have org: "ca_organization_id c = ca_organization_id c'" if c: "c \<in> set ?caps" "c' \<in> set ?caps" for c c'
  proof -
    obtain y y' where "y \<in> set (kp_systems st)" "sy_id y = i" "ca_organization_id c = Some (sy_organization_id y)"
      "y' \<in> set (kp_systems st)" "sy_id y' = i" "ca_organization_id c' = Some (sy_organization_id y')"
      using caps [OF c(1)] caps [OF c(2)] by blast
    moreover from this have "y = y'" using assms(2) by (auto simp: distinct_map inj_on_def)
    ultimately show ?thesis by simp
  qed
  have "contributors (im_derived_from r) =
      Inr (map (\<lambda>c. \<lparr>cn_key = ca_key c, cn_status = Some (ca_status c), cn_title = None\<rparr>) (sort_key ca_key ?caps))"
  proof (rule contributors_of_doc [OF r(1)])
    show "CHR ''='' \<notin> set (ca_key c)" if "c \<in> set ?caps" for c using assms(3) caps [OF that] by blast
    show "ca_status c = ca_status c'" if "c \<in> set ?caps" "c' \<in> set ?caps" "ca_key c = ca_key c'" for c c'
      using assms(4) [of c c'] caps [OF that(1)] caps [OF that(2)] org [OF that(1,2)] that(3) by simp
  qed
  then show ?thesis using d r(2) by simp
qed

lemma rmap_all2: "rmap f xs = Inr ys \<Longrightarrow> list_all2 (\<lambda>x y. f x = Inr y) xs ys"
  by (induction xs arbitrary: ys) (auto simp: rbind_eq_Inr)

lemma count_all2:
  "list_all2 R xs ys \<Longrightarrow> (\<And>x y. R x y \<Longrightarrow> P x = Q y) \<Longrightarrow> length (filter P xs) = length (filter Q ys)"
  by (induction rule: list_all2_induct) auto

definition diverging :: "implementation \<Rightarrow> bool" where
  "diverging r \<longleftrightarrow> im_derived_status r \<noteq> None \<and> im_derived_status r \<noteq> Some (im_status r)"

lemma divergence_count_eq:
  "divergence_count st org = length (filter (\<lambda>r. im_system_id r \<in> set (org_systems st org) \<and> diverging r) (kp_implementations st))"
  unfolding divergence_count_def diverging_def
  by (intro arg_cong [where f = length] filter_cong) (auto split: option.splits)

lemma org_systems_cong [simp]: "org_systems (st\<lparr>kp_implementations := rs\<rparr>) org = org_systems st org"
  by (simp add: org_systems_def split: option.split)

lemma one_system:
  assumes "distinct (map sy_id ys)" "s \<in> sy_id ` set ys"
  obtains y where "filter (\<lambda>y. sy_id y = s) ys = [y]"
  using assms
proof (induction ys arbitrary: thesis)
  case (Cons y ys)
  show ?case
  proof (cases "sy_id y = s")
    case True
    then have "s \<notin> sy_id ` set ys" using Cons.prems(2) by auto
    then have "filter (\<lambda>y. sy_id y = s) ys = []" by (auto simp: filter_empty_conv)
    then show ?thesis using True Cons.prems(1) by simp
  next
    case False
    then have "s \<in> sy_id ` set ys" using Cons.prems(3) by auto
    then obtain z where "filter (\<lambda>y. sy_id y = s) ys = [z]" using Cons.IH Cons.prems(2) by auto
    then show ?thesis using False Cons.prems(1) by simp
  qed
qed simp

text \<open>The page and the count agree. For one control, the derivations shown as diverging are as many
  as the implementations the count counts, and a control no capability speaks of is shown as
  uncovered and counted as no divergence.\<close>

theorem divergence_page_matches_count:
  assumes "distinct (map sy_id (kp_systems st))"
    "\<And>r. r \<in> set (kp_implementations st) \<Longrightarrow> im_system_id r \<in> sy_id ` set (kp_systems st)"
    "derivations_for_control st org ctl = Inr ds"
  shows "length (filter (\<lambda>d. dn_state d = ''diverges'') ds) =
      divergence_count (st\<lparr>kp_implementations := filter (\<lambda>r. im_control_id r = ctl) (kp_implementations st)\<rparr>) org \<and>
    list_all (\<lambda>d. (dn_state d = NO_COVERAGE) = (dn_derived_status d = None)) ds"
proof -
  let ?rows = "[(r, y). r \<leftarrow> kp_implementations st, im_control_id r = ctl, im_system_id r \<in> set (org_systems st org),
          y \<leftarrow> kp_systems st, sy_id y = im_system_id r]"
  let ?P = "\<lambda>ry. diverging (fst ry)"
  have state: "dn_state d = ''diverges'' \<longleftrightarrow> dn_divergent d" "dn_state d = NO_COVERAGE \<longleftrightarrow> \<not> dn_covered d" for d
    by (simp_all add: dn_state_def dn_divergent_def NO_COVERAGE_def)
  have all2: "list_all2 (\<lambda>(r, y) d. derivation_of st org r y = Inr d) (implementation_rows st org ctl) ds"
    using rmap_all2 [OF assms(3) [unfolded derivations_for_control_def]] by (simp add: case_prod_unfold)
  have "length (filter ?P (implementation_rows st org ctl)) = length (filter dn_divergent ds)"
    by (rule count_all2 [OF all2])
      (auto simp: derivation_of_def rbind_eq_Inr diverging_def dn_divergent_def dn_covered_def)
  moreover have "length (filter ?P (implementation_rows st org ctl)) = length (filter ?P ?rows)"
    unfolding implementation_rows_def filter_sort length_sort by (rule refl)
  moreover have loop: "length (filter ?P (concat (map (\<lambda>r. if im_control_id r = ctl
        then if im_system_id r \<in> S then concat (map (\<lambda>y. if sy_id y = im_system_id r then [(r, y)] else []) (kp_systems st)) else []
        else []) rs))) = length (filter (\<lambda>r. im_system_id r \<in> S \<and> diverging r) (filter (\<lambda>r. im_control_id r = ctl) rs))"
    if "set rs \<subseteq> set (kp_implementations st)" for rs S
    using that
  proof (induction rs)
    case (Cons r rs)
    then have "im_system_id r \<in> sy_id ` set (kp_systems st)" using assms(2) by simp
    then obtain y where y: "filter (\<lambda>y. sy_id y = im_system_id r) (kp_systems st) = [y]" by (rule one_system [OF assms(1)])
    have pairs: "concat (map (\<lambda>y. if sy_id y = im_system_id r then [(r, y)] else []) ys) = map (Pair r) (filter (\<lambda>y. sy_id y = im_system_id r) ys)"
      for ys by (induction ys) auto
    have "concat (map (\<lambda>y. if sy_id y = im_system_id r then [(r, y)] else []) (kp_systems st)) = [(r, y)]"
      unfolding pairs y by simp
    then show ?case using Cons by simp
  qed simp
  ultimately have "length (filter dn_divergent ds) =
      divergence_count (st\<lparr>kp_implementations := filter (\<lambda>r. im_control_id r = ctl) (kp_implementations st)\<rparr>) org"
    using loop [OF subset_refl, of "set (org_systems st org)"] by (simp add: divergence_count_eq)
  then show ?thesis unfolding state by (simp add: dn_covered_def list_all_iff)
qed

section \<open>A sample\<close>

definition sample_capabilities :: capability_store where
  "sample_capabilities = \<lparr>
     kp_systems = [\<lparr>sy_id = 1, sy_organization_id = 1, sy_name = ''core'', sy_deleted_at = None\<rparr>],
     kp_catalog = [\<lparr>ctl_id = 10, ctl_identifier = ''AC-01''\<rparr>],
     kp_capabilities = [\<lparr>ca_id = 3, ca_organization_id = Some 1, ca_key = ''mfa'', ca_title = ''MFA'', ca_status = ''implemented''\<rparr>],
     kp_control_edges = [\<lparr>ce_capability_id = 3, ce_control_id = ''AC-1''\<rparr>],
     kp_component_edges = [\<lparr>cb_capability_id = 3, cb_component_id = 5\<rparr>],
     kp_components = [\<lparr>cm_id = 5, cm_system_id = 1\<rparr>],
     kp_implementations = [\<lparr>im_id = 7, im_system_id = 1, im_control_id = 10, im_status = ''planned'',
       im_derived_status = None, im_derived_at = None, im_derived_from = []\<rparr>]\<rparr>"

lemma sample_ids: "canonical_text ''AC-01'' = Some ''AC-1''" "canonical_text ''AC-1'' = Some ''AC-1''"
proof -
  have one: "str_of_nat 1 = ''1''" by (subst str_of_nat.simps) (simp add: digit_char_def char_of_def bit_0)
  have alpha: "is_alpha CHR ''A''" "is_alpha CHR ''C''" "upper ''AC'' = ''AC''"
    by (simp_all add: is_alpha_def upper_def upper_char_def is_upper_def is_lower_def in_range_def)
  show "canonical_text ''AC-01'' = Some ''AC-1''" "canonical_text ''AC-1'' = Some ''AC-1''"
    using canonicalize_spelled [of "[]" "CHR ''A''" "CHR ''C''" 1 "[]" "[]" 1]
      canonicalize_spelled [of "[]" "CHR ''A''" "CHR ''C''" 1 "[]" "[]" 0] one alpha
    by (simp_all add: canonical_text_def canonical_value_def)
qed

lemma sample_capability_ok: "capability_ok sample_capabilities"
  by (simp add: capability_ok_def sample_capabilities_def known_status_def IMPL_RANK_def)

definition sample_annotated :: implementation where
  "sample_annotated = \<lparr>im_id = 7, im_system_id = 1, im_control_id = 10, im_status = ''planned'',
     im_derived_status = Some ''implemented'', im_derived_at = Some 9,
     im_derived_from = [(''capabilities'', JList [JStr ''mfa'']), (''detail'', JList [JStr ''mfa=implemented''])]\<rparr>"

lemma sample_annotate: "map (annotate sample_capabilities 9 1) (kp_implementations sample_capabilities) = [sample_annotated]"
proof -
  have "claims sample_capabilities 1 10 = kp_capabilities sample_capabilities"
    by (simp add: claims_def capabilities_for_system_def catalog_row_def sample_capabilities_def sample_ids)
  then show ?thesis
    by (simp add: annotate_def sample_capabilities_def roll_up_def vocab rank_index_def refresh_derived_def
        write_derived_def contributors_doc_def sample_annotated_def fstr_def)
qed

lemma sample_derive:
  "derive_for_system sample_capabilities 9 1 = Inr (sample_capabilities\<lparr>kp_implementations := [sample_annotated]\<rparr>, 1)"
proof -
  have "count_if (\<lambda>r. annotate sample_capabilities 9 1 r \<noteq> r) (kp_implementations sample_capabilities) = 1"
    using sample_annotate by (simp add: sample_capabilities_def sample_annotated_def)
  then show ?thesis using derive_pointwise [OF sample_capability_ok, of 9 1] sample_annotate by simp
qed

theorem derive_is_row_by_row_witness:
  "derive_for_system sample_capabilities 9 1 =
     Inr (sample_capabilities\<lparr>kp_implementations := map (annotate sample_capabilities 9 1) (kp_implementations sample_capabilities)\<rparr>,
       count_if (\<lambda>r. annotate sample_capabilities 9 1 r \<noteq> r) (kp_implementations sample_capabilities)) \<and>
   map im_derived_status (map (annotate sample_capabilities 9 1) (kp_implementations sample_capabilities)) = [Some ''implemented'']"
  using derive_is_row_by_row [OF sample_capability_ok, of 9 1] by (simp only: sample_annotate) (simp add: sample_annotated_def)

theorem derive_never_asserts_witness:
  "derive_for_system (sample_capabilities\<lparr>kp_implementations := [sample_annotated]\<rparr>) 12 1 =
     Inr (sample_capabilities\<lparr>kp_implementations := [sample_annotated]\<rparr>, 0) \<and> im_status sample_annotated = ''planned''"
  using derive_never_asserts [OF sample_capability_ok sample_derive, of 12] by (simp add: sample_annotated_def)

theorem derivation_names_its_sources_witness:
  "contributors (im_derived_from sample_annotated) =
     Inr [\<lparr>cn_key = ''mfa'', cn_status = Some ''implemented'', cn_title = None\<rparr>]"
proof -
  have "claims sample_capabilities 1 10 = kp_capabilities sample_capabilities"
    by (simp add: claims_def capabilities_for_system_def catalog_row_def sample_capabilities_def sample_ids)
  moreover have "contributors (im_derived_from sample_annotated) =
      Inr (map (\<lambda>c. \<lparr>cn_key = ca_key c, cn_status = Some (ca_status c), cn_title = None\<rparr>)
        (sort_key ca_key (claims sample_capabilities 1 (im_control_id sample_annotated)))) \<and>
    roll_up (map ca_status (claims sample_capabilities 1 (im_control_id sample_annotated))) = Inr (im_derived_status sample_annotated)"
    by (rule derivation_names_its_sources [OF sample_capability_ok _ _ _ sample_derive])
      (simp_all add: sample_capabilities_def sample_annotated_def)
  ultimately show ?thesis by (simp add: sample_annotated_def sample_capabilities_def)
qed

theorem divergence_page_matches_count_witness:
  "\<exists>ds. derivations_for_control (sample_capabilities\<lparr>kp_implementations := [sample_annotated]\<rparr>) (Some 1) 10 = Inr ds \<and>
     length (filter (\<lambda>d. dn_state d = ''diverges'') ds) = 1"
proof -
  let ?st = "sample_capabilities\<lparr>kp_implementations := [sample_annotated]\<rparr>"
  have "contributors (im_derived_from sample_annotated) = Inr [\<lparr>cn_key = ''mfa'', cn_status = Some ''implemented'', cn_title = None\<rparr>]"
    by (simp add: contributors_def sample_annotated_def json_items_def json_strings_def add_status_def)
  then obtain ds where ds: "derivations_for_control ?st (Some 1) 10 = Inr ds"
    by (simp add: derivations_for_control_def implementation_rows_def derivation_of_def org_systems_def
        sample_capabilities_def sample_annotated_def)
  have "length (filter (\<lambda>d. dn_state d = ''diverges'') ds) =
      divergence_count (?st\<lparr>kp_implementations := filter (\<lambda>r. im_control_id r = 10) (kp_implementations ?st)\<rparr>) (Some 1) \<and>
    list_all (\<lambda>d. (dn_state d = NO_COVERAGE) = (dn_derived_status d = None)) ds"
    by (rule divergence_page_matches_count [OF _ _ ds]) (simp_all add: sample_capabilities_def sample_annotated_def)
  moreover have "divergence_count (?st\<lparr>kp_implementations := filter (\<lambda>r. im_control_id r = 10) (kp_implementations ?st)\<rparr>) (Some 1) = 1"
    by (simp add: divergence_count_def org_systems_def sample_capabilities_def sample_annotated_def)
  ultimately show ?thesis using ds by auto
qed

end
