(* ===== verification/Ksi_Validation.thy ===== *)
theory Ksi_Validation
  imports Capability
begin

text \<open>
  The FedRAMP 20x validation engine, \<open>fedramp20x/validation.py\<close>: a KSI's rule is evaluated against what
  the tables say of a system, and the verdict is appended to the history and kept as the state.

  A rule is the dictionary of the source with its optional keys read as \<open>dict.get\<close> reads them: an
  absent list is the empty list, an absent field the empty text; the list of sub-rules makes the type
  recursive. Control identifiers are ASCII.
\<close>

section \<open>Rules, contexts, verdicts\<close>

datatype ksi_rule = Rule
  (ru_kind: "string option") (ru_states: "string list option") (ru_controls: "string list")
  (ru_rules: "ksi_rule list") (ru_field: string) (ru_captures: "string list")

record dependency =
  dp_system_id :: int
  dp_name :: string
  dp_fedramp_status :: string
  dp_provider :: "string option"

record system_context =
  cx_impl_status :: "(string \<times> string) list"
  cx_control_evidence :: "(string \<times> bool) list"
  cx_evidence_refs :: "(string \<times> string list) list"
  cx_dependencies :: "dependency list"
  cx_profile :: "(string \<times> string option) list"
  cx_captures :: "string list"
  cx_control_tests :: "(string \<times> string) list"

record verdict =
  vd_status :: string
  vd_confidence :: string
  vd_source :: string
  vd_evidence_refs :: "string list"
  vd_failure_reason :: "string option"
  vd_remediation_hint :: "string option"
  vd_assessor_review_required :: bool

definition ACCEPTABLE_DEFAULT :: "string list" where [vocab]:
  "ACCEPTABLE_DEFAULT = [''implemented'', ''inherited'']"

definition FREQUENCY_DAYS :: "(string \<times> int) list" where [vocab]:
  "FREQUENCY_DAYS = [(''continuous'', 1), (''daily'', 1), (''weekly'', 7), (''monthly'', 30), (''quarterly'', 90), (''annual'', 365)]"

text \<open>\<open>re.match(r"([A-Z]{2,3})-?0*([0-9]+)", base)\<close> on the upper-cased text before a parenthesis.\<close>

definition normalize_control :: "string \<Rightarrow> string" where
  "normalize_control cid =
     (let base = hd (split_on CHR ''('' (upper (strip cid)));
          fam = takeWhile is_upper (take 3 base);
          r = drop (length fam) base;
          ds = takeWhile is_digit (if r \<noteq> [] \<and> hd r = CHR ''-'' then tl r else r)
      in if 2 \<le> length fam \<and> ds \<noteq> [] then fam @ ''-'' @ str_of_nat (nat_of_digits ds) else base)"

definition status_ok :: "string option \<Rightarrow> string list \<Rightarrow> bool" where
  "status_ok status states \<longleftrightarrow> (case status of None \<Rightarrow> False | Some s \<Rightarrow> s \<in> set states)"

definition manual_review :: "string \<Rightarrow> string \<Rightarrow> string option \<Rightarrow> verdict" where
  "manual_review source reason hint = \<lparr>vd_status = ''manual_review_required'', vd_confidence = ''low'', vd_source = source,
     vd_evidence_refs = [], vd_failure_reason = Some reason, vd_remediation_hint = hint, vd_assessor_review_required = True\<rparr>"

definition passed :: "string \<Rightarrow> string \<Rightarrow> string list \<Rightarrow> verdict" where
  "passed confidence kind refs = \<lparr>vd_status = ''pass'', vd_confidence = confidence, vd_source = kind, vd_evidence_refs = refs,
     vd_failure_reason = None, vd_remediation_hint = None, vd_assessor_review_required = False\<rparr>"

definition problem :: "string \<Rightarrow> string \<Rightarrow> string \<Rightarrow> string list \<Rightarrow> string \<Rightarrow> string \<Rightarrow> verdict" where
  "problem status confidence kind refs reason hint = \<lparr>vd_status = status, vd_confidence = confidence, vd_source = kind,
     vd_evidence_refs = refs, vd_failure_reason = Some reason, vd_remediation_hint = Some hint, vd_assessor_review_required = False\<rparr>"

section \<open>Evaluating a rule\<close>

definition tested_ok :: "system_context \<Rightarrow> string \<Rightarrow> bool" where
  "tested_ok ctx c \<longleftrightarrow> map_of (cx_control_tests ctx) c = Some ''pass''"

definition control_ok :: "system_context \<Rightarrow> string list \<Rightarrow> string \<Rightarrow> bool" where
  "control_ok ctx states c \<longleftrightarrow> status_ok (map_of (cx_impl_status ctx) c) states \<or> tested_ok ctx c"

text \<open>The keys of a dictionary built from a list: the first occurrences, in order.\<close>

definition remdups_first :: "string list \<Rightarrow> string list" where
  "remdups_first xs = rev (remdups (rev xs))"

text \<open>The references: the recorded statuses once per control, in order, then the tested controls sorted.\<close>

definition control_refs :: "system_context \<Rightarrow> string list \<Rightarrow> string list" where
  "control_refs ctx cs =
     concat (map (\<lambda>c. case map_of (cx_impl_status ctx) c of
                        Some s \<Rightarrow> if s \<noteq> [] then [fstr [c, '':'', s]] else [] | None \<Rightarrow> []) (remdups_first cs))
     @ map (\<lambda>c. fstr [c, '':test:pass'']) (sorted_set (filter (tested_ok ctx) cs))"

definition evaluate_controls :: "system_context \<Rightarrow> string \<Rightarrow> string list \<Rightarrow> string list \<Rightarrow> verdict" where
  "evaluate_controls ctx kind states cs =
     (let refs = control_refs ctx cs;
          satisfied = filter (control_ok ctx states) cs;
          missing = filter (\<lambda>c. \<not> control_ok ctx states c) cs;
          ok = (if kind = ''control_state'' then missing = [] else satisfied \<noteq> []);
          hint = fstr [''Implement or inherit '', join_with '', '' missing, ''.'']
      in if ok then passed ''medium'' kind refs
         else if satisfied \<noteq> []
         then problem ''warn'' ''medium'' kind refs (fstr [''Not all supporting controls satisfied: missing '', repr_list missing, ''.'']) hint
         else problem ''fail'' ''medium'' kind refs (fstr [''Supporting controls not implemented: '', repr_list missing, ''.'']) hint)"

definition evaluate_evidence :: "system_context \<Rightarrow> string list \<Rightarrow> verdict" where
  "evaluate_evidence ctx cs =
     (if list_ex (\<lambda>c. get_default (cx_control_evidence ctx) c False) cs
      then passed ''medium'' ''evidence_present'' (concat (map (\<lambda>c. get_default (cx_evidence_refs ctx) c []) cs))
      else problem ''fail'' ''medium'' ''evidence_present'' [] (fstr [''No current evidence for '', repr_list cs, ''.''])
             ''Collect and attach evidence to a supporting control.'')"

definition evaluate_dependencies :: "system_context \<Rightarrow> verdict" where
  "evaluate_dependencies ctx =
     (let deps = cx_dependencies ctx;
          unauth = map dp_name (filter (\<lambda>d. dp_fedramp_status d \<noteq> ''authorized'') deps);
          refs = map (\<lambda>d. fstr [dp_name d, '':'', dp_fedramp_status d]) deps
      in if deps = [] then manual_review ''dependency_authorized'' ''No dependency inventory recorded.''
              (Some ''Record underlying IaaS/PaaS/SaaS dependencies.'')
         else if unauth = [] then passed ''high'' ''dependency_authorized'' refs
         else problem ''fail'' ''high'' ''dependency_authorized'' refs (fstr [''Non-authorized dependencies: '', repr_list unauth, ''.''])
                ''Replace with, or obtain authorization for, these services.'')"

definition evaluate_profile :: "system_context \<Rightarrow> string \<Rightarrow> verdict" where
  "evaluate_profile ctx field =
     (case map_of (cx_profile ctx) field of
        Some (Some (c # cs)) \<Rightarrow> passed ''medium'' ''profile_field'' [fstr [''profile.'', field]]
      | _ \<Rightarrow> problem ''fail'' ''medium'' ''profile_field'' [] (fstr [''CSO profile field '', [CHR 0x27], field, [CHR 0x27], '' is not set.''])
               (fstr [''Complete the '', [CHR 0x27], field, [CHR 0x27], '' field on the 20x profile.'']))"

definition evaluate_captures :: "system_context \<Rightarrow> string list \<Rightarrow> verdict" where
  "evaluate_captures ctx needed =
     (if needed \<noteq> [] \<and> set needed \<subseteq> set (cx_captures ctx) then passed ''high'' ''connector_capture'' (sorted_set needed)
      else manual_review ''connector_capture'' ''No connector capture data available.''
             (Some ''Configure a cloud connector or import capture data.''))"

definition rule_kind :: "ksi_rule \<Rightarrow> string" where
  "rule_kind r = (case ru_kind r of None \<Rightarrow> ''manual'' | Some k \<Rightarrow> k)"

definition rule_states :: "ksi_rule \<Rightarrow> string list" where
  "rule_states r = (case ru_states r of Some (s # ss) \<Rightarrow> s # ss | _ \<Rightarrow> ACCEPTABLE_DEFAULT)"

text \<open>The message of the source has a dash (U+2014).\<close>

definition MANUAL_HINT :: string where
  "MANUAL_HINT = fstr [''Requires assessor review '', em_dash, '' no deterministic signal available.'']"

fun evaluate_rule :: "ksi_rule \<Rightarrow> system_context \<Rightarrow> verdict" where
  "evaluate_rule (Rule k states ctls subs fld caps) ctx =
     (let r = Rule k states ctls subs fld caps; kind = rule_kind r; cs = map normalize_control ctls
      in if kind = ''manual'' then manual_review ''manual'' MANUAL_HINT None
         else if kind = ''any_of'' then
           (case py_max_by (\<lambda>v. verdict_rank (vd_status v)) (map (\<lambda>s. evaluate_rule s ctx) subs) of
              None \<Rightarrow> manual_review ''any_of'' ''any_of rule has no sub-rules.'' None
            | Some best \<Rightarrow> best)
         else if kind = ''control_state'' \<or> kind = ''control_any'' then evaluate_controls ctx kind (rule_states r) cs
         else if kind = ''evidence_present'' then evaluate_evidence ctx cs
         else if kind = ''dependency_authorized'' then evaluate_dependencies ctx
         else if kind = ''profile_field'' then evaluate_profile ctx fld
         else if kind = ''connector_capture'' then evaluate_captures ctx caps
         else manual_review ''manual'' (fstr [''Unknown rule kind '', [CHR 0x27], kind, [CHR 0x27], ''.'']) None)"


section \<open>Gathering the context\<close>

record evidence =
  evd_id :: int
  evd_implementation_id :: "int option"
  evd_title :: string
  evd_expires_on :: "date option"

record cso_profile =
  pf_system_id :: int
  pf_boundary_description :: "string option"
  pf_cryptographic_boundary :: "string option"
  pf_logging_boundary :: "string option"
  pf_incident_response_boundary :: "string option"
  pf_backup_recovery_boundary :: "string option"
  pf_administrative_access_boundary :: "string option"

record ksi =
  kx_id :: int
  kx_identifier :: string
  kx_category :: string
  kx_validation_frequency :: "string option"
  kx_rule :: ksi_rule
  kx_sort_order :: int

record ksi_state =
  kt_id :: int
  kt_system_id :: int
  kt_ksi_id :: int
  kt_status :: string
  kt_last_validated_at :: "datetime option"
  kt_next_validation_due :: "date option"

record ksi_result =
  kr_system_id :: int
  kr_ksi_id :: int
  kr_ksi_identifier :: string
  kr_verdict :: verdict
  kr_validated_at :: datetime

record ksi_store =
  kv_db :: db
  kv_systems :: "system list"
  kv_implementations :: "implementation list"
  kv_evidence :: "evidence list"
  kv_dependencies :: "dependency list"
  kv_profiles :: "cso_profile list"
  kv_ksis :: "ksi list"
  kv_states :: "ksi_state list"
  kv_results :: "ksi_result list"

definition empty_context :: system_context where
  "empty_context = \<lparr>cx_impl_status = [], cx_control_evidence = [], cx_evidence_refs = [], cx_dependencies = [],
     cx_profile = [], cx_captures = [], cx_control_tests = []\<rparr>"

definition STATUS_RANK :: "(string \<times> int) list" where [vocab]:
  "STATUS_RANK = [(''implemented'', 5), (''inherited'', 4), (''partial'', 3), (''planned'', 2), (''not_applicable'', 1),
     (''not_implemented'', 0)]"

definition evidence_current :: "evidence \<Rightarrow> date \<Rightarrow> bool" where
  "evidence_current ev today \<longleftrightarrow> (case evd_expires_on ev of None \<Rightarrow> True | Some d \<Rightarrow> today \<le> d)"

definition evidence_ref :: "evidence \<Rightarrow> string" where
  "evidence_ref ev = fstr [''evidence:'', str_of_int (evd_id ev), '':'', evd_title ev]"

definition better_status :: "string \<Rightarrow> string option \<Rightarrow> bool" where
  "better_status new cur \<longleftrightarrow>
     (case cur of None \<Rightarrow> True | Some c \<Rightarrow> get_default STATUS_RANK c 0 < get_default STATUS_RANK new 0)"

definition add_evidence :: "date \<Rightarrow> string \<Rightarrow> evidence \<Rightarrow> system_context \<Rightarrow> system_context" where
  "add_evidence today key ev ctx =
     (if evidence_current ev today
      then ctx\<lparr>cx_control_evidence := AList.update key True (cx_control_evidence ctx),
               cx_evidence_refs := AList.update key (get_default (cx_evidence_refs ctx) key [] @ [evidence_ref ev]) (cx_evidence_refs ctx)\<rparr>
      else ctx)"

definition folded_key :: "ksi_store \<Rightarrow> implementation \<Rightarrow> string option" where
  "folded_key st r =
     (case first_row (filter (\<lambda>k. ctl_id k = im_control_id r) (controls (kv_db st))) of
        None \<Rightarrow> None
      | Some k \<Rightarrow> if ctl_identifier k = [] then None else Some (normalize_control (ctl_identifier k)))"

definition add_implementation :: "ksi_store \<Rightarrow> date \<Rightarrow> implementation \<Rightarrow> system_context \<Rightarrow> system_context" where
  "add_implementation st today r ctx =
     (case folded_key st r of
        None \<Rightarrow> ctx
      | Some key \<Rightarrow>
          fold (add_evidence today key) (filter (\<lambda>e. evd_implementation_id e = Some (im_id r)) (kv_evidence st))
            (if better_status (im_status r) (map_of (cx_impl_status ctx) key)
             then ctx\<lparr>cx_impl_status := AList.update key (im_status r) (cx_impl_status ctx)\<rparr> else ctx))"

text \<open>The keys a test with a recorded status speaks about, and the statuses collected per key.\<close>

definition attributed_keys :: "control_test \<Rightarrow> string list" where
  "attributed_keys t =
     map normalize_control (if ct_last_status t = Some ''pass'' then pass_attribution (Some (ct_control_id t))
       else non_passing_attribution (Some (ct_control_id t)) (ct_control_ids t))"

definition statuses_by_control :: "control_test list \<Rightarrow> (string \<times> string list) list" where
  "statuses_by_control ts =
     fold (\<lambda>t. fold (\<lambda>k d. AList.update k (get_default d k [] @ [the (ct_last_status t)]) d) (attributed_keys t)) ts []"

definition tested_passes :: "control_test list \<Rightarrow> (string \<times> string) list" where
  "tested_passes ts =
     map (\<lambda>ks. (fst ks, ''pass'')) (filter (\<lambda>ks. snd ks \<noteq> [] \<and> list_all (\<lambda>s. s = ''pass'') (snd ks)) (statuses_by_control ts))"

definition profile_dict :: "cso_profile \<Rightarrow> (string \<times> string option) list" where
  "profile_dict p =
     [(''boundary_description'', pf_boundary_description p), (''cryptographic_boundary'', pf_cryptographic_boundary p),
      (''logging_boundary'', pf_logging_boundary p), (''incident_response_boundary'', pf_incident_response_boundary p),
      (''backup_recovery_boundary'', pf_backup_recovery_boundary p),
      (''administrative_access_boundary'', pf_administrative_access_boundary p)]"

definition capture_keys :: "ksi_store \<Rightarrow> int \<Rightarrow> string list" where
  "capture_keys st system_id =
     (case first_row (filter (\<lambda>y. sy_id y = system_id) (kv_systems st)) of
        None \<Rightarrow> []
      | Some y \<Rightarrow> concat (map (\<lambda>c. cs_odp_key c # (case cs_nist_id c of Some (x # xs) \<Rightarrow> [x # xs] | _ \<Rightarrow> []))
                    (filter (\<lambda>c. cs_organization_id c = Some (sy_organization_id y)) (captures (kv_db st)))))"

definition recorded_tests :: "ksi_store \<Rightarrow> int \<Rightarrow> control_test list" where
  "recorded_tests st system_id =
     filter (\<lambda>t. ct_system_id t = Some system_id \<and> ct_last_status t \<noteq> None) (tests (kv_db st))"

definition build_context :: "ksi_store \<Rightarrow> datetime \<Rightarrow> int \<Rightarrow> system_context res" where
  "build_context st now system_id =
     rbind (one_or_none (filter (\<lambda>p. pf_system_id p = system_id) (kv_profiles st))) (\<lambda>profile.
       let ctx = fold (add_implementation st (dt_date now))
                   (filter (\<lambda>r. im_system_id r = system_id) (kv_implementations st)) empty_context
       in Inr (ctx\<lparr>cx_control_tests := tested_passes (recorded_tests st system_id),
                   cx_dependencies := filter (\<lambda>d. dp_system_id d = system_id) (kv_dependencies st),
                   cx_profile := (case profile of None \<Rightarrow> [] | Some p \<Rightarrow> profile_dict p),
                   cx_captures := capture_keys st system_id\<rparr>))"

section \<open>Validating a system\<close>

definition next_due :: "string option \<Rightarrow> datetime \<Rightarrow> date option" where
  "next_due frequency when =
     map_option (\<lambda>days. dt_date (when + days * us_per_day))
       (map_of FREQUENCY_DAYS (lower (case frequency of None \<Rightarrow> [] | Some f \<Rightarrow> f)))"

definition mark_validated :: "datetime \<Rightarrow> ksi \<Rightarrow> verdict \<Rightarrow> ksi_state \<Rightarrow> ksi_state" where
  "mark_validated now k v s = s\<lparr>kt_status := vd_status v, kt_last_validated_at := Some now,
     kt_next_validation_due := next_due (kx_validation_frequency k) now\<rparr>"

definition new_state :: "int \<Rightarrow> int \<Rightarrow> ksi \<Rightarrow> ksi_state" where
  "new_state i system_id k = \<lparr>kt_id = i, kt_system_id = system_id, kt_ksi_id = kx_id k, kt_status = ''not_tested'',
     kt_last_validated_at = None, kt_next_validation_due = None\<rparr>"

definition state_of :: "int \<Rightarrow> ksi \<Rightarrow> ksi_state \<Rightarrow> bool" where
  "state_of system_id k s \<longleftrightarrow> kt_system_id s = system_id \<and> kt_ksi_id s = kx_id k"

definition validate_one :: "system_context \<Rightarrow> datetime \<Rightarrow> int \<Rightarrow> ksi \<Rightarrow> ksi_store \<times> ksi_result list \<Rightarrow> ksi_store \<times> ksi_result list" where
  "validate_one ctx now system_id k acc =
     (let st = fst acc; v = evaluate_rule (kx_rule k) ctx;
          row = \<lparr>kr_system_id = system_id, kr_ksi_id = kx_id k, kr_ksi_identifier = kx_identifier k, kr_verdict = v,
                 kr_validated_at = now\<rparr>;
          i = next_id (kv_db st);
          st1 = (if list_ex (state_of system_id k) (kv_states st) then st
                 else st\<lparr>kv_states := kv_states st @ [new_state i system_id k], kv_db := (kv_db st)\<lparr>next_id := i + 1\<rparr>\<rparr>)
      in (st1\<lparr>kv_states := update_rows (state_of system_id k) (mark_validated now k v) (kv_states st1),
              kv_results := kv_results st1 @ [row]\<rparr>, snd acc @ [row]))"

definition validate_system ::
  "ksi_store \<Rightarrow> datetime \<Rightarrow> int \<Rightarrow> ksi list option \<Rightarrow> (ksi_store \<times> ksi_result list) res" where
  "validate_system st now system_id ksis =
     rbind (build_context st now system_id) (\<lambda>ctx.
       Inr (fold (validate_one ctx now system_id)
         (case ksis of None \<Rightarrow> sort_key kx_sort_order (kv_ksis st) | Some ks \<Rightarrow> ks) (st, [])))"

definition status_counts :: "ksi_result list \<Rightarrow> (string \<times> nat) list" where
  "status_counts rs = fold (\<lambda>r. bump_count (vd_status (kr_verdict r))) rs []"

end
