(* ===== verification/Ksi_Laws.thy ===== *)
theory Ksi_Laws
  imports Ksi_Validation
begin

text \<open>
  What holds of KSI validation: a pass always rests on a signal, a tested control is credited only
  when every test that speaks of it passes, the best implementation status wins, and a run records
  one verdict per KSI and leaves exactly one state for it.
\<close>

section \<open>Verdicts\<close>

text \<open>What a passing rule rests on.\<close>

fun supported :: "ksi_rule \<Rightarrow> system_context \<Rightarrow> bool" where
  "supported (Rule k states ctls subs fld caps) ctx =
     (let r = Rule k states ctls subs fld caps; kind = rule_kind r; cs = map normalize_control ctls
      in if kind = ''any_of'' then list_ex (\<lambda>s. supported s ctx) subs
         else if kind = ''control_state'' then list_all (control_ok ctx (rule_states r)) cs
         else if kind = ''control_any'' then list_ex (control_ok ctx (rule_states r)) cs
         else if kind = ''evidence_present'' then list_ex (\<lambda>c. get_default (cx_control_evidence ctx) c False) cs
         else if kind = ''dependency_authorized''
         then cx_dependencies ctx \<noteq> [] \<and> list_all (\<lambda>d. dp_fedramp_status d = ''authorized'') (cx_dependencies ctx)
         else if kind = ''profile_field'' then (\<exists>c cs. map_of (cx_profile ctx) fld = Some (Some (c # cs)))
         else kind = ''connector_capture'' \<and> caps \<noteq> [] \<and> set caps \<subseteq> set (cx_captures ctx))"

definition consistent_verdict :: "verdict \<Rightarrow> bool" where
  "consistent_verdict v \<longleftrightarrow> vd_status v \<in> {''pass'', ''warn'', ''fail'', ''manual_review_required''} \<and>
     vd_assessor_review_required v = (vd_status v = ''manual_review_required'') \<and>
     (vd_failure_reason v = None) = (vd_status v = ''pass'')"

lemma verdict_shapes [simp]:
  "vd_status (manual_review s r h) = ''manual_review_required''" "vd_status (passed c k refs) = ''pass''"
  "vd_status (problem st c k refs r n) = st"
  "consistent_verdict (manual_review s r h)" "consistent_verdict (passed c k refs)"
  "st \<in> {''warn'', ''fail''} \<Longrightarrow> consistent_verdict (problem st c k refs r n)"
  by (auto simp: manual_review_def passed_def problem_def consistent_verdict_def)

lemma evaluate_controls_pass:
  "vd_status (evaluate_controls ctx kind states cs) = ''pass'' \<longleftrightarrow>
     (if kind = ''control_state'' then list_all (control_ok ctx states) cs else list_ex (control_ok ctx states) cs)"
  by (simp add: evaluate_controls_def Let_def filter_empty_conv list_all_iff list_ex_iff)

lemma evaluate_controls_consistent: "consistent_verdict (evaluate_controls ctx kind states cs)"
  by (simp add: evaluate_controls_def Let_def)

lemma evaluate_dependencies_pass:
  "vd_status (evaluate_dependencies ctx) = ''pass'' \<longleftrightarrow>
     cx_dependencies ctx \<noteq> [] \<and> list_all (\<lambda>d. dp_fedramp_status d = ''authorized'') (cx_dependencies ctx)"
  by (simp add: evaluate_dependencies_def Let_def filter_empty_conv list_all_iff)

lemma evaluate_profile_pass:
  "vd_status (evaluate_profile ctx fld) = ''pass'' \<longleftrightarrow> (\<exists>c cs. map_of (cx_profile ctx) fld = Some (Some (c # cs)))"
  by (simp add: evaluate_profile_def split: option.split list.split)

lemma evaluate_evidence_pass:
  "vd_status (evaluate_evidence ctx cs) = ''pass'' \<longleftrightarrow> list_ex (\<lambda>c. get_default (cx_control_evidence ctx) c False) cs"
  by (simp add: evaluate_evidence_def)

lemma evaluate_captures_pass:
  "vd_status (evaluate_captures ctx caps) = ''pass'' \<longleftrightarrow> caps \<noteq> [] \<and> set caps \<subseteq> set (cx_captures ctx)"
  by (simp add: evaluate_captures_def)

lemma other_consistent:
  "consistent_verdict (evaluate_evidence ctx cs)" "consistent_verdict (evaluate_dependencies ctx)"
  "consistent_verdict (evaluate_profile ctx fld)" "consistent_verdict (evaluate_captures ctx caps)"
  by (simp_all add: evaluate_evidence_def evaluate_dependencies_def Let_def evaluate_profile_def evaluate_captures_def
      split: option.split list.split)

lemma rank_pass: "verdict_rank s = 4 \<longleftrightarrow> s = ''pass''" "verdict_rank s \<le> 4"
  by (simp_all add: VERDICT_RANK_def get_default_def)

lemma best_passes:
  assumes "py_max_by (\<lambda>v. verdict_rank (vd_status v)) vs = Some best"
  shows "vd_status best = ''pass'' \<longleftrightarrow> (\<exists>v \<in> set vs. vd_status v = ''pass'')"
proof -
  have b: "best \<in> set vs" "\<And>v. v \<in> set vs \<Longrightarrow> verdict_rank (vd_status v) \<le> verdict_rank (vd_status best)"
    using py_max_by_Some [OF assms] by simp_all
  show ?thesis
  proof
    assume "\<exists>v \<in> set vs. vd_status v = ''pass''"
    then obtain v where "v \<in> set vs" "vd_status v = ''pass''" by blast
    then have "4 \<le> verdict_rank (vd_status best)" using b(2) [of v] rank_pass(1) [of "vd_status v"] by simp
    then show "vd_status best = ''pass''" using rank_pass(1) [of "vd_status best"] rank_pass(2) [of "vd_status best"] by linarith
  qed (use b(1) in blast)
qed

text \<open>A KSI passes exactly when its rule has a signal. A manual or unknown rule never passes, an
  alternative passes exactly when one of its sub-rules does, a control rule when the recorded or
  tested controls it needs are there, and so on; every verdict is in the vocabulary, asks for an
  assessor exactly when it could not decide, and gives a reason exactly when it does not pass.\<close>

theorem ksi_pass_needs_signal:
  "(vd_status (evaluate_rule r ctx) = ''pass'') = supported r ctx \<and> consistent_verdict (evaluate_rule r ctx)"
proof (induction r ctx rule: evaluate_rule.induct)
  case (1 k states ctls subs fld caps ctx)
  let ?r = "Rule k states ctls subs fld caps"
  consider (any) "rule_kind ?r = ''any_of''" | (control) "rule_kind ?r = ''control_state'' \<or> rule_kind ?r = ''control_any''"
    | (other) "rule_kind ?r \<noteq> ''any_of''" "rule_kind ?r \<noteq> ''control_state''" "rule_kind ?r \<noteq> ''control_any''" by blast
  then show ?case
  proof cases
    case any
    have ih: "(vd_status (evaluate_rule s ctx) = ''pass'') = supported s ctx" "consistent_verdict (evaluate_rule s ctx)"
      if "s \<in> set subs" for s
      using 1 [OF refl refl refl _ any that] any by simp_all
    show ?thesis
    proof (cases "py_max_by (\<lambda>v. verdict_rank (vd_status v)) (map (\<lambda>s. evaluate_rule s ctx) subs)")
      case None
      then show ?thesis using any by simp
    next
      case (Some best)
      then have "best \<in> (\<lambda>s. evaluate_rule s ctx) ` set subs" using py_max_by_Some [OF Some] by simp
      moreover have "evaluate_rule ?r ctx = best" using any Some by simp
      moreover have "supported ?r ctx = list_ex (\<lambda>s. supported s ctx) subs" using any by simp
      ultimately show ?thesis using best_passes [OF Some] ih by (auto simp: list_ex_iff)
    qed
  next
    case control
    then have "evaluate_rule ?r ctx = evaluate_controls ctx (rule_kind ?r) (rule_states ?r) (map normalize_control ctls)"
      "supported ?r ctx = (if rule_kind ?r = ''control_state'' then list_all (control_ok ctx (rule_states ?r)) (map normalize_control ctls)
         else list_ex (control_ok ctx (rule_states ?r)) (map normalize_control ctls))"
      by (elim disjE; simp)+
    then show ?thesis using evaluate_controls_pass evaluate_controls_consistent by simp
  next
    case other
    let ?cs = "map normalize_control ctls"
    consider "rule_kind ?r = ''evidence_present''" | "rule_kind ?r = ''dependency_authorized''" | "rule_kind ?r = ''profile_field''"
      | "rule_kind ?r = ''connector_capture''" | "rule_kind ?r = ''manual''"
      | "rule_kind ?r \<notin> {''evidence_present'', ''dependency_authorized'', ''profile_field'', ''connector_capture'', ''manual''}"
      by blast
    then show ?thesis
    proof cases
      case 1
      then show ?thesis using other_consistent(1) [of ctx ?cs] evaluate_evidence_pass [of ctx ?cs] by simp
    next
      case 2
      then show ?thesis using other_consistent(2) [of ctx] evaluate_dependencies_pass [of ctx] by simp
    next
      case 3
      then show ?thesis using other_consistent(3) [of ctx fld] evaluate_profile_pass [of ctx fld] by simp
    next
      case 4
      then show ?thesis using other_consistent(4) [of ctx caps] evaluate_captures_pass [of ctx caps] by simp
    next
      case 5
      then show ?thesis by simp
    next
      case 6
      then show ?thesis using other by simp
    qed
  qed
qed


text \<open>A rule that needs all of no controls passes: the list of what is missing is empty.\<close>

lemma control_state_without_controls:
  "evaluate_rule (Rule (Some ''control_state'') states [] subs fld caps) ctx = passed ''medium'' ''control_state'' []"
  by (simp add: rule_kind_def evaluate_controls_def control_refs_def remdups_first_def sorted_set_def)

section \<open>The context\<close>

lemma fold_statuses:
  "get_default (fold (\<lambda>k d. AList.update k (get_default d k [] @ [s]) d) ks d) key [] =
     get_default d key [] @ replicate (length (filter (\<lambda>k. k = key) ks)) s"
  "distinct (map fst d) \<Longrightarrow> distinct (map fst (fold (\<lambda>k d. AList.update k (get_default d k [] @ [s]) d) ks d))"
  by (induction ks arbitrary: d) (simp_all add: replicate_app_Cons_same distinct_update)

lemma statuses_by_control_props:
  "distinct (map fst (statuses_by_control ts))"
  "set (get_default (statuses_by_control ts) key []) = {the (ct_last_status t) | t. t \<in> set ts \<and> key \<in> set (attributed_keys t)}"
proof -
  let ?step = "\<lambda>t. fold (\<lambda>k d. AList.update k (get_default d k [] @ [the (ct_last_status t)]) d) (attributed_keys t)"
  have "distinct (map fst d) \<Longrightarrow> distinct (map fst (fold ?step ts d)) \<and>
      set (get_default (fold ?step ts d) key []) =
        set (get_default d key []) \<union> {the (ct_last_status t) | t. t \<in> set ts \<and> key \<in> set (attributed_keys t)}" for d
  proof (induction ts arbitrary: d)
    case (Cons t ts)
    have one: "set (get_default (?step t d) key []) =
        set (get_default d key []) \<union> (if key \<in> set (attributed_keys t) then {the (ct_last_status t)} else {})"
      by (auto simp: fold_statuses(1) filter_empty_conv set_replicate_conv_if)
    show ?case using Cons.IH [OF fold_statuses(2) [OF Cons.prems]] one by auto
  qed simp
  from this [of "[]"] show "distinct (map fst (statuses_by_control ts))"
    "set (get_default (statuses_by_control ts) key []) = {the (ct_last_status t) | t. t \<in> set ts \<and> key \<in> set (attributed_keys t)}"
    by (simp_all add: statuses_by_control_def get_default_Nil)
qed

lemma tested_passes_iff:
  "map_of (tested_passes ts) key = Some ''pass'' \<longleftrightarrow>
     (\<exists>t \<in> set ts. key \<in> set (attributed_keys t)) \<and>
     (\<forall>t \<in> set ts. key \<in> set (attributed_keys t) \<longrightarrow> the (ct_last_status t) = ''pass'')"
proof -
  let ?d = "statuses_by_control ts" and ?ok = "\<lambda>ks. snd ks \<noteq> [] \<and> list_all (\<lambda>s. s = ''pass'') (snd ks)"
  have "map_of (map (\<lambda>ks. (fst ks, v)) (filter P d)) key = Some v \<longleftrightarrow> (\<exists>x. (key, x) \<in> set d \<and> P (key, x))"
    for P and v :: string and d :: "(string \<times> string list) list"
    by (induction d) auto
  then have "map_of (tested_passes ts) key = Some ''pass'' \<longleftrightarrow> (\<exists>x. (key, x) \<in> set ?d \<and> ?ok (key, x))"
    unfolding tested_passes_def .
  also have "\<dots> \<longleftrightarrow> ?ok (key, get_default ?d key [])"
  proof
    assume "\<exists>x. (key, x) \<in> set ?d \<and> ?ok (key, x)"
    then obtain x where x: "(key, x) \<in> set ?d" "?ok (key, x)" by blast
    then have "get_default ?d key [] = x" using statuses_by_control_props(1) by (simp add: get_default_def)
    then show "?ok (key, get_default ?d key [])" using x(2) by simp
  next
    assume k: "?ok (key, get_default ?d key [])"
    then have "map_of ?d key = Some (get_default ?d key [])" by (cases "map_of ?d key") (simp_all add: get_default_def)
    then show "\<exists>x. (key, x) \<in> set ?d \<and> ?ok (key, x)" using k map_of_SomeD by fast
  qed
  also have "\<dots> \<longleftrightarrow> set (get_default ?d key []) \<noteq> {} \<and> (\<forall>s \<in> set (get_default ?d key []). s = ''pass'')"
    by (simp add: list_all_iff)
  finally show ?thesis unfolding statuses_by_control_props(2) by blast
qed

lemma add_evidence_keeps:
  "cx_impl_status (fold (add_evidence today key) es ctx) = cx_impl_status ctx"
  by (induction es arbitrary: ctx) (simp_all add: add_evidence_def)

definition best_of :: "string list \<Rightarrow> string option \<Rightarrow> bool" where
  "best_of ss b \<longleftrightarrow> (case b of None \<Rightarrow> ss = []
     | Some s \<Rightarrow> s \<in> set ss \<and> list_all (\<lambda>u. get_default STATUS_RANK u 0 \<le> get_default STATUS_RANK s 0) ss)"

lemma best_status:
  "best_of (map im_status (filter (\<lambda>r. folded_key st r = Some key) rs))
     (map_of (cx_impl_status (fold (add_implementation st today) rs empty_context)) key)"
proof (induction rs rule: rev_induct)
  case (snoc r rs)
  let ?c = "fold (add_implementation st today) rs empty_context"
  let ?old = "map im_status (filter (\<lambda>r. folded_key st r = Some key) rs)"
  show ?case
  proof (cases "folded_key st r = Some key")
    case True
    then have new: "map_of (cx_impl_status (add_implementation st today r ?c)) key =
        (if better_status (im_status r) (map_of (cx_impl_status ?c) key) then Some (im_status r) else map_of (cx_impl_status ?c) key)"
      by (simp add: add_implementation_def add_evidence_keeps)
    show ?thesis
    proof (cases "map_of (cx_impl_status ?c) key")
      case None
      then show ?thesis using snoc True new by (simp add: best_of_def better_status_def)
    next
      case (Some s)
      have "\<forall>u \<in> set ?old. get_default STATUS_RANK u 0 \<le> get_default STATUS_RANK s 0" "s \<in> set ?old"
        using snoc Some by (simp_all add: best_of_def list_all_iff)
      then show ?thesis using True new Some
        by (auto simp: best_of_def better_status_def list_all_iff)
    qed
  next
    case False
    then have "map_of (cx_impl_status (add_implementation st today r ?c)) key = map_of (cx_impl_status ?c) key"
      by (simp add: add_implementation_def add_evidence_keeps split: option.split)
    then show ?thesis using snoc False by simp
  qed
qed (simp add: best_of_def empty_context_def)

text \<open>What a KSI is told of a control. A control is credited as tested exactly when some test of the
  system speaks of it and every test that speaks of it, as its primary control or with a problem,
  last passed, whatever order the tests ran in; and its implementation status is a best one among
  the system's implementations that fold to it.\<close>

theorem tested_credit_needs_every_test:
  assumes "build_context st now i = Inr ctx"
  shows "(map_of (cx_control_tests ctx) key = Some ''pass'') =
      ((\<exists>t \<in> set (recorded_tests st i). key \<in> set (attributed_keys t)) \<and>
       (\<forall>t \<in> set (recorded_tests st i). key \<in> set (attributed_keys t) \<longrightarrow> ct_last_status t = Some ''pass'')) \<and>
    best_of (map im_status (filter (\<lambda>r. im_system_id r = i \<and> folded_key st r = Some key) (kv_implementations st)))
      (map_of (cx_impl_status ctx) key)"
proof -
  have "\<exists>x. one_or_none (filter (\<lambda>p. pf_system_id p = i) (kv_profiles st)) = Inr x"
    using assms by (auto simp: build_context_def rbind_eq_Inr)
  then have ctx: "cx_control_tests ctx = tested_passes (recorded_tests st i)"
    "cx_impl_status ctx = cx_impl_status (fold (add_implementation st (dt_date now)) (filter (\<lambda>r. im_system_id r = i) (kv_implementations st)) empty_context)"
    using assms by (auto simp: build_context_def Let_def)
  have some: "t \<in> set (recorded_tests st i) \<Longrightarrow> (the (ct_last_status t) = ''pass'') = (ct_last_status t = Some ''pass'')" for t
    by (auto simp: recorded_tests_def)
  have filt: "filter (\<lambda>r. folded_key st r = Some key) (filter (\<lambda>r. im_system_id r = i) rs) =
      filter (\<lambda>r. im_system_id r = i \<and> folded_key st r = Some key) rs" for rs :: "implementation list"
    by (simp add: conj_commute)
  show ?thesis
    unfolding ctx tested_passes_iff using some best_status [where st = st and key = key and today = "dt_date now" and rs = "filter (\<lambda>r. im_system_id r = i) (kv_implementations st)"]
    by (simp add: filt)
qed

section \<open>A run\<close>

definition state_key :: "ksi_state \<Rightarrow> int \<times> int" where
  "state_key s = (kt_system_id s, kt_ksi_id s)"

lemma validate_one_spec:
  assumes "distinct (map state_key (kv_states st))" "validate_one ctx now i k (st, rs) = (st', rs')"
  shows "distinct (map state_key (kv_states st'))"
    "rs' = rs @ [\<lparr>kr_system_id = i, kr_ksi_id = kx_id k, kr_ksi_identifier = kx_identifier k,
        kr_verdict = evaluate_rule (kx_rule k) ctx, kr_validated_at = now\<rparr>]"
    "kv_results st' = kv_results st @ drop (length rs) rs'"
    "filter (\<lambda>s. state_key s \<noteq> (i, kx_id k)) (kv_states st') = filter (\<lambda>s. state_key s \<noteq> (i, kx_id k)) (kv_states st)"
    "\<exists>s. filter (\<lambda>s. state_key s = (i, kx_id k)) (kv_states st') = [s] \<and> kt_status s = vd_status (evaluate_rule (kx_rule k) ctx) \<and>
       kt_last_validated_at s = Some now"
proof -
  let ?v = "evaluate_rule (kx_rule k) ctx"
  let ?base = "if list_ex (state_of i k) (kv_states st) then kv_states st else kv_states st @ [new_state (next_id (kv_db st)) i k]"
  have sk: "state_of i k s \<longleftrightarrow> state_key s = (i, kx_id k)" for s by (simp add: state_of_def state_key_def)
  have key: "state_key (mark_validated now k ?v s) = state_key s" for s by (simp add: mark_validated_def state_key_def)
  have st': "kv_states st' = update_rows (state_of i k) (mark_validated now k ?v) ?base"
    and "rs' = rs @ [\<lparr>kr_system_id = i, kr_ksi_id = kx_id k, kr_ksi_identifier = kx_identifier k, kr_verdict = ?v, kr_validated_at = now\<rparr>]"
    and "kv_results st' = kv_results st @ drop (length rs) rs'"
    using assms(2) by (auto simp: validate_one_def Let_def)
  then show "rs' = rs @ [\<lparr>kr_system_id = i, kr_ksi_id = kx_id k, kr_ksi_identifier = kx_identifier k, kr_verdict = ?v, kr_validated_at = now\<rparr>]"
    "kv_results st' = kv_results st @ drop (length rs) rs'" by simp_all
  have base: "distinct (map state_key ?base)" "\<exists>s \<in> set ?base. state_key s = (i, kx_id k)"
    using assms(1) by (auto simp: list_ex_iff sk new_state_def state_key_def)
  have "map state_key (kv_states st') = map state_key ?base" unfolding st' by (rule map_update_rows) (rule key)
  then show d: "distinct (map state_key (kv_states st'))" using base(1) by simp
  have filt: "filter (\<lambda>s. state_key s \<noteq> (i, kx_id k)) (update_rows (state_of i k) (mark_validated now k ?v) ss) =
      filter (\<lambda>s. state_key s \<noteq> (i, kx_id k)) ss" for ss
    by (induction ss) (simp_all add: update_rows_def sk key)
  show "filter (\<lambda>s. state_key s \<noteq> (i, kx_id k)) (kv_states st') = filter (\<lambda>s. state_key s \<noteq> (i, kx_id k)) (kv_states st)"
    unfolding st' filt by (simp add: new_state_def state_key_def)
  obtain s where s: "s \<in> set ?base" "state_key s = (i, kx_id k)" using base(2) by blast
  then have m: "mark_validated now k ?v s \<in> set (kv_states st')" unfolding st' by (intro update_rows_in) (simp_all add: sk)
  have "filter (\<lambda>s. state_key s = (i, kx_id k)) (kv_states st') = [mark_validated now k ?v s]"
  proof -
    have "length (filter (\<lambda>s. state_key s = (i, kx_id k)) (kv_states st')) \<le> 1" by (rule distinct_filter_le1 [OF d])
    moreover have "mark_validated now k ?v s \<in> set (filter (\<lambda>s. state_key s = (i, kx_id k)) (kv_states st'))"
      using m s(2) by (simp add: key)
    ultimately show ?thesis by (cases "filter (\<lambda>s. state_key s = (i, kx_id k)) (kv_states st')") auto
  qed
  then show "\<exists>s. filter (\<lambda>s. state_key s = (i, kx_id k)) (kv_states st') = [s] \<and> kt_status s = vd_status ?v \<and> kt_last_validated_at s = Some now"
    by (simp add: mark_validated_def)
qed


definition result_of :: "system_context \<Rightarrow> datetime \<Rightarrow> int \<Rightarrow> ksi \<Rightarrow> ksi_result" where
  "result_of ctx now i k = \<lparr>kr_system_id = i, kr_ksi_id = kx_id k, kr_ksi_identifier = kx_identifier k,
     kr_verdict = evaluate_rule (kx_rule k) ctx, kr_validated_at = now\<rparr>"

lemma validate_fold:
  assumes "distinct (map state_key (kv_states st))" "distinct (map kx_id ks)"
  shows "\<exists>st'. fold (validate_one ctx now i) ks (st, []) = (st', map (result_of ctx now i) ks) \<and>
    distinct (map state_key (kv_states st')) \<and> kv_results st' = kv_results st @ map (result_of ctx now i) ks \<and>
    filter (\<lambda>s. state_key s \<notin> (\<lambda>k. (i, kx_id k)) ` set ks) (kv_states st') =
      filter (\<lambda>s. state_key s \<notin> (\<lambda>k. (i, kx_id k)) ` set ks) (kv_states st) \<and>
    (\<forall>k \<in> set ks. \<exists>s. filter (\<lambda>s. state_key s = (i, kx_id k)) (kv_states st') = [s] \<and>
       kt_status s = vd_status (evaluate_rule (kx_rule k) ctx) \<and> kt_last_validated_at s = Some now)"
  using assms(2)
proof (induction ks rule: rev_induct)
  case Nil
  then show ?case using assms(1) by simp
next
  case (snoc k ks)
  let ?K = "(\<lambda>k. (i, kx_id k)) ` set ks"
  obtain st1 where st1: "fold (validate_one ctx now i) ks (st, []) = (st1, map (result_of ctx now i) ks)"
    "distinct (map state_key (kv_states st1))" "kv_results st1 = kv_results st @ map (result_of ctx now i) ks"
    "filter (\<lambda>s. state_key s \<notin> ?K) (kv_states st1) = filter (\<lambda>s. state_key s \<notin> ?K) (kv_states st)"
    "\<forall>k \<in> set ks. \<exists>s. filter (\<lambda>s. state_key s = (i, kx_id k)) (kv_states st1) = [s] \<and>
       kt_status s = vd_status (evaluate_rule (kx_rule k) ctx) \<and> kt_last_validated_at s = Some now"
    using snoc by auto
  obtain st2 rs2 where st2: "validate_one ctx now i k (st1, map (result_of ctx now i) ks) = (st2, rs2)"
    by (cases "validate_one ctx now i k (st1, map (result_of ctx now i) ks)")
  note one = validate_one_spec [OF st1(2) st2]
  have narrow: "filter P (filter (\<lambda>s. state_key s \<noteq> (i, kx_id k)) (kv_states st2)) =
      filter P (filter (\<lambda>s. state_key s \<noteq> (i, kx_id k)) (kv_states st1))" for P
    by (simp only: one(4))
  have old: "filter (\<lambda>s. state_key s = (i, kx_id j)) (kv_states st2) = filter (\<lambda>s. state_key s = (i, kx_id j)) (kv_states st1)"
    if "j \<in> set ks" for j
  proof -
    have "kx_id j \<noteq> kx_id k" using snoc.prems imageI [OF that, of kx_id] by auto
    then have "filter (\<lambda>s. state_key s = (i, kx_id j)) xs =
        filter (\<lambda>s. state_key s = (i, kx_id j)) (filter (\<lambda>s. state_key s \<noteq> (i, kx_id k)) xs)" for xs
      by (induction xs) auto
    then show ?thesis using narrow [of "\<lambda>s. state_key s = (i, kx_id j)"] by simp
  qed
  have both: "filter (\<lambda>s. state_key s \<notin> insert (i, kx_id k) ?K) xs =
      filter (\<lambda>s. state_key s \<noteq> (i, kx_id k)) (filter (\<lambda>s. state_key s \<notin> ?K) xs)" for xs
    by (induction xs) auto
  have swap: "filter (\<lambda>s. state_key s \<noteq> (i, kx_id k)) (filter (\<lambda>s. state_key s \<notin> ?K) xs) =
      filter (\<lambda>s. state_key s \<notin> ?K) (filter (\<lambda>s. state_key s \<noteq> (i, kx_id k)) xs)" for xs
    by (simp add: conj_commute)
  have kept: "filter (\<lambda>s. state_key s \<notin> insert (i, kx_id k) ?K) (kv_states st2) =
      filter (\<lambda>s. state_key s \<notin> insert (i, kx_id k) ?K) (kv_states st)"
    unfolding both st1(4) [symmetric] by (simp only: swap narrow)
  have rs2: "rs2 = map (result_of ctx now i) (ks @ [k])" using one(2) by (simp add: result_of_def)
  have "kv_results st2 = kv_results st @ map (result_of ctx now i) (ks @ [k])"
    using one(3) by (simp add: st1(3) rs2)
  then show ?case using st1(1) st2 one(1,5) old st1(5) kept rs2 by (intro exI [of _ st2]) auto
qed

text \<open>A validation run records what it decided. It appends one result per KSI, in the order of the
  KSIs and with the verdict of the KSI's rule in one context, keeps the history before it, leaves
  exactly one state per validated KSI, at the verdict of this run, and touches no other state.\<close>

theorem validation_records_every_ksi:
  assumes "distinct (map state_key (kv_states st))" "distinct (map kx_id ks)"
    "validate_system st now i (Some ks) = Inr (st', rs)"
  shows "\<exists>ctx. build_context st now i = Inr ctx \<and> rs = map (result_of ctx now i) ks \<and>
    kv_results st' = kv_results st @ rs \<and> distinct (map state_key (kv_states st')) \<and>
    filter (\<lambda>s. state_key s \<notin> (\<lambda>k. (i, kx_id k)) ` set ks) (kv_states st') =
      filter (\<lambda>s. state_key s \<notin> (\<lambda>k. (i, kx_id k)) ` set ks) (kv_states st) \<and>
    (\<forall>k \<in> set ks. \<exists>s. filter (\<lambda>s. state_key s = (i, kx_id k)) (kv_states st') = [s] \<and>
       kt_status s = vd_status (evaluate_rule (kx_rule k) ctx) \<and> kt_last_validated_at s = Some now)"
proof -
  obtain ctx where ctx: "build_context st now i = Inr ctx" "fold (validate_one ctx now i) ks (st, []) = (st', rs)"
    using assms(3) by (auto simp: validate_system_def rbind_eq_Inr)
  then show ?thesis using validate_fold [OF assms(1,2), of ctx now i] by auto
qed

section \<open>A sample\<close>

definition sample_ksi :: ksi where
  "sample_ksi = \<lparr>kx_id = 4, kx_identifier = ''KSI-CNA-01'', kx_category = ''CNA'', kx_validation_frequency = Some ''weekly'',
     kx_rule = Rule (Some ''connector_capture'') None [] [] [] [''mfa''], kx_sort_order = 1\<rparr>"

definition sample_ksi_test :: control_test where
  "sample_ksi_test = \<lparr>ct_id = 1, ct_organization_id = Some 1, ct_system_id = Some 1, ct_control_id = ''AC'',
     ct_control_ids = None, ct_name = ''t'', ct_description = None, ct_method = ''manual'', ct_connector_type = None,
     ct_frequency = None, ct_expected = None, ct_assertion = None, ct_active = True, ct_source = ''scan'',
     ct_check_key = None, ct_check_source = None, ct_capability_id = None, ct_last_status = Some ''pass'',
     ct_last_tested_at = None\<rparr>"

definition ksi_db :: db where
  "ksi_db = \<lparr>tests = [sample_ksi_test], results = [], resource_results = [], waivers = [], connectors = [], captures = [],
     tasks = [], poams = [], notifications = [], events = [], webhooks = [], controls = [], outbox = [], next_id = 1\<rparr>"

definition sample_ksi_store :: ksi_store where
  "sample_ksi_store = \<lparr>kv_db = ksi_db, kv_systems = [], kv_implementations = [], kv_evidence = [],
     kv_dependencies = [], kv_profiles = [], kv_ksis = [sample_ksi], kv_states = [], kv_results = []\<rparr>"

definition sample_context :: system_context where
  "sample_context = \<lparr>cx_impl_status = [], cx_control_evidence = [], cx_evidence_refs = [], cx_dependencies = [],
     cx_profile = [], cx_captures = [], cx_control_tests = [(''AC'', ''pass'')]\<rparr>"

lemma sample_keys: "attributed_keys sample_ksi_test = [''AC'']"
  by (simp add: attributed_keys_def sample_ksi_test_def pass_attribution_def normalize_control_def strip_def lstrip_def
      is_space_def in_range_def upper_def upper_char_def is_lower_def is_upper_def)

lemma sample_build: "build_context sample_ksi_store now 1 = Inr sample_context"
proof -
  have "recorded_tests sample_ksi_store 1 = [sample_ksi_test]"
    by (simp add: recorded_tests_def sample_ksi_store_def ksi_db_def sample_ksi_test_def)
  moreover have "tested_passes [sample_ksi_test] = [(''AC'', ''pass'')]"
    by (simp add: tested_passes_def statuses_by_control_def sample_keys get_default_Nil) (simp add: sample_ksi_test_def)
  ultimately show ?thesis
    by (simp add: build_context_def sample_ksi_store_def capture_keys_def empty_context_def sample_context_def)
qed

theorem tested_credit_needs_every_test_witness:
  "map_of (cx_control_tests sample_context) ''AC'' = Some ''pass'' \<and>
   (\<exists>t \<in> set (recorded_tests sample_ksi_store 1). ''AC'' \<in> set (attributed_keys t))"
  using tested_credit_needs_every_test [OF sample_build, of "''AC''"] by (simp add: sample_context_def)

theorem validation_records_every_ksi_witness:
  "\<exists>st' rs. validate_system sample_ksi_store 5 1 (Some [sample_ksi]) = Inr (st', rs) \<and> length (kv_states st') = 1 \<and>
     rs = [result_of sample_context 5 1 sample_ksi]"
proof -
  obtain st' rs where v: "validate_system sample_ksi_store 5 1 (Some [sample_ksi]) = Inr (st', rs)"
    by (simp add: validate_system_def sample_build) (metis surj_pair)
  have "distinct (map state_key (kv_states sample_ksi_store))" by (simp add: sample_ksi_store_def)
  from validation_records_every_ksi [OF this _ v] obtain ctx where ctx: "build_context sample_ksi_store 5 1 = Inr ctx"
    "rs = [result_of ctx 5 1 sample_ksi]"
    "filter (\<lambda>s. state_key s \<noteq> (1, kx_id sample_ksi)) (kv_states st') = filter (\<lambda>s. state_key s \<noteq> (1, kx_id sample_ksi)) (kv_states sample_ksi_store)"
    "\<exists>s. filter (\<lambda>s. state_key s = (1, kx_id sample_ksi)) (kv_states st') = [s]"
    by auto
  have "length xs = length (filter P xs) + length (filter (\<lambda>x. \<not> P x) xs)" for P and xs :: "ksi_state list"
    by (induction xs) auto
  from this [of "kv_states st'" "\<lambda>s. state_key s = (1, kx_id sample_ksi)"] ctx(3,4)
  have "length (kv_states st') = 1" by (auto simp: sample_ksi_store_def)
  then show ?thesis using v ctx(1,2) sample_build by auto
qed

end
