(* ===== verification/Objectives.thy ===== *)
theory Objectives
  imports Control_Ids "HOL-Library.Product_Lexorder"
begin

text \<open>
  A control's assessment objectives, read from the catalogue (\<open>assessment/engine/objectives.py\<close>), and
  the folding of control identifiers they are grouped by (\<open>normalize_control_identifier\<close> of
  \<open>prep/screen.py\<close>): which catalogue rows are the objectives of a control, the label each is given,
  and that the labels are distinct. SHA-256 is the parameter \<open>H\<close>. Identifiers are ASCII.
\<close>

section \<open>Folding control identifiers\<close>

text \<open>\<open>re.sub(r"\(.*$", "", s)\<close>: the first parenthesis from which the text runs on one line to its
  end, a final line break left in place.\<close>

definition newline :: char where
  "newline = CHR 0x0A"

definition final_newline :: "string \<Rightarrow> string" where
  "final_newline s = (if s \<noteq> [] \<and> last s = newline then [newline] else [])"

definition one_line :: "string \<Rightarrow> bool" where
  "one_line s \<longleftrightarrow> newline \<notin> set (if final_newline s = [] then s else butlast s)"

fun cut_enhancement :: "string \<Rightarrow> string" where
  "cut_enhancement [] = []"
| "cut_enhancement (c # cs) =
     (if c = CHR ''('' \<and> one_line cs then final_newline cs else c # cut_enhancement cs)"

text \<open>The digits after \<open>0*\<close>, which leaves one digit at least.\<close>

definition unpadded :: "string \<Rightarrow> string" where
  "unpadded ds = (let r = dropWhile (\<lambda>c. c = CHR ''0'') ds in if r = [] then ''0'' else r)"

definition normalize_control_identifier :: "string \<Rightarrow> string" where
  "normalize_control_identifier identifier =
     (let base = strip (cut_enhancement identifier);
          family = takeWhile is_alpha base;
          r = dropWhile is_alpha base
      in if family \<noteq> [] \<and> r \<noteq> [] \<and> hd r = CHR ''-'' \<and> all_digits (tl r)
         then family @ ''-'' @ unpadded (tl r) else base)"

section \<open>Labels\<close>

text \<open>The suffix \<open>#row\d+$\<close> the loader gives to a repeated identifier.\<close>

definition dedup_here :: "string \<Rightarrow> bool" where
  "dedup_here s \<longleftrightarrow>
     (let r = drop 4 s
      in is_prefix_of ''#row'' s \<and> takeWhile is_digit r \<noteq> [] \<and> dropWhile is_digit r \<in> {[], [newline]})"

fun is_deduplicated_identifier :: "string \<Rightarrow> bool" where
  "is_deduplicated_identifier [] = False"
| "is_deduplicated_identifier (c # cs) = (dedup_here (c # cs) \<or> is_deduplicated_identifier cs)"

fun strip_dedup_suffix :: "string \<Rightarrow> string" where
  "strip_dedup_suffix [] = []"
| "strip_dedup_suffix (c # cs) =
     (if dedup_here (c # cs) then final_newline (c # cs) else c # strip_dedup_suffix cs)"

definition letter :: "nat \<Rightarrow> char" where
  "letter i = char_of (97 + i)"

definition ordinal_label :: "string \<Rightarrow> nat \<Rightarrow> string res" where
  "ordinal_label sequence_control index =
     (if index < 26 then Inr (sequence_control @ [letter index])
      else if index div 26 - 1 < 26 then Inr (sequence_control @ [letter (index div 26 - 1), letter (index mod 26)])
      else Inl (IndexError ''string index out of range''))"

section \<open>Objectives\<close>

record catalog_row =
  cw_id :: int
  cw_identifier :: string
  cw_control_name :: "string option"
  cw_assessment_objective :: "string option"
  cw_sequence_control :: "string option"
  cw_ap_acronym :: "string option"
  cw_source_row :: "int option"

record objective =
  ob_label :: string
  ob_text :: string
  ob_text_sha256 :: string
  ob_sort_order :: nat

definition objective_sha256 :: "(string \<Rightarrow> string) \<Rightarrow> string \<Rightarrow> string" where
  "objective_sha256 H s = H (strip s)"

text \<open>\<open>x or y\<close> on nullable texts: the empty text counts as absent.\<close>

definition nonempty :: "string option \<Rightarrow> string option" where
  "nonempty s = (case s of None \<Rightarrow> None | Some t \<Rightarrow> if t = [] then None else Some t)"

definition row_sequence :: "string \<Rightarrow> catalog_row \<Rightarrow> string" where
  "row_sequence canonical r = (case nonempty (cw_sequence_control r) of None \<Rightarrow> canonical | Some s \<Rightarrow> s)"

text \<open>The label the catalogue supplies: the identifier unless the loader made it, else the acronym.\<close>

definition catalog_label :: "catalog_row \<Rightarrow> string option" where
  "catalog_label r =
     (case nonempty (if is_deduplicated_identifier (cw_identifier r) then None else Some (cw_identifier r)) of
        Some l \<Rightarrow> Some l
      | None \<Rightarrow> nonempty (cw_ap_acronym r))"

definition dup_label :: "string \<Rightarrow> nat \<Rightarrow> string" where
  "dup_label l index = fstr [l, ''-dup'', str_of_nat index]"

definition choose_label :: "string \<Rightarrow> string list \<Rightarrow> nat \<Rightarrow> catalog_row \<Rightarrow> string res" where
  "choose_label canonical seen index r =
     (let ordinal = ordinal_label (row_sequence canonical r) index
      in rbind (case catalog_label r of Some l \<Rightarrow> Inr l | None \<Rightarrow> ordinal) (\<lambda>l.
         rbind (if l \<in> set seen then ordinal else Inr l) (\<lambda>l'.
           Inr (if l' \<in> set seen then dup_label l' index else l'))))"

text \<open>The loop over the matching rows: a blank objective is skipped but keeps its place in the count.\<close>

fun extract_rows :: "(string \<Rightarrow> string) \<Rightarrow> string \<Rightarrow> objective list \<Rightarrow> nat \<Rightarrow> catalog_row list \<Rightarrow> objective list res" where
  "extract_rows H canonical acc index [] = Inr acc"
| "extract_rows H canonical acc index (r # rs) =
     (let s = strip (case cw_assessment_objective r of None \<Rightarrow> [] | Some t \<Rightarrow> t)
      in if s = [] then extract_rows H canonical acc (index + 1) rs
         else rbind (choose_label canonical (map ob_label acc) index r) (\<lambda>l.
           extract_rows H canonical
             (acc @ [\<lparr>ob_label = l, ob_text = s, ob_text_sha256 = objective_sha256 H s, ob_sort_order = index\<rparr>])
             (index + 1) rs))"

text \<open>The rows of a control in catalogue order: a row without a source row comes last.\<close>

definition matching_rows :: "catalog_row list \<Rightarrow> string \<Rightarrow> catalog_row list" where
  "matching_rows rows control_identifier =
     filter (\<lambda>r. normalize_control_identifier (case cw_sequence_control r of None \<Rightarrow> [] | Some s \<Rightarrow> s)
                = normalize_control_identifier control_identifier)
       (sort_key (\<lambda>r. case cw_source_row r of None \<Rightarrow> (1 :: nat, 0, cw_id r) | Some n \<Rightarrow> (0, n, cw_id r))
         (filter (\<lambda>r. cw_control_name r = None \<and> cw_assessment_objective r \<noteq> None) rows))"

definition extraction_message :: "string \<Rightarrow> nat \<Rightarrow> nat \<Rightarrow> string" where
  "extraction_message control_identifier n limit =
     fstr [''control '', control_identifier, '' yielded '', str_of_nat n, '' objectives, above the '', str_of_nat limit,
       ''-objective guard configured via assessment_engine_max_objectives_per_control. This is not necessarily a '',
       ''grouping bug -- the real catalog'', [CHR 0x27], ''s largest control has 98 sub-clause objectives on its own -- but it is far '',
       ''enough outside the observed range to confirm before evaluating. Raise the setting if this control is '',
       ''legitimately this large.'']"

definition objectives_for ::
  "(string \<Rightarrow> string) \<Rightarrow> nat \<Rightarrow> catalog_row list \<Rightarrow> string \<Rightarrow> objective list res" where
  "objectives_for H limit rows control_identifier =
     (let matching = matching_rows rows control_identifier
      in if limit < length matching
         then Inl (ObjectiveExtractionError (extraction_message control_identifier (length matching) limit))
         else extract_rows H (normalize_control_identifier control_identifier) [] 0 matching)"

section \<open>Labels are distinct\<close>

text \<open>A text that ends like the label of last resort.\<close>

definition ends_dup :: "string \<Rightarrow> bool" where
  "ends_dup l \<longleftrightarrow> takeWhile is_digit (rev l) \<noteq> [] \<and> is_prefix_of (rev ''-dup'') (dropWhile is_digit (rev l))"

definition plain_label :: "catalog_row \<Rightarrow> bool" where
  "plain_label r \<longleftrightarrow> (case catalog_label r of None \<Rightarrow> True | Some l \<Rightarrow> \<not> ends_dup l)"

definition row_text :: "catalog_row \<Rightarrow> string" where
  "row_text r = strip (case cw_assessment_objective r of None \<Rightarrow> [] | Some t \<Rightarrow> t)"

lemma letter_not_digit: "i < 26 \<Longrightarrow> \<not> is_digit (letter i)"
  by (simp add: letter_def is_digit_def in_range_def)

lemma ordinal_label_total: "i < 702 \<Longrightarrow> \<exists>l. ordinal_label s i = Inr l"
  by (auto simp: ordinal_label_def)

lemma ordinal_label_last: "ordinal_label s i = Inr l \<Longrightarrow> \<not> ends_dup l"
  by (auto simp: ordinal_label_def ends_dup_def letter_not_digit split: if_splits)

lemma rev_digits_dup: "takeWhile is_digit (rev (dup_label l i)) = rev (str_of_nat i)"
proof -
  have "list_all is_digit (rev (str_of_nat i))" using str_of_nat_digits by (simp add: list_all_iff)
  then show ?thesis
    by (simp add: dup_label_def fstr_def takeWhile_digits is_digit_def in_range_def)
qed

lemma dup_label_index: "dup_label l i = dup_label l' j \<Longrightarrow> i = j"
  using rev_digits_dup [of l i] rev_digits_dup [of l' j] nat_of_digits_str_of_nat [of i] nat_of_digits_str_of_nat [of j]
  by (metis rev_rev_ident)

lemma ends_dup_dup_label: "ends_dup (dup_label l i)"
proof -
  have d: "list_all is_digit (rev (str_of_nat i))" using str_of_nat_digits by (simp add: list_all_iff)
  have "dropWhile is_digit (rev (dup_label l i)) = rev ''-dup'' @ rev l"
    using d by (simp add: dup_label_def fstr_def dropWhile_append list_all_iff is_digit_def [of "CHR ''p''"] in_range_def)
  then show ?thesis using rev_digits_dup [of l i] by (simp add: ends_dup_def is_prefix_of_iff)
qed

text \<open>Which labels a row may be given, and that the one it is given is new.\<close>

definition labels_ok :: "nat \<Rightarrow> string list \<Rightarrow> bool" where
  "labels_ok index ls \<longleftrightarrow> distinct ls \<and> (\<forall>l \<in> set ls. ends_dup l \<longrightarrow> (\<exists>x j. l = dup_label x j \<and> j < index))"

lemma labels_ok_Suc: "labels_ok index ls \<Longrightarrow> labels_ok (Suc index) ls"
  unfolding labels_ok_def by (meson less_SucI)

lemma labels_ok_snoc:
  "labels_ok index ls \<Longrightarrow> l \<notin> set ls \<Longrightarrow> (ends_dup l \<Longrightarrow> \<exists>x j. l = dup_label x j \<and> j < Suc index) \<Longrightarrow>
     labels_ok (Suc index) (ls @ [l])"
  using labels_ok_Suc [of index ls] by (simp add: labels_ok_def)

lemma choose_label_new:
  assumes i: "index < 702" and ok: "labels_ok index seen"
    and c: "plain_label r"
  shows "\<exists>l. choose_label canonical seen index r = Inr l \<and> labels_ok (Suc index) (seen @ [l])"
proof -
  obtain ord where ord: "ordinal_label (row_sequence canonical r) index = Inr ord"
    using ordinal_label_total [OF i] by blast
  define first where "first = (case catalog_label r of Some l \<Rightarrow> l | None \<Rightarrow> ord)"
  define second where "second = (if first \<in> set seen then ord else first)"
  define last where "last = (if second \<in> set seen then dup_label second index else second)"
  have "choose_label canonical seen index r = Inr last"
    by (cases "catalog_label r") (simp_all add: choose_label_def ord first_def second_def last_def)
  moreover have nd: "\<not> ends_dup second"
    using c ordinal_label_last [OF ord] by (cases "catalog_label r") (simp_all add: first_def second_def plain_label_def)
  have dup_new: "dup_label second index \<notin> set seen"
  proof
    assume "dup_label second index \<in> set seen"
    then obtain x j where "dup_label second index = dup_label x j" "j < index"
      using ok ends_dup_dup_label unfolding labels_ok_def by blast
    then show False using dup_label_index by blast
  qed
  have "last \<notin> set seen" using dup_new by (simp add: last_def)
  moreover have "ends_dup last \<Longrightarrow> \<exists>x j. last = dup_label x j \<and> j < Suc index"
    using nd by (auto simp: last_def split: if_splits)
  ultimately show ?thesis using labels_ok_snoc [OF ok] by blast
qed

lemma extract_rows_spec:
  assumes "index + length rs \<le> 702" "labels_ok index (map ob_label acc)"
    and "list_all plain_label rs"
  shows "\<exists>os. extract_rows H canonical acc index rs = Inr (acc @ os) \<and> distinct (map ob_label (acc @ os)) \<and>
    map (\<lambda>ob. (ob_sort_order ob, ob_text ob, ob_text_sha256 ob)) os =
      map (\<lambda>(i, r). (i, row_text r, objective_sha256 H (row_text r))) (filter (\<lambda>(i, r). row_text r \<noteq> []) (enumerate index rs))"
  using assms
proof (induction rs arbitrary: index acc)
  case Nil
  then show ?case by (simp add: labels_ok_def)
next
  case (Cons r rs)
  have bound: "Suc index + length rs \<le> 702" using Cons.prems(1) by simp
  have labels: "list_all plain_label rs" using Cons.prems(3) by simp
  show ?case
  proof (cases "row_text r = []")
    case True
    have "labels_ok (Suc index) (map ob_label acc)" by (rule labels_ok_Suc [OF Cons.prems(2)])
    have "extract_rows H canonical acc index (r # rs) = extract_rows H canonical acc (Suc index) rs"
      using True by (simp add: row_text_def)
    then show ?thesis using Cons.IH [OF bound \<open>labels_ok (Suc index) _\<close> labels] True by simp
  next
    case False
    obtain l where l: "choose_label canonical (map ob_label acc) index r = Inr l" "labels_ok (Suc index) (map ob_label acc @ [l])"
      using choose_label_new [of index "map ob_label acc" r canonical] Cons.prems by auto
    define ob where "ob = \<lparr>ob_label = l, ob_text = row_text r, ob_text_sha256 = objective_sha256 H (row_text r), ob_sort_order = index\<rparr>"
    have "labels_ok (Suc index) (map ob_label (acc @ [ob]))" using l(2) by (simp add: ob_def)
    from Cons.IH [OF bound this labels] obtain os where os:
      "extract_rows H canonical (acc @ [ob]) (Suc index) rs = Inr ((acc @ [ob]) @ os)"
      "distinct (map ob_label ((acc @ [ob]) @ os))"
      "map (\<lambda>ob. (ob_sort_order ob, ob_text ob, ob_text_sha256 ob)) os =
         map (\<lambda>(i, r). (i, row_text r, objective_sha256 H (row_text r))) (filter (\<lambda>(i, r). row_text r \<noteq> []) (enumerate (Suc index) rs))"
      by blast
    have "extract_rows H canonical acc index (r # rs) = Inr (acc @ ob # os)"
      using False os(1) by (simp add: row_text_def [symmetric] l(1) Let_def ob_def)
    then show ?thesis using os(2,3) False by (intro exI [of _ "ob # os"]) (simp add: ob_def)
  qed
qed

text \<open>C34: the objectives of a control are its catalogue rows, under distinct labels. Up to 702 rows, and
  when no label of the catalogue ends like a label of last resort, reading a control's objectives never
  raises, gives every row with a text exactly one objective in catalogue order, with the row's place, its
  text and the digest of it, and no two objectives share a label, however sparse or repeated the
  identifiers and acronyms are.\<close>

theorem objective_labels_unique:
  assumes "limit \<le> 702" "length (matching_rows rows control_identifier) \<le> limit"
    and "list_all plain_label (matching_rows rows control_identifier)"
  shows "\<exists>os. objectives_for H limit rows control_identifier = Inr os \<and> distinct (map ob_label os) \<and>
    map (\<lambda>ob. (ob_sort_order ob, ob_text ob, ob_text_sha256 ob)) os =
      map (\<lambda>(i, r). (i, row_text r, objective_sha256 H (row_text r)))
        (filter (\<lambda>(i, r). row_text r \<noteq> []) (enumerate 0 (matching_rows rows control_identifier)))"
  using extract_rows_spec [of 0 "matching_rows rows control_identifier" "[]" H "normalize_control_identifier control_identifier"]
    assms by (auto simp: objectives_for_def Let_def labels_ok_def)

definition sample_rows :: "catalog_row list" where
  "sample_rows =
     [\<lparr>cw_id = 1, cw_identifier = ''AC-01a.'', cw_control_name = None, cw_assessment_objective = Some ''x'',
       cw_sequence_control = Some ''AC-01'', cw_ap_acronym = None, cw_source_row = Some 4\<rparr>,
      \<lparr>cw_id = 2, cw_identifier = ''AC-01a.#row9'', cw_control_name = None, cw_assessment_objective = Some ''y'',
       cw_sequence_control = Some ''AC-01'', cw_ap_acronym = Some ''AC-01a.'', cw_source_row = Some 9\<rparr>]"

lemma sample_matching: "matching_rows sample_rows ''AC-1'' = sample_rows"
  by (simp add: matching_rows_def sample_rows_def) code_simp

theorem objective_labels_unique_witness:
  "\<exists>os. objectives_for (\<lambda>s. s) 150 sample_rows ''AC-1'' = Inr os \<and> distinct (map ob_label os) \<and>
     map (\<lambda>ob. (ob_sort_order ob, ob_text ob, ob_text_sha256 ob)) os =
       map (\<lambda>(i, r). (i, row_text r, objective_sha256 (\<lambda>s. s) (row_text r)))
         (filter (\<lambda>(i, r). row_text r \<noteq> []) (enumerate 0 (matching_rows sample_rows ''AC-1'')))"
proof (rule objective_labels_unique)
  show "list_all plain_label (matching_rows sample_rows ''AC-1'')" unfolding sample_matching by code_simp
qed (simp_all add: sample_matching, simp add: sample_rows_def)

lemma sample_labels:
  "rbind (objectives_for (\<lambda>s. s) 150 sample_rows ''AC-1'') (\<lambda>os. Inr (map ob_label os)) = Inr [''AC-01a.'', ''AC-01b'']"
  by code_simp

end
