(* ===== verification/Objective_Evaluation.thy ===== *)
theory Objective_Evaluation
  imports Objectives Assertions Json
begin

text \<open>
  Evaluating one assessment objective, \<open>assessment/engine/evaluate.py\<close>, with the provenance it records
  (\<open>record_ai_run\<close> of \<open>ai_actions/provenance.py\<close>): retrieval, the primary verdict, the citations a model
  may make, and the dissent path in which a second call argues the opposite.

  Retrieval and the gateway to the language model are arguments of the environment, and so is what the
  database refuses to store. Both adapters validate a model's answer against the schema before the
  gateway returns it; \<open>structured_output\<close> has the schema's fields, with the values the module itself still
  checks left as they come. A float is \<open>pyfloat\<close>. Provenance is recorded inside a savepoint: a refusal
  undoes its rows only.
\<close>

section \<open>Passages and answers\<close>

record retrieved_unit =
  un_unit_id :: int
  un_content :: string
  un_page_numbers :: "int list"
  un_section_path :: "string option"

datatype raw_value = Plain json | Real pyfloat

record structured_output =
  so_verdict :: "json option"
  so_cited_unit_ids :: "raw_value list"
  so_gaps :: "json list"
  so_contradictions :: "json list"
  so_rationale :: "json option"
  so_confidence :: "raw_value option"

text \<open>\<open>gr_text\<close> is the canonical JSON text of \<open>data\<close>.\<close>

record gen_result =
  gr_data :: structured_output
  gr_text :: string
  gr_model :: string
  gr_provider :: string

text \<open>\<open>int(x)\<close> and \<open>float(x)\<close> of such a value.\<close>

definition truncate_rat :: "rat \<Rightarrow> int" where
  "truncate_rat r = (if 0 \<le> r then \<lfloor>r\<rfloor> else \<lceil>r\<rceil>)"

fun raw_int :: "raw_value \<Rightarrow> int res" where
  "raw_int (Plain (JInt i)) = Inr i"
| "raw_int (Plain (JBool b)) = Inr (if b then 1 else 0)"
| "raw_int (Plain (JStr s)) = py_int s"
| "raw_int (Real (Fin r)) = Inr (truncate_rat r)"
| "raw_int (Real NaN) = Inl (ValueError ''cannot convert float NaN to integer'')"
| "raw_int (Real x) = Inl (OverflowError ''cannot convert float infinity to integer'')"
| "raw_int (Plain v) = Inl (TypeError ''int() argument must be a string, a bytes-like object or a real number'')"

definition raw_int_caught :: "py_error \<Rightarrow> bool" where
  "raw_int_caught e \<longleftrightarrow> (case e of TypeError _ \<Rightarrow> True | ValueError _ \<Rightarrow> True | _ \<Rightarrow> False)"

fun raw_float :: "raw_value \<Rightarrow> pyfloat res" where
  "raw_float (Plain (JInt i)) =
     (case dbl (of_int i) of Fin r \<Rightarrow> Inr (Fin r) | _ \<Rightarrow> Inl (OverflowError ''int too large to convert to float''))"
| "raw_float (Plain (JBool b)) = Inr (Fin (if b then 1 else 0))"
| "raw_float (Plain (JStr s)) =
     (case py_float s of Some x \<Rightarrow> Inr x | None \<Rightarrow> Inl (ValueError (fstr [''could not convert string to float: '', py_repr s])))"
| "raw_float (Real x) = Inr x"
| "raw_float (Plain v) = Inl (TypeError ''float() argument must be a string or a real number'')"

section \<open>Prompts\<close>

definition PURPOSE :: string where "PURPOSE = ''assessment.evaluate_objective''"
definition ACTION_KEY :: string where "ACTION_KEY = ''evaluate_assessment_objective''"
definition DISSENT_CHALLENGE_ACTION_KEY :: string where "DISSENT_CHALLENGE_ACTION_KEY = ''challenge_assessment_objective''"
definition DISSENT_CHALLENGE_PURPOSE :: string where "DISSENT_CHALLENGE_PURPOSE = ''assessment.challenge_objective''"
definition DISSENT_CHALLENGE_POLICY_VERSION :: string where "DISSENT_CHALLENGE_POLICY_VERSION = ''v1''"

definition pages :: "retrieved_unit \<Rightarrow> string" where
  "pages u = join_with '', '' (map str_of_int (un_page_numbers u))"

definition passage :: "retrieved_unit \<Rightarrow> string" where
  "passage u = fstr [''['', str_of_int (un_unit_id u), ''] (page '', if pages u = [] then ''n/a'' else pages u,
     (case nonempty (un_section_path u) of None \<Rightarrow> [] | Some p \<Rightarrow> fstr ['', '', p]), '')'', [newline], un_content u]"

definition passages :: "retrieved_unit list \<Rightarrow> string" where
  "passages units = join_with [newline, newline] (map passage units)"

definition build_prompt :: "string \<Rightarrow> retrieved_unit list \<Rightarrow> string" where
  "build_prompt objective_text units = fstr [''Assessment objective:'', [newline], objective_text, [newline, newline],
     ''Evidence passages:'', [newline], passages units, [newline, newline],
     ''Decide whether these passages demonstrate that the objective is met. '',
     ''Cite the passage ids that support your verdict. List any gap that keeps '',
     ''the objective from being fully demonstrated, and any passage that '',
     ''contradicts another. This is analysis for an assessor, not a finding.'']"

definition build_challenge_prompt :: "string \<Rightarrow> retrieved_unit list \<Rightarrow> string" where
  "build_challenge_prompt objective_text units = fstr [''Assessment objective:'', [newline], objective_text, [newline, newline],
     ''Evidence passages (the same ones a first reviewer judged as satisfying this '',
     ''objective):'', [newline], passages units, [newline, newline],
     ''Argue the strongest case that these passages do NOT demonstrate the objective '',
     ''is met. Cite the passage ids that support your position. If you genuinely '',
     ''cannot construct a credible case against it, answer satisfied instead of '',
     ''manufacturing a disagreement.'']"

definition citation_label :: "retrieved_unit \<Rightarrow> string" where
  "citation_label u =
     (let page_part = (if pages u = [] then ''p. n/a'' else fstr [''p. '', pages u])
      in case nonempty (un_section_path u) of None \<Rightarrow> page_part | Some p \<Rightarrow> fstr [page_part, '' '', em_dash, '' '', p])"

section \<open>Provenance\<close>

record citation_ref =
  cit_source_type :: string
  cit_source_id :: string
  cit_label :: "string option"
  cit_note :: "string option"

record ai_action_run =
  ai_id :: int
  ai_organization_id :: int
  ai_action_key :: string
  ai_entity_type :: string
  ai_entity_id :: string
  ai_status :: string
  ai_provider :: string
  ai_model :: "string option"
  ai_prompt_version :: string
  ai_input_hash :: string
  ai_output_hash :: string
  ai_actor :: "string option"
  ai_reviewer :: "string option"
  ai_disposition :: "string option"
  ai_mutation_applied :: bool
  ai_decided_at :: "datetime option"

text \<open>The input, output and citation rows of a run.\<close>

record ai_action_details =
  ad_run_id :: int
  ad_prompt :: "string option"
  ad_content :: string
  ad_uncited :: bool
  ad_citations :: "citation_ref list"

record ai_log =
  lg_runs :: "ai_action_run list"
  lg_details :: "ai_action_details list"
  lg_next :: int

record engine_env =
  ge_hash :: "string \<Rightarrow> string"
  ge_retrieve :: "int \<Rightarrow> string \<Rightarrow> string \<Rightarrow> int option \<Rightarrow> nat \<Rightarrow> retrieved_unit list res"
  ge_generate :: "int \<Rightarrow> string \<Rightarrow> string \<Rightarrow> gen_result res"
  ge_run_refused :: "ai_action_run \<Rightarrow> bool"
  ge_store_prompts :: bool
  ge_dissent_enabled :: bool
  ge_retrieval_limit :: nat
  ge_max_objectives :: nat
  ge_now :: datetime

definition PIPELINE_RUN_STATUS :: string where "PIPELINE_RUN_STATUS = ''recorded''"
definition PROMPT_VERSION :: string where "PROMPT_VERSION = ''v1''"

definition record_ai_run ::
  "engine_env \<Rightarrow> ai_log \<Rightarrow> string \<Rightarrow> string \<Rightarrow> string \<Rightarrow> int \<Rightarrow> string \<Rightarrow> string option \<Rightarrow> string \<Rightarrow> string \<Rightarrow>
     citation_ref list \<Rightarrow> ai_log \<times> int option" where
  "record_ai_run E lg action_key entity_type entity_id org_id provider model prompt output citations =
     (let i = lg_next lg;
          run = \<lparr>ai_id = i, ai_organization_id = org_id, ai_action_key = action_key, ai_entity_type = entity_type,
                 ai_entity_id = entity_id, ai_status = PIPELINE_RUN_STATUS, ai_provider = provider, ai_model = model,
                 ai_prompt_version = PROMPT_VERSION, ai_input_hash = ge_hash E prompt, ai_output_hash = ge_hash E output,
                 ai_actor = None, ai_reviewer = None, ai_disposition = None, ai_mutation_applied = False, ai_decided_at = None\<rparr>;
          details = \<lparr>ad_run_id = i, ad_prompt = (if ge_store_prompts E then Some prompt else None), ad_content = output,
                     ad_uncited = (citations = []), ad_citations = citations\<rparr>
      in if ge_run_refused E run then (lg, None)
         else (lg\<lparr>lg_runs := lg_runs lg @ [run], lg_details := lg_details lg @ [details], lg_next := i + 1\<rparr>, Some i))"

section \<open>Citations\<close>

text \<open>Ids that do not convert are dropped, as are ids that were not offered and repeats.\<close>

fun cited_ids :: "int list \<Rightarrow> int list \<Rightarrow> raw_value list \<Rightarrow> int list res" where
  "cited_ids offered cited [] = Inr cited"
| "cited_ids offered cited (raw # raws) =
     (case raw_int raw of
        Inl e \<Rightarrow> if raw_int_caught e then cited_ids offered cited raws else Inl e
      | Inr i \<Rightarrow> cited_ids offered (if i \<in> set offered \<and> i \<notin> set cited then cited @ [i] else cited) raws)"

text \<open>\<open>units_by_id[i]\<close>: the last unit of that id.\<close>

definition citation_refs :: "retrieved_unit list \<Rightarrow> int list \<Rightarrow> citation_ref list" where
  "citation_refs units cited =
     map (\<lambda>i. \<lparr>cit_source_type = ''prep_unit'', cit_source_id = str_of_int i,
              cit_label = map_option citation_label (first_row (rev (filter (\<lambda>u. un_unit_id u = i) units))), cit_note = None\<rparr>) cited"

section \<open>Evaluation\<close>

record objective_evaluation =
  oe_verdict :: string
  oe_rationale :: string
  oe_confidence :: pyfloat
  oe_cited_unit_ids :: "int list"
  oe_retrieved_unit_ids :: "int list"
  oe_gaps :: "string list"
  oe_contradictions :: "string list"
  oe_model_name :: "string option"
  oe_ai_action_run_id :: "int option"
  oe_primary_verdict :: "string option"
  oe_challenger_verdict :: "string option"
  oe_challenger_rationale :: "string option"
  oe_challenger_run_id :: "int option"

definition required_verdict :: "structured_output \<Rightarrow> string res" where
  "required_verdict d = (case so_verdict d of None \<Rightarrow> Inl (KeyError ''verdict'') | Some v \<Rightarrow> Inr (py_str v))"

definition stated_rationale :: "structured_output \<Rightarrow> string" where
  "stated_rationale d = (case so_rationale d of None \<Rightarrow> [] | Some v \<Rightarrow> py_str v)"

definition NO_EVIDENCE_RATIONALE :: string where
  "NO_EVIDENCE_RATIONALE = ''No prepared evidence was retrieved for this objective.''"

definition NO_EVIDENCE_GAP :: string where
  "NO_EVIDENCE_GAP = ''No evidence retrieved -- nothing in the prepared corpus matched.''"

definition no_evidence :: "engine_env \<Rightarrow> ai_log \<Rightarrow> int \<Rightarrow> objective \<Rightarrow> ai_log \<times> objective_evaluation" where
  "no_evidence E lg org_id obj =
     (case record_ai_run E lg ACTION_KEY ''assessment_objective'' (ob_label obj) org_id ''none'' None
             (fstr [''No evidence retrieved for objective '', ob_label obj, '': '', ob_text obj])
             (dumps_compact (sort_keys (JObj [(''verdict'', JStr ''insufficient_evidence''), (''rationale'', JStr NO_EVIDENCE_RATIONALE),
                (''gaps'', JList [JStr NO_EVIDENCE_GAP])]))) [] of
        (lg', run) \<Rightarrow>
          (lg', \<lparr>oe_verdict = ''insufficient_evidence'', oe_rationale = NO_EVIDENCE_RATIONALE, oe_confidence = Fin 0,
                oe_cited_unit_ids = [], oe_retrieved_unit_ids = [], oe_gaps = [NO_EVIDENCE_GAP], oe_contradictions = [],
                oe_model_name = None, oe_ai_action_run_id = run, oe_primary_verdict = None, oe_challenger_verdict = None,
                oe_challenger_rationale = None, oe_challenger_run_id = None\<rparr>))"

text \<open>One call: the answer, the citations kept of it, the run that documents it and its verdict. The
  challenger's call has the same shape as the primary one, over the same passages.\<close>

record answer =
  an_result :: gen_result
  an_cited :: "int list"
  an_run :: "int option"
  an_verdict :: string

definition ask ::
  "engine_env \<Rightarrow> ai_log \<Rightarrow> string \<Rightarrow> string \<Rightarrow> string \<Rightarrow> int \<Rightarrow> objective \<Rightarrow> retrieved_unit list \<Rightarrow> (ai_log \<times> answer) res" where
  "ask E lg action_key purpose prompt org_id obj units =
     rbind (ge_generate E org_id prompt purpose) (\<lambda>r.
     rbind (cited_ids (map un_unit_id units) [] (so_cited_unit_ids (gr_data r))) (\<lambda>cited.
       let (lg', run) = record_ai_run E lg action_key ''assessment_objective'' (ob_label obj) org_id (gr_provider r)
                          (Some (gr_model r)) prompt (gr_text r) (citation_refs units cited)
       in rbind (required_verdict (gr_data r)) (\<lambda>v.
            Inr (lg', \<lparr>an_result = r, an_cited = cited, an_run = run, an_verdict = v\<rparr>))))"

text \<open>The challenge runs on a satisfied verdict only, in a savepoint of its own: a failure leaves the
  primary verdict alone.\<close>

definition challenge ::
  "engine_env \<Rightarrow> ai_log \<Rightarrow> int \<Rightarrow> objective \<Rightarrow> retrieved_unit list \<Rightarrow> string \<Rightarrow> ai_log \<times> answer option" where
  "challenge E lg org_id obj units verdict =
     (if ge_dissent_enabled E \<and> verdict = ''satisfied''
      then (case ask E lg DISSENT_CHALLENGE_ACTION_KEY DISSENT_CHALLENGE_PURPOSE (build_challenge_prompt (ob_text obj) units)
                   org_id obj units of
              Inl _ \<Rightarrow> (lg, None)
            | Inr (lg', c) \<Rightarrow> (lg', Some c))
      else (lg, None))"

definition contested :: "answer option \<Rightarrow> bool" where
  "contested c \<longleftrightarrow> (case c of None \<Rightarrow> False | Some a \<Rightarrow> an_verdict a \<noteq> ''satisfied'' \<and> an_cited a \<noteq> [])"

definition stated_confidence :: "structured_output \<Rightarrow> pyfloat res" where
  "stated_confidence d = (case so_confidence d of None \<Rightarrow> Inr (Fin 0) | Some x \<Rightarrow> raw_float x)"

definition evaluation_of :: "retrieved_unit list \<Rightarrow> answer \<Rightarrow> answer option \<Rightarrow> pyfloat \<Rightarrow> objective_evaluation" where
  "evaluation_of units a c confidence =
     (let d = gr_data (an_result a)
      in \<lparr>oe_verdict = (if contested c then ''insufficient_evidence'' else an_verdict a), oe_rationale = stated_rationale d,
          oe_confidence = confidence, oe_cited_unit_ids = an_cited a, oe_retrieved_unit_ids = map un_unit_id units,
          oe_gaps = map py_str (so_gaps d), oe_contradictions = map py_str (so_contradictions d),
          oe_model_name = Some (gr_model (an_result a)), oe_ai_action_run_id = an_run a,
          oe_primary_verdict = map_option (\<lambda>_. an_verdict a) c, oe_challenger_verdict = map_option an_verdict c,
          oe_challenger_rationale = map_option (\<lambda>x. stated_rationale (gr_data (an_result x))) c,
          oe_challenger_run_id = (case c of None \<Rightarrow> None | Some x \<Rightarrow> an_run x)\<rparr>)"

definition evaluate_objective ::
  "engine_env \<Rightarrow> ai_log \<Rightarrow> int \<Rightarrow> string \<Rightarrow> objective \<Rightarrow> int option \<Rightarrow> (ai_log \<times> objective_evaluation) res" where
  "evaluate_objective E lg org_id control_identifier obj system_id =
     rbind (ge_retrieve E org_id control_identifier (ob_text obj) system_id (ge_retrieval_limit E)) (\<lambda>units.
       if units = [] then Inr (no_evidence E lg org_id obj)
       else rbind (ask E lg ACTION_KEY PURPOSE (build_prompt (ob_text obj) units) org_id obj units) (\<lambda>(lg1, a).
         let (lg2, c) = challenge E lg1 org_id obj units (an_verdict a)
         in rbind (stated_confidence (gr_data (an_result a))) (\<lambda>confidence.
              Inr (lg2, evaluation_of units a c confidence))))"

section \<open>What an evaluation may say\<close>

lemma cited_ids_sound:
  "cited_ids offered cited raws = Inr cs \<Longrightarrow> distinct cited \<Longrightarrow> set cited \<subseteq> set offered \<Longrightarrow>
     distinct cs \<and> set cs \<subseteq> set offered"
  by (induction offered cited raws rule: cited_ids.induct) (auto split: sum.splits if_splits)

lemma record_ai_run_dissent [simp]: "record_ai_run (E\<lparr>ge_dissent_enabled := b\<rparr>) = record_ai_run E"
  by (intro ext) (simp add: record_ai_run_def)

lemma ask_dissent [simp]: "ask (E\<lparr>ge_dissent_enabled := b\<rparr>) = ask E"
  by (intro ext) (simp add: ask_def)

lemma no_evidence_dissent [simp]: "no_evidence (E\<lparr>ge_dissent_enabled := b\<rparr>) = no_evidence E"
  by (intro ext) (simp add: no_evidence_def)

text \<open>Provenance only grows, by one row per call.\<close>

definition extends :: "ai_log \<Rightarrow> ai_log \<Rightarrow> nat \<Rightarrow> bool" where
  "extends lg lg' n \<longleftrightarrow> (\<exists>new. lg_runs lg' = lg_runs lg @ new \<and> length new \<le> n)"

lemma extends_refl: "extends lg lg n"
  by (simp add: extends_def)

lemma extends_trans: "extends a b m \<Longrightarrow> extends b c n \<Longrightarrow> extends a c (m + n)"
  by (fastforce simp: extends_def)

lemma record_ai_run_extends: "extends lg (fst (record_ai_run E lg k t n org p m pr out cs)) 1"
  by (simp add: record_ai_run_def extends_def Let_def)

lemma ask_Inr:
  assumes "ask E lg k pu pr org_id obj units = Inr (lg', a)"
  shows "extends lg lg' 1" "distinct (an_cited a)" "set (an_cited a) \<subseteq> set (map un_unit_id units)"
    "required_verdict (gr_data (an_result a)) = Inr (an_verdict a)"
proof -
  from assms [unfolded ask_def] obtain r cited where
    c: "cited_ids (map un_unit_id units) [] (so_cited_unit_ids (gr_data r)) = Inr cited" and
    "(let (lg', run) = record_ai_run E lg k ''assessment_objective'' (ob_label obj) org_id (gr_provider r)
                          (Some (gr_model r)) pr (gr_text r) (citation_refs units cited)
       in rbind (required_verdict (gr_data r)) (\<lambda>v.
            Inr (lg', \<lparr>an_result = r, an_cited = cited, an_run = run, an_verdict = v\<rparr>))) = Inr (lg', a)"
    by (elim rbind_InrE) (rule that)
  then have "lg' = fst (record_ai_run E lg k ''assessment_objective'' (ob_label obj) org_id (gr_provider r)
                          (Some (gr_model r)) pr (gr_text r) (citation_refs units cited))"
    "an_cited a = cited" "an_result a = r" "required_verdict (gr_data r) = Inr (an_verdict a)"
    by (auto simp: Let_def split: prod.splits elim!: rbind_InrE)
  then show "extends lg lg' 1" "distinct (an_cited a)" "set (an_cited a) \<subseteq> set (map un_unit_id units)"
    "required_verdict (gr_data (an_result a)) = Inr (an_verdict a)"
    using record_ai_run_extends cited_ids_sound [OF c] by simp_all
qed

lemma challenge_extends: "extends lg (fst (challenge E lg org_id obj units v)) 1"
  using ask_Inr(1) [of E lg] by (auto simp: challenge_def extends_refl split: sum.splits)

lemma challenge_off [simp]: "challenge (E\<lparr>ge_dissent_enabled := False\<rparr>) lg org_id obj units v = (lg, None)"
  by (simp add: challenge_def)

lemma challenge_satisfied: "snd (challenge E lg org_id obj units v) = Some c \<Longrightarrow> v = ''satisfied''"
  by (simp add: challenge_def split: if_splits)

lemma challenge_asked:
  "challenge E lg org_id obj units v = (lg', Some c) \<Longrightarrow>
     ask E lg DISSENT_CHALLENGE_ACTION_KEY DISSENT_CHALLENGE_PURPOSE (build_challenge_prompt (ob_text obj) units) org_id obj units = Inr (lg', c)"
  by (auto simp: challenge_def split: if_splits sum.splits)

lemma no_evidence_extends: "extends lg (fst (no_evidence E lg org_id obj)) 1"
  using record_ai_run_extends by (simp add: no_evidence_def case_prod_beta)

lemma no_evidence_says:
  "oe_verdict (snd (no_evidence E lg org_id obj)) = ''insufficient_evidence''"
  "oe_cited_unit_ids (snd (no_evidence E lg org_id obj)) = []" "oe_retrieved_unit_ids (snd (no_evidence E lg org_id obj)) = []"
  by (simp_all add: no_evidence_def case_prod_beta)

lemma evaluate_objective_cases:
  assumes "evaluate_objective E lg org_id cid obj sid = Inr (lg', ev)"
  obtains (none) "ge_retrieve E org_id cid (ob_text obj) sid (ge_retrieval_limit E) = Inr []" "no_evidence E lg org_id obj = (lg', ev)"
  | (asked) units lg1 a c conf where "ge_retrieve E org_id cid (ob_text obj) sid (ge_retrieval_limit E) = Inr units" "units \<noteq> []"
      "ask E lg ACTION_KEY PURPOSE (build_prompt (ob_text obj) units) org_id obj units = Inr (lg1, a)"
      "challenge E lg1 org_id obj units (an_verdict a) = (lg', c)"
      "stated_confidence (gr_data (an_result a)) = Inr conf" "ev = evaluation_of units a c conf"
proof -
  from assms [unfolded evaluate_objective_def] obtain units where u:
    "ge_retrieve E org_id cid (ob_text obj) sid (ge_retrieval_limit E) = Inr units" and
    r: "(if units = [] then Inr (no_evidence E lg org_id obj)
       else rbind (ask E lg ACTION_KEY PURPOSE (build_prompt (ob_text obj) units) org_id obj units) (\<lambda>(lg1, a).
         let (lg2, c) = challenge E lg1 org_id obj units (an_verdict a)
         in rbind (stated_confidence (gr_data (an_result a))) (\<lambda>confidence.
              Inr (lg2, evaluation_of units a c confidence)))) = Inr (lg', ev)"
    by (elim rbind_InrE) (rule that)
  show thesis
  proof (cases "units = []")
    case True
    then show thesis using none u r by simp
  next
    case False
    with r obtain x where x: "ask E lg ACTION_KEY PURPOSE (build_prompt (ob_text obj) units) org_id obj units = Inr x"
      "(let (lg2, c) = challenge E (fst x) org_id obj units (an_verdict (snd x))
         in rbind (stated_confidence (gr_data (an_result (snd x)))) (\<lambda>confidence.
              Inr (lg2, evaluation_of units (snd x) c confidence))) = Inr (lg', ev)"
      by (auto simp: split_def elim!: rbind_InrE)
    obtain l2 c where c: "challenge E (fst x) org_id obj units (an_verdict (snd x)) = (l2, c)" by fastforce
    with x(2) obtain conf where "stated_confidence (gr_data (an_result (snd x))) = Inr conf"
      "lg' = l2" "ev = evaluation_of units (snd x) c conf"
      by (auto elim!: rbind_InrE)
    then show thesis using asked [OF u False _ _ _ ] x(1) c by (metis prod.collapse)
  qed
qed

text \<open>C27: a model may cite only what it was shown. An objective's citations are distinct ids among those
  retrieval offered it, whatever ids the model returned; nothing is cited, and nothing is satisfied, when
  retrieval found nothing; and an evaluation adds at most two provenance rows, changing none.\<close>

theorem citations_were_offered:
  assumes "evaluate_objective E lg org_id cid obj sid = Inr (lg', ev)"
  shows "distinct (oe_cited_unit_ids ev) \<and> set (oe_cited_unit_ids ev) \<subseteq> set (oe_retrieved_unit_ids ev) \<and>
    (\<exists>units. ge_retrieve E org_id cid (ob_text obj) sid (ge_retrieval_limit E) = Inr units \<and>
       oe_retrieved_unit_ids ev = map un_unit_id units) \<and>
    (oe_retrieved_unit_ids ev = [] \<longrightarrow> oe_verdict ev = ''insufficient_evidence'') \<and> extends lg lg' 2"
  using assms
proof (cases rule: evaluate_objective_cases)
  case none
  have "extends lg lg' 1" using no_evidence_extends [of lg E org_id obj] none(2) by simp
  then have "extends lg lg' 2" unfolding extends_def by fastforce
  then show ?thesis using none no_evidence_says [of E lg org_id obj] by simp
next
  case (asked units lg1 a c conf)
  have "extends lg1 lg' 1" using challenge_extends [of lg1] asked(4) by (metis fst_conv)
  then have "extends lg lg' 2" using extends_trans [OF ask_Inr(1) [OF asked(3)], of lg' 1] by (simp add: numeral_2_eq_2)
  then show ?thesis using asked ask_Inr [OF asked(3)] by (simp add: evaluation_of_def Let_def)
qed


definition sample_units :: "retrieved_unit list" where
  "sample_units = [\<lparr>un_unit_id = 7, un_content = ''Accounts are reviewed.'', un_page_numbers = [3, 4], un_section_path = Some ''AC''\<rparr>,
     \<lparr>un_unit_id = 8, un_content = ''Reviews lapsed.'', un_page_numbers = [], un_section_path = None\<rparr>]"

definition sample_answer :: "string \<Rightarrow> raw_value list \<Rightarrow> gen_result" where
  "sample_answer v ids = \<lparr>gr_data = \<lparr>so_verdict = Some (JStr v), so_cited_unit_ids = ids, so_gaps = [], so_contradictions = [],
     so_rationale = Some (JStr ''because''), so_confidence = Some (Real (Fin (1/2)))\<rparr>, gr_text = v, gr_model = ''m'', gr_provider = ''p''\<rparr>"

text \<open>The primary call is satisfied, the challenger is not.\<close>

definition sample_env :: engine_env where
  "sample_env = \<lparr>ge_hash = (\<lambda>s. s), ge_retrieve = (\<lambda>_ _ _ _ _. Inr sample_units),
     ge_generate = (\<lambda>_ _ purpose. Inr (if purpose = PURPOSE then sample_answer ''satisfied'' [Plain (JInt 7), Plain (JStr ''x''), Plain (JInt 7), Plain (JInt 9)]
                                       else sample_answer ''not_satisfied'' [Plain (JStr ''8'')])),
     ge_run_refused = (\<lambda>_. False), ge_store_prompts = True, ge_dissent_enabled = True, ge_retrieval_limit = 8,
     ge_max_objectives = 150, ge_now = 0\<rparr>"

definition sample_objective :: objective where
  "sample_objective = \<lparr>ob_label = ''AC-01a'', ob_text = ''x'', ob_text_sha256 = ''x'', ob_sort_order = 0\<rparr>"

definition empty_log :: ai_log where
  "empty_log = \<lparr>lg_runs = [], lg_details = [], lg_next = 1\<rparr>"

definition sample_evaluation :: "(ai_log \<times> objective_evaluation) res" where
  "sample_evaluation = evaluate_objective sample_env empty_log 1 ''AC-1'' sample_objective None"

lemma sample_evaluation_says:
  "rbind sample_evaluation (\<lambda>(lg, ev). Inr (oe_verdict ev, oe_cited_unit_ids ev, oe_challenger_verdict ev, length (lg_runs lg))) =
     Inr (''insufficient_evidence'', [7], Some ''not_satisfied'', 2)"
  by code_simp

theorem citations_were_offered_witness:
  "\<exists>lg ev. sample_evaluation = Inr (lg, ev) \<and> distinct (oe_cited_unit_ids ev) \<and> oe_cited_unit_ids ev = [7] \<and>
     set (oe_cited_unit_ids ev) \<subseteq> set (oe_retrieved_unit_ids ev) \<and> extends empty_log lg 2"
proof -
  obtain lg ev where e: "sample_evaluation = Inr (lg, ev)" "oe_cited_unit_ids ev = [7]"
    using sample_evaluation_says by (auto elim!: rbind_InrE)
  then show ?thesis using citations_were_offered [of sample_env empty_log 1 "''AC-1''" sample_objective None lg ev]
    unfolding sample_evaluation_def by blast
qed

end
