(* ===== verification/Assessment.thy ===== *)
theory Assessment
  imports Objective_Evaluation Grc_Models Job_Queue
begin

text \<open>
  Objective-level assessment of a control: the policy that rolls objective verdicts up
  (\<open>assessment/engine/rollup.py\<close>), opening, evaluating, accepting and rejecting a proposal with the
  POA\&M an accepted failure opens (\<open>assessment/engine/service.py\<close>), and the worker that drives queued
  evaluations (\<open>assessment/engine/jobs.py\<close>).

  \<open>refused\<close> and \<open>poam_refused\<close> say which objective rows and POA\&Ms the database refuses to store; the
  uniqueness of an objective's label within a proposal is part of the model. A row's fields are read when
  the operation starts; an exception leaves the store as it was.
\<close>

section \<open>Roll-up\<close>

definition OBJECTIVE_VERDICTS :: "string list" where [vocab]:
  "OBJECTIVE_VERDICTS = [''satisfied'', ''not_satisfied'', ''not_applicable'', ''insufficient_evidence'']"

definition CORRECTED_FINDINGS :: "string list" where [vocab]:
  "CORRECTED_FINDINGS = [''satisfied'', ''other_than_satisfied'', ''not_applicable'']"

definition ROLLUP_POLICY_VERSION :: string where "ROLLUP_POLICY_VERSION = ''v1''"

record rollup =
  rl_finding :: string
  rl_rationale :: string

definition verdict_breakdown :: "string list \<Rightarrow> string" where
  "verdict_breakdown verdicts =
     join_with '', '' (map (\<lambda>v. fstr [str_of_nat (count_list verdicts v), '' '', v])
       (filter (\<lambda>v. v \<in> set verdicts) OBJECTIVE_VERDICTS))"

definition partial_rationale :: "string list \<Rightarrow> nat \<Rightarrow> string" where
  "partial_rationale verdicts failed =
     fstr [str_of_nat (length verdicts), '' of '', str_of_nat (length verdicts + failed), '' objectives evaluated, '',
       str_of_nat failed, '' failed'',
       if verdict_breakdown verdicts = [] then [] else fstr ['' ('', verdict_breakdown verdicts, '' among those evaluated)''],
       '' -- an objective that could not be evaluated means '',
       ''this control cannot be proposed as satisfied or as other than satisfied.'']"

definition rollup_summary :: "string list \<Rightarrow> string" where
  "rollup_summary verdicts = (if verdicts = [] then ''0 objectives''
     else fstr [str_of_nat (length verdicts), '' objective(s): '', verdict_breakdown verdicts])"

definition roll_up_verdicts :: "string list \<Rightarrow> nat \<Rightarrow> rollup res" where
  "roll_up_verdicts verdicts failed =
     (let unknown = filter (\<lambda>v. v \<notin> set OBJECTIVE_VERDICTS) verdicts; summary = rollup_summary verdicts
      in if unknown \<noteq> [] then Inl (ValueError (fstr [''unknown objective verdict(s): '', repr_list (sorted_set unknown)]))
         else if failed \<noteq> 0 then Inr \<lparr>rl_finding = ''insufficient_evidence'', rl_rationale = partial_rationale verdicts failed\<rparr>
         else if verdicts = []
         then Inr \<lparr>rl_finding = ''insufficient_evidence'',
                   rl_rationale = fstr [summary, '' -- a control with no objectives cannot be proposed as satisfied.'']\<rparr>
         else if ''not_satisfied'' \<in> set verdicts
         then Inr \<lparr>rl_finding = ''other_than_satisfied'',
                   rl_rationale = fstr [summary, '' -- 800-53A requires every objective to be satisfied.'']\<rparr>
         else if ''insufficient_evidence'' \<in> set verdicts
         then Inr \<lparr>rl_finding = ''insufficient_evidence'',
                   rl_rationale = fstr [summary, '' -- evidence did not settle every objective.'']\<rparr>
         else if count_list verdicts ''not_applicable'' = length verdicts
         then Inr \<lparr>rl_finding = ''not_applicable'', rl_rationale = fstr [summary, '' -- all objectives N/A.'']\<rparr>
         else Inr \<lparr>rl_finding = ''satisfied'', rl_rationale = fstr [summary, '' -- every applicable objective met.'']\<rparr>)"

section \<open>Rows\<close>

record assessment =
  asm_id :: int
  asm_system_id :: int

record assessment_proposal = control_proposal +
  cp_assessment_id :: int
  cp_control_identifier :: string
  cp_proposed_finding :: "string option"
  cp_rollup_rationale :: "string option"
  cp_config_snapshot :: "(string \<times> json) list"
  cp_objectives_total :: nat
  cp_objectives_evaluated :: nat
  cp_dissent_count :: nat
  cp_accepted_by :: "string option"
  cp_accepted_at :: "datetime option"
  cp_corrected_finding :: "string option"
  cp_rejected_by :: "string option"
  cp_rejected_at :: "datetime option"
  cp_rejection_note :: "string option"
  cp_source_poam_id :: "int option"

record objective_proposal =
  op_control_proposal_id :: int
  op_label :: string
  op_objective_text :: string
  op_text_sha256 :: string
  op_sort_order :: nat
  op_state :: string
  op_verdict :: "string option"
  op_cited_unit_ids :: "int list"
  op_retrieved_unit_ids :: "int list"
  op_gaps :: "string list"
  op_contradictions :: "string list"
  op_rationale :: "string option"
  op_model_name :: "string option"
  op_model_confidence :: "pyfloat option"
  op_ai_action_run_id :: "int option"
  op_error :: "string option"
  op_primary_verdict :: "string option"
  op_challenger_verdict :: "string option"
  op_challenger_rationale :: "string option"
  op_challenger_run_id :: "int option"

record control_result =
  acr_id :: int
  acr_assessment_id :: int
  acr_control_id :: string
  acr_nist_id :: "string option"
  acr_finding :: string
  acr_objective_findings :: "(string \<times> json) list list"
  acr_assessor_note :: "string option"
  acr_reviewed :: bool
  acr_reviewer :: "string option"

record assessment_store =
  av_systems :: "system list"
  av_assessments :: "assessment list"
  av_catalog :: "catalog_row list"
  av_proposals :: "assessment_proposal list"
  av_objectives :: "objective_proposal list"
  av_results :: "control_result list"
  av_poams :: "poam list"
  av_jobs :: "assessment_job list"
  av_log :: ai_log
  av_next :: int

section \<open>Opening\<close>

text \<open>The organisation that owns an assessment, through its system.\<close>

definition assessment_org :: "assessment_store \<Rightarrow> int \<Rightarrow> int option" where
  "assessment_org st assessment_id =
     first_row (concat (map (\<lambda>a. map sy_organization_id (filter (\<lambda>y. sy_id y = asm_system_id a) (av_systems st)))
       (filter (\<lambda>a. asm_id a = assessment_id) (av_assessments st))))"

definition assessment_missing :: "int \<Rightarrow> py_error" where
  "assessment_missing assessment_id = ProposalError (fstr [''assessment '', str_of_int assessment_id, '' not found''])"

definition new_proposal :: "int \<Rightarrow> int \<Rightarrow> int \<Rightarrow> string \<Rightarrow> int option \<Rightarrow> assessment_proposal" where
  "new_proposal i org_id assessment_id canonical source_poam_id =
     \<lparr>cp_id = i, cp_organization_id = org_id, cp_state = ''draft'', cp_error = None, cp_assessment_id = assessment_id,
      cp_control_identifier = canonical, cp_proposed_finding = None, cp_rollup_rationale = None, cp_config_snapshot = [],
      cp_objectives_total = 0, cp_objectives_evaluated = 0, cp_dissent_count = 0, cp_accepted_by = None, cp_accepted_at = None,
      cp_corrected_finding = None, cp_rejected_by = None, cp_rejected_at = None, cp_rejection_note = None,
      cp_source_poam_id = source_poam_id\<rparr>"

definition add_proposal ::
  "assessment_store \<Rightarrow> int \<Rightarrow> int \<Rightarrow> string \<Rightarrow> int option \<Rightarrow> assessment_store \<times> assessment_proposal" where
  "add_proposal st org_id assessment_id canonical source_poam_id =
     (let p = new_proposal (av_next st) org_id assessment_id canonical source_poam_id
      in (st\<lparr>av_proposals := av_proposals st @ [p], av_next := av_next st + 1\<rparr>, p))"

definition open_control_proposal :: "assessment_store \<Rightarrow> int \<Rightarrow> string \<Rightarrow> (assessment_store \<times> assessment_proposal) res" where
  "open_control_proposal st assessment_id control_identifier =
     (case assessment_org st assessment_id of
        None \<Rightarrow> Inl (assessment_missing assessment_id)
      | Some org_id \<Rightarrow>
          (let canonical = normalize_control_identifier control_identifier
           in rbind (one_or_none (filter (\<lambda>p. cp_assessment_id p = assessment_id \<and> cp_control_identifier p = canonical \<and>
                       cp_source_poam_id p = None) (av_proposals st))) (\<lambda>existing.
              case existing of Some p \<Rightarrow> Inr (st, p)
              | None \<Rightarrow> Inr (add_proposal st org_id assessment_id canonical None))))"

definition open_reevaluation_proposal ::
  "assessment_store \<Rightarrow> control_result \<Rightarrow> int \<Rightarrow> (assessment_store \<times> assessment_proposal) res" where
  "open_reevaluation_proposal st r source_poam_id =
     rbind (one_or_none (filter (\<lambda>p. cp_source_poam_id p = Some source_poam_id) (av_proposals st))) (\<lambda>existing.
       case existing of Some p \<Rightarrow> Inr (st, p)
       | None \<Rightarrow>
           (case assessment_org st (acr_assessment_id r) of
              None \<Rightarrow> Inl (assessment_missing (acr_assessment_id r))
            | Some org_id \<Rightarrow>
                Inr (add_proposal st org_id (acr_assessment_id r) (normalize_control_identifier (acr_control_id r)) (Some source_poam_id))))"

section \<open>Evaluating\<close>

definition completed_row :: "assessment_proposal \<Rightarrow> objective \<Rightarrow> objective_evaluation \<Rightarrow> objective_proposal" where
  "completed_row p obj ev =
     \<lparr>op_control_proposal_id = cp_id p, op_label = ob_label obj, op_objective_text = ob_text obj, op_text_sha256 = ob_text_sha256 obj,
      op_sort_order = ob_sort_order obj, op_state = ''complete'', op_verdict = Some (oe_verdict ev),
      op_cited_unit_ids = oe_cited_unit_ids ev, op_retrieved_unit_ids = oe_retrieved_unit_ids ev, op_gaps = oe_gaps ev,
      op_contradictions = oe_contradictions ev, op_rationale = Some (oe_rationale ev), op_model_name = oe_model_name ev,
      op_model_confidence = Some (oe_confidence ev), op_ai_action_run_id = oe_ai_action_run_id ev, op_error = None,
      op_primary_verdict = oe_primary_verdict ev, op_challenger_verdict = oe_challenger_verdict ev,
      op_challenger_rationale = oe_challenger_rationale ev, op_challenger_run_id = oe_challenger_run_id ev\<rparr>"

definition failed_row :: "assessment_proposal \<Rightarrow> objective \<Rightarrow> string \<Rightarrow> objective_proposal" where
  "failed_row p obj err =
     \<lparr>op_control_proposal_id = cp_id p, op_label = ob_label obj, op_objective_text = ob_text obj, op_text_sha256 = ob_text_sha256 obj,
      op_sort_order = ob_sort_order obj, op_state = ''failed'', op_verdict = None, op_cited_unit_ids = [], op_retrieved_unit_ids = [],
      op_gaps = [], op_contradictions = [], op_rationale = None, op_model_name = None, op_model_confidence = None,
      op_ai_action_run_id = None, op_error = Some err, op_primary_verdict = None, op_challenger_verdict = None,
      op_challenger_rationale = None, op_challenger_run_id = None\<rparr>"

definition insert_objective ::
  "(objective_proposal \<Rightarrow> bool) \<Rightarrow> objective_proposal \<Rightarrow> objective_proposal list \<Rightarrow> objective_proposal list res" where
  "insert_objective refused row rows =
     (if refused row then Inl (IntegrityError ''row refused'')
      else if list_ex (\<lambda>o'. op_control_proposal_id o' = op_control_proposal_id row \<and> op_label o' = op_label row) rows
      then Inl (IntegrityError ''uq_objective_proposal_label'')
      else Inr (rows @ [row]))"

definition dissented :: "objective_evaluation \<Rightarrow> bool" where
  "dissented ev \<longleftrightarrow> oe_challenger_verdict ev \<noteq> None \<and> oe_verdict ev = ''insufficient_evidence''"

text \<open>The loop's state: the store, the verdicts so far, the objectives that failed, the dissents.\<close>

type_synonym loop_state = "assessment_store \<times> string list \<times> nat \<times> nat"

definition evaluate_one ::
  "engine_env \<Rightarrow> (objective_proposal \<Rightarrow> bool) \<Rightarrow> assessment_proposal \<Rightarrow> int option \<Rightarrow> objective \<Rightarrow> loop_state \<Rightarrow> loop_state" where
  "evaluate_one E refused p system_id obj acc =
     (case acc of (st, verdicts, failed, dissent) \<Rightarrow>
        case rbind (evaluate_objective E (av_log st) (cp_organization_id p) (cp_control_identifier p) obj system_id) (\<lambda>(lg, ev).
               rbind (insert_objective refused (completed_row p obj ev) (av_objectives st)) (\<lambda>rows. Inr (lg, ev, rows))) of
          Inr (lg, ev, rows) \<Rightarrow>
            (st\<lparr>av_log := lg, av_objectives := rows\<rparr>, verdicts @ [oe_verdict ev], failed,
             if dissented ev then dissent + 1 else dissent)
        | Inl e \<Rightarrow>
            ((case insert_objective refused (failed_row p obj (error_text e)) (av_objectives st) of
                Inr rows \<Rightarrow> st\<lparr>av_objectives := rows\<rparr>
              | Inl _ \<Rightarrow> st), verdicts, failed + 1, dissent))"

definition settle ::
  "engine_env \<Rightarrow> nat \<Rightarrow> string list \<Rightarrow> nat \<Rightarrow> rollup \<Rightarrow> assessment_proposal \<Rightarrow> assessment_proposal" where
  "settle E n verdicts dissent r p =
     p\<lparr>cp_state := ''complete'', cp_dissent_count := dissent,
       cp_config_snapshot := [(''retrieval_limit'', JInt (int (ge_retrieval_limit E))), (''max_objectives'', JInt (int (ge_max_objectives E)))],
       cp_objectives_total := n, cp_objectives_evaluated := length verdicts,
       cp_proposed_finding := Some (rl_finding r), cp_rollup_rationale := Some (rl_rationale r)\<rparr>"

definition assessment_system :: "assessment_store \<Rightarrow> int \<Rightarrow> int option" where
  "assessment_system st assessment_id =
     map_option asm_system_id (first_row (filter (\<lambda>a. asm_id a = assessment_id) (av_assessments st)))"

definition clear_objectives :: "int \<Rightarrow> assessment_store \<Rightarrow> assessment_store" where
  "clear_objectives pid st = st\<lparr>av_objectives := filter (\<lambda>row. op_control_proposal_id row \<noteq> pid) (av_objectives st)\<rparr>"

definition update_proposal :: "int \<Rightarrow> (assessment_proposal \<Rightarrow> assessment_proposal) \<Rightarrow> assessment_store \<Rightarrow> assessment_store" where
  "update_proposal pid f st = st\<lparr>av_proposals := update_rows (\<lambda>p. cp_id p = pid) f (av_proposals st)\<rparr>"

definition evaluate_control_proposal ::
  "engine_env \<Rightarrow> (objective_proposal \<Rightarrow> bool) \<Rightarrow> assessment_store \<Rightarrow> assessment_proposal \<Rightarrow> assessment_store res" where
  "evaluate_control_proposal E refused st p =
     rbind (objectives_for (ge_hash E) (ge_max_objectives E) (av_catalog st) (cp_control_identifier p)) (\<lambda>objs.
       case fold (evaluate_one E refused p (assessment_system st (cp_assessment_id p))) objs
              (clear_objectives (cp_id p) st, [], 0, 0) of
         (st1, verdicts, failed, dissent) \<Rightarrow>
           rbind (roll_up_verdicts verdicts failed) (\<lambda>r.
             Inr (update_proposal (cp_id p) (settle E (length objs) verdicts dissent r) st1)))"

section \<open>Staleness\<close>

definition stale_row_of :: "(string \<times> string) list \<Rightarrow> objective_proposal \<Rightarrow> bool" where
  "stale_row_of live row \<longleftrightarrow> map_of live (op_label row) \<noteq> Some (op_text_sha256 row)"

definition rows_of :: "assessment_store \<Rightarrow> int \<Rightarrow> objective_proposal list" where
  "rows_of st pid = filter (\<lambda>row. op_control_proposal_id row = pid) (av_objectives st)"

definition check_staleness :: "engine_env \<Rightarrow> assessment_store \<Rightarrow> assessment_proposal \<Rightarrow> bool res" where
  "check_staleness E st p =
     rbind (objectives_for (ge_hash E) (ge_max_objectives E) (av_catalog st) (cp_control_identifier p)) (\<lambda>live.
       Inr (list_ex (stale_row_of (rev (map (\<lambda>ob. (ob_label ob, ob_text_sha256 ob)) live))) (rows_of st (cp_id p))))"

section \<open>Accepting\<close>

definition opt_json :: "string option \<Rightarrow> json" where
  "opt_json x = (case x of None \<Rightarrow> JNull | Some s \<Rightarrow> JStr s)"

definition objective_finding_record :: "objective_proposal \<Rightarrow> (string \<times> json) list" where
  "objective_finding_record row =
     [(''label'', JStr (op_label row)), (''text'', JStr (op_objective_text row)),
      (''finding'', JStr (case nonempty (op_verdict row) of None \<Rightarrow> ''not_assessed'' | Some v \<Rightarrow> v))]
     @ (case nonempty (op_rationale row) of None \<Rightarrow> [] | Some s \<Rightarrow> [(''rationale'', JStr s)])
     @ (if op_gaps row = [] then [] else [(''gaps'', JList (map JStr (op_gaps row)))])
     @ (if op_contradictions row = [] then [] else [(''contradictions'', JList (map JStr (op_contradictions row)))])
     @ (if op_cited_unit_ids row = [] then [] else [(''cited_unit_ids'', JList (map JInt (op_cited_unit_ids row)))])
     @ (case op_primary_verdict row of None \<Rightarrow> []
        | Some v \<Rightarrow> [(''dissent'', JObj [(''primary_verdict'', JStr v), (''challenger_verdict'', opt_json (op_challenger_verdict row)),
                      (''challenger_rationale'', opt_json (op_challenger_rationale row))])])"

definition SEVERITY_SLA_DAYS :: "(string \<times> int) list" where [vocab]:
  "SEVERITY_SLA_DAYS = [(''critical'', 15), (''high'', 30), (''moderate'', 90), (''low'', 180)]"

definition result_ref :: "int \<Rightarrow> string" where
  "result_ref i = fstr [''assessment_control_result:'', str_of_int i]"

definition assessment_poam :: "datetime \<Rightarrow> int \<Rightarrow> int \<Rightarrow> assessment_proposal \<Rightarrow> control_result \<Rightarrow> poam" where
  "assessment_poam now i system_id p r =
     (let today = dt_date now; due = today + get_default SEVERITY_SLA_DAYS ''moderate'' 90
      in \<lparr>po_id = i, po_system_id = system_id, po_control_id = None,
          po_title = fstr [cp_control_identifier p, '' '', em_dash, '' other than satisfied''],
          po_weakness = Some (case nonempty (cp_rollup_rationale p) of Some s \<Rightarrow> s
            | None \<Rightarrow> fstr [cp_control_identifier p, '' assessed other than satisfied.'']),
          po_severity = ''moderate'', po_status = ''open'', po_identified_on = Some today, po_due_on = Some due,
          po_closed_on = None, po_source = Some ''assessment'', po_remediation_plan = None,
          po_remediation_plan_source = ''analyst'', po_original_due_on = Some due,
          po_source_ref = Some (result_ref (acr_id r)), po_milestones = [],
          po_owner_user_id = None, po_acceptance_rationale = None\<rparr>)"

definition ensure_poam ::
  "(poam \<Rightarrow> bool) \<Rightarrow> datetime \<Rightarrow> assessment_proposal \<Rightarrow> control_result \<Rightarrow> assessment_store \<Rightarrow> assessment_store" where
  "ensure_poam poam_refused now p r st =
     (if acr_finding r \<noteq> ''other_than_satisfied'' then st
      else case one_or_none (filter (\<lambda>q. po_source_ref q = Some (result_ref (acr_id r))) (av_poams st)) of
        Inr None \<Rightarrow>
          (case assessment_system st (cp_assessment_id p) of
             None \<Rightarrow> st
           | Some system_id \<Rightarrow>
               (let q = assessment_poam now (av_next st) system_id p r
                in if poam_refused q then st else st\<lparr>av_poams := av_poams st @ [q], av_next := av_next st + 1\<rparr>))
      | _ \<Rightarrow> st)"

definition same_result :: "assessment_proposal \<Rightarrow> control_result \<Rightarrow> bool" where
  "same_result p r \<longleftrightarrow> acr_assessment_id r = cp_assessment_id p \<and> acr_control_id r = cp_control_identifier p"

definition write_result ::
  "assessment_proposal \<Rightarrow> objective_proposal list \<Rightarrow> string \<Rightarrow> string \<Rightarrow> control_result \<Rightarrow> control_result" where
  "write_result p rows finding accepted_by r =
     r\<lparr>acr_objective_findings := map objective_finding_record rows, acr_finding := finding,
       acr_nist_id := Some (cp_control_identifier p), acr_assessor_note := cp_rollup_rationale p,
       acr_reviewed := True, acr_reviewer := Some accepted_by\<rparr>"

definition blank_result :: "int \<Rightarrow> assessment_proposal \<Rightarrow> control_result" where
  "blank_result i p = \<lparr>acr_id = i, acr_assessment_id = cp_assessment_id p, acr_control_id = cp_control_identifier p,
     acr_nist_id = None, acr_finding = ''not_assessed'', acr_objective_findings = [], acr_assessor_note = None,
     acr_reviewed = False, acr_reviewer = None\<rparr>"

text \<open>The result row of the control, inserted or updated in place.\<close>

definition put_result ::
  "assessment_proposal \<Rightarrow> objective_proposal list \<Rightarrow> string \<Rightarrow> string \<Rightarrow> assessment_store \<Rightarrow> (assessment_store \<times> control_result) res" where
  "put_result p rows finding accepted_by st =
     rbind (one_or_none (filter (same_result p) (av_results st))) (\<lambda>existing.
       case existing of
         Some r \<Rightarrow> Inr (st\<lparr>av_results := update_rows (same_result p) (write_result p rows finding accepted_by) (av_results st)\<rparr>,
                        write_result p rows finding accepted_by r)
       | None \<Rightarrow>
           (let r = write_result p rows finding accepted_by (blank_result (av_next st) p)
            in Inr (st\<lparr>av_results := av_results st @ [r], av_next := av_next st + 1\<rparr>, r)))"

text \<open>The runs of the primary calls behind these rows, stamped in one update.\<close>

definition run_ids :: "objective_proposal list \<Rightarrow> int list" where
  "run_ids rows = concat (map (\<lambda>row. case op_ai_action_run_id row of None \<Rightarrow> [] | Some i \<Rightarrow> [i]) rows)"

definition stamp_runs :: "objective_proposal list \<Rightarrow> (ai_action_run \<Rightarrow> ai_action_run) \<Rightarrow> assessment_store \<Rightarrow> assessment_store" where
  "stamp_runs rows f st =
     st\<lparr>av_log := (av_log st)\<lparr>lg_runs := update_rows (\<lambda>r. ai_id r \<in> set (run_ids rows)) f (lg_runs (av_log st))\<rparr>\<rparr>"

definition mark_accepted :: "datetime \<Rightarrow> string \<Rightarrow> assessment_proposal \<Rightarrow> assessment_proposal" where
  "mark_accepted now accepted_by p = p\<lparr>cp_state := ''accepted'', cp_accepted_by := Some accepted_by, cp_accepted_at := Some now\<rparr>"

definition proposal_text :: "int \<Rightarrow> string" where
  "proposal_text pid = fstr [''control proposal '', str_of_int pid]"

definition acceptance_refusal :: "assessment_proposal \<Rightarrow> bool \<Rightarrow> string option" where
  "acceptance_refusal p moved =
     (if moved \<or> cp_state p = ''stale''
      then Some (fstr [proposal_text (cp_id p), '' is stale -- the catalog objective text changed since evaluation; re-evaluate before accepting''])
      else if cp_state p \<noteq> ''complete''
      then Some (fstr [proposal_text (cp_id p), '' is '', py_repr (cp_state p), '', not complete''])
      else if cp_proposed_finding p = None then Some (fstr [proposal_text (cp_id p), '' has no proposed finding''])
      else if cp_proposed_finding p = Some ''insufficient_evidence''
      then Some (fstr [proposal_text (cp_id p), '' settled on insufficient_evidence -- the engine could not tell, which is not an acceptable finding''])
      else None)"

definition find_proposal :: "assessment_store \<Rightarrow> int \<Rightarrow> assessment_proposal res" where
  "find_proposal st pid =
     rbind (one_or_none (filter (\<lambda>p. cp_id p = pid) (av_proposals st))) (\<lambda>x.
       case x of None \<Rightarrow> Inl (ProposalError (fstr [proposal_text pid, '' not found''])) | Some p \<Rightarrow> Inr p)"

definition stamp_accepted :: "datetime \<Rightarrow> string \<Rightarrow> ai_action_run \<Rightarrow> ai_action_run" where
  "stamp_accepted now accepted_by r = r\<lparr>ai_reviewer := Some accepted_by, ai_disposition := Some ''accepted'',
     ai_decided_at := Some now, ai_mutation_applied := True\<rparr>"

definition accept_control_proposal ::
  "engine_env \<Rightarrow> (poam \<Rightarrow> bool) \<Rightarrow> assessment_store \<Rightarrow> int \<Rightarrow> string \<Rightarrow> (assessment_store \<times> control_result) res" where
  "accept_control_proposal E poam_refused st pid accepted_by =
     rbind (find_proposal st pid) (\<lambda>p.
     rbind (check_staleness E st p) (\<lambda>moved.
       case acceptance_refusal p moved of
         Some msg \<Rightarrow> Inl (AcceptanceRefused msg)
       | None \<Rightarrow>
           (let rows = sort_key op_sort_order (rows_of st pid); finding = the (cp_proposed_finding p)
            in rbind (put_result p rows finding accepted_by st) (\<lambda>(st1, r).
                 let st2 = stamp_runs rows (stamp_accepted (ge_now E) accepted_by)
                             (update_proposal pid (mark_accepted (ge_now E) accepted_by) st1)
                 in Inr (ensure_poam poam_refused (ge_now E) p r st2, r)))))"

section \<open>Rejecting\<close>

definition mark_rejected :: "datetime \<Rightarrow> string \<Rightarrow> string \<Rightarrow> string \<Rightarrow> assessment_proposal \<Rightarrow> assessment_proposal" where
  "mark_rejected now rejected_by corrected note p = p\<lparr>cp_state := ''rejected'', cp_corrected_finding := Some corrected,
     cp_rejected_by := Some rejected_by, cp_rejected_at := Some now, cp_rejection_note := Some note\<rparr>"

definition stamp_rejected :: "datetime \<Rightarrow> string \<Rightarrow> ai_action_run \<Rightarrow> ai_action_run" where
  "stamp_rejected now rejected_by r = r\<lparr>ai_reviewer := Some rejected_by, ai_disposition := Some ''rejected'', ai_decided_at := Some now\<rparr>"

definition rejection_refusal :: "assessment_proposal \<Rightarrow> string \<Rightarrow> string \<Rightarrow> string option" where
  "rejection_refusal p corrected note =
     (if cp_state p = ''accepted'' then Some (fstr [proposal_text (cp_id p), '' is already accepted and cannot be rejected''])
      else if cp_state p = ''rejected'' then Some (fstr [proposal_text (cp_id p), '' is already rejected''])
      else if corrected \<notin> set CORRECTED_FINDINGS
      then Some (fstr [''corrected_finding '', py_repr corrected, '' is not a valid correction -- must be one of ('',
             join_with '', '' (map py_repr CORRECTED_FINDINGS),
             ''); insufficient_evidence is proposal-only and cannot be asserted as a correction''])
      else if strip note = []
      then Some (fstr [proposal_text (cp_id p), '' cannot be rejected without a note explaining why''])
      else None)"

definition reject_control_proposal ::
  "engine_env \<Rightarrow> assessment_store \<Rightarrow> int \<Rightarrow> string \<Rightarrow> string \<Rightarrow> string \<Rightarrow> assessment_store res" where
  "reject_control_proposal E st pid rejected_by corrected note =
     rbind (find_proposal st pid) (\<lambda>p.
       case rejection_refusal p corrected note of
         Some msg \<Rightarrow> Inl (RejectionRefused msg)
       | None \<Rightarrow>
           Inr (stamp_runs (rows_of st pid) (stamp_rejected (ge_now E) rejected_by)
                 (update_proposal pid (mark_rejected (ge_now E) rejected_by corrected note) st)))"

section \<open>Queueing and driving\<close>

definition queue_proposal :: "datetime \<Rightarrow> assessment_store \<times> assessment_proposal \<Rightarrow> assessment_store \<times> assessment_job" where
  "queue_proposal now sp =
     (case sp of (st, p) \<Rightarrow>
        case enqueue_for_proposal now (av_next st) (control_proposal.truncate p) (av_jobs st) of
          (jobs, job) \<Rightarrow> (st\<lparr>av_jobs := jobs, av_next := (if jobs = av_jobs st then av_next st else av_next st + 1)\<rparr>, job))"

definition enqueue_control :: "datetime \<Rightarrow> assessment_store \<Rightarrow> int \<Rightarrow> string \<Rightarrow> (assessment_store \<times> assessment_job) res" where
  "enqueue_control now st assessment_id control_identifier =
     rbind (open_control_proposal st assessment_id control_identifier) (\<lambda>sp. Inr (queue_proposal now sp))"

definition referenced_result :: "string \<Rightarrow> int option" where
  "referenced_result source_ref =
     (if is_prefix_of ''assessment_control_result:'' source_ref
      then (case py_int (drop 26 source_ref) of Inl _ \<Rightarrow> None | Inr i \<Rightarrow> Some i) else None)"

definition enqueue_reevaluation ::
  "datetime \<Rightarrow> assessment_store \<Rightarrow> int \<Rightarrow> string \<Rightarrow> int \<Rightarrow> (assessment_store \<times> assessment_job option) res" where
  "enqueue_reevaluation now st poam_id source_ref org_id =
     (case referenced_result source_ref of
        None \<Rightarrow> Inr (st, None)
      | Some result_id \<Rightarrow>
          rbind (one_or_none (filter (\<lambda>r. acr_id r = result_id) (av_results st))) (\<lambda>x.
            case x of
              None \<Rightarrow> Inr (st, None)
            | Some r \<Rightarrow>
                if assessment_org st (acr_assessment_id r) \<noteq> Some org_id then Inr (st, None)
                else rbind (open_reevaluation_proposal st r poam_id) (\<lambda>sp.
                  case queue_proposal now sp of (st', job) \<Rightarrow> Inr (st', Some job))))"

text \<open>The worker: the batch loop of the queue over the store, a job's failure marking its proposal.\<close>

definition drive_one ::
  "engine_env \<Rightarrow> (objective_proposal \<Rightarrow> bool) \<Rightarrow> assessment_store \<Rightarrow> assessment_job \<Rightarrow>
     string + (assessment_store \<times> assessment_job \<times> string)" where
  "drive_one E refused st job =
     (case first_row (filter (\<lambda>p. cp_id p = aj_control_proposal_id job) (av_proposals st)) of
        None \<Rightarrow> Inr (st, job\<lparr>jb_status := ''failed'', jb_last_error :=
                    Some (fstr [''control proposal '', str_of_int (aj_control_proposal_id job), '' no longer exists''])\<rparr>, ''failed'')
      | Some p \<Rightarrow>
          (case evaluate_control_proposal E refused st p of
             Inl e \<Rightarrow> Inl (error_text e)
           | Inr st' \<Rightarrow> Inr (st', job\<lparr>jb_status := ''done''\<rparr>, ''done'')))"

definition mark_failed :: "string \<Rightarrow> assessment_proposal \<Rightarrow> assessment_proposal" where
  "mark_failed err p = p\<lparr>cp_state := ''failed'', cp_error := Some err\<rparr>"

definition run_once ::
  "engine_env \<Rightarrow> (objective_proposal \<Rightarrow> bool) \<Rightarrow> string \<Rightarrow> nat \<Rightarrow> assessment_store \<Rightarrow> assessment_store \<times> nat \<times> nat \<times> nat" where
  "run_once E refused worker limit st =
     (case run_batch (drive_one E refused) (\<lambda>job err. update_proposal (aj_control_proposal_id job) (mark_failed err))
             (ge_now E) worker limit st (av_jobs st) of
        (st', jobs, claimed, finished, failed) \<Rightarrow> (st'\<lparr>av_jobs := jobs\<rparr>, claimed, finished, failed))"

end
