(* ===== verification/Assessment_Laws.thy ===== *)
theory Assessment_Laws
  imports Assessment
begin

text \<open>
  What holds of the assessment engine: a control's finding is unanimous over its objectives, one
  objective's failure never fails the control and never lets it pass, what is accepted rests on the
  verdicts that were stored, and the ways a decision can be undone.
\<close>

section \<open>Roll-up\<close>

lemma count_list_length: "count_list xs x = length xs \<longleftrightarrow> set xs \<subseteq> {x}"
proof (induction xs)
  case (Cons y xs)
  have "count_list xs x \<le> length xs" by (rule count_le_length)
  then show ?case using Cons by auto
qed simp

definition policy_finding :: "string list \<Rightarrow> nat \<Rightarrow> string" where
  "policy_finding vs failed =
     (if failed \<noteq> 0 \<or> vs = [] then ''insufficient_evidence''
      else if ''not_satisfied'' \<in> set vs then ''other_than_satisfied''
      else if ''insufficient_evidence'' \<in> set vs then ''insufficient_evidence''
      else if set vs \<subseteq> {''not_applicable''} then ''not_applicable'' else ''satisfied'')"

lemma roll_up_verdicts_known:
  "set vs \<subseteq> set OBJECTIVE_VERDICTS \<Longrightarrow> \<exists>r. roll_up_verdicts vs failed = Inr r \<and> rl_finding r = policy_finding vs failed"
proof -
  assume "set vs \<subseteq> set OBJECTIVE_VERDICTS"
  then have "filter (\<lambda>v. v \<notin> set OBJECTIVE_VERDICTS) vs = []" by (auto simp: filter_empty_conv)
  then show ?thesis
    by (simp add: roll_up_verdicts_def policy_finding_def count_list_length Let_def)
qed

lemma roll_up_verdicts_Inr:
  assumes "roll_up_verdicts vs failed = Inr r"
  shows "set vs \<subseteq> set OBJECTIVE_VERDICTS" "rl_finding r = policy_finding vs failed"
proof -
  have u: "filter (\<lambda>v. v \<notin> set OBJECTIVE_VERDICTS) vs = []"
    using assms by (auto simp: roll_up_verdicts_def Let_def split: if_splits)
  then show k: "set vs \<subseteq> set OBJECTIVE_VERDICTS" by (auto simp: filter_empty_conv)
  from roll_up_verdicts_known [OF k, of failed] assms show "rl_finding r = policy_finding vs failed" by auto
qed

lemma policy_finding_cases:
  "policy_finding vs failed = ''satisfied'' \<Longrightarrow> set vs \<subseteq> set OBJECTIVE_VERDICTS \<Longrightarrow>
     failed = 0 \<and> vs \<noteq> [] \<and> set vs \<subseteq> {''satisfied'', ''not_applicable''}"
  "policy_finding vs failed = ''other_than_satisfied'' \<Longrightarrow> failed = 0 \<and> ''not_satisfied'' \<in> set vs"
  "policy_finding vs failed = ''not_applicable'' \<Longrightarrow> failed = 0 \<and> vs \<noteq> [] \<and> set vs \<subseteq> {''not_applicable''}"
  by (auto simp: policy_finding_def OBJECTIVE_VERDICTS_def split: if_splits)

section \<open>The loop over the objectives\<close>

lemma insert_objective_Inr: "insert_objective refused row rows = Inr rows' \<Longrightarrow> rows' = rows @ [row] \<and>
    (\<forall>o' \<in> set rows. op_control_proposal_id o' = op_control_proposal_id row \<longrightarrow> op_label o' \<noteq> op_label row)"
  by (auto simp: insert_objective_def list_ex_iff split: if_splits)

lemma evaluate_one_cases:
  assumes "evaluate_one E refused p sid obj (st, vs, f, d) = (st', vs', f', d')"
  obtains (evaluated) lg ev where "evaluate_objective E (av_log st) (cp_organization_id p) (cp_control_identifier p) obj sid = Inr (lg, ev)"
      "insert_objective refused (completed_row p obj ev) (av_objectives st) = Inr (av_objectives st @ [completed_row p obj ev])"
      "st' = st\<lparr>av_log := lg, av_objectives := av_objectives st @ [completed_row p obj ev]\<rparr>"
      "vs' = vs @ [oe_verdict ev]" "f' = f" "d' = (if dissented ev then d + 1 else d)"
  | (failed) err where "insert_objective refused (failed_row p obj err) (av_objectives st) = Inr (av_objectives st @ [failed_row p obj err])"
      "st' = st\<lparr>av_objectives := av_objectives st @ [failed_row p obj err]\<rparr>" "vs' = vs" "f' = Suc f" "d' = d"
  | (lost) "st' = st" "vs' = vs" "f' = Suc f" "d' = d"
proof (cases "rbind (evaluate_objective E (av_log st) (cp_organization_id p) (cp_control_identifier p) obj sid) (\<lambda>(lg, ev).
               rbind (insert_objective refused (completed_row p obj ev) (av_objectives st)) (\<lambda>rows. Inr (lg, ev, rows)))")
  case (Inl e)
  show thesis
  proof (cases "insert_objective refused (failed_row p obj (error_text e)) (av_objectives st)")
    case Inl': (Inl e')
    show thesis using assms Inl Inl' by (intro lost) (simp_all add: evaluate_one_def)
  next
    case (Inr rows)
    then have r: "rows = av_objectives st @ [failed_row p obj (error_text e)]" using insert_objective_Inr by blast
    show thesis using assms Inl Inr unfolding r by (intro failed [of "error_text e"]) (simp_all add: evaluate_one_def)
  qed
next
  case (Inr x)
  then obtain lg ev rows where x: "x = (lg, ev, rows)"
    "evaluate_objective E (av_log st) (cp_organization_id p) (cp_control_identifier p) obj sid = Inr (lg, ev)"
    "insert_objective refused (completed_row p obj ev) (av_objectives st) = Inr rows"
    by (auto elim!: rbind_InrE)
  have r: "rows = av_objectives st @ [completed_row p obj ev]" using insert_objective_Inr [OF x(3)] by blast
  show thesis using assms Inr x(2,3) unfolding x(1) r by (intro evaluated [of lg ev]) (simp_all add: evaluate_one_def)
qed

text \<open>What the rows the loop adds say about the verdicts it returns.\<close>

definition row_sound :: "objective_proposal \<Rightarrow> bool" where
  "row_sound row \<longleftrightarrow> distinct (op_cited_unit_ids row) \<and> set (op_cited_unit_ids row) \<subseteq> set (op_retrieved_unit_ids row) \<and>
     (op_retrieved_unit_ids row = [] \<longrightarrow> op_verdict row \<noteq> Some ''satisfied'') \<and>
     (op_state row = ''complete'' \<longleftrightarrow> op_verdict row \<noteq> None)"

definition row_keys :: "objective_proposal list \<Rightarrow> (int \<times> string) list" where
  "row_keys rows = map (\<lambda>row. (op_control_proposal_id row, op_label row)) rows"

lemma completed_row_sound:
  "evaluate_objective E lg org_id cid obj sid = Inr (lg', ev) \<Longrightarrow> row_sound (completed_row p obj ev)"
  using citations_were_offered [of E lg org_id cid obj sid lg' ev] by (auto simp: row_sound_def completed_row_def)

lemma failed_row_sound: "row_sound (failed_row p obj e)"
  by (simp add: row_sound_def failed_row_def)

definition loop_ok :: "assessment_store \<Rightarrow> int \<Rightarrow> nat \<Rightarrow> loop_state \<Rightarrow> bool" where
  "loop_ok st0 pid n acc \<longleftrightarrow> (case acc of (st, vs, f, d) \<Rightarrow>
     \<exists>new lg. st = st0\<lparr>av_log := lg, av_objectives := av_objectives st0 @ new\<rparr> \<and>
       (\<forall>row \<in> set new. op_control_proposal_id row = pid \<and> row_sound row) \<and>
       map op_verdict (filter (\<lambda>row. op_verdict row \<noteq> None) new) = map Some vs \<and>
       length vs + f = n \<and> length new \<le> n \<and>
       (distinct (row_keys (av_objectives st0)) \<longrightarrow> distinct (row_keys (av_objectives st0 @ new))) \<and> d \<le> length vs)"

lemma evaluate_one_ok:
  assumes "loop_ok st0 (cp_id p) n acc"
  shows "loop_ok st0 (cp_id p) (Suc n) (evaluate_one E refused p sid obj acc)"
proof -
  obtain st vs f d where acc: "acc = (st, vs, f, d)" by (cases acc)
  obtain st' vs' f' d' where r: "evaluate_one E refused p sid obj acc = (st', vs', f', d')" by (cases "evaluate_one E refused p sid obj acc")
  from assms [unfolded acc] obtain new lg where st: "st = st0\<lparr>av_log := lg, av_objectives := av_objectives st0 @ new\<rparr>"
    and new: "\<forall>row \<in> set new. op_control_proposal_id row = cp_id p \<and> row_sound row"
    "map op_verdict (filter (\<lambda>row. op_verdict row \<noteq> None) new) = map Some vs"
    "length vs + f = n" "length new \<le> n"
    "distinct (row_keys (av_objectives st0)) \<longrightarrow> distinct (row_keys (av_objectives st0 @ new))" "d \<le> length vs"
    unfolding loop_ok_def by auto
  have keys: "distinct (row_keys (av_objectives st0)) \<longrightarrow> distinct (row_keys (av_objectives st0 @ (new @ [row])))"
    if "insert_objective refused row (av_objectives st) = Inr (av_objectives st @ [row])" for row
    using new(5) insert_objective_Inr [OF that] unfolding st row_keys_def by (auto simp: image_iff)
  from r [unfolded acc] show ?thesis
  proof (cases rule: evaluate_one_cases)
    case (evaluated lg' ev)
    have "st' = st0\<lparr>av_log := lg', av_objectives := av_objectives st0 @ (new @ [completed_row p obj ev])\<rparr>"
      unfolding evaluated(3) st by simp
    moreover have "op_verdict (completed_row p obj ev) = Some (oe_verdict ev)" "op_control_proposal_id (completed_row p obj ev) = cp_id p"
      by (simp_all add: completed_row_def)
    ultimately show ?thesis unfolding r loop_ok_def prod.case
      using new evaluated(4-6) keys [OF evaluated(2)] completed_row_sound [OF evaluated(1), of p]
      by (intro exI [of _ "new @ [completed_row p obj ev]"] exI [of _ lg']) simp
  next
    case (failed err)
    have "st' = st0\<lparr>av_log := lg, av_objectives := av_objectives st0 @ (new @ [failed_row p obj err])\<rparr>"
      unfolding failed(2) st by simp
    moreover have "op_verdict (failed_row p obj err) = None" "op_control_proposal_id (failed_row p obj err) = cp_id p"
      by (simp_all add: failed_row_def)
    ultimately show ?thesis unfolding r loop_ok_def prod.case
      using new failed(3-5) keys [OF failed(1)] failed_row_sound [of p obj err]
      by (intro exI [of _ "new @ [failed_row p obj err]"] exI [of _ lg]) simp
  next
    case lost
    then show ?thesis unfolding r loop_ok_def prod.case using new st by (intro exI [of _ new] exI [of _ lg]) simp
  qed
qed

lemma loop_ok_fold:
  "loop_ok st0 (cp_id p) n acc \<Longrightarrow> loop_ok st0 (cp_id p) (n + length objs) (fold (evaluate_one E refused p sid) objs acc)"
proof (induction objs arbitrary: n acc)
  case (Cons obj objs)
  from Cons.IH [OF evaluate_one_ok [OF Cons.prems, of E refused sid obj]] show ?case by simp
qed simp

lemma loop_ok_start: "loop_ok st pid 0 (st, [], 0, 0)"
  unfolding loop_ok_def prod.case by (intro exI [of _ "[]"] exI [of _ "av_log st"]) simp

definition PROPOSED_FINDINGS :: "string list" where [vocab]:
  "PROPOSED_FINDINGS = [''satisfied'', ''other_than_satisfied'', ''not_applicable'', ''insufficient_evidence'']"

definition grounds :: "string \<Rightarrow> objective_proposal list \<Rightarrow> bool" where
  "grounds f rows \<longleftrightarrow> f \<in> set PROPOSED_FINDINGS \<and>
     (f = ''satisfied'' \<longrightarrow> rows \<noteq> [] \<and> (\<forall>row \<in> set rows. op_verdict row = Some ''satisfied'' \<or> op_verdict row = Some ''not_applicable'')) \<and>
     (f = ''not_applicable'' \<longrightarrow> rows \<noteq> [] \<and> (\<forall>row \<in> set rows. op_verdict row = Some ''not_applicable'')) \<and>
     (f = ''other_than_satisfied'' \<longrightarrow> (\<exists>row \<in> set rows. op_verdict row = Some ''not_satisfied''))"

lemma policy_finding_in: "policy_finding vs f \<in> set PROPOSED_FINDINGS"
  by (simp add: policy_finding_def PROPOSED_FINDINGS_def)

lemma filter_length_id: "length xs \<le> length (filter P xs) \<Longrightarrow> filter P xs = xs"
proof (induction xs)
  case (Cons x xs)
  have le: "length (filter P xs) \<le> length xs" by (rule length_filter_le)
  show ?case
  proof (cases "P x")
    case True
    then have "filter P xs = xs" using Cons.prems by (intro Cons.IH) simp
    then show ?thesis using True by simp
  next
    case False
    then show ?thesis using Cons.prems le by simp
  qed
qed simp

lemma all_verdicts:
  assumes m: "map op_verdict (filter (\<lambda>row. op_verdict row \<noteq> None) new) = map Some vs"
    and n: "length new \<le> length vs"
  shows "map op_verdict new = map Some vs"
proof -
  have "length (filter (\<lambda>row. op_verdict row \<noteq> None) new) = length vs" using arg_cong [OF m, of length] by simp
  then have "filter (\<lambda>row. op_verdict row \<noteq> None) new = new" using n by (intro filter_length_id) simp
  with m show ?thesis by simp
qed

lemma grounds_policy:
  assumes m: "map op_verdict (filter (\<lambda>row. op_verdict row \<noteq> None) new) = map Some vs"
    and n: "length vs + f = n" "length new \<le> n" and k: "set vs \<subseteq> set OBJECTIVE_VERDICTS"
  shows "grounds (policy_finding vs f) new"
proof -
  have all: "set vs \<subseteq> S \<Longrightarrow> f = 0 \<Longrightarrow> vs \<noteq> [] \<Longrightarrow> new \<noteq> [] \<and> (\<forall>row \<in> set new. op_verdict row \<in> Some ` S)" for S
  proof -
    assume h: "set vs \<subseteq> S" "f = 0" "vs \<noteq> []"
    have e: "map op_verdict new = map Some vs" using all_verdicts [OF m] n h(2) by simp
    have "op_verdict ` set new = Some ` set vs" using arg_cong [OF e, of set] by simp
    then have "\<forall>row \<in> set new. op_verdict row \<in> Some ` S" using h(1) by blast
    moreover have "new \<noteq> []" using e h(3) by auto
    ultimately show ?thesis by simp
  qed
  have some: "v \<in> set vs \<Longrightarrow> \<exists>row \<in> set new. op_verdict row = Some v" for v
  proof -
    assume "v \<in> set vs"
    then have "Some v \<in> set (map op_verdict (filter (\<lambda>row. op_verdict row \<noteq> None) new))" unfolding m by simp
    then show ?thesis by auto
  qed
  show ?thesis unfolding grounds_def
  proof (intro conjI impI)
    show "policy_finding vs f \<in> set PROPOSED_FINDINGS" by (rule policy_finding_in)
    show "\<exists>row \<in> set new. op_verdict row = Some ''not_satisfied''" if "policy_finding vs f = ''other_than_satisfied''"
      using policy_finding_cases(2) [OF that] some by blast
  qed (use policy_finding_cases(1) [OF _ k, of f] policy_finding_cases(3) [of vs f]
        all [of "{''satisfied'', ''not_applicable''}"] all [of "{''not_applicable''}"] in \<open>simp_all\<close>)
qed

lemma evaluate_control_proposal_cases:
  assumes "evaluate_control_proposal E refused st p = Inr st'"
  obtains objs new lg vs f d r where
    "objectives_for (ge_hash E) (ge_max_objectives E) (av_catalog st) (cp_control_identifier p) = Inr objs"
    "st' = update_proposal (cp_id p) (settle E (length objs) vs d r)
       (st\<lparr>av_log := lg, av_objectives := filter (\<lambda>row. op_control_proposal_id row \<noteq> cp_id p) (av_objectives st) @ new\<rparr>)"
    "\<forall>row \<in> set new. op_control_proposal_id row = cp_id p \<and> row_sound row"
    "distinct (row_keys (av_objectives st)) \<Longrightarrow>
       distinct (row_keys (filter (\<lambda>row. op_control_proposal_id row \<noteq> cp_id p) (av_objectives st) @ new))"
    "length vs + f = length objs" "d \<le> length vs" "rl_finding r = policy_finding vs f" "grounds (rl_finding r) new"
    "\<forall>row \<in> set new. op_verdict row \<in> insert None (Some ` set OBJECTIVE_VERDICTS)"
proof -
  let ?c = "clear_objectives (cp_id p) st"
  from assms [unfolded evaluate_control_proposal_def] obtain objs where o:
    "objectives_for (ge_hash E) (ge_max_objectives E) (av_catalog st) (cp_control_identifier p) = Inr objs" and
    e: "(case fold (evaluate_one E refused p (assessment_system st (cp_assessment_id p))) objs (?c, [], 0, 0) of
         (st1, verdicts, failed, dissent) \<Rightarrow>
           rbind (roll_up_verdicts verdicts failed) (\<lambda>r.
             Inr (update_proposal (cp_id p) (settle E (length objs) verdicts dissent r) st1))) = Inr st'"
    by (elim rbind_InrE) (rule that)
  obtain st1 vs f d where l: "fold (evaluate_one E refused p (assessment_system st (cp_assessment_id p))) objs (?c, [], 0, 0) = (st1, vs, f, d)"
    by (cases "fold (evaluate_one E refused p (assessment_system st (cp_assessment_id p))) objs (?c, [], 0, 0)")
  from e [unfolded l prod.case] obtain r where r: "roll_up_verdicts vs f = Inr r"
    "st' = update_proposal (cp_id p) (settle E (length objs) vs d r) st1" by (auto elim!: rbind_InrE)
  have "loop_ok ?c (cp_id p) (0 + length objs) (st1, vs, f, d)" unfolding l [symmetric] by (rule loop_ok_fold [OF loop_ok_start])
  then obtain new lg where n: "st1 = ?c\<lparr>av_log := lg, av_objectives := av_objectives ?c @ new\<rparr>"
    "\<forall>row \<in> set new. op_control_proposal_id row = cp_id p \<and> row_sound row"
    "map op_verdict (filter (\<lambda>row. op_verdict row \<noteq> None) new) = map Some vs"
    "length vs + f = length objs" "length new \<le> length objs"
    "distinct (row_keys (av_objectives ?c)) \<longrightarrow> distinct (row_keys (av_objectives ?c @ new))" "d \<le> length vs"
    unfolding loop_ok_def prod.case add_0 by blast
  have c: "av_objectives ?c = filter (\<lambda>row. op_control_proposal_id row \<noteq> cp_id p) (av_objectives st)"
    by (simp add: clear_objectives_def)
  have "distinct (row_keys (av_objectives st)) \<Longrightarrow> distinct (row_keys (av_objectives ?c))"
    unfolding c row_keys_def by (rule distinct_map_filter)
  moreover have "op_verdict row \<in> insert None (Some ` set OBJECTIVE_VERDICTS)" if "row \<in> set new" for row
  proof (cases "op_verdict row")
    case (Some v)
    then have "Some v \<in> set (map op_verdict (filter (\<lambda>row. op_verdict row \<noteq> None) new))" using that by force
    then show ?thesis using roll_up_verdicts_Inr(1) [OF r(1)] Some unfolding n(3) by auto
  qed simp
  ultimately show thesis
    using that [OF o _ n(2) _ n(4,7) roll_up_verdicts_Inr(2) [OF r(1)], of lg]
      grounds_policy [OF n(3-5) roll_up_verdicts_Inr(1) [OF r(1)]] r(2) n(1,6) roll_up_verdicts_Inr(2) [OF r(1)]
    unfolding c by (simp add: clear_objectives_def)
qed

section \<open>Reachable stores\<close>

text \<open>Every operation of the engine, a worker's failure, and what other parts of the program do to the
  tables the engine reads: a new catalogue, other POA\&Ms, the job queue.\<close>

inductive assessment_step :: "assessment_store \<Rightarrow> assessment_store \<Rightarrow> bool" where
  opened: "open_control_proposal st assessment_id cid = Inr (st', p) \<Longrightarrow> assessment_step st st'"
| reopened: "r \<in> set (av_results st) \<Longrightarrow> open_reevaluation_proposal st r poam_id = Inr (st', p) \<Longrightarrow> assessment_step st st'"
| evaluated: "p \<in> set (av_proposals st) \<Longrightarrow> evaluate_control_proposal E refused st p = Inr st' \<Longrightarrow> assessment_step st st'"
| evaluation_failed: "assessment_step st (update_proposal pid (mark_failed err) st)"
| accepted: "accept_control_proposal E poam_refused st pid who = Inr (st', r) \<Longrightarrow> assessment_step st st'"
| rejected: "reject_control_proposal E st pid who corrected remark = Inr st' \<Longrightarrow> assessment_step st st'"
| elsewhere: "assessment_step st (st\<lparr>av_catalog := rows, av_poams := ps, av_jobs := jobs\<rparr>)"

inductive assessment_reachable :: "assessment_store \<Rightarrow> bool" where
  fresh: "av_proposals st = [] \<Longrightarrow> av_objectives st = [] \<Longrightarrow> av_results st = [] \<Longrightarrow> assessment_reachable st"
| later: "assessment_reachable st \<Longrightarrow> assessment_step st st' \<Longrightarrow> assessment_reachable st'"

text \<open>What a result's record of an objective says.\<close>

definition recorded_finding :: "(string \<times> json) list \<Rightarrow> json option" where
  "recorded_finding rec = map_of rec ''finding''"

definition result_sound :: "control_result \<Rightarrow> bool" where
  "result_sound r \<longleftrightarrow> acr_finding r \<in> set CORRECTED_FINDINGS \<and> acr_reviewed r \<and> acr_reviewer r \<noteq> None \<and>
     (acr_finding r = ''satisfied'' \<longrightarrow> acr_objective_findings r \<noteq> [] \<and>
        (\<forall>rec \<in> set (acr_objective_findings r).
           recorded_finding rec = Some (JStr ''satisfied'') \<or> recorded_finding rec = Some (JStr ''not_applicable''))) \<and>
     (acr_finding r = ''not_applicable'' \<longrightarrow> acr_objective_findings r \<noteq> [] \<and>
        (\<forall>rec \<in> set (acr_objective_findings r). recorded_finding rec = Some (JStr ''not_applicable''))) \<and>
     (acr_finding r = ''other_than_satisfied'' \<longrightarrow>
        (\<exists>rec \<in> set (acr_objective_findings r). recorded_finding rec = Some (JStr ''not_satisfied'')))"

definition has_result :: "control_result list \<Rightarrow> assessment_proposal \<Rightarrow> bool" where
  "has_result rs p \<longleftrightarrow> list_ex (same_result p) rs"

definition proposal_sound :: "assessment_store \<Rightarrow> assessment_proposal \<Rightarrow> bool" where
  "proposal_sound st p \<longleftrightarrow> cp_id p < av_next st \<and>
     (\<forall>f. cp_proposed_finding p = Some f \<longrightarrow> grounds f (rows_of st (cp_id p))) \<and>
     (cp_state p = ''complete'' \<longrightarrow> cp_proposed_finding p \<noteq> None) \<and>
     (cp_state p = ''accepted'' \<longrightarrow> has_result (av_results st) p)"

definition assessment_inv :: "assessment_store \<Rightarrow> bool" where
  "assessment_inv st \<longleftrightarrow>
     distinct (map cp_id (av_proposals st)) \<and> list_all (proposal_sound st) (av_proposals st) \<and>
     list_all row_sound (av_objectives st) \<and> distinct (row_keys (av_objectives st)) \<and>
     distinct (map (\<lambda>r. (acr_assessment_id r, acr_control_id r)) (av_results st)) \<and> list_all result_sound (av_results st)"

lemma recorded_finding_of: "recorded_finding (objective_finding_record row) =
    Some (JStr (case nonempty (op_verdict row) of None \<Rightarrow> ''not_assessed'' | Some v \<Rightarrow> v))"
  by (simp add: recorded_finding_def objective_finding_record_def)

lemma recorded_verdict: "op_verdict row = Some v \<Longrightarrow> v \<noteq> [] \<Longrightarrow> recorded_finding (objective_finding_record row) = Some (JStr v)"
  by (simp add: recorded_finding_of nonempty_def)

lemma write_result_sound:
  assumes g: "grounds f rows" and f: "f \<noteq> ''insufficient_evidence''"
  shows "result_sound (write_result p rows f who r)"
proof -
  have F: "f \<in> set CORRECTED_FINDINGS" using g f by (simp add: grounds_def CORRECTED_FINDINGS_def PROPOSED_FINDINGS_def)
  have S: "f = ''satisfied'' \<Longrightarrow> rows \<noteq> [] \<and> (\<forall>row \<in> set rows.
      recorded_finding (objective_finding_record row) = Some (JStr ''satisfied'') \<or>
      recorded_finding (objective_finding_record row) = Some (JStr ''not_applicable''))"
    using g recorded_verdict unfolding grounds_def by blast
  have N: "f = ''not_applicable'' \<Longrightarrow> rows \<noteq> [] \<and>
      (\<forall>row \<in> set rows. recorded_finding (objective_finding_record row) = Some (JStr ''not_applicable''))"
    using g recorded_verdict unfolding grounds_def by blast
  have O: "f = ''other_than_satisfied'' \<Longrightarrow>
      (\<exists>row \<in> set rows. recorded_finding (objective_finding_record row) = Some (JStr ''not_satisfied''))"
    using g recorded_verdict unfolding grounds_def by blast
  show ?thesis unfolding result_sound_def write_result_def using F S N O by simp
qed

lemma rows_of_next: "assessment_inv st \<Longrightarrow> p \<in> set (av_proposals st) \<Longrightarrow> proposal_sound st p"
  by (simp add: assessment_inv_def list_all_iff)

lemma grounds_sort: "grounds f (sort_key k rows) = grounds f rows"
proof -
  have "set (sort_key k rows) = set rows" "sort_key k rows = [] \<longleftrightarrow> rows = []" by (simp_all flip: set_empty)
  then show ?thesis by (simp add: grounds_def)
qed

section \<open>The invariant is kept\<close>

lemma proposal_sound_cong:
  assumes "proposal_sound st p" "av_next st \<le> av_next st'" "rows_of st' (cp_id p) = rows_of st (cp_id p)"
    and "has_result (av_results st) p \<Longrightarrow> has_result (av_results st') p"
  shows "proposal_sound st' p"
  using assms by (auto simp: proposal_sound_def)

lemma add_proposal_fst: "fst (add_proposal st org aid canonical poam_id) =
    st\<lparr>av_proposals := av_proposals st @ [new_proposal (av_next st) org aid canonical poam_id], av_next := av_next st + 1\<rparr>"
  by (simp add: add_proposal_def Let_def)

lemma new_proposal_simps [simp]:
  "cp_id (new_proposal i org aid canonical poam_id) = i"
  "cp_state (new_proposal i org aid canonical poam_id) = ''draft''"
  "cp_proposed_finding (new_proposal i org aid canonical poam_id) = None"
  by (simp_all add: new_proposal_def)

lemma inv_add_proposal:
  assumes I: "assessment_inv st"
  shows "assessment_inv (fst (add_proposal st org aid canonical poam_id))"
proof -
  let ?p = "new_proposal (av_next st) org aid canonical poam_id"
  let ?st = "st\<lparr>av_proposals := av_proposals st @ [?p], av_next := av_next st + 1\<rparr>"
  have old: "proposal_sound ?st q" if "q \<in> set (av_proposals st)" for q
    by (rule proposal_sound_cong [OF rows_of_next [OF I that]]) (simp_all add: rows_of_def)
  moreover have "proposal_sound ?st ?p" by (simp add: proposal_sound_def)
  moreover have "av_next st \<notin> cp_id ` set (av_proposals st)"
    using rows_of_next [OF I] by (force simp: proposal_sound_def)
  ultimately show ?thesis using I
    unfolding add_proposal_fst assessment_inv_def list_all_iff by simp
qed

lemma inv_opened:
  assumes "assessment_inv st" "open_control_proposal st aid cid = Inr (st', p)"
  shows "assessment_inv st'"
  using assms inv_add_proposal [OF assms(1)]
  by (auto simp: open_control_proposal_def Let_def split: option.splits elim!: rbind_InrE) (metis fst_conv)+

lemma inv_reopened:
  assumes "assessment_inv st" "open_reevaluation_proposal st r poam_id = Inr (st', p)"
  shows "assessment_inv st'"
  using assms inv_add_proposal [OF assms(1)]
  by (auto simp: open_reevaluation_proposal_def split: option.splits elim!: rbind_InrE) (metis fst_conv)+

text \<open>A change of one proposal's row.\<close>

lemma inv_update_proposal:
  assumes I: "assessment_inv st"
    and id: "\<And>q. cp_id (f q) = cp_id q"
    and at: "\<And>q. q \<in> set (av_proposals st) \<Longrightarrow> cp_id q = pid \<Longrightarrow> proposal_sound st' (f q)"
    and other: "\<And>q. q \<in> set (av_proposals st) \<Longrightarrow> cp_id q \<noteq> pid \<Longrightarrow> proposal_sound st' q"
    and ps: "av_proposals st' = update_rows (\<lambda>q. cp_id q = pid) f (av_proposals st)"
    and rows: "list_all row_sound (av_objectives st')" "distinct (row_keys (av_objectives st'))"
    and res: "distinct (map (\<lambda>r. (acr_assessment_id r, acr_control_id r)) (av_results st'))" "list_all result_sound (av_results st')"
  shows "assessment_inv st'"
proof -
  have "map cp_id (av_proposals st') = map cp_id (av_proposals st)" unfolding ps using id by simp
  moreover have "list_all (proposal_sound st') (av_proposals st')"
    unfolding ps list_all_iff set_update_rows using at other by auto
  ultimately show ?thesis using I rows res unfolding assessment_inv_def by simp
qed

lemma inv_parts:
  assumes "assessment_inv st"
  shows "list_all row_sound (av_objectives st)" "distinct (row_keys (av_objectives st))"
    "distinct (map (\<lambda>r. (acr_assessment_id r, acr_control_id r)) (av_results st))" "list_all result_sound (av_results st)"
  using assms by (simp_all add: assessment_inv_def)

lemma inv_evaluated:
  assumes I: "assessment_inv st" and p: "p \<in> set (av_proposals st)" and e: "evaluate_control_proposal E refused st p = Inr st'"
  shows "assessment_inv st'"
  using e
proof (cases rule: evaluate_control_proposal_cases)
  case (1 objs new lg vs f d r)
  let ?kept = "filter (\<lambda>row. op_control_proposal_id row \<noteq> cp_id p) (av_objectives st)"
  have o: "av_objectives st' = ?kept @ new" "av_next st' = av_next st" "av_results st' = av_results st"
    "av_proposals st' = update_rows (\<lambda>q. cp_id q = cp_id p) (settle E (length objs) vs d r) (av_proposals st)"
    unfolding 1(2) by (simp_all add: update_proposal_def)
  have own: "rows_of st' (cp_id p) = new" using 1(3) unfolding rows_of_def o(1) by (simp add: filter_empty_conv)
  have others: "rows_of st' i = rows_of st i" if "i \<noteq> cp_id p" for i
    using 1(3) that unfolding rows_of_def o(1) by (auto simp: filter_empty_conv intro: filter_cong)
  show ?thesis
  proof (rule inv_update_proposal [OF I _ _ _ o(4)])
    show "proposal_sound st' (settle E (length objs) vs d r q)" if "q \<in> set (av_proposals st)" "cp_id q = cp_id p" for q
      using rows_of_next [OF I that(1)] that(2) 1(8) own o(2) by (simp add: proposal_sound_def settle_def)
    show "proposal_sound st' q" if "q \<in> set (av_proposals st)" "cp_id q \<noteq> cp_id p" for q
      by (rule proposal_sound_cong [OF rows_of_next [OF I that(1)]]) (simp_all add: o others [OF that(2)])
    show "list_all row_sound (av_objectives st')" using inv_parts(1) [OF I] 1(3) unfolding o(1) by (auto simp: list_all_iff)
    show "distinct (row_keys (av_objectives st'))" unfolding o(1) by (rule 1(4) [OF inv_parts(2) [OF I]])
  qed (simp_all add: settle_def o inv_parts [OF I])
qed

lemma inv_failed: "assessment_inv st \<Longrightarrow> assessment_inv (update_proposal pid (mark_failed err) st)"
proof (rule inv_update_proposal [where pid = pid and f = "mark_failed err"])
  assume I: "assessment_inv st"
  show "proposal_sound (update_proposal pid (mark_failed err) st) (mark_failed err q)" if "q \<in> set (av_proposals st)" for q
    using rows_of_next [OF I that] by (simp add: proposal_sound_def mark_failed_def update_proposal_def rows_of_def)
  show "proposal_sound (update_proposal pid (mark_failed err) st) q" if "q \<in> set (av_proposals st)" for q
    by (rule proposal_sound_cong [OF rows_of_next [OF I that]]) (simp_all add: update_proposal_def rows_of_def)
qed (simp_all add: update_proposal_def mark_failed_def inv_parts)

lemma filter_single: "filter P xs = [x] \<Longrightarrow> x \<in> set xs \<and> P x"
proof -
  assume "filter P xs = [x]"
  then have "x \<in> set (filter P xs)" by simp
  then show ?thesis by simp
qed

lemma find_proposal_Inr: "find_proposal st pid = Inr p \<Longrightarrow> p \<in> set (av_proposals st) \<and> cp_id p = pid"
  by (auto simp: find_proposal_def split: option.splits elim!: rbind_InrE dest!: filter_single)

lemma acceptance_refusal_None:
  "acceptance_refusal p moved = None \<longleftrightarrow> \<not> moved \<and> cp_state p = ''complete'' \<and>
     (\<exists>f. cp_proposed_finding p = Some f \<and> f \<noteq> ''insufficient_evidence'')"
  by (cases "cp_proposed_finding p") (simp_all add: acceptance_refusal_def)

definition accepted_store ::
  "engine_env \<Rightarrow> (poam \<Rightarrow> bool) \<Rightarrow> assessment_proposal \<Rightarrow> objective_proposal list \<Rightarrow> string \<Rightarrow> assessment_store \<times> control_result \<Rightarrow> assessment_store" where
  "accepted_store E poam_refused p rows who sr =
     ensure_poam poam_refused (ge_now E) p (snd sr)
       (stamp_runs rows (stamp_accepted (ge_now E) who) (update_proposal (cp_id p) (mark_accepted (ge_now E) who) (fst sr)))"

lemma accept_cases:
  assumes "accept_control_proposal E poam_refused st pid who = Inr (st', r)"
  obtains p f st1 where "p \<in> set (av_proposals st)" "cp_id p = pid" "check_staleness E st p = Inr False" "cp_state p = ''complete''"
    "cp_proposed_finding p = Some f" "f \<noteq> ''insufficient_evidence''"
    "put_result p (sort_key op_sort_order (rows_of st pid)) f who st = Inr (st1, r)"
    "st' = accepted_store E poam_refused p (sort_key op_sort_order (rows_of st pid)) who (st1, r)"
proof -
  from assms [unfolded accept_control_proposal_def] obtain p moved where
    pm: "find_proposal st pid = Inr p" "check_staleness E st p = Inr moved" and
    rest: "(case acceptance_refusal p moved of
         Some msg \<Rightarrow> Inl (AcceptanceRefused msg)
       | None \<Rightarrow>
           (let rows = sort_key op_sort_order (rows_of st pid); finding = the (cp_proposed_finding p)
            in rbind (put_result p rows finding who st) (\<lambda>(st1, r).
                 let st2 = stamp_runs rows (stamp_accepted (ge_now E) who)
                             (update_proposal pid (mark_accepted (ge_now E) who) st1)
                 in Inr (ensure_poam poam_refused (ge_now E) p r st2, r)))) = Inr (st', r)"
    by (elim rbind_InrE) (rule that)
  have ok: "acceptance_refusal p moved = None" using rest by (cases "acceptance_refusal p moved") simp_all
  then obtain f where f: "\<not> moved" "cp_state p = ''complete''" "cp_proposed_finding p = Some f" "f \<noteq> ''insufficient_evidence''"
    by (auto simp: acceptance_refusal_None)
  note pp = find_proposal_Inr [OF pm(1)]
  from rest ok f(3) obtain st1 where "put_result p (sort_key op_sort_order (rows_of st pid)) f who st = Inr (st1, r)"
    "st' = accepted_store E poam_refused p (sort_key op_sort_order (rows_of st pid)) who (st1, r)"
    using pp by (auto simp: Let_def accepted_store_def elim!: rbind_InrE)
  then show thesis using pp pm(2) f by (intro that [of p f st1]) simp_all
qed

lemma put_result_cases:
  assumes "put_result p rows f who st = Inr (st1, r)"
  obtains (updated) r0 where "filter (same_result p) (av_results st) = [r0]" "r = write_result p rows f who r0"
      "st1 = st\<lparr>av_results := update_rows (same_result p) (write_result p rows f who) (av_results st)\<rparr>"
  | (inserted) "filter (same_result p) (av_results st) = []" "r = write_result p rows f who (blank_result (av_next st) p)"
      "st1 = st\<lparr>av_results := av_results st @ [write_result p rows f who (blank_result (av_next st) p)], av_next := av_next st + 1\<rparr>"
  using assms by (auto simp: put_result_def Let_def split: option.splits elim!: rbind_InrE)

lemma same_result_write [simp]:
  "same_result q (write_result p rows f who r) = same_result q r"
  "same_result p (blank_result i p)"
  "acr_assessment_id (write_result p rows f who r) = acr_assessment_id r" "acr_control_id (write_result p rows f who r) = acr_control_id r"
  by (simp_all add: same_result_def write_result_def blank_result_def)

lemma has_result_update: "has_result (update_rows P (write_result p rows f who) rs) q = has_result rs q"
  by (induction rs) (auto simp: has_result_def update_rows_def)

lemma put_result_sound:
  assumes I: "assessment_inv st" and g: "grounds f rows" "f \<noteq> ''insufficient_evidence''"
    and r: "put_result p rows f who st = Inr (st1, r)"
  shows "distinct (map (\<lambda>r. (acr_assessment_id r, acr_control_id r)) (av_results st1)) \<and> list_all result_sound (av_results st1) \<and>
    has_result (av_results st1) p \<and> (\<forall>q. has_result (av_results st) q \<longrightarrow> has_result (av_results st1) q) \<and>
    av_proposals st1 = av_proposals st \<and> av_objectives st1 = av_objectives st \<and> av_next st \<le> av_next st1 \<and> av_log st1 = av_log st"
  using r
proof (cases rule: put_result_cases)
  case (updated r0)
  have "r0 \<in> set (av_results st)" "same_result p r0" using arg_cong [OF updated(1), of set] by auto
  then have "has_result (av_results st) p" by (auto simp: has_result_def list_ex_iff)
  then show ?thesis unfolding updated(3)
    using inv_parts(3,4) [OF I] write_result_sound [OF g] has_result_update
    by (simp add: list_all_iff ball_update_rows)
next
  case inserted
  have "(cp_assessment_id p, cp_control_identifier p) \<notin> set (map (\<lambda>r. (acr_assessment_id r, acr_control_id r)) (av_results st))"
    using inserted(1) by (auto simp: filter_empty_conv same_result_def)
  then show ?thesis unfolding inserted(3)
    using inv_parts(3,4) [OF I] write_result_sound [OF g]
    by (simp add: has_result_def blank_result_def) (simp add: same_result_def)
qed

lemma accepted_store_parts:
  "av_proposals (accepted_store E pr p rows who sr) = update_rows (\<lambda>q. cp_id q = cp_id p) (mark_accepted (ge_now E) who) (av_proposals (fst sr))"
  "av_objectives (accepted_store E pr p rows who sr) = av_objectives (fst sr)"
  "av_results (accepted_store E pr p rows who sr) = av_results (fst sr)"
  "av_next (fst sr) \<le> av_next (accepted_store E pr p rows who sr)"
  by (auto simp: accepted_store_def ensure_poam_def stamp_runs_def update_proposal_def Let_def split: sum.split option.split)

lemma inv_accepted:
  assumes I: "assessment_inv st" and a: "accept_control_proposal E pr st pid who = Inr (st', r)"
  shows "assessment_inv st'"
  using a
proof (cases rule: accept_cases)
  case (1 p f st1)
  note P = rows_of_next [OF I 1(1)]
  have g: "grounds f (sort_key op_sort_order (rows_of st pid))"
    using P 1(2,5) unfolding grounds_sort proposal_sound_def by simp
  note R = put_result_sound [OF I g 1(6,7)]
  note S = accepted_store_parts [where E = E and pr = pr and p = p and rows = "sort_key op_sort_order (rows_of st pid)"
      and who = who and sr = "(st1, r)", folded 1(8), unfolded fst_conv 1(2)]
  have n: "av_next st \<le> av_next st'" using R S(4) by linarith
  have rows: "rows_of st' i = rows_of st i" for i using S(2) R by (simp add: rows_of_def)
  have res: "has_result (av_results st) q \<Longrightarrow> has_result (av_results st') q" for q using S(3) R by simp
  have ps: "av_proposals st' = update_rows (\<lambda>q. cp_id q = pid) (mark_accepted (ge_now E) who) (av_proposals st)"
    using S(1) R by simp
  show ?thesis
  proof (rule inv_update_proposal [OF I _ _ _ ps])
    show "proposal_sound st' (mark_accepted (ge_now E) who q)" if q: "q \<in> set (av_proposals st)" "cp_id q = pid" for q
    proof -
      have "distinct (map cp_id (av_proposals st))" using I by (simp add: assessment_inv_def)
      then have "q = p" using q 1(1,2) by (metis (no_types, lifting) distinct_map inj_onD)
      moreover have "same_result (mark_accepted (ge_now E) who p) = same_result p"
        by (rule ext) (simp add: same_result_def mark_accepted_def)
      then have "has_result (av_results st') (mark_accepted (ge_now E) who p)"
        using R S(3) unfolding has_result_def by simp
      ultimately show ?thesis using P 1(5) n rows by (simp add: proposal_sound_def mark_accepted_def)
    qed
    show "proposal_sound st' q" if "q \<in> set (av_proposals st)" "cp_id q \<noteq> pid" for q
      by (rule proposal_sound_cong [OF rows_of_next [OF I that(1)] n rows res])
  qed (use R S(2,3) inv_parts [OF I] in \<open>simp_all add: mark_accepted_def\<close>)
qed

lemma inv_rejected:
  assumes I: "assessment_inv st" and a: "reject_control_proposal E st pid who corrected remark = Inr st'"
  shows "assessment_inv st'"
proof -
  from a [unfolded reject_control_proposal_def] obtain p where
    r: "(case rejection_refusal p corrected remark of Some msg \<Rightarrow> Inl (RejectionRefused msg)
       | None \<Rightarrow> Inr (stamp_runs (rows_of st pid) (stamp_rejected (ge_now E) who)
                 (update_proposal pid (mark_rejected (ge_now E) who corrected remark) st))) = Inr st'"
    by (elim rbind_InrE) (rule that)
  then have st': "st' = stamp_runs (rows_of st pid) (stamp_rejected (ge_now E) who)
                 (update_proposal pid (mark_rejected (ge_now E) who corrected remark) st)"
    by (simp split: option.splits)
  show ?thesis
  proof (rule inv_update_proposal [OF I, where pid = pid and f = "mark_rejected (ge_now E) who corrected remark"])
    show "proposal_sound st' (mark_rejected (ge_now E) who corrected remark q)" if "q \<in> set (av_proposals st)" for q
      using rows_of_next [OF I that]
      by (simp add: st' proposal_sound_def mark_rejected_def update_proposal_def stamp_runs_def rows_of_def)
    show "proposal_sound st' q" if "q \<in> set (av_proposals st)" for q
      by (rule proposal_sound_cong [OF rows_of_next [OF I that]])
        (simp_all add: st' update_proposal_def stamp_runs_def rows_of_def)
  qed (simp_all add: st' update_proposal_def stamp_runs_def mark_rejected_def inv_parts [OF I])
qed

lemma inv_elsewhere: "assessment_inv st \<Longrightarrow> assessment_inv (st\<lparr>av_catalog := rows, av_poams := ps, av_jobs := jobs\<rparr>)"
proof -
  have "proposal_sound (st\<lparr>av_catalog := rows, av_poams := ps, av_jobs := jobs\<rparr>) = proposal_sound st"
    by (rule ext) (simp add: proposal_sound_def rows_of_def)
  then show "assessment_inv st \<Longrightarrow> assessment_inv (st\<lparr>av_catalog := rows, av_poams := ps, av_jobs := jobs\<rparr>)"
    by (simp add: assessment_inv_def)
qed

lemma assessment_step_inv: "assessment_step st st' \<Longrightarrow> assessment_inv st \<Longrightarrow> assessment_inv st'"
  by (induction rule: assessment_step.induct)
    (blast intro: inv_opened inv_reopened inv_evaluated inv_failed inv_accepted inv_rejected inv_elsewhere)+

lemma assessment_reachable_inv: "assessment_reachable st \<Longrightarrow> assessment_inv st"
proof (induction rule: assessment_reachable.induct)
  case (fresh st)
  then show ?case by (simp add: assessment_inv_def row_keys_def)
next
  case (later st st')
  then show ?case using assessment_step_inv by blast
qed

section \<open>Vocabularies\<close>

definition PROPOSAL_STATES :: "string list" where [vocab]:
  "PROPOSAL_STATES = [''draft'', ''complete'', ''accepted'', ''rejected'', ''failed'', ''stale'']"

definition proposal_typed :: "assessment_proposal \<Rightarrow> bool" where
  "proposal_typed p \<longleftrightarrow> cp_state p \<in> set PROPOSAL_STATES \<and>
     cp_corrected_finding p \<in> insert None (Some ` set CORRECTED_FINDINGS)"

definition row_typed :: "objective_proposal \<Rightarrow> bool" where
  "row_typed row \<longleftrightarrow> op_verdict row \<in> insert None (Some ` set OBJECTIVE_VERDICTS)"

definition typed_store :: "assessment_store \<Rightarrow> bool" where
  "typed_store st \<longleftrightarrow> list_all proposal_typed (av_proposals st) \<and> list_all row_typed (av_objectives st)"

lemma typed_proposals:
  assumes "typed_store st" "av_objectives st' = av_objectives st" "list_all proposal_typed (av_proposals st')"
  shows "typed_store st'"
  using assms by (simp add: typed_store_def)

lemma typed_update:
  assumes "list_all proposal_typed ps" "\<And>p. proposal_typed p \<Longrightarrow> proposal_typed (f p)"
  shows "list_all proposal_typed (update_rows P f ps)"
  using assms by (auto simp: list_all_iff set_update_rows)

lemma typed_kept:
  "proposal_typed p \<Longrightarrow> proposal_typed (settle E n vs d r p)" "proposal_typed p \<Longrightarrow> proposal_typed (mark_failed err p)"
  "proposal_typed p \<Longrightarrow> proposal_typed (mark_accepted now who p)"
  "corrected \<in> set CORRECTED_FINDINGS \<Longrightarrow> proposal_typed (mark_rejected now who corrected remark p)"
  "proposal_typed (new_proposal i org aid canonical poam_id)"
  by (simp_all add: proposal_typed_def settle_def mark_failed_def mark_accepted_def mark_rejected_def new_proposal_def PROPOSAL_STATES_def)

lemma typed_add_proposal: "typed_store st \<Longrightarrow> typed_store (fst (add_proposal st org aid canonical poam_id))"
  by (simp add: add_proposal_fst typed_store_def typed_kept)

lemma typed_step: "assessment_step st st' \<Longrightarrow> typed_store st \<Longrightarrow> typed_store st'"
proof (induction rule: assessment_step.induct)
  case (opened st aid cid st' p)
  then show ?case using typed_add_proposal [of st]
    by (auto simp: open_control_proposal_def Let_def split: option.splits elim!: rbind_InrE) (metis fst_conv)+
next
  case (reopened r st poam_id st' p)
  then show ?case using typed_add_proposal [of st]
    by (auto simp: open_reevaluation_proposal_def split: option.splits elim!: rbind_InrE) (metis fst_conv)+
next
  case (evaluated p st E refused st')
  from evaluated(2) show ?case
  proof (cases rule: evaluate_control_proposal_cases)
    case (1 objs new lg vs f d r)
    have "list_all row_typed new" using 1(9) by (simp add: list_all_iff row_typed_def)
    then show ?thesis using evaluated(3) unfolding typed_store_def 1(2)
      by (simp add: update_proposal_def typed_update typed_kept) (simp add: list_all_iff)
  qed
next
  case (evaluation_failed st pid err)
  then show ?case by (simp add: typed_store_def update_proposal_def typed_update typed_kept)
next
  case (accepted E pr st pid who st' r)
  from accepted(1) show ?case
  proof (cases rule: accept_cases)
    case (1 p f st1)
    from 1(7) have "av_proposals st1 = av_proposals st" "av_objectives st1 = av_objectives st"
      by (cases rule: put_result_cases; simp)+
    then show ?thesis using accepted(2) unfolding typed_store_def 1(8) accepted_store_parts
      by (simp add: typed_update typed_kept)
  qed
next
  case (rejected E st pid who corrected remark st')
  from rejected(1) [unfolded reject_control_proposal_def] obtain p where
    "(case rejection_refusal p corrected remark of Some msg \<Rightarrow> Inl (RejectionRefused msg)
       | None \<Rightarrow> Inr (stamp_runs (rows_of st pid) (stamp_rejected (ge_now E) who)
                 (update_proposal pid (mark_rejected (ge_now E) who corrected remark) st))) = Inr st'"
    by (elim rbind_InrE) (rule that)
  then have "st' = stamp_runs (rows_of st pid) (stamp_rejected (ge_now E) who)
                 (update_proposal pid (mark_rejected (ge_now E) who corrected remark) st)"
    "corrected \<in> set CORRECTED_FINDINGS"
    by (simp_all add: rejection_refusal_def split: option.splits if_splits)
  then show ?case using rejected(2) by (simp add: typed_store_def update_proposal_def stamp_runs_def typed_update typed_kept)
next
  case (elsewhere st rows ps jobs)
  then show ?case by (simp add: typed_store_def)
qed

lemma assessment_reachable_typed: "assessment_reachable st \<Longrightarrow> typed_store st"
  by (induction rule: assessment_reachable.induct) (simp_all add: typed_store_def [of "_ :: assessment_store"] typed_step [unfolded typed_store_def])

section \<open>Properties\<close>



text \<open>An answer that meets the schema has one of the four verdicts.\<close>

definition schema_valid :: "engine_env \<Rightarrow> bool" where
  "schema_valid E \<longleftrightarrow> (\<forall>org_id prompt purpose r. ge_generate E org_id prompt purpose = Inr r \<longrightarrow>
     (\<exists>v \<in> set OBJECTIVE_VERDICTS. so_verdict (gr_data r) = Some (JStr v)))"

lemma ask_verdict:
  assumes "schema_valid E" "ask E lg k pu pr org_id obj units = Inr (lg', a)"
  shows "an_verdict a \<in> set OBJECTIVE_VERDICTS"
proof -
  from assms(2) [unfolded ask_def] obtain r where g: "ge_generate E org_id pr pu = Inr r" "an_result a = r"
    by (auto simp: Let_def split: prod.splits elim!: rbind_InrE)
  then obtain v where "v \<in> set OBJECTIVE_VERDICTS" "so_verdict (gr_data (an_result a)) = Some (JStr v)"
    using assms(1) unfolding schema_valid_def by blast
  then show ?thesis using ask_Inr(4) [OF assms(2)] by (simp add: required_verdict_def py_str_def)
qed

lemma evaluated_verdict:
  assumes "schema_valid E" "evaluate_objective E lg org_id cid obj sid = Inr (lg', ev)"
  shows "oe_verdict ev \<in> set OBJECTIVE_VERDICTS"
  using assms(2)
proof (cases rule: evaluate_objective_cases)
  case none
  then have "oe_verdict ev = ''insufficient_evidence''" using no_evidence_says(1) [of E lg org_id obj] by simp
  then show ?thesis by (simp add: OBJECTIVE_VERDICTS_def)
next
  case (asked units lg1 a c conf)
  have "oe_verdict ev = ''insufficient_evidence'' \<or> oe_verdict ev = an_verdict a"
    unfolding asked(6) evaluation_of_def Let_def by simp
  then show ?thesis using ask_verdict [OF assms(1) asked(3)] by (elim disjE) (simp_all add: OBJECTIVE_VERDICTS_def)
qed

lemma evaluate_one_verdicts:
  assumes "schema_valid E" "set (fst (snd acc)) \<subseteq> set OBJECTIVE_VERDICTS"
  shows "set (fst (snd (evaluate_one E refused p sid obj acc))) \<subseteq> set OBJECTIVE_VERDICTS"
proof -
  obtain st vs f d where acc: "acc = (st, vs, f, d)" by (cases acc)
  obtain st' vs' f' d' where r: "evaluate_one E refused p sid obj (st, vs, f, d) = (st', vs', f', d')"
    by (cases "evaluate_one E refused p sid obj (st, vs, f, d)")
  have "set vs' \<subseteq> set OBJECTIVE_VERDICTS"
    using r
  proof (cases rule: evaluate_one_cases)
    case (evaluated lg ev)
    then show ?thesis using assms(2) evaluated_verdict [OF assms(1) evaluated(1)] by (simp add: acc)
  qed (use assms(2) in \<open>simp_all add: acc\<close>)
  then show ?thesis by (simp add: acc r)
qed

lemma fold_verdicts:
  "schema_valid E \<Longrightarrow> set (fst (snd acc)) \<subseteq> set OBJECTIVE_VERDICTS \<Longrightarrow>
     set (fst (snd (fold (evaluate_one E refused p sid) objs acc))) \<subseteq> set OBJECTIVE_VERDICTS"
  by (induction objs arbitrary: acc) (simp_all add: evaluate_one_verdicts)

lemma evaluation_returns:
  assumes "schema_valid E" "objectives_for (ge_hash E) (ge_max_objectives E) (av_catalog st) (cp_control_identifier p) = Inr objs"
  shows "\<exists>st'. evaluate_control_proposal E refused st p = Inr st'"
proof -
  obtain st1 vs f d where l: "fold (evaluate_one E refused p (assessment_system st (cp_assessment_id p))) objs
      (clear_objectives (cp_id p) st, [], 0, 0) = (st1, vs, f, d)"
    by (cases "fold (evaluate_one E refused p (assessment_system st (cp_assessment_id p))) objs (clear_objectives (cp_id p) st, [], 0, 0)")
  have "set vs \<subseteq> set OBJECTIVE_VERDICTS"
    using fold_verdicts [OF assms(1), of "(clear_objectives (cp_id p) st, [], 0, 0)" refused p "assessment_system st (cp_assessment_id p)" objs]
    unfolding l by simp
  then obtain r where "roll_up_verdicts vs f = Inr r" using roll_up_verdicts_known by blast
  then show ?thesis by (simp add: evaluate_control_proposal_def assms(2) l)
qed

text \<open>C16: one objective can neither fail a control nor pass it. When the answers meet the schema and the
  control's objectives can be read, evaluating it always completes, whatever retrieval, the provider and
  the database do to single objectives. Every objective is counted, evaluated or not; unless every one was
  evaluated the proposal says \<open>insufficient_evidence\<close>, which cannot be accepted; and the rows of other
  proposals and every result are as they were.\<close>

theorem one_objective_cannot_settle_control:
  assumes "schema_valid E" "p \<in> set (av_proposals st)"
    and "objectives_for (ge_hash E) (ge_max_objectives E) (av_catalog st) (cp_control_identifier p) = Inr objs"
  shows "\<exists>st' p'. evaluate_control_proposal E refused st p = Inr st' \<and> p' \<in> set (av_proposals st') \<and> cp_id p' = cp_id p \<and>
    cp_state p' = ''complete'' \<and> cp_objectives_total p' = length objs \<and> cp_objectives_evaluated p' \<le> length objs \<and>
    (cp_objectives_evaluated p' \<noteq> length objs \<longrightarrow> cp_proposed_finding p' = Some ''insufficient_evidence'') \<and>
    (\<forall>i. i \<noteq> cp_id p \<longrightarrow> rows_of st' i = rows_of st i) \<and> av_results st' = av_results st"
proof -
  obtain st' where e: "evaluate_control_proposal E refused st p = Inr st'" using evaluation_returns [OF assms(1,3)] by blast
  then show ?thesis
  proof (cases rule: evaluate_control_proposal_cases)
    case (1 objs' new lg vs f d r)
    let ?p = "settle E (length objs') vs d r p"
    have o: "objs' = objs" using 1(1) assms(3) by simp
    have "?p \<in> set (av_proposals st')" unfolding 1(2) using assms(2)
      by (simp add: update_proposal_def update_rows_in [where P = "\<lambda>q. cp_id q = cp_id p"])
    moreover have "rows_of st' i = rows_of st i" if "i \<noteq> cp_id p" for i
      using 1(3) that unfolding rows_of_def 1(2) update_proposal_def by (auto simp: filter_empty_conv intro: filter_cong)
    moreover have "length vs \<noteq> length objs' \<Longrightarrow> rl_finding r = ''insufficient_evidence''"
      using 1(5,7) by (simp add: policy_finding_def)
    ultimately show ?thesis using e 1(5) unfolding o
      by (intro exI [of _ st'] exI [of _ "settle E (length objs) vs d r p"]) (simp add: settle_def 1(2) update_proposal_def)
  qed
qed

lemma unique_row:
  assumes "distinct (map f xs)" "x \<in> set xs" "P x" "\<And>y. P y \<Longrightarrow> f y = f x"
  shows "filter P xs = [x]"
proof -
  have "length (filter P xs) \<le> 1" using assms(1,4) by (rule distinct_filter_le1)
  moreover have "x \<in> set (filter P xs)" using assms(2,3) by simp
  ultimately show ?thesis by (cases "filter P xs") auto
qed

lemma find_proposal_own: "assessment_inv st \<Longrightarrow> p \<in> set (av_proposals st) \<Longrightarrow> find_proposal st (cp_id p) = Inr p"
  using unique_row [of cp_id "av_proposals st" p "\<lambda>q. cp_id q = cp_id p"]
  by (simp add: find_proposal_def assessment_inv_def)

lemma put_result_returns: "assessment_inv st \<Longrightarrow> \<exists>x. put_result p rows f who st = Inr x"
proof -
  assume I: "assessment_inv st"
  have "length (filter (same_result p) (av_results st)) \<le> 1"
    by (rule distinct_filter_le1 [OF inv_parts(3) [OF I], where c = "(cp_assessment_id p, cp_control_identifier p)"])
      (simp add: same_result_def)
  from one_or_none_ok [OF this] obtain x where "one_or_none (filter (same_result p) (av_results st)) = Inr x" by blast
  then show ?thesis by (cases x) (simp_all add: put_result_def Let_def)
qed

lemma accept_iff:
  assumes I: "assessment_inv st" and p: "p \<in> set (av_proposals st)"
  shows "(\<exists>x. accept_control_proposal E pr st (cp_id p) who = Inr x) \<longleftrightarrow>
      check_staleness E st p = Inr False \<and> cp_state p = ''complete'' \<and>
      (\<exists>f. cp_proposed_finding p = Some f \<and> f \<noteq> ''insufficient_evidence'')" (is "?l \<longleftrightarrow> ?r")
proof
  assume ?l
  then obtain st' r where "accept_control_proposal E pr st (cp_id p) who = Inr (st', r)" by auto
  then show ?r
  proof (cases rule: accept_cases)
    case (1 q f st1)
    have "distinct (map cp_id (av_proposals st))" using I by (simp add: assessment_inv_def)
    then have "q = p" using 1(1,2) p by (metis (no_types, lifting) distinct_map inj_onD)
    then show ?thesis using 1 by simp
  qed
next
  assume r: ?r
  then obtain f where f: "cp_proposed_finding p = Some f" "acceptance_refusal p False = None"
    using acceptance_refusal_None [of p False] by blast
  obtain y where "put_result p (sort_key op_sort_order (rows_of st (cp_id p))) f who st = Inr y"
    using put_result_returns [OF I] by blast
  then show ?l using r f by (cases y) (simp add: accept_control_proposal_def find_proposal_own [OF I p] Let_def)
qed

lemma ensure_poam_poams: "\<exists>new. av_poams (ensure_poam pr now p r st) = av_poams st @ new \<and> length new \<le> 1 \<and>
    (acr_finding r \<noteq> ''other_than_satisfied'' \<longrightarrow> new = [])"
  by (auto simp: ensure_poam_def Let_def split: sum.split option.split)

lemma ensure_poam_log: "av_log (ensure_poam pr now p r st) = av_log st"
  by (auto simp: ensure_poam_def Let_def split: sum.split option.split)

lemma put_result_others:
  assumes "put_result p rows f who st = Inr (st1, r)"
  shows "filter (\<lambda>r. \<not> same_result p r) (av_results st1) = filter (\<lambda>r. \<not> same_result p r) (av_results st)"
    "r \<in> set (av_results st1)" "acr_finding r = f" "acr_reviewer r = Some who" "av_poams st1 = av_poams st"
proof -
  have u: "filter (\<lambda>r. \<not> same_result p r) (update_rows (same_result p) (write_result p rows f who) rs) = filter (\<lambda>r. \<not> same_result p r) rs" for rs
    by (induction rs) (simp_all add: update_rows_def)
  have *: "filter (\<lambda>r. \<not> same_result p r) (av_results st1) = filter (\<lambda>r. \<not> same_result p r) (av_results st) \<and>
    r \<in> set (av_results st1) \<and> acr_finding r = f \<and> acr_reviewer r = Some who \<and> av_poams st1 = av_poams st"
    using assms
  proof (cases rule: put_result_cases)
    case (updated r0)
    have "r0 \<in> set (av_results st)" "same_result p r0" using filter_single [OF updated(1)] by simp_all
    then show ?thesis unfolding updated(2,3) by (simp add: u update_rows_in) (simp add: write_result_def)
  next
    case inserted
    then show ?thesis unfolding inserted(2,3) by simp (simp add: write_result_def)
  qed
  then show "filter (\<lambda>r. \<not> same_result p r) (av_results st1) = filter (\<lambda>r. \<not> same_result p r) (av_results st)"
    "r \<in> set (av_results st1)" "acr_finding r = f" "acr_reviewer r = Some who" "av_poams st1 = av_poams st" by blast+
qed

lemma run_ids_sort: "set (run_ids (sort_key k rows)) = set (run_ids rows)"
  by (simp add: run_ids_def)

lemma accepted_store_effects:
  "\<exists>new. av_poams (accepted_store E pr p rows who (st1, r)) = av_poams st1 @ new \<and> length new \<le> 1 \<and>
     (acr_finding r \<noteq> ''other_than_satisfied'' \<longrightarrow> new = [])"
  "lg_runs (av_log (accepted_store E pr p rows who (st1, r))) =
     update_rows (\<lambda>run. ai_id run \<in> set (run_ids rows)) (stamp_accepted (ge_now E) who) (lg_runs (av_log st1))"
  using ensure_poam_poams [of pr "ge_now E" p r "stamp_runs rows (stamp_accepted (ge_now E) who) (update_proposal (cp_id p) (mark_accepted (ge_now E) who) st1)"]
  by (simp_all add: accepted_store_def ensure_poam_log stamp_runs_def update_proposal_def)

lemma accept_effect:
  assumes I: "assessment_inv st" and p: "p \<in> set (av_proposals st)" and a: "accept_control_proposal E pr st (cp_id p) who = Inr (st', r)"
  shows "Some (acr_finding r) = cp_proposed_finding p" "acr_reviewer r = Some who" "result_sound r" "r \<in> set (av_results st')"
    "filter (\<lambda>r. \<not> same_result p r) (av_results st') = filter (\<lambda>r. \<not> same_result p r) (av_results st)"
    "av_proposals st' = update_rows (\<lambda>q. cp_id q = cp_id p) (mark_accepted (ge_now E) who) (av_proposals st)"
    "lg_runs (av_log st') = update_rows (\<lambda>run. ai_id run \<in> set (run_ids (rows_of st (cp_id p)))) (stamp_accepted (ge_now E) who) (lg_runs (av_log st))"
    "\<exists>new. av_poams st' = av_poams st @ new \<and> length new \<le> 1 \<and> (acr_finding r \<noteq> ''other_than_satisfied'' \<longrightarrow> new = [])"
proof -
  from a obtain q f st1 where c: "q \<in> set (av_proposals st)" "cp_id q = cp_id p" "cp_proposed_finding q = Some f" "f \<noteq> ''insufficient_evidence''"
    "put_result q (sort_key op_sort_order (rows_of st (cp_id p))) f who st = Inr (st1, r)"
    "st' = accepted_store E pr q (sort_key op_sort_order (rows_of st (cp_id p))) who (st1, r)"
    by (cases rule: accept_cases) (rule that)
  have "distinct (map cp_id (av_proposals st))" using I by (simp add: assessment_inv_def)
  then have q: "q = p" using c(1,2) p by (metis (no_types, lifting) distinct_map inj_onD)
  note c = c [unfolded q]
  have g: "grounds f (sort_key op_sort_order (rows_of st (cp_id p)))"
    using rows_of_next [OF I p] c(3) unfolding grounds_sort proposal_sound_def by simp
  note R = put_result_sound [OF I g c(4,5)] and O = put_result_others [OF c(5)]
  note S = accepted_store_parts [where E = E and pr = pr and p = p and who = who and sr = "(st1, r)" and
      rows = "sort_key op_sort_order (rows_of st (cp_id p))", folded c(6), unfolded fst_conv]
  note T = accepted_store_effects [of E pr p "sort_key op_sort_order (rows_of st (cp_id p))" who st1 r, folded c(6), unfolded run_ids_sort]
  show "Some (acr_finding r) = cp_proposed_finding p" using O(3) c(3) by simp
  show "acr_reviewer r = Some who" by (rule O(4))
  show "r \<in> set (av_results st')" using O(2) S(3) by simp
  show "result_sound r" using R O(2) by (simp add: list_all_iff)
  show "filter (\<lambda>r. \<not> same_result p r) (av_results st') = filter (\<lambda>r. \<not> same_result p r) (av_results st)" using O(1) S(3) by simp
  show "av_proposals st' = update_rows (\<lambda>q. cp_id q = cp_id p) (mark_accepted (ge_now E) who) (av_proposals st)" using S(1) R by simp
  show "lg_runs (av_log st') = update_rows (\<lambda>run. ai_id run \<in> set (run_ids (rows_of st (cp_id p)))) (stamp_accepted (ge_now E) who) (lg_runs (av_log st))"
    using T(2) R by simp
  show "\<exists>new. av_poams st' = av_poams st @ new \<and> length new \<le> 1 \<and> (acr_finding r \<noteq> ''other_than_satisfied'' \<longrightarrow> new = [])"
    using T(1) O(5) by simp
qed


text \<open>A decision does not survive re-evaluation. Queueing an accepted proposal again evaluates it like
  any other, so that it can then be rejected by anyone with a valid correction and a note: the proposal
  says rejected while the result that was accepted, and the name of who accepted it, stand unchanged.\<close>

theorem reevaluation_reopens_decision:
  assumes "assessment_reachable st" "p \<in> set (av_proposals st)" "evaluate_control_proposal E refused st p = Inr st1"
    and "corrected \<in> set CORRECTED_FINDINGS" "strip remark \<noteq> []"
  shows "\<exists>st2 q. reject_control_proposal E st1 (cp_id p) who corrected remark = Inr st2 \<and> q \<in> set (av_proposals st2) \<and>
    cp_id q = cp_id p \<and> cp_state q = ''rejected'' \<and> cp_accepted_by q = cp_accepted_by p \<and> av_results st2 = av_results st"
proof -
  have I1: "assessment_inv st1" by (rule inv_evaluated [OF assessment_reachable_inv [OF assms(1)] assms(2,3)])
  from assms(3) show ?thesis
  proof (cases rule: evaluate_control_proposal_cases)
    case (1 objs new lg vs f d r)
    let ?p = "settle E (length objs) vs d r p" and ?reject = "mark_rejected (ge_now E) who corrected remark"
    let ?st2 = "stamp_runs (rows_of st1 (cp_id p)) (stamp_rejected (ge_now E) who) (update_proposal (cp_id p) ?reject st1)"
    have p1: "?p \<in> set (av_proposals st1)" unfolding 1(2) using assms(2)
      by (simp add: update_proposal_def update_rows_in [where P = "\<lambda>q. cp_id q = cp_id p"])
    have "cp_id ?p = cp_id p" "cp_state ?p = ''complete''" "cp_accepted_by ?p = cp_accepted_by p" by (simp_all add: settle_def)
    then have "reject_control_proposal E st1 (cp_id p) who corrected remark = Inr ?st2"
      using find_proposal_own [OF I1 p1] assms(4,5) by (simp add: reject_control_proposal_def rejection_refusal_def)
    moreover have "?reject ?p \<in> set (av_proposals ?st2)"
      using p1 \<open>cp_id ?p = cp_id p\<close>
      by (simp add: stamp_runs_def update_proposal_def update_rows_in [where P = "\<lambda>q. cp_id q = cp_id p"])
    ultimately show ?thesis
      by (intro exI [of _ ?st2] exI [of _ "?reject ?p"]) (simp add: mark_rejected_def settle_def stamp_runs_def update_proposal_def 1(2))
  qed
qed

section \<open>Witnesses\<close>

text \<open>A store of one system, assessment and catalogue row, and what it is after its control was opened,
  evaluated and accepted.\<close>

definition sample_store :: assessment_store where
  "sample_store = \<lparr>av_systems = [\<lparr>sy_id = 2, sy_organization_id = 5, sy_name = ''s'', sy_deleted_at = None\<rparr>],
     av_assessments = [\<lparr>asm_id = 3, asm_system_id = 2\<rparr>],
     av_catalog = [\<lparr>cw_id = 1, cw_identifier = ''AC-01a.'', cw_control_name = None, cw_assessment_objective = Some ''x'',
       cw_sequence_control = Some ''AC-01'', cw_ap_acronym = None, cw_source_row = Some 4\<rparr>],
     av_proposals = [], av_objectives = [], av_results = [], av_poams = [], av_jobs = [], av_log = empty_log, av_next = 10\<rparr>"

definition quiet_env :: engine_env where
  "quiet_env = sample_env\<lparr>ge_dissent_enabled := False, ge_hash := (\<lambda>_. ''h''), ge_store_prompts := False\<rparr>"

definition opened_store :: assessment_store where
  "opened_store = sample_store\<lparr>av_proposals := [new_proposal 10 5 3 ''AC-1'' None], av_next := 11\<rparr>"

definition evaluated_proposal :: assessment_proposal where
  "evaluated_proposal = (new_proposal 10 5 3 ''AC-1'' None)\<lparr>cp_state := ''complete'', cp_dissent_count := 0,
     cp_config_snapshot := [(''retrieval_limit'', JInt 8), (''max_objectives'', JInt 150)], cp_objectives_total := 1,
     cp_objectives_evaluated := 1, cp_proposed_finding := Some ''satisfied'',
     cp_rollup_rationale := Some ''1 objective(s): 1 satisfied -- every applicable objective met.''\<rparr>"

definition evaluated_row :: objective_proposal where
  "evaluated_row = \<lparr>op_control_proposal_id = 10, op_label = ''AC-01a.'', op_objective_text = ''x'', op_text_sha256 = ''h'',
     op_sort_order = 0, op_state = ''complete'', op_verdict = Some ''satisfied'', op_cited_unit_ids = [7],
     op_retrieved_unit_ids = [7, 8], op_gaps = [], op_contradictions = [], op_rationale = Some ''because'',
     op_model_name = Some ''m'', op_model_confidence = Some (Fin (1 / 2)), op_ai_action_run_id = Some 1, op_error = None,
     op_primary_verdict = None, op_challenger_verdict = None, op_challenger_rationale = None, op_challenger_run_id = None\<rparr>"

definition evaluated_log :: ai_log where
  "evaluated_log = fst (record_ai_run quiet_env empty_log ACTION_KEY ''assessment_objective'' ''AC-01a.'' 5 ''p'' (Some ''m'')
     [] ''satisfied'' (citation_refs sample_units [7]))"

definition evaluated_store :: assessment_store where
  "evaluated_store = opened_store\<lparr>av_proposals := [evaluated_proposal], av_objectives := [evaluated_row], av_log := evaluated_log\<rparr>"

definition accepted_result :: control_result where
  "accepted_result = write_result evaluated_proposal [evaluated_row] ''satisfied'' ''ada'' (blank_result 11 evaluated_proposal)"

definition accepted_sample :: assessment_store where
  "accepted_sample = evaluated_store\<lparr>av_proposals := [mark_accepted 0 ''ada'' evaluated_proposal], av_results := [accepted_result],
     av_log := evaluated_log\<lparr>lg_runs := map (stamp_accepted 0 ''ada'') (lg_runs evaluated_log)\<rparr>, av_next := 12\<rparr>"

lemma sample_opened: "open_control_proposal sample_store 3 ''AC-1'' = Inr (opened_store, new_proposal 10 5 3 ''AC-1'' None)"
  by code_simp

lemma sample_objectives:
  "objectives_for (ge_hash quiet_env) (ge_max_objectives quiet_env) (av_catalog sample_store) ''AC-1'' =
     Inr [\<lparr>ob_label = ''AC-01a.'', ob_text = ''x'', ob_text_sha256 = ''h'', ob_sort_order = 0\<rparr>]"
  by code_simp

lemma sample_evaluated:
  "evaluate_control_proposal quiet_env (\<lambda>_. False) opened_store (new_proposal 10 5 3 ''AC-1'' None) = Inr evaluated_store"
  by code_simp

lemma sample_accepted:
  "accept_control_proposal quiet_env (\<lambda>_. False) evaluated_store 10 ''ada'' = Inr (accepted_sample, accepted_result)"
  by code_simp

lemma schema_valid_quiet: "schema_valid quiet_env"
  by (simp add: schema_valid_def quiet_env_def sample_env_def sample_answer_def OBJECTIVE_VERDICTS_def)

lemma sample_proposals:
  "av_proposals opened_store = [new_proposal 10 5 3 ''AC-1'' None]" "av_proposals evaluated_store = [evaluated_proposal]"
  "av_proposals accepted_sample = [mark_accepted 0 ''ada'' evaluated_proposal]" "av_results accepted_sample = [accepted_result]"
  "cp_id evaluated_proposal = 10"
  by (simp_all add: opened_store_def evaluated_store_def accepted_sample_def evaluated_proposal_def new_proposal_def)

lemma opened_reachable: "assessment_reachable opened_store"
  by (rule assessment_reachable.later [OF assessment_reachable.fresh opened [OF sample_opened]]) (simp_all add: sample_store_def)

lemma evaluated_reachable: "assessment_reachable evaluated_store"
  by (rule assessment_reachable.later [OF opened_reachable evaluated [OF _ sample_evaluated]]) (simp add: sample_proposals)

lemma accepted_reachable: "assessment_reachable accepted_sample"
  by (rule assessment_reachable.later [OF evaluated_reachable accepted [OF sample_accepted]])



theorem one_objective_cannot_settle_control_witness:
  "\<exists>st' p'. evaluate_control_proposal quiet_env (\<lambda>_. True) opened_store (new_proposal 10 5 3 ''AC-1'' None) = Inr st' \<and>
    p' \<in> set (av_proposals st') \<and> cp_state p' = ''complete'' \<and> cp_objectives_total p' = 1"
proof -
  let ?p = "new_proposal 10 5 3 ''AC-1'' None"
  have o: "objectives_for (ge_hash quiet_env) (ge_max_objectives quiet_env) (av_catalog opened_store) (cp_control_identifier ?p) =
     Inr [\<lparr>ob_label = ''AC-01a.'', ob_text = ''x'', ob_text_sha256 = ''h'', ob_sort_order = 0\<rparr>]"
    using sample_objectives by (simp add: opened_store_def new_proposal_def)
  have p: "?p \<in> set (av_proposals opened_store)" by (simp add: sample_proposals)
  show ?thesis
    using one_objective_cannot_settle_control [OF schema_valid_quiet p o, where refused = "\<lambda>_. True"]
    unfolding list.size by (elim exE conjE) (intro exI conjI, simp_all)
qed


theorem reevaluation_reopens_decision_witness:
  "\<exists>st1 st2 q. evaluate_control_proposal quiet_env (\<lambda>_. False) accepted_sample (mark_accepted 0 ''ada'' evaluated_proposal) = Inr st1 \<and>
    reject_control_proposal quiet_env st1 10 ''bob'' ''other_than_satisfied'' ''no'' = Inr st2 \<and> q \<in> set (av_proposals st2) \<and>
    cp_state q = ''rejected'' \<and> cp_accepted_by q = Some ''ada'' \<and> av_results st2 = [accepted_result]"
proof -
  let ?p = "mark_accepted 0 ''ada'' evaluated_proposal"
  have p: "cp_id ?p = 10" "cp_control_identifier ?p = ''AC-1''" "cp_accepted_by ?p = Some ''ada''"
    by (simp_all add: mark_accepted_def evaluated_proposal_def new_proposal_def)
  have "av_catalog accepted_sample = av_catalog sample_store"
    by (simp add: accepted_sample_def evaluated_store_def opened_store_def)
  then obtain st1 where e: "evaluate_control_proposal quiet_env (\<lambda>_. False) accepted_sample ?p = Inr st1"
    using evaluation_returns [OF schema_valid_quiet, of accepted_sample ?p] sample_objectives p(2) by metis
  have m: "?p \<in> set (av_proposals accepted_sample)" by (simp add: sample_proposals)
  have f: "''other_than_satisfied'' \<in> set CORRECTED_FINDINGS" "strip ''no'' \<noteq> []" by code_simp+
  show ?thesis
    using e reevaluation_reopens_decision [OF accepted_reachable m e f, where who = "''bob''"]
    unfolding p sample_proposals(4) by (elim exE conjE) (intro exI conjI)
qed

end
