(* ===== verification/Authorization.thy ===== *)
theory Authorization
  imports Audit_Trail
begin

text \<open>
  Who may call what: \<open>api/auth_deps.py\<close> and the \<open>Principal\<close> of \<open>auth.py\<close>. A caller without an organisation
  is global: authentication is off, or the platform itself calls.
\<close>

record caller = principal +
  pr_role :: string

definition SYSTEM_PRINCIPAL :: caller where
  "SYSTEM_PRINCIPAL = \<lparr>pr_email = ''system'', pr_user_id = None, pr_org_id = None, pr_role = ''admin''\<rparr>"

definition is_global :: "caller \<Rightarrow> bool" where
  "is_global c \<longleftrightarrow> pr_org_id c = None"

definition require_role :: "string list \<Rightarrow> caller \<Rightarrow> unit res" where
  "require_role roles c =
     (if is_global c \<or> pr_role c \<in> set roles then Inr ()
      else Inl (HTTPException 403 (fstr [''requires role: '', join_with '', '' roles])))"

definition require_platform_admin :: "caller \<Rightarrow> unit res" where
  "require_platform_admin c =
     (if is_global c then Inr ()
      else Inl (HTTPException 403 (fstr [''this operates on Concord'', [CHR 0x27], ''s own assurance boundary and requires a '',
             ''platform-wide (unscoped) administrator, not a tenant administrator''])))"

text \<open>\<open>principal.org_id is not None and row.organization_id != principal.org_id\<close>, negated.\<close>

definition in_org :: "caller \<Rightarrow> int option \<Rightarrow> bool" where
  "in_org c org_id \<longleftrightarrow> pr_org_id c = None \<or> org_id = pr_org_id c"

definition resolve_caller_org :: "int option \<Rightarrow> int option \<Rightarrow> int option res" where
  "resolve_caller_org principal_org requested_org =
     (if principal_org = None then Inr requested_org
      else if requested_org \<noteq> None \<and> requested_org \<noteq> principal_org
      then Inl (HTTPException 403 ''organization_id does not match the authenticated organization'')
      else Inr principal_org)"

section \<open>Public paths\<close>

definition PUBLIC_PREFIXES :: "string list" where [vocab]:
  "PUBLIC_PREFIXES = [''/api/auth'', ''/auth/login'', ''/auth/callback'', ''/auth/piv'', ''/auth/logout'', ''/api/scim'', ''/api/portal'',
     ''/portal'', ''/login'', ''/logout'', ''/healthz'', ''/readyz'', ''/livez'', ''/static'', ''/docs'', ''/redoc'', ''/openapi.json'', ''/favicon'']"

definition PUBLIC_LITERAL_PREFIXES :: "string list" where [vocab]:
  "PUBLIC_LITERAL_PREFIXES = [''/favicon'']"

definition MFA_ENROLMENT_PATHS :: "string list" where [vocab]:
  "MFA_ENROLMENT_PATHS = [''/settings/security'', ''/api/auth/mfa'', ''/logout'', ''/api/auth/logout'']"

text \<open>\<open>path == p or path.startswith(p + "/")\<close>.\<close>

definition under_path :: "string \<Rightarrow> string \<Rightarrow> bool" where
  "under_path path p \<longleftrightarrow> path = p \<or> is_prefix_of (p @ ''/'') path"

definition is_public_path :: "bool \<Rightarrow> string \<Rightarrow> bool" where
  "is_public_path metrics_require_auth path \<longleftrightarrow>
     (if path = ''/'' then True
      else if path = ''/metrics'' then \<not> metrics_require_auth
      else list_ex (under_path path) PUBLIC_PREFIXES \<or> list_ex (\<lambda>p. is_prefix_of p path) PUBLIC_LITERAL_PREFIXES)"

definition is_mfa_enrolment_path :: "string \<Rightarrow> bool" where
  "is_mfa_enrolment_path path \<longleftrightarrow> list_ex (under_path path) MFA_ENROLMENT_PATHS"

section \<open>What the gates give\<close>

lemma require_role_Inr [simp]: "require_role roles c = Inr u \<longleftrightarrow> is_global c \<or> pr_role c \<in> set roles"
  by (auto simp: require_role_def)

lemma in_org_same: "in_org c org_id \<Longrightarrow> \<not> is_global c \<Longrightarrow> org_id = pr_org_id c"
  by (auto simp add: in_org_def is_global_def)

lemma resolve_caller_org_bound:
  "resolve_caller_org (Some o') r = Inr x \<Longrightarrow> x = Some o'"
  by (simp add: resolve_caller_org_def split: if_splits)

end
