(* ===== verification/Enforcement.thy ===== *)
theory Enforcement
  imports Patching Retention Drift Assertions Bus Authorization
begin

text \<open>
  Closed-loop enforcement, \<open>enforcement/types.py\<close> and \<open>service.py\<close> with the row of
  \<open>models_enforcement.py\<close> and the endpoints of \<open>api/routes/enforcement.py\<close>: a remediation plan is built
  from recorded findings, approved by a second person, applied to the customer's tenant and reversed.

  The tenant, with the network in front of it, is a state \<open>'w\<close> that a provider's calls read and change. A
  refusal is \<open>EnforcementError\<close>, raised before any write. \<open>apply_plan\<close> and \<open>reverse_plan\<close> lock the plan's
  row and select it again, but the object the request already holds is returned with the attributes it was
  loaded with: the plan they decide on is an argument, and what they store is written to the row of its id.
  Steps and outcomes are stored as the dictionaries \<open>to_dict\<close> builds.
\<close>

section \<open>Steps and outcomes\<close>

type_synonym dict = "(string \<times> json) list"

record remediation_step =
  sp_resource_id :: string
  sp_resource_type :: string
  sp_action :: string
  sp_description :: string
  sp_current_state :: dict
  sp_target_state :: dict

definition step_to_dict :: "remediation_step \<Rightarrow> dict" where
  "step_to_dict s =
     [(''resource_id'', JStr (sp_resource_id s)), (''resource_type'', JStr (sp_resource_type s)),
      (''action'', JStr (sp_action s)), (''description'', JStr (sp_description s)),
      (''current_state'', JObj (sp_current_state s)), (''target_state'', JObj (sp_target_state s))]"

text \<open>\<open>dict(raw.get(k) or {})\<close> and \<open>str(raw.get(k, ""))\<close>.\<close>

definition dict_value :: "dict \<Rightarrow> string \<Rightarrow> dict res" where
  "dict_value raw k =
     (case map_of raw k of
        None \<Rightarrow> Inr []
      | Some v \<Rightarrow> if \<not> truthy v then Inr []
                  else (case v of JObj kvs \<Rightarrow> Inr kvs | _ \<Rightarrow> Inl (TypeError ''cannot convert to a dictionary'')))"

definition str_item :: "dict \<Rightarrow> string \<Rightarrow> string" where
  "str_item raw k = (case map_of raw k of None \<Rightarrow> [] | Some v \<Rightarrow> py_str v)"

definition step_from_dict :: "dict \<Rightarrow> remediation_step res" where
  "step_from_dict raw =
     rbind (dict_value raw ''current_state'') (\<lambda>current.
     rbind (dict_value raw ''target_state'') (\<lambda>target.
       Inr \<lparr>sp_resource_id = str_item raw ''resource_id'', sp_resource_type = str_item raw ''resource_type'',
            sp_action = str_item raw ''action'', sp_description = str_item raw ''description'',
            sp_current_state = current, sp_target_state = target\<rparr>))"

record step_outcome =
  so_resource_id :: string
  so_status :: string
  so_detail :: string
  so_at :: "string option"

definition outcome_to_dict :: "step_outcome \<Rightarrow> dict" where
  "outcome_to_dict x =
     [(''resource_id'', JStr (so_resource_id x)), (''status'', JStr (so_status x)), (''detail'', JStr (so_detail x)),
      (''at'', jopt (so_at x))]"

definition OUTCOME_STATUSES :: "string list" where [vocab]:
  "OUTCOME_STATUSES = [''applied'', ''failed'', ''skipped'', ''uncertain'']"

section \<open>Providers\<close>

record 'w provider =
  pv_key :: string
  pv_write_credential_type :: string
  pv_required_permissions :: "string list"
  pv_write_configured :: bool
  pv_plan :: "'w \<Rightarrow> resource_finding list \<Rightarrow> 'w \<times> remediation_step list res"
  pv_apply :: "'w \<Rightarrow> remediation_step \<Rightarrow> 'w \<times> step_outcome res"
  pv_reverse :: "'w \<Rightarrow> remediation_step \<Rightarrow> 'w \<times> step_outcome res"

text \<open>A provider's class: bound to a credential it gives a provider.\<close>

record 'w provider_class =
  pc_key :: string
  pc_write_credential_type :: string
  pc_handled_checks :: "string list"
  pc_bind :: "dict option \<Rightarrow> 'w provider"

definition claimed_checks :: "'w provider_class list \<Rightarrow> (string \<times> string) list" where
  "claimed_checks registry = rev (concat (map (\<lambda>c. map (\<lambda>k. (k, pc_key c)) (pc_handled_checks c)) registry))"

definition register :: "'w provider_class \<Rightarrow> 'w provider_class list \<Rightarrow> 'w provider_class list res" where
  "register c registry =
     (case filter (\<lambda>k. map_of (claimed_checks registry) k \<noteq> None) (pc_handled_checks c) of
        [] \<Rightarrow> Inr (registry @ [c])
      | k # _ \<Rightarrow> Inl (ValueError (fstr [''check '', py_repr k, '' is already handled by provider '',
                   py_repr (the (map_of (claimed_checks registry) k))])))"

definition provider_for :: "'w provider_class list \<Rightarrow> string \<Rightarrow> 'w provider_class option" where
  "provider_for registry check_key = first_row (filter (\<lambda>c. check_key \<in> set (pc_handled_checks c)) registry)"

fun dedup_first :: "string list \<Rightarrow> string list" where
  "dedup_first [] = []"
| "dedup_first (x # xs) = x # filter (\<lambda>y. y \<noteq> x) (dedup_first xs)"

definition write_credential_keys :: "'w provider_class list \<Rightarrow> string list" where
  "write_credential_keys registry = dedup_first (map pc_write_credential_type registry)"

section \<open>Building steps\<close>

definition limit_text :: "nat \<Rightarrow> int \<Rightarrow> string" where
  "limit_text n limit = fstr [str_of_nat n, '' resources exceeds the enforcement limit of '', str_of_int limit]"

definition remediable_findings :: "resource_finding list \<Rightarrow> string list option \<Rightarrow> resource_finding list" where
  "remediable_findings findings only =
     (let remediable = filter (\<lambda>f. rf_verdict f \<in> set REQUIRES_COVER) findings
      in case only of None \<Rightarrow> remediable | Some ids \<Rightarrow> filter (\<lambda>f. rf_resource_id f \<in> set ids) remediable)"

text \<open>The steps, or the reason there is no plan.\<close>

definition build_steps ::
  "resource_finding list \<Rightarrow> 'w provider \<Rightarrow> 'w \<Rightarrow> int \<Rightarrow> string list option \<Rightarrow> ('w \<times> (string + remediation_step list)) res" where
  "build_steps findings P w max_resources only =
     (let remediable = remediable_findings findings only
      in if max_resources < int (length remediable) then Inr (w, Inl (limit_text (length remediable) max_resources))
         else (case pv_plan P w remediable of
                 (w', Inl (ProviderUnavailableError e)) \<Rightarrow>
                    Inr (w', Inl (fstr [''could not evaluate remediation candidates: '', e]))
               | (w', Inl e) \<Rightarrow> Inl e
               | (w', Inr planned) \<Rightarrow>
                   (let steps = filter (\<lambda>s. sp_current_state s \<noteq> []) planned
                    in if steps = [] then Inr (w', Inl ''no resources to remediate'')
                       else if max_resources < int (length steps) then Inr (w', Inl (limit_text (length steps) max_resources))
                       else Inr (w', Inr steps))))"

section \<open>Plans\<close>

definition PLAN_STATUSES :: "string list" where [vocab]:
  "PLAN_STATUSES = [''draft'', ''pending_approval'', ''approved'', ''applied'', ''failed'', ''reversed'', ''refused'', ''rejected'']"

record enforcement_plan = remediation_plan +
  ep_check_key :: string
  ep_provider_key :: string
  ep_steps :: "dict list"
  ep_outcomes :: "dict list"
  ep_resource_count :: nat
  ep_refusal_reason :: "string option"
  ep_requested_by :: "string option"
  ep_approved_by :: "string option"
  ep_approved_at :: "datetime option"
  ep_applied_at :: "datetime option"
  ep_reversed_at :: "datetime option"
  ep_result_id :: "int option"
  ep_notes :: "string option"

record 'w enforcement_store =
  es_systems :: "system list"
  es_db :: db
  es_plans :: "enforcement_plan list"
  es_audit :: audit_store
  es_world :: 'w
  es_next :: int

record 'w enforcement_env =
  ee_now :: datetime
  ee_max_resources :: int
  ee_approval_max_age_hours :: int
  ee_hash :: "string \<Rightarrow> string"
  ee_bus :: env
  ee_registry :: "'w provider_class list"
  ee_credential :: "int option \<Rightarrow> string \<Rightarrow> dict option"

definition bind_provider :: "'w enforcement_env \<Rightarrow> string \<Rightarrow> int option \<Rightarrow> 'w provider option" where
  "bind_provider E check_key org_id =
     map_option (\<lambda>c. pc_bind c (ee_credential E org_id (pc_write_credential_type c))) (provider_for (ee_registry E) check_key)"

text \<open>\<open>provider or await _bind_provider(...)\<close>, and the error when there is none.\<close>

definition choose_provider ::
  "'w enforcement_env \<Rightarrow> 'w provider option \<Rightarrow> string \<Rightarrow> int option \<Rightarrow> 'w provider res" where
  "choose_provider E given check_key org_id =
     (case (case given of Some P \<Rightarrow> Some P | None \<Rightarrow> bind_provider E check_key org_id) of
        None \<Rightarrow> Inl (EnforcementError (fstr [''no remediation provider handles check '', py_repr check_key]))
      | Some P \<Rightarrow> Inr P)"

definition resource_limit :: "'w enforcement_env \<Rightarrow> int option \<Rightarrow> int" where
  "resource_limit E explicit = (case explicit of Some n \<Rightarrow> n | None \<Rightarrow> ee_max_resources E)"

definition audit_plan ::
  "'w enforcement_env \<Rightarrow> string \<Rightarrow> string \<Rightarrow> enforcement_plan \<Rightarrow> dict \<Rightarrow> 'w enforcement_store \<Rightarrow> 'w enforcement_store" where
  "audit_plan E actor action p diff st =
     st\<lparr>es_audit := record_event (ee_hash E) (es_audit st)
          \<lparr>ae_actor = actor, ae_action = action, ae_entity_type = ''remediation_plan'', ae_entity_id = Some (str_of_int (rp_id p)),
           ae_diff = JObj diff, ae_organization_id = rp_organization_id p\<rparr>\<rparr>"

definition update_plan ::
  "int \<Rightarrow> (enforcement_plan \<Rightarrow> enforcement_plan) \<Rightarrow> 'w enforcement_store \<Rightarrow> 'w enforcement_store" where
  "update_plan i f st = st\<lparr>es_plans := update_rows (\<lambda>p. rp_id p = i) f (es_plans st)\<rparr>"

text \<open>The newest informative result of the check's test on the system, with what it found.\<close>

definition latest_findings :: "db \<Rightarrow> int \<Rightarrow> string \<Rightarrow> int option \<times> resource_finding list" where
  "latest_findings d system_id check_key =
     (case first_row (filter (\<lambda>(t, i). list_ex (\<lambda>c. ct_id c = t \<and> ct_system_id c = Some system_id \<and> ct_check_key c = Some check_key)
             (tests d)) (latest_result_ids d)) of
        None \<Rightarrow> (None, [])
      | Some (t, i) \<Rightarrow> (Some i, findings_for_result d i))"

definition draft_plan :: "int \<Rightarrow> system \<Rightarrow> string \<Rightarrow> string \<Rightarrow> string \<Rightarrow> enforcement_plan" where
  "draft_plan i y check_key provider_key actor =
     \<lparr>rp_id = i, rp_organization_id = Some (sy_organization_id y), rp_system_id = sy_id y, rp_status = ''draft'',
      ep_check_key = check_key, ep_provider_key = provider_key, ep_steps = [], ep_outcomes = [], ep_resource_count = 0,
      ep_refusal_reason = None, ep_requested_by = Some actor, ep_approved_by = None, ep_approved_at = None,
      ep_applied_at = None, ep_reversed_at = None, ep_result_id = None, ep_notes = None\<rparr>"

definition store_plan :: "enforcement_plan \<Rightarrow> 'w enforcement_store \<Rightarrow> 'w enforcement_store" where
  "store_plan p st = st\<lparr>es_plans := es_plans st @ [p], es_next := es_next st + 1\<rparr>"

definition refuse_plan ::
  "'w enforcement_env \<Rightarrow> string \<Rightarrow> enforcement_plan \<Rightarrow> string \<Rightarrow> 'w enforcement_store \<Rightarrow> 'w enforcement_store \<times> enforcement_plan" where
  "refuse_plan E actor p reason st =
     (let q = p\<lparr>rp_status := ''refused'', ep_refusal_reason := Some reason\<rparr>
      in (audit_plan E actor ''create'' q
            [(''event'', JStr ''refused''), (''check_key'', JStr (ep_check_key p)), (''reason'', JStr reason)] (store_plan q st), q))"

definition planned :: "remediation_step list \<Rightarrow> enforcement_plan \<Rightarrow> enforcement_plan" where
  "planned steps p = p\<lparr>ep_steps := map step_to_dict steps, ep_resource_count := length steps, rp_status := ''pending_approval''\<rparr>"

definition create_plan ::
  "'w enforcement_env \<Rightarrow> 'w provider option \<Rightarrow> 'w enforcement_store \<Rightarrow> int \<Rightarrow> string \<Rightarrow> string \<Rightarrow> string list option \<Rightarrow> int option \<Rightarrow>
     ('w enforcement_store \<times> enforcement_plan) res" where
  "create_plan E given st system_id check_key actor only max_resources =
     (case first_row (filter (\<lambda>y. sy_id y = system_id \<and> sy_deleted_at y = None) (es_systems st)) of
        None \<Rightarrow> Inl (EnforcementError (fstr [''unknown system: '', str_of_int system_id]))
      | Some y \<Rightarrow>
          rbind (choose_provider E given check_key (Some (sy_organization_id y))) (\<lambda>P.
            let p = draft_plan (es_next st) y check_key (pv_key P) actor
            in if \<not> pv_write_configured P
               then Inr (refuse_plan E actor p (fstr [''no write credential configured for '', py_repr (pv_write_credential_type P),
                      ''; requires '', if join_with '', '' (pv_required_permissions P) = [] then ''write scopes''
                                     else join_with '', '' (pv_required_permissions P)]) st)
               else case latest_findings (es_db st) system_id check_key of
                 (None, _) \<Rightarrow> Inr (refuse_plan E actor p (fstr [''no recorded result for '', py_repr check_key,
                      '' on this system; scan before remediating'']) st)
               | (Some result_id, findings) \<Rightarrow>
                   rbind (build_steps findings P (es_world st) (resource_limit E max_resources) only) (\<lambda>(w, built).
                     let q = p\<lparr>ep_result_id := Some result_id\<rparr>; st' = st\<lparr>es_world := w\<rparr>
                     in case built of
                          Inl refusal \<Rightarrow> Inr (refuse_plan E actor q refusal st')
                        | Inr steps \<Rightarrow>
                            (let r = planned steps q
                             in Inr (audit_plan E actor ''create'' r
                                  [(''event'', JStr ''planned''), (''check_key'', JStr check_key), (''provider'', JStr (pv_key P)),
                                   (''resources'', JList (map (\<lambda>s. JStr (sp_resource_id s)) steps))] (store_plan r st'), r)))))"

section \<open>Approving\<close>

definition mark_plan_approved :: "datetime \<Rightarrow> string \<Rightarrow> enforcement_plan \<Rightarrow> enforcement_plan" where
  "mark_plan_approved now approver p = p\<lparr>rp_status := ''approved'', ep_approved_by := Some approver, ep_approved_at := Some now\<rparr>"

definition approve_plan ::
  "'w enforcement_env \<Rightarrow> 'w enforcement_store \<Rightarrow> enforcement_plan \<Rightarrow> string \<Rightarrow> 'w enforcement_store res" where
  "approve_plan E st p approver =
     (if rp_status p \<noteq> ''pending_approval''
      then Inl (EnforcementError (fstr [''plan is not awaiting approval (status='', rp_status p, '')'']))
      else if \<not> can_approve (ep_requested_by p) (Some approver) False
      then Inl (EnforcementError ''the requester may not approve their own remediation plan'')
      else Inr (audit_plan E approver ''update'' p
             [(''event'', JStr ''approved''), (''approved_by'', JStr approver), (''resources'', JInt (int (ep_resource_count p)))]
             (update_plan (rp_id p) (mark_plan_approved (ee_now E) approver) st)))"

section \<open>Applying\<close>

text \<open>One operation over every step; what a step raises is its outcome.\<close>

definition caught :: "remediation_step \<Rightarrow> step_outcome res \<Rightarrow> step_outcome" where
  "caught s r =
     (case r of
        Inl e \<Rightarrow> \<lparr>so_resource_id = sp_resource_id s, so_status = ''failed'', so_detail = take 300 (error_text e), so_at = None\<rparr>
      | Inr x \<Rightarrow> x)"

fun run_steps ::
  "('w \<Rightarrow> remediation_step \<Rightarrow> 'w \<times> step_outcome res) \<Rightarrow> datetime \<Rightarrow> 'w \<Rightarrow> remediation_step list \<Rightarrow> 'w \<times> step_outcome list" where
  "run_steps action now w [] = (w, [])"
| "run_steps action now w (s # ss) =
     (case action w s of (w1, r) \<Rightarrow>
        (case run_steps action now w1 ss of (w2, xs) \<Rightarrow> (w2, (caught s r)\<lparr>so_at := Some (isoformat now)\<rparr> # xs)))"

definition us_per_hour :: int where
  "us_per_hour = 3600 * 1000000"

definition approval_stale :: "'w enforcement_env \<Rightarrow> enforcement_plan \<Rightarrow> bool" where
  "approval_stale E p =
     (case ep_approved_at p of
        None \<Rightarrow> False
      | Some t \<Rightarrow> ee_approval_max_age_hours E \<noteq> 0 \<and> ee_approval_max_age_hours E * us_per_hour < ee_now E - t)"

text \<open>The checks both write paths make: the provider, its write credential and the limit.\<close>

definition write_checks ::
  "'w enforcement_env \<Rightarrow> 'w provider option \<Rightarrow> enforcement_plan \<Rightarrow> int option \<Rightarrow> 'w provider res" where
  "write_checks E given p max_resources =
     rbind (choose_provider E given (ep_check_key p) (rp_organization_id p)) (\<lambda>P.
       if \<not> pv_write_configured P
       then Inl (EnforcementError (fstr [''no write credential configured for '', py_repr (pv_write_credential_type P)]))
       else if resource_limit E max_resources < int (ep_resource_count p)
       then Inl (EnforcementError (limit_text (ep_resource_count p) (resource_limit E max_resources)))
       else Inr P)"

definition apply_checks ::
  "'w enforcement_env \<Rightarrow> 'w provider option \<Rightarrow> enforcement_plan \<Rightarrow> int option \<Rightarrow> 'w provider res" where
  "apply_checks E given p max_resources =
     (if rp_status p \<noteq> ''approved''
      then Inl (EnforcementError (fstr [''plan is not approved (status='', rp_status p, '')'']))
      else if approval_stale E p
      then Inl (EnforcementError (fstr [''approval is more than '', str_of_int (ee_approval_max_age_hours E),
             ''h old; the resource set it was reviewed against may be stale -- create and approve a new plan'']))
      else write_checks E given p max_resources)"

definition applied_status :: "step_outcome list \<Rightarrow> string" where
  "applied_status outcomes = (if list_ex (\<lambda>x. so_status x = ''applied'') outcomes then ''applied'' else ''failed'')"

definition mark_plan_applied :: "datetime \<Rightarrow> step_outcome list \<Rightarrow> enforcement_plan \<Rightarrow> enforcement_plan" where
  "mark_plan_applied now outcomes p =
     p\<lparr>ep_outcomes := map outcome_to_dict outcomes, ep_applied_at := Some now, rp_status := applied_status outcomes\<rparr>"

definition enforced_event ::
  "'w enforcement_env \<Rightarrow> enforcement_plan \<Rightarrow> string \<Rightarrow> step_outcome list \<Rightarrow> db \<Rightarrow> db" where
  "enforced_event E p actor outcomes d =
     fst (emit (ee_bus E) d ''enforced'' ''remediation_plan''
       (fstr [''Applied remediation for '', ep_check_key p, '' on system '', str_of_int (rp_system_id p), '': '',
          str_of_nat (count_if (\<lambda>x. so_status x = ''applied'') outcomes), '' of '', str_of_nat (length outcomes), '' resources''])
       (rp_organization_id p) (Some actor) (Some (str_of_int (rp_id p)))
       [(''check_key'', JStr (ep_check_key p)), (''provider'', JStr (ep_provider_key p)), (''approved_by'', jopt (ep_approved_by p)),
        (''outcomes'', JList (map (\<lambda>x. JObj (outcome_to_dict x)) outcomes))] True)"

definition row_present :: "'w enforcement_store \<Rightarrow> int \<Rightarrow> unit res" where
  "row_present st i = (if list_ex (\<lambda>p. rp_id p = i) (es_plans st) then Inr () else Inl NoResultFound)"

definition apply_plan ::
  "'w enforcement_env \<Rightarrow> 'w provider option \<Rightarrow> 'w enforcement_store \<Rightarrow> enforcement_plan \<Rightarrow> string \<Rightarrow> int option \<Rightarrow>
     'w enforcement_store res" where
  "apply_plan E given st p actor max_resources =
     rbind (row_present st (rp_id p)) (\<lambda>_.
     rbind (apply_checks E given p max_resources) (\<lambda>P.
     rbind (rmap step_from_dict (ep_steps p)) (\<lambda>steps.
       case run_steps (pv_apply P) (ee_now E) (es_world st) steps of
         (w, outcomes) \<Rightarrow>
           (let st1 = audit_plan E actor ''update'' p
                  [(''event'', JStr ''applied''), (''status'', JStr (applied_status outcomes)),
                   (''outcomes'', JList (map (\<lambda>x. JObj (outcome_to_dict x)) outcomes))]
                  (update_plan (rp_id p) (mark_plan_applied (ee_now E) outcomes) (st\<lparr>es_world := w\<rparr>))
            in Inr (st1\<lparr>es_db := enforced_event E p actor outcomes (es_db st1)\<rparr>)))))"

section \<open>Reversing\<close>

definition reverse_checks ::
  "'w enforcement_env \<Rightarrow> 'w provider option \<Rightarrow> enforcement_plan \<Rightarrow> int option \<Rightarrow> 'w provider res" where
  "reverse_checks E given p max_resources =
     (if rp_status p \<noteq> ''applied''
      then Inl (EnforcementError (fstr [''plan is not applied (status='', rp_status p, '')'']))
      else write_checks E given p max_resources)"

definition reversible_ids :: "dict list \<Rightarrow> json option list" where
  "reversible_ids outcomes =
     map (\<lambda>d. map_of d ''resource_id'')
       (filter (\<lambda>d. map_of d ''status'' \<in> {Some (JStr ''applied''), Some (JStr ''uncertain'')}) outcomes)"

definition steps_to_reverse :: "enforcement_plan \<Rightarrow> dict list" where
  "steps_to_reverse p = filter (\<lambda>s. map_of s ''resource_id'' \<in> set (reversible_ids (ep_outcomes p))) (ep_steps p)"

definition mark_plan_reversed :: "datetime \<Rightarrow> step_outcome list \<Rightarrow> enforcement_plan \<Rightarrow> enforcement_plan" where
  "mark_plan_reversed now outcomes p =
     p\<lparr>ep_outcomes := ep_outcomes p @ map outcome_to_dict outcomes, ep_reversed_at := Some now, rp_status := ''reversed''\<rparr>"

definition reverse_plan ::
  "'w enforcement_env \<Rightarrow> 'w provider option \<Rightarrow> 'w enforcement_store \<Rightarrow> enforcement_plan \<Rightarrow> string \<Rightarrow> int option \<Rightarrow>
     'w enforcement_store res" where
  "reverse_plan E given st p actor max_resources =
     rbind (row_present st (rp_id p)) (\<lambda>_.
     rbind (reverse_checks E given p max_resources) (\<lambda>P.
     rbind (rmap step_from_dict (steps_to_reverse p)) (\<lambda>steps.
       case run_steps (pv_reverse P) (ee_now E) (es_world st) steps of
         (w, outcomes) \<Rightarrow>
           Inr (audit_plan E actor ''update'' p
                  [(''event'', JStr ''reversed''), (''outcomes'', JList (map (\<lambda>x. JObj (outcome_to_dict x)) outcomes))]
                  (update_plan (rp_id p) (\<lambda>r. mark_plan_reversed (ee_now E) outcomes (r\<lparr>ep_outcomes := ep_outcomes p\<rparr>))
                     (st\<lparr>es_world := w\<rparr>))))))"

section \<open>Endpoints\<close>

definition ENFORCER_ROLES :: "string list" where [vocab]:
  "ENFORCER_ROLES = [''admin'']"

definition require_system_in_scope :: "system list \<Rightarrow> int \<Rightarrow> caller \<Rightarrow> system res" where
  "require_system_in_scope systems system_id c =
     rbind (one_or_none (filter (\<lambda>y. sy_id y = system_id \<and> sy_deleted_at y = None) systems)) (\<lambda>x.
       case x of
         Some y \<Rightarrow> if in_org c (Some (sy_organization_id y)) then Inr y else Inl (HTTPException 404 ''system not found'')
       | None \<Rightarrow> Inl (HTTPException 404 ''system not found''))"

definition require_plan :: "'w enforcement_store \<Rightarrow> int \<Rightarrow> caller \<Rightarrow> enforcement_plan res" where
  "require_plan st plan_id c =
     (case first_row (filter (\<lambda>p. rp_id p = plan_id) (es_plans st)) of
        Some p \<Rightarrow> if in_org c (rp_organization_id p) then Inr p else Inl (HTTPException 404 ''remediation plan not found'')
      | None \<Rightarrow> Inl (HTTPException 404 ''remediation plan not found''))"

text \<open>\<open>except EnforcementError as e: raise HTTPException(code, str(e))\<close>.\<close>

definition refused_with :: "nat \<Rightarrow> 'a res \<Rightarrow> 'a res" where
  "refused_with code r = (case r of Inl (EnforcementError msg) \<Rightarrow> Inl (HTTPException code msg) | _ \<Rightarrow> r)"

definition route_create ::
  "'w enforcement_env \<Rightarrow> 'w enforcement_store \<Rightarrow> caller \<Rightarrow> int \<Rightarrow> string \<Rightarrow> string list option \<Rightarrow> string option \<Rightarrow>
     'w enforcement_store res" where
  "route_create E st c system_id check_key resource_ids remarks =
     rbind (require_role ENFORCER_ROLES c) (\<lambda>_.
     rbind (require_system_in_scope (es_systems st) system_id c) (\<lambda>_.
     rbind (refused_with 404 (create_plan E None st system_id check_key (pr_email c)
              (case resource_ids of None \<Rightarrow> None | Some ids \<Rightarrow> if ids = [] then None else Some ids) None)) (\<lambda>(st', p).
       Inr (case remarks of None \<Rightarrow> st'
            | Some t \<Rightarrow> if t = [] then st' else update_plan (rp_id p) (\<lambda>q. q\<lparr>ep_notes := Some t\<rparr>) st'))))"

definition route_on_plan ::
  "('w enforcement_store \<Rightarrow> enforcement_plan \<Rightarrow> string \<Rightarrow> 'w enforcement_store res) \<Rightarrow> 'w enforcement_store \<Rightarrow> caller \<Rightarrow> int \<Rightarrow>
     'w enforcement_store res" where
  "route_on_plan operation st c plan_id =
     rbind (require_role ENFORCER_ROLES c) (\<lambda>_.
     rbind (require_plan st plan_id c) (\<lambda>p. refused_with 409 (operation st p (pr_email c))))"

definition route_approve :: "'w enforcement_env \<Rightarrow> 'w enforcement_store \<Rightarrow> caller \<Rightarrow> int \<Rightarrow> 'w enforcement_store res" where
  "route_approve E = route_on_plan (approve_plan E)"

definition route_apply :: "'w enforcement_env \<Rightarrow> 'w enforcement_store \<Rightarrow> caller \<Rightarrow> int \<Rightarrow> 'w enforcement_store res" where
  "route_apply E = route_on_plan (\<lambda>st p who. apply_plan E None st p who None)"

definition route_reverse :: "'w enforcement_env \<Rightarrow> 'w enforcement_store \<Rightarrow> caller \<Rightarrow> int \<Rightarrow> 'w enforcement_store res" where
  "route_reverse E = route_on_plan (\<lambda>st p who. reverse_plan E None st p who None)"

end
