(* ===== verification/Enforcement_M365.thy ===== *)
theory Enforcement_M365
  imports Enforcement
begin

text \<open>
  The provider that disables a stale Entra account, \<open>enforcement/providers/m365.py\<close>.

  Microsoft Graph and the network are the calls of \<open>graph_api\<close>: the token, which may fail with an
  exception; the account's field as \<open>resp.json().get(...)\<close> gives it, an exception when the read fails; and
  the PATCH, which is accepted, answered with an error status, or breaks while in flight.
\<close>

datatype patch_reply = Accepted | Error_status nat | Broken string

record 'w graph_api =
  ga_token :: "'w \<Rightarrow> dict \<Rightarrow> 'w \<times> (string + json)"
  ga_get :: "'w \<Rightarrow> string \<Rightarrow> string \<Rightarrow> 'w \<times> (string + json)"
  ga_patch :: "'w \<Rightarrow> string \<Rightarrow> string \<Rightarrow> dict \<Rightarrow> 'w \<times> patch_reply"

definition FIELD :: string where [vocab]:
  "FIELD = ''accountEnabled''"

definition STALE_ACCOUNTS_key :: string where [vocab]:
  "STALE_ACCOUNTS_key = ''m365.identity.stale_accounts''"

definition m365_required_permissions :: "string list" where [vocab]:
  "m365_required_permissions = [''User.ReadWrite.All'']"

definition m365_write_configured :: "dict option \<Rightarrow> bool" where
  "m365_write_configured c \<longleftrightarrow>
     (case c of None \<Rightarrow> False
      | Some d \<Rightarrow> list_all (\<lambda>k. case map_of d k of None \<Rightarrow> False | Some v \<Rightarrow> truthy v) [''tenant_id'', ''client_id'', ''client_secret''])"

definition graph_token :: "'w graph_api \<Rightarrow> dict option \<Rightarrow> 'w \<Rightarrow> 'w \<times> (string + string option)" where
  "graph_token G c w =
     (case ga_token G w (case c of None \<Rightarrow> [] | Some d \<Rightarrow> d) of
        (w', Inl e) \<Rightarrow> (w', Inl e)
      | (w', Inr (JStr t)) \<Rightarrow> (w', Inr (Some t))
      | (w', Inr v) \<Rightarrow> (w', Inr None))"

definition read_state :: "'w graph_api \<Rightarrow> string \<Rightarrow> 'w \<Rightarrow> string \<Rightarrow> 'w \<times> bool option" where
  "read_state G token w i =
     (case ga_get G w token i of
        (w', Inr (JBool b)) \<Rightarrow> (w', Some b)
      | (w', _) \<Rightarrow> (w', None))"

definition disable_step :: "resource_finding \<Rightarrow> bool \<Rightarrow> remediation_step" where
  "disable_step f current =
     \<lparr>sp_resource_id = rf_resource_id f, sp_resource_type = ''entra_user'', sp_action = ''disable_account'',
      sp_description = fstr [''Disable '', rf_resource_id f, '' ('', rf_observed f, '')''],
      sp_current_state = [(FIELD, JBool current)], sp_target_state = [(FIELD, JBool False)]\<rparr>"

fun plan_findings :: "'w graph_api \<Rightarrow> string \<Rightarrow> 'w \<Rightarrow> resource_finding list \<Rightarrow> 'w \<times> remediation_step list" where
  "plan_findings G token w [] = (w, [])"
| "plan_findings G token w (f # fs) =
     (case read_state G token w (rf_resource_id f) of
        (w1, current) \<Rightarrow>
          (case plan_findings G token w1 fs of
             (w2, steps) \<Rightarrow> (w2, (case current of None \<Rightarrow> steps | Some b \<Rightarrow> disable_step f b # steps))))"

definition m365_plan ::
  "'w graph_api \<Rightarrow> dict option \<Rightarrow> 'w \<Rightarrow> resource_finding list \<Rightarrow> 'w \<times> remediation_step list res" where
  "m365_plan G c w findings =
     (if findings = [] \<or> \<not> m365_write_configured c then (w, Inr [])
      else case graph_token G c w of
        (w1, Inl e) \<Rightarrow> (w1, Inl (ProviderUnavailableError (take 300 e)))
      | (w1, Inr None) \<Rightarrow> (w1, Inl (ProviderUnavailableError ''Graph did not return an access token''))
      | (w1, Inr (Some token)) \<Rightarrow>
          if token = [] then (w1, Inl (ProviderUnavailableError ''Graph did not return an access token''))
          else (case plan_findings G token w1 findings of (w2, steps) \<Rightarrow> (w2, Inr steps)))"

definition outcome :: "remediation_step \<Rightarrow> string \<Rightarrow> string \<Rightarrow> step_outcome" where
  "outcome s status detail = \<lparr>so_resource_id = sp_resource_id s, so_status = status, so_detail = detail, so_at = None\<rparr>"

definition patch_outcome :: "remediation_step \<Rightarrow> string \<Rightarrow> patch_reply \<Rightarrow> step_outcome" where
  "patch_outcome s verb reply =
     (case reply of
        Accepted \<Rightarrow> outcome s ''applied'' (fstr [FIELD, '' '', verb])
      | Error_status code \<Rightarrow> outcome s ''failed'' (fstr [str_of_nat code, '' from Graph; requires '', join_with '', '' m365_required_permissions])
      | Broken e \<Rightarrow> outcome s ''uncertain'' (take 300 e))"

definition m365_patch ::
  "'w graph_api \<Rightarrow> dict option \<Rightarrow> 'w \<Rightarrow> remediation_step \<Rightarrow> dict \<Rightarrow> string \<Rightarrow> 'w \<times> step_outcome" where
  "m365_patch G c w s body verb =
     (if \<not> m365_write_configured c then (w, outcome s ''skipped'' ''no write credential configured'')
      else case graph_token G c w of
        (w1, Inl e) \<Rightarrow> (w1, outcome s ''failed'' (fstr [''could not obtain a Graph token: '', take 250 e]))
      | (w1, Inr None) \<Rightarrow> (w1, outcome s ''failed'' ''could not obtain a Graph token'')
      | (w1, Inr (Some token)) \<Rightarrow>
          if token = [] then (w1, outcome s ''failed'' ''could not obtain a Graph token'')
          else (case ga_patch G w1 token (sp_resource_id s) body of (w2, reply) \<Rightarrow> (w2, patch_outcome s verb reply)))"

definition m365_apply :: "'w graph_api \<Rightarrow> dict option \<Rightarrow> 'w \<Rightarrow> remediation_step \<Rightarrow> 'w \<times> step_outcome res" where
  "m365_apply G c w s = (case m365_patch G c w s [(FIELD, JBool False)] ''disabled'' of (w', x) \<Rightarrow> (w', Inr x))"

definition m365_reverse :: "'w graph_api \<Rightarrow> dict option \<Rightarrow> 'w \<Rightarrow> remediation_step \<Rightarrow> 'w \<times> step_outcome res" where
  "m365_reverse G c w s =
     (case m365_patch G c w s [(FIELD, JBool (truthy (get_default (sp_current_state s) FIELD (JBool True))))] ''restored'' of
        (w', x) \<Rightarrow> (w', Inr x))"

definition m365_provider :: "'w graph_api \<Rightarrow> dict option \<Rightarrow> 'w provider" where
  "m365_provider G c =
     \<lparr>pv_key = ''m365_account'', pv_write_credential_type = ''msgraph_write'', pv_required_permissions = m365_required_permissions,
      pv_write_configured = m365_write_configured c, pv_plan = m365_plan G c, pv_apply = m365_apply G c, pv_reverse = m365_reverse G c\<rparr>"

definition m365_class :: "'w graph_api \<Rightarrow> 'w provider_class" where
  "m365_class G = \<lparr>pc_key = ''m365_account'', pc_write_credential_type = ''msgraph_write'',
     pc_handled_checks = [STALE_ACCOUNTS_key], pc_bind = m365_provider G\<rparr>"

section \<open>What Graph is taken to do\<close>

text \<open>\<open>enabled\<close> is the tenant's directory. Tokens and reads leave it alone and a read tells the truth; a PATCH
  concerns one account, takes effect when it is accepted and not when it is answered with an error, and may
  have taken effect when it breaks.\<close>

definition graph_honest :: "'w graph_api \<Rightarrow> ('w \<Rightarrow> string \<Rightarrow> bool option) \<Rightarrow> bool" where
  "graph_honest G enabled \<longleftrightarrow>
     (\<forall>w c. enabled (fst (ga_token G w c)) = enabled w) \<and>
     (\<forall>w t i. enabled (fst (ga_get G w t i)) = enabled w \<and> (\<forall>b. snd (ga_get G w t i) = Inr (JBool b) \<longrightarrow> enabled w i = Some b)) \<and>
     (\<forall>w t i b. (\<forall>j. j \<noteq> i \<longrightarrow> enabled (fst (ga_patch G w t i [(FIELD, JBool b)])) j = enabled w j) \<and>
        (case snd (ga_patch G w t i [(FIELD, JBool b)]) of
           Accepted \<Rightarrow> enabled (fst (ga_patch G w t i [(FIELD, JBool b)])) i = Some b
         | Error_status code \<Rightarrow> enabled (fst (ga_patch G w t i [(FIELD, JBool b)])) i = enabled w i
         | Broken e \<Rightarrow> True))"

text \<open>The state of an account as a step records it.\<close>

definition account_state :: "('w \<Rightarrow> string \<Rightarrow> bool option) \<Rightarrow> 'w \<Rightarrow> string \<Rightarrow> dict option" where
  "account_state enabled w i = map_option (\<lambda>b. [(FIELD, JBool b)]) (enabled w i)"

lemma honest_token: "graph_honest G enabled \<Longrightarrow> graph_token G c w = (w', r) \<Longrightarrow> enabled w' = enabled w"
proof -
  assume h: "graph_honest G enabled" and t: "graph_token G c w = (w', r)"
  obtain w1 x where x: "ga_token G w (case c of None \<Rightarrow> [] | Some d \<Rightarrow> d) = (w1, x)" by fastforce
  have "enabled (fst (ga_token G w (case c of None \<Rightarrow> [] | Some d \<Rightarrow> d))) = enabled w" using h unfolding graph_honest_def by blast
  then have "enabled w1 = enabled w" using x by simp
  moreover have "w' = w1" using t x by (simp add: graph_token_def split: sum.splits json.splits)
  ultimately show ?thesis by simp
qed

lemma honest_read:
  assumes h: "graph_honest G enabled" and r: "read_state G t w i = (w', x)"
  shows "enabled w' = enabled w" "x = Some b \<Longrightarrow> enabled w i = Some b"
proof -
  obtain w1 y where y: "ga_get G w t i = (w1, y)" by fastforce
  have e: "enabled (fst (ga_get G w t i)) = enabled w" "\<forall>b. snd (ga_get G w t i) = Inr (JBool b) \<longrightarrow> enabled w i = Some b"
    using h unfolding graph_honest_def by blast+
  have "w' = w1" "x = Some b \<Longrightarrow> y = Inr (JBool b)" using r y by (simp_all add: read_state_def split: sum.splits json.splits)
  then show "enabled w' = enabled w" "x = Some b \<Longrightarrow> enabled w i = Some b" using e y by simp_all
qed

lemma honest_plan_findings:
  "graph_honest G enabled \<Longrightarrow> plan_findings G t w fs = (w', steps) \<Longrightarrow>
     enabled w' = enabled w \<and>
     (\<forall>s \<in> set steps. sp_resource_id s \<in> rf_resource_id ` set fs \<and> (\<exists>f b. s = disable_step f b \<and> enabled w (rf_resource_id f) = Some b))"
proof (induction fs arbitrary: w w' steps)
  case (Cons f fs)
  obtain w1 x where r: "read_state G t w (rf_resource_id f) = (w1, x)" by fastforce
  obtain w2 ss where p: "plan_findings G t w1 fs = (w2, ss)" by fastforce
  note R = honest_read [OF Cons.prems(1) r]
  note IH = Cons.IH [OF Cons.prems(1) p]
  have "w' = w2" "steps = (case x of None \<Rightarrow> ss | Some b \<Rightarrow> disable_step f b # ss)" using Cons.prems(2) r p by auto
  then show ?case using IH R by (cases x) (auto simp: disable_step_def)
qed simp

lemma honest_patch:
  assumes h: "graph_honest G enabled" and p: "m365_patch G c w s [(FIELD, JBool b)] verb = (w', x)"
  shows "\<And>j. j \<noteq> sp_resource_id s \<Longrightarrow> enabled w' j = enabled w j" "so_resource_id x = sp_resource_id s"
    "so_status x \<in> set OUTCOME_STATUSES"
    "so_status x = ''applied'' \<Longrightarrow> enabled w' (sp_resource_id s) = Some b"
    "so_status x \<noteq> ''applied'' \<Longrightarrow> so_status x \<noteq> ''uncertain'' \<Longrightarrow> enabled w' = enabled w"
proof -
  let ?ok = "(\<forall>j. j \<noteq> sp_resource_id s \<longrightarrow> enabled w' j = enabled w j) \<and> so_resource_id x = sp_resource_id s \<and>
    so_status x \<in> set OUTCOME_STATUSES \<and> (so_status x = ''applied'' \<longrightarrow> enabled w' (sp_resource_id s) = Some b) \<and>
    (so_status x \<noteq> ''applied'' \<longrightarrow> so_status x \<noteq> ''uncertain'' \<longrightarrow> enabled w' = enabled w)"
  have *: ?ok
  proof (cases "m365_write_configured c")
    case True
    obtain w1 r where t: "graph_token G c w = (w1, r)" by fastforce
    have e: "enabled w1 = enabled w" by (rule honest_token [OF h t])
    show ?thesis
    proof (cases "\<exists>token. r = Inr (Some token) \<and> token \<noteq> []")
      case tok: True
      then obtain token where r: "r = Inr (Some token)" "token \<noteq> []" by blast
      obtain w2 reply where g: "ga_patch G w1 token (sp_resource_id s) [(FIELD, JBool b)] = (w2, reply)" by fastforce
      have P: "(\<forall>j. j \<noteq> sp_resource_id s \<longrightarrow> enabled (fst (ga_patch G w1 token (sp_resource_id s) [(FIELD, JBool b)])) j = enabled w1 j) \<and>
        (case snd (ga_patch G w1 token (sp_resource_id s) [(FIELD, JBool b)]) of
           Accepted \<Rightarrow> enabled (fst (ga_patch G w1 token (sp_resource_id s) [(FIELD, JBool b)])) (sp_resource_id s) = Some b
         | Error_status code \<Rightarrow> enabled (fst (ga_patch G w1 token (sp_resource_id s) [(FIELD, JBool b)])) (sp_resource_id s) = enabled w1 (sp_resource_id s)
         | Broken e \<Rightarrow> True)"
        using h unfolding graph_honest_def by blast
      have res: "w' = w2" "x = patch_outcome s verb reply" using p True t r g by (simp_all add: m365_patch_def)
      have frame: "enabled w2 j = enabled w j" if "j \<noteq> sp_resource_id s" for j using P that g e by simp
      show ?thesis
      proof (cases reply)
        case (Error_status code)
        then have "enabled w2 (sp_resource_id s) = enabled w (sp_resource_id s)" using P g e by simp
        then have "enabled w2 = enabled w" using frame by (metis ext)
        then show ?thesis unfolding res Error_status by (simp add: patch_outcome_def outcome_def OUTCOME_STATUSES_def)
      qed (use P g frame in \<open>simp_all add: res patch_outcome_def outcome_def OUTCOME_STATUSES_def\<close>)
    next
      case False
      then have "w' = w1" "so_resource_id x = sp_resource_id s" "so_status x = ''failed''"
        using p True t by (auto simp: m365_patch_def outcome_def split: sum.splits option.splits if_splits)
      then show ?thesis using e by (simp add: OUTCOME_STATUSES_def)
    qed
  next
    case False
    then have "w' = w" "x = outcome s ''skipped'' ''no write credential configured''" using p by (simp_all add: m365_patch_def)
    then show ?thesis by (simp add: outcome_def OUTCOME_STATUSES_def)
  qed
  then show "\<And>j. j \<noteq> sp_resource_id s \<Longrightarrow> enabled w' j = enabled w j" "so_resource_id x = sp_resource_id s"
    "so_status x \<in> set OUTCOME_STATUSES"
    "so_status x = ''applied'' \<Longrightarrow> enabled w' (sp_resource_id s) = Some b"
    "so_status x \<noteq> ''applied'' \<Longrightarrow> so_status x \<noteq> ''uncertain'' \<Longrightarrow> enabled w' = enabled w" by blast+
qed

end
