(* ===== verification/Enforcement_Laws.thy ===== *)
theory Enforcement_Laws
  imports Enforcement_M365
begin

text \<open>
  What holds of enforcement: a plan is bounded, reversible and approved by a second person before anything
  is written; applying it touches its own resources only and reversing it restores the tenant; and how a
  change can be left standing all the same.
\<close>

section \<open>Dictionaries\<close>

lemma step_roundtrip [simp]: "step_from_dict (step_to_dict s) = Inr s"
proof -
  have "dict_value (step_to_dict s) ''current_state'' = Inr (sp_current_state s)" "dict_value (step_to_dict s) ''target_state'' = Inr (sp_target_state s)"
    by (simp_all add: dict_value_def step_to_dict_def truthy_def)
  then show ?thesis by (simp add: step_from_dict_def str_item_def step_to_dict_def py_str_def)
qed

lemma rmap_steps [simp]: "rmap step_from_dict (map step_to_dict ss) = Inr ss"
  by (induction ss) simp_all

lemma step_id [simp]: "map_of (step_to_dict s) ''resource_id'' = Some (JStr (sp_resource_id s))"
  by (simp add: step_to_dict_def)

lemma outcome_items [simp]:
  "map_of (outcome_to_dict x) ''resource_id'' = Some (JStr (so_resource_id x))"
  "map_of (outcome_to_dict x) ''status'' = Some (JStr (so_status x))"
  by (simp_all add: outcome_to_dict_def)

definition landed :: "step_outcome \<Rightarrow> bool" where
  "landed x \<longleftrightarrow> so_status x = ''applied'' \<or> so_status x = ''uncertain''"

lemma reversible_ids_outcomes: "set (reversible_ids (map outcome_to_dict xs)) = (\<lambda>x. Some (JStr (so_resource_id x))) ` {x \<in> set xs. landed x}"
  by (induction xs) (auto simp: reversible_ids_def landed_def)

lemma steps_to_reverse_steps:
  assumes "ep_steps p = map step_to_dict ss" "ep_outcomes p = map outcome_to_dict xs"
  shows "steps_to_reverse p = map step_to_dict (filter (\<lambda>s. \<exists>x \<in> set xs. landed x \<and> so_resource_id x = sp_resource_id s) ss)"
proof -
  have e: "(Some (JStr (sp_resource_id s)) \<in> set (reversible_ids (map outcome_to_dict xs))) \<longleftrightarrow>
      (\<exists>x \<in> set xs. landed x \<and> so_resource_id x = sp_resource_id s)" for s
    unfolding reversible_ids_outcomes by force
  show ?thesis unfolding steps_to_reverse_def assms filter_map o_def step_id e ..
qed

section \<open>Running steps\<close>

lemma run_steps_cons:
  assumes "run_steps act now w (s # ss) = (w', xs)"
  obtains w1 r ys where "act w s = (w1, r)" "run_steps act now w1 ss = (w', ys)"
    "xs = (caught s r)\<lparr>so_at := Some (isoformat now)\<rparr> # ys"
  using assms by (auto split: prod.splits)

lemma run_steps_length: "run_steps act now w ss = (w', xs) \<Longrightarrow> length xs = length ss"
  by (induction act now w ss arbitrary: w' xs rule: run_steps.induct) (auto split: prod.splits)

lemma caught_simps [simp]:
  "caught s (Inr x) = x" "landed (x\<lparr>so_at := t\<rparr>) = landed x"
  by (simp_all add: caught_def landed_def)

text \<open>The contract of a provider whose changes can be undone. \<open>look\<close> is a resource's state as a step records
  it, \<open>captured\<close> the steps the provider plans; the laws hold where the environment is \<open>honest\<close>.\<close>

locale reversible_provider =
  fixes honest :: bool and P :: "'w provider" and look :: "'w \<Rightarrow> string \<Rightarrow> dict option" and captured :: "remediation_step \<Rightarrow> bool"
  assumes plan_reads: "honest \<Longrightarrow> look (fst (pv_plan P w fs)) = look w"
    and plan_captures: "honest \<Longrightarrow> snd (pv_plan P w fs) = Inr ss \<Longrightarrow> s \<in> set ss \<Longrightarrow>
      captured s \<and> sp_resource_id s \<in> rf_resource_id ` set fs \<and> look w (sp_resource_id s) = Some (sp_current_state s)"
    and apply_frame: "honest \<Longrightarrow> j \<noteq> sp_resource_id s \<Longrightarrow> look (fst (pv_apply P w s)) j = look w j"
    and apply_says: "honest \<Longrightarrow> \<exists>x. snd (pv_apply P w s) = Inr x \<and> so_resource_id x = sp_resource_id s \<and>
      (landed x \<or> look (fst (pv_apply P w s)) = look w)"
    and reverse_frame: "honest \<Longrightarrow> j \<noteq> sp_resource_id s \<Longrightarrow> look (fst (pv_reverse P w s)) j = look w j"
    and reverse_says: "honest \<Longrightarrow> captured s \<Longrightarrow> \<exists>x. snd (pv_reverse P w s) = Inr x \<and>
      (so_status x = ''applied'' \<longrightarrow> look (fst (pv_reverse P w s)) (sp_resource_id s) = Some (sp_current_state s))"
begin

lemma run_apply:
  "honest \<Longrightarrow> run_steps (pv_apply P) now w ss = (w', xs) \<Longrightarrow> look w' j \<noteq> look w j \<Longrightarrow>
     j \<in> sp_resource_id ` set ss \<and> (\<exists>x \<in> set xs. landed x \<and> so_resource_id x = j)"
proof (induction ss arbitrary: w xs)
  case (Cons s ss)
  obtain z where z: "snd (pv_apply P w s) = Inr z" "so_resource_id z = sp_resource_id s"
    "landed z \<or> look (fst (pv_apply P w s)) = look w"
    using apply_says [OF Cons.prems(1), of w s] by blast
  from Cons.prems(2) obtain w1 r ys where c: "pv_apply P w s = (w1, r)" "run_steps (pv_apply P) now w1 ss = (w', ys)"
    "xs = (caught s r)\<lparr>so_at := Some (isoformat now)\<rparr> # ys"
    by (rule run_steps_cons)
  have x: "caught s r = z" using c(1) z(1) by simp
  show ?case
  proof (cases "look w' j = look w1 j")
    case True
    then have "look w1 j \<noteq> look w j" using Cons.prems(3) by simp
    then have "j = sp_resource_id s" "landed z"
      using apply_frame [OF Cons.prems(1), of j s w] z(3) c(1) by auto
    then show ?thesis using x c(3) z(2) by simp
  next
    case False
    then show ?thesis using Cons.IH [OF Cons.prems(1) c(2)] c(3) by auto
  qed
qed simp

lemma run_reverse:
  "honest \<Longrightarrow> run_steps (pv_reverse P) now w ss = (w', xs) \<Longrightarrow> list_all captured ss \<Longrightarrow>
     list_all (\<lambda>s. goal (sp_resource_id s) = Some (sp_current_state s)) ss \<Longrightarrow> list_all (\<lambda>x. so_status x = ''applied'') xs \<Longrightarrow>
     look w' j = (if j \<in> sp_resource_id ` set ss then goal j else look w j)"
proof (induction ss arbitrary: w xs)
  case (Cons s ss)
  have cap: "captured s" using Cons.prems(3) by simp
  obtain z where z: "snd (pv_reverse P w s) = Inr z"
    "so_status z = ''applied'' \<longrightarrow> look (fst (pv_reverse P w s)) (sp_resource_id s) = Some (sp_current_state s)"
    using reverse_says [OF Cons.prems(1) cap, of w] by blast
  from Cons.prems(2) obtain w1 r ys where c: "pv_reverse P w s = (w1, r)" "run_steps (pv_reverse P) now w1 ss = (w', ys)"
    "xs = (caught s r)\<lparr>so_at := Some (isoformat now)\<rparr> # ys"
    by (rule run_steps_cons)
  have "caught s r = z" using c(1) z(1) by simp
  then have "so_status z = ''applied''" using c(3) Cons.prems(5) by simp
  then have own: "look w1 (sp_resource_id s) = goal (sp_resource_id s)" using z(2) c(1) Cons.prems(4) by simp
  have frame: "look w1 j = look w j" if "j \<noteq> sp_resource_id s" using reverse_frame [OF Cons.prems(1) that, of w] c(1) by simp
  have "look w' j = (if j \<in> sp_resource_id ` set ss then goal j else look w1 j)"
    using Cons.IH [OF Cons.prems(1) c(2)] Cons.prems(3-5) c(3) by simp
  then show ?case using own frame by auto
qed simp

lemma run_reverse_frame:
  "honest \<Longrightarrow> run_steps (pv_reverse P) now w ss = (w', xs) \<Longrightarrow> j \<notin> sp_resource_id ` set ss \<Longrightarrow> look w' j = look w j"
proof (induction ss arbitrary: w xs)
  case (Cons s ss)
  from Cons.prems(2) obtain w1 r ys where c: "pv_reverse P w s = (w1, r)" "run_steps (pv_reverse P) now w1 ss = (w', ys)"
    by (rule run_steps_cons)
  then show ?case using Cons.IH [OF Cons.prems(1) c(2)] Cons.prems(3) reverse_frame [OF Cons.prems(1), of j s w] by simp
qed simp

text \<open>Reversing the steps that may have landed leaves the state they captured.\<close>

lemma reversal_restores:
  assumes h: honest and cap: "list_all (\<lambda>s. captured s \<and> look w0 (sp_resource_id s) = Some (sp_current_state s)) ss"
    and app: "\<And>j. look w2 j \<noteq> look w0 j \<Longrightarrow> j \<in> sp_resource_id ` set ss \<and> (\<exists>x \<in> set xs. landed x \<and> so_resource_id x = j)"
    and rev: "run_steps (pv_reverse P) now w3 (filter (\<lambda>s. \<exists>x \<in> set xs. landed x \<and> so_resource_id x = sp_resource_id s) ss) = (w4, ys)"
      "look w3 = look w2" "list_all (\<lambda>y. so_status y = ''applied'') ys"
  shows "look w4 = look w0"
proof (rule ext)
  fix j
  let ?ss = "filter (\<lambda>s. \<exists>x \<in> set xs. landed x \<and> so_resource_id x = sp_resource_id s) ss"
  have "list_all captured ?ss" "list_all (\<lambda>s. look w0 (sp_resource_id s) = Some (sp_current_state s)) ?ss"
    using cap by (simp_all add: list_all_iff)
  note R = run_reverse [OF h rev(1) this rev(3), of j]
  show "look w4 j = look w0 j"
  proof (cases "j \<in> sp_resource_id ` set ?ss")
    case False
    then have "look w2 j = look w0 j" using app [of j] by auto
    then show ?thesis using R False rev(2) by simp
  qed (use R in simp)
qed

end

text \<open>The Graph provider keeps the contract.\<close>

definition account_step :: "remediation_step \<Rightarrow> bool" where
  "account_step s \<longleftrightarrow> (\<exists>f b. s = disable_step f b)"

lemma m365_apply_split: "pv_apply (m365_provider G c) w s =
    (fst (m365_patch G c w s [(FIELD, JBool False)] ''disabled''), Inr (snd (m365_patch G c w s [(FIELD, JBool False)] ''disabled'')))"
  by (simp add: m365_provider_def m365_apply_def split: prod.split)

lemma m365_reverse_split: "\<exists>b. (account_step s \<longrightarrow> sp_current_state s = [(FIELD, JBool b)]) \<and> pv_reverse (m365_provider G c) w s =
    (fst (m365_patch G c w s [(FIELD, JBool b)] ''restored''), Inr (snd (m365_patch G c w s [(FIELD, JBool b)] ''restored'')))"
proof -
  let ?b = "truthy (get_default (sp_current_state s) FIELD (JBool True))"
  have "account_step s \<longrightarrow> sp_current_state s = [(FIELD, JBool ?b)]"
    by (auto simp: account_step_def disable_step_def get_default_def truthy_def)
  moreover have "pv_reverse (m365_provider G c) w s =
    (fst (m365_patch G c w s [(FIELD, JBool ?b)] ''restored''), Inr (snd (m365_patch G c w s [(FIELD, JBool ?b)] ''restored'')))"
    by (simp add: m365_provider_def m365_reverse_def split: prod.split)
  ultimately show ?thesis by (intro exI [of _ ?b] conjI)
qed

lemma m365_plan_captures:
  assumes h: "graph_honest G enabled" and p: "m365_plan G c w fs = (w', r)"
  shows "enabled w' = enabled w"
    "r = Inr ss \<Longrightarrow> s \<in> set ss \<Longrightarrow>
       sp_resource_id s \<in> rf_resource_id ` set fs \<and> (\<exists>f b. s = disable_step f b \<and> enabled w (rf_resource_id f) = Some b)"
proof -
  have "enabled w' = enabled w \<and> (\<forall>ss. r = Inr ss \<longrightarrow> (\<forall>s \<in> set ss.
      sp_resource_id s \<in> rf_resource_id ` set fs \<and> (\<exists>f b. s = disable_step f b \<and> enabled w (rf_resource_id f) = Some b)))"
  proof (cases "fs = [] \<or> \<not> m365_write_configured c")
    case True
    then show ?thesis using p by (auto simp: m365_plan_def)
  next
    case False
    obtain w1 t where t: "graph_token G c w = (w1, t)" by fastforce
    have e: "enabled w1 = enabled w" by (rule honest_token [OF h t])
    show ?thesis
    proof (cases "\<exists>token. t = Inr (Some token) \<and> token \<noteq> []")
      case True
      then obtain token where tok: "t = Inr (Some token)" "token \<noteq> []" by blast
      obtain w2 ss where f: "plan_findings G token w1 fs = (w2, ss)" by fastforce
      have "w' = w2" "r = Inr ss" using p False t tok f by (simp_all add: m365_plan_def)
      then show ?thesis using honest_plan_findings [OF h f] e by simp
    next
      case no: False
      then have "w' = w1 \<and> (\<exists>x. r = Inl x)" using p False t by (auto simp: m365_plan_def split: sum.splits option.splits if_splits)
      then show ?thesis using e by auto
    qed
  qed
  then show "enabled w' = enabled w" "r = Inr ss \<Longrightarrow> s \<in> set ss \<Longrightarrow>
       sp_resource_id s \<in> rf_resource_id ` set fs \<and> (\<exists>f b. s = disable_step f b \<and> enabled w (rf_resource_id f) = Some b)" by blast+
qed

interpretation m365: reversible_provider "graph_honest G enabled" "m365_provider G c" "account_state enabled" account_step
  for G :: "'w graph_api" and enabled and c
proof (unfold_locales, goal_cases)
  case (1 w fs)
  have "m365_plan G c w fs = (fst (m365_plan G c w fs), snd (m365_plan G c w fs))" by simp
  from m365_plan_captures(1) [OF 1 this] show ?case by (simp add: m365_provider_def account_state_def [abs_def])
next
  case (2 w fs ss s)
  then have p: "m365_plan G c w fs = (fst (m365_plan G c w fs), Inr ss)"
    by (cases "m365_plan G c w fs") (simp add: m365_provider_def)
  from m365_plan_captures(2) [OF 2(1) p refl 2(3)] obtain f b where
    "sp_resource_id s \<in> rf_resource_id ` set fs" "s = disable_step f b" "enabled w (rf_resource_id f) = Some b" by blast
  then show ?case by (auto simp: account_step_def account_state_def) (simp_all add: disable_step_def)
next
  case (3 j s w)
  show ?case using honest_patch(1) [OF 3(1) _ 3(2)] unfolding m365_apply_split account_state_def by (metis fst_conv prod.collapse)
next
  case (4 w s)
  let ?r = "m365_patch G c w s [(FIELD, JBool False)] ''disabled''"
  have p: "m365_patch G c w s [(FIELD, JBool False)] ''disabled'' = (fst ?r, snd ?r)" by simp
  show ?case using honest_patch(2,5) [OF 4 p]
    unfolding m365_apply_split landed_def account_state_def by (metis fst_conv snd_conv)
next
  case (5 j s w)
  obtain b where b: "pv_reverse (m365_provider G c) w s =
    (fst (m365_patch G c w s [(FIELD, JBool b)] ''restored''), Inr (snd (m365_patch G c w s [(FIELD, JBool b)] ''restored'')))"
    using m365_reverse_split [of s G c w] by blast
  show ?case using honest_patch(1) [OF 5(1) _ 5(2)] unfolding b account_state_def by (metis fst_conv prod.collapse)
next
  case (6 s w)
  obtain b where b: "sp_current_state s = [(FIELD, JBool b)]" "pv_reverse (m365_provider G c) w s =
    (fst (m365_patch G c w s [(FIELD, JBool b)] ''restored''), Inr (snd (m365_patch G c w s [(FIELD, JBool b)] ''restored'')))"
    using m365_reverse_split [of s G c w] 6(2) by blast
  let ?r = "m365_patch G c w s [(FIELD, JBool b)] ''restored''"
  have p: "m365_patch G c w s [(FIELD, JBool b)] ''restored'' = (fst ?r, snd ?r)" by simp
  show ?case using honest_patch(4) [OF 6(1) p] unfolding b account_state_def by simp
qed

section \<open>Building steps\<close>

lemma build_steps_Inr:
  assumes "build_steps fs P w limit only = Inr (w', Inr ss)"
  shows "ss \<noteq> []" "int (length ss) \<le> limit" "int (length (remediable_findings fs only)) \<le> limit"
    "list_all (\<lambda>s. sp_current_state s \<noteq> []) ss"
    "\<exists>ps. pv_plan P w (remediable_findings fs only) = (w', Inr ps) \<and> set ss \<subseteq> set ps"
proof -
  have l: "int (length (remediable_findings fs only)) \<le> limit"
    using assms by (cases "limit < int (length (remediable_findings fs only))") (simp_all add: build_steps_def Let_def)
  obtain w1 r where p: "pv_plan P w (remediable_findings fs only) = (w1, r)" by fastforce
  show "int (length (remediable_findings fs only)) \<le> limit" by (rule l)
  have "\<exists>ps. r = Inr ps \<and> w1 = w' \<and> ss = filter (\<lambda>s. sp_current_state s \<noteq> []) ps \<and> ss \<noteq> [] \<and> int (length ss) \<le> limit"
    using assms l p by (cases r) (auto simp: build_steps_def Let_def split: py_error.splits if_splits)
  then obtain ps where "r = Inr ps" "w1 = w'" "ss = filter (\<lambda>s. sp_current_state s \<noteq> []) ps" "ss \<noteq> []" "int (length ss) \<le> limit"
    by blast
  then show "ss \<noteq> []" "int (length ss) \<le> limit" "list_all (\<lambda>s. sp_current_state s \<noteq> []) ss"
    "\<exists>ps. pv_plan P w (remediable_findings fs only) = (w', Inr ps) \<and> set ss \<subseteq> set ps"
    using p by (auto simp: list_all_iff)
qed

section \<open>Plans\<close>

lemma audit_plan_simps [simp]:
  "es_plans (audit_plan E actor action p diff st) = es_plans st" "es_world (audit_plan E actor action p diff st) = es_world st"
  "es_db (audit_plan E actor action p diff st) = es_db st" "es_next (audit_plan E actor action p diff st) = es_next st"
  by (simp_all add: audit_plan_def)

lemma update_plan_simps [simp]:
  "es_plans (update_plan i f st) = update_rows (\<lambda>p. rp_id p = i) f (es_plans st)" "es_world (update_plan i f st) = es_world st"
  "es_next (update_plan i f st) = es_next st"
  by (simp_all add: update_plan_def)

lemma create_plan_cases:
  assumes "create_plan E given st sid ck actor only m = Inr (st', p)"
  obtains (refused) w reason and y :: system and P q where "refuse_plan E actor q reason (st\<lparr>es_world := w\<rparr>) = (st', p)"
      "rp_id q = es_next st" "choose_provider E given ck (Some (sy_organization_id y)) = Inr P"
      "w = es_world st \<or> (\<exists>fs x. build_steps fs P (es_world st) (resource_limit E m) only = Inr (w, Inl x))"
  | (planned) w diff and y :: system and P fs ss rid where "st' = audit_plan E actor ''create'' p diff (store_plan p (st\<lparr>es_world := w\<rparr>))"
      "p = planned ss ((draft_plan (es_next st) y ck (pv_key P) actor)\<lparr>ep_result_id := Some rid\<rparr>)"
      "choose_provider E given ck (Some (sy_organization_id y)) = Inr P" "latest_findings (es_db st) sid ck = (Some rid, fs)"
      "build_steps fs P (es_world st) (resource_limit E m) only = Inr (w, Inr ss)" "pv_write_configured P"
proof -
  obtain y where y: "first_row (filter (\<lambda>y. sy_id y = sid \<and> sy_deleted_at y = None) (es_systems st)) = Some y"
    using assms by (cases "first_row (filter (\<lambda>y. sy_id y = sid \<and> sy_deleted_at y = None) (es_systems st))") (simp_all add: create_plan_def)
  obtain P where P: "choose_provider E given ck (Some (sy_organization_id y)) = Inr P"
    using assms y by (cases "choose_provider E given ck (Some (sy_organization_id y))") (simp_all add: create_plan_def)
  let ?p = "draft_plan (es_next st) y ck (pv_key P) actor"
  have same: "st\<lparr>es_world := es_world st\<rparr> = st" by simp
  show thesis
  proof (cases "pv_write_configured P")
    case False
    then show thesis using assms y P by (intro refused [OF _ _ P, where q = ?p and w = "es_world st"]) (simp_all add: create_plan_def Let_def draft_plan_def)
  next
    case True
    obtain rid fs where f: "latest_findings (es_db st) sid ck = (rid, fs)" by fastforce
    show thesis
    proof (cases rid)
      case None
      then show thesis using assms y P True f
        by (intro refused [OF _ _ P, where q = ?p and w = "es_world st"]) (simp_all add: create_plan_def Let_def draft_plan_def)
    next
      case (Some r)
      obtain x where b: "build_steps fs P (es_world st) (resource_limit E m) only = Inr x"
        using assms y P True f Some by (cases "build_steps fs P (es_world st) (resource_limit E m) only") (simp_all add: create_plan_def Let_def)
      obtain w built where x: "x = (w, built)" by fastforce
      show thesis
      proof (cases built)
        case (Inl reason)
        have "refuse_plan E actor (?p\<lparr>ep_result_id := Some r\<rparr>) reason (st\<lparr>es_world := w\<rparr>) = (st', p)"
          using assms y P True f Some b x Inl by (simp add: create_plan_def Let_def)
        then show thesis by (rule refused [OF _ _ P]) (use b x Inl in \<open>auto simp: draft_plan_def\<close>)
      next
        case (Inr ss)
        let ?q = "planned ss (?p\<lparr>ep_result_id := Some r\<rparr>)"
        have "create_plan E given st sid ck actor only m = Inr (audit_plan E actor ''create'' ?q
            [(''event'', JStr ''planned''), (''check_key'', JStr ck), (''provider'', JStr (pv_key P)),
             (''resources'', JList (map (\<lambda>s. JStr (sp_resource_id s)) ss))] (store_plan ?q (st\<lparr>es_world := w\<rparr>)), ?q)"
          using y P True f Some b x Inr by (simp add: create_plan_def Let_def)
        then have p: "p = ?q" and "st' = audit_plan E actor ''create'' p
            [(''event'', JStr ''planned''), (''check_key'', JStr ck), (''provider'', JStr (pv_key P)),
             (''resources'', JList (map (\<lambda>s. JStr (sp_resource_id s)) ss))] (store_plan p (st\<lparr>es_world := w\<rparr>))"
          unfolding assms sum.inject prod.inject by blast+
        then show thesis using f Some b x Inr True by (intro planned [OF _ _ P]) simp_all
      qed
    qed
  qed
qed

lemma choose_registered:
  "choose_provider E None ck org = Inr P \<longleftrightarrow>
     (\<exists>c. provider_for (ee_registry E) ck = Some c \<and> P = pc_bind c (ee_credential E org (pc_write_credential_type c)))"
  by (auto simp: choose_provider_def bind_provider_def split: option.splits)

lemma apply_plan_cases:
  assumes "apply_plan E given st p who m = Inr st'"
  obtains P ss w xs where "apply_checks E given p m = Inr P" "rmap step_from_dict (ep_steps p) = Inr ss"
    "run_steps (pv_apply P) (ee_now E) (es_world st) ss = (w, xs)" "es_world st' = w"
    "es_plans st' = update_rows (\<lambda>q. rp_id q = rp_id p) (mark_plan_applied (ee_now E) xs) (es_plans st)" "es_next st' = es_next st"
    "list_ex (\<lambda>q. rp_id q = rp_id p) (es_plans st)"
proof -
  have e: "list_ex (\<lambda>q. rp_id q = rp_id p) (es_plans st)"
    using assms by (cases "list_ex (\<lambda>q. rp_id q = rp_id p) (es_plans st)") (simp_all add: row_present_def apply_plan_def)
  obtain P where P: "apply_checks E given p m = Inr P"
    using assms e by (cases "apply_checks E given p m") (simp_all add: apply_plan_def row_present_def)
  obtain ss where ss: "rmap step_from_dict (ep_steps p) = Inr ss"
    using assms e P by (cases "rmap step_from_dict (ep_steps p)") (simp_all add: apply_plan_def row_present_def)
  obtain w xs where w: "run_steps (pv_apply P) (ee_now E) (es_world st) ss = (w, xs)" by fastforce
  have "es_world st' = w \<and> es_next st' = es_next st \<and>
      es_plans st' = update_rows (\<lambda>q. rp_id q = rp_id p) (mark_plan_applied (ee_now E) xs) (es_plans st)"
    using assms e P ss w by (auto simp: apply_plan_def row_present_def Let_def)
  then show thesis using that [OF P ss w] e by blast
qed

lemma reverse_plan_cases:
  assumes "reverse_plan E given st p who m = Inr st'"
  obtains P ss w xs where "reverse_checks E given p m = Inr P" "rmap step_from_dict (steps_to_reverse p) = Inr ss"
    "run_steps (pv_reverse P) (ee_now E) (es_world st) ss = (w, xs)" "es_world st' = w"
    "es_plans st' = update_rows (\<lambda>q. rp_id q = rp_id p) (\<lambda>r. mark_plan_reversed (ee_now E) xs (r\<lparr>ep_outcomes := ep_outcomes p\<rparr>)) (es_plans st)"
    "es_next st' = es_next st" "list_ex (\<lambda>q. rp_id q = rp_id p) (es_plans st)"
proof -
  have e: "list_ex (\<lambda>q. rp_id q = rp_id p) (es_plans st)"
    using assms by (cases "list_ex (\<lambda>q. rp_id q = rp_id p) (es_plans st)") (simp_all add: row_present_def reverse_plan_def)
  obtain P where P: "reverse_checks E given p m = Inr P"
    using assms e by (cases "reverse_checks E given p m") (simp_all add: reverse_plan_def row_present_def)
  obtain ss where ss: "rmap step_from_dict (steps_to_reverse p) = Inr ss"
    using assms e P by (cases "rmap step_from_dict (steps_to_reverse p)") (simp_all add: reverse_plan_def row_present_def)
  obtain w xs where w: "run_steps (pv_reverse P) (ee_now E) (es_world st) ss = (w, xs)" by fastforce
  have "es_world st' = w \<and> es_next st' = es_next st \<and>
      es_plans st' = update_rows (\<lambda>q. rp_id q = rp_id p) (\<lambda>r. mark_plan_reversed (ee_now E) xs (r\<lparr>ep_outcomes := ep_outcomes p\<rparr>)) (es_plans st)"
    using assms e P ss w by (auto simp: reverse_plan_def row_present_def Let_def)
  then show thesis using that [OF P ss w] e by blast
qed

section \<open>Reachable plans\<close>

text \<open>Every operation of the service with the providers \<open>R\<close>, under any settings, credentials and clock; the
  rest of the program changes the other tables, and the tenant changes by itself.\<close>

inductive enforcement_step :: "'w provider_class list \<Rightarrow> 'w enforcement_store \<Rightarrow> 'w enforcement_store \<Rightarrow> bool" for R where
  created: "ee_registry E = R \<Longrightarrow> create_plan E None st sid ck actor only m = Inr (st', p) \<Longrightarrow> enforcement_step R st st'"
| noted: "enforcement_step R st (update_plan i (\<lambda>q. q\<lparr>ep_notes := n\<rparr>) st)"
| approved: "p \<in> set (es_plans st) \<Longrightarrow> approve_plan E st p who = Inr st' \<Longrightarrow> enforcement_step R st st'"
| applied: "ee_registry E = R \<Longrightarrow> p \<in> set (es_plans st) \<Longrightarrow> apply_plan E None st p who m = Inr st' \<Longrightarrow> enforcement_step R st st'"
| reversed: "ee_registry E = R \<Longrightarrow> p \<in> set (es_plans st) \<Longrightarrow> reverse_plan E None st p who m = Inr st' \<Longrightarrow> enforcement_step R st st'"
| elsewhere: "enforcement_step R st (st\<lparr>es_systems := ys, es_db := d, es_audit := a\<rparr>)"
| tenant: "enforcement_step R st (st\<lparr>es_world := w\<rparr>)"

inductive enforcement_reachable :: "'w provider_class list \<Rightarrow> 'w enforcement_store \<Rightarrow> bool" for R where
  fresh: "es_plans st = [] \<Longrightarrow> enforcement_reachable R st"
| later: "enforcement_reachable R st \<Longrightarrow> enforcement_step R st st' \<Longrightarrow> enforcement_reachable R st'"

definition two_people :: "enforcement_plan \<Rightarrow> bool" where
  "two_people p \<longleftrightarrow> (\<exists>a. ep_approved_by p = Some a \<and> a \<noteq> [] \<and> ep_requested_by p \<noteq> Some a) \<and> ep_approved_at p \<noteq> None"

definition reversible_steps :: "enforcement_plan \<Rightarrow> bool" where
  "reversible_steps p \<longleftrightarrow> ep_steps p \<noteq> [] \<and> ep_resource_count p = length (ep_steps p) \<and>
     (\<exists>ss. ep_steps p = map step_to_dict ss \<and> list_all (\<lambda>s. sp_current_state s \<noteq> []) ss)"

definition outcome_status :: "dict \<Rightarrow> string \<Rightarrow> bool" where
  "outcome_status d status \<longleftrightarrow> map_of d ''status'' = Some (JStr status)"

definition outcomes_recorded :: "enforcement_plan \<Rightarrow> bool" where
  "outcomes_recorded p \<longleftrightarrow> length (ep_outcomes p) = length (ep_steps p) \<and> ep_applied_at p \<noteq> None \<and>
     (rp_status p = ''applied'' \<longleftrightarrow> list_ex (\<lambda>d. outcome_status d ''applied'') (ep_outcomes p))"

definition plan_sound :: "enforcement_plan \<Rightarrow> bool" where
  "plan_sound p \<longleftrightarrow>
     (if rp_status p = ''refused'' then ep_refusal_reason p \<noteq> None
      else if rp_status p = ''pending_approval'' then reversible_steps p
      else if rp_status p = ''approved'' \<or> rp_status p = ''reversed'' then reversible_steps p \<and> two_people p
      else (rp_status p = ''applied'' \<or> rp_status p = ''failed'') \<and> reversible_steps p \<and> two_people p \<and> outcomes_recorded p)"

definition plans_inv :: "'w enforcement_store \<Rightarrow> bool" where
  "plans_inv st \<longleftrightarrow> distinct (map rp_id (es_plans st)) \<and> list_all (\<lambda>p. rp_id p < es_next st \<and> plan_sound p) (es_plans st)"

lemma reversible_steps_cong:
  "ep_steps q = ep_steps p \<Longrightarrow> ep_resource_count q = ep_resource_count p \<Longrightarrow> reversible_steps q = reversible_steps p"
  by (simp add: reversible_steps_def)

lemma sound_approved:
  assumes "plan_sound p" "rp_status p = ''pending_approval''" "can_approve (ep_requested_by p) (Some who) False"
  shows "plan_sound (mark_plan_approved now who p)"
  using assms reversible_steps_cong [of "mark_plan_approved now who p" p]
  by (auto simp: plan_sound_def mark_plan_approved_def two_people_def can_approve_def)

lemma applied_status_ex: "(applied_status xs = ''applied'') = list_ex (\<lambda>d. outcome_status d ''applied'') (map outcome_to_dict xs)"
  by (induction xs) (auto simp: applied_status_def outcome_status_def)

lemma sound_applied:
  assumes "plan_sound p" "rp_status p = ''approved''" "length xs = length (ep_steps p)"
  shows "plan_sound (mark_plan_applied now xs p)"
proof -
  have "reversible_steps p" "two_people p" using assms(1,2) by (simp_all add: plan_sound_def)
  then have "reversible_steps (mark_plan_applied now xs p)" "two_people (mark_plan_applied now xs p)"
    by (simp_all add: reversible_steps_def two_people_def mark_plan_applied_def)
  moreover have "outcomes_recorded (mark_plan_applied now xs p)"
    using assms(3) applied_status_ex [of xs] by (simp add: outcomes_recorded_def mark_plan_applied_def)
  moreover have "rp_status (mark_plan_applied now xs p) = ''applied'' \<or> rp_status (mark_plan_applied now xs p) = ''failed''"
    by (simp add: mark_plan_applied_def applied_status_def)
  ultimately show ?thesis by (auto simp: plan_sound_def)
qed

lemma sound_reversed:
  assumes "plan_sound p" "rp_status p = ''applied''"
  shows "plan_sound (mark_plan_reversed now xs (p\<lparr>ep_outcomes := os\<rparr>))"
  using assms by (simp add: plan_sound_def mark_plan_reversed_def reversible_steps_def two_people_def)

lemma sound_noted: "plan_sound (p\<lparr>ep_notes := n\<rparr>) = plan_sound p"
  by (simp add: plan_sound_def reversible_steps_def two_people_def outcomes_recorded_def)

lemma inv_update_plan:
  assumes I: "plans_inv st" and id: "\<And>q. rp_id (f q) = rp_id q"
    and sound: "\<And>q. q \<in> set (es_plans st) \<Longrightarrow> rp_id q = i \<Longrightarrow> plan_sound (f q)"
    and st': "es_plans st' = update_rows (\<lambda>q. rp_id q = i) f (es_plans st)" "es_next st' = es_next st"
  shows "plans_inv st'"
proof -
  have "map rp_id (es_plans st') = map rp_id (es_plans st)" unfolding st' using id by simp
  moreover have "list_all (\<lambda>p. rp_id p < es_next st' \<and> plan_sound p) (es_plans st')"
    using I sound id unfolding st' plans_inv_def list_all_iff set_update_rows by auto
  ultimately show ?thesis using I by (simp add: plans_inv_def)
qed

lemma plan_of_id:
  assumes "plans_inv st" "p \<in> set (es_plans st)" "q \<in> set (es_plans st)" "rp_id q = rp_id p"
  shows "q = p"
  using assms by (metis (no_types, lifting) plans_inv_def distinct_map inj_onD)

lemma plans_inv_sound: "plans_inv st \<Longrightarrow> p \<in> set (es_plans st) \<Longrightarrow> plan_sound p"
  by (simp add: plans_inv_def list_all_iff)

lemma inv_store_plan:
  assumes "plans_inv st" "plan_sound p" "rp_id p = es_next st" "es_plans st' = es_plans st @ [p]" "es_next st' = es_next st + 1"
  shows "plans_inv st'"
  using assms by (force simp: plans_inv_def list_all_iff)

lemma refuse_plan_says:
  "refuse_plan E actor q reason st = (st', p) \<Longrightarrow> plan_sound p \<and> rp_id p = rp_id q \<and> rp_status p = ''refused'' \<and>
     es_plans st' = es_plans st @ [p] \<and> es_next st' = es_next st + 1 \<and> es_world st' = es_world st"
  by (auto simp: refuse_plan_def Let_def store_plan_def plan_sound_def)

lemma planned_sound:
  assumes "build_steps fs P w limit only = Inr (w', Inr ss)"
  shows "plan_sound (planned ss p)"
proof -
  have "reversible_steps (planned ss p)" using build_steps_Inr(1,4) [OF assms] by (auto simp: reversible_steps_def planned_def)
  moreover have "rp_status (planned ss p) = ''pending_approval''" by (simp add: planned_def)
  ultimately show ?thesis by (simp add: plan_sound_def)
qed

lemma enforcement_step_inv: "enforcement_step R st st' \<Longrightarrow> plans_inv st \<Longrightarrow> plans_inv st'"
proof (induction rule: enforcement_step.induct)
  case (created E st sid ck actor only m st' p)
  from created(2) show ?case
  proof (cases rule: create_plan_cases)
    case (refused w reason y P q)
    show ?thesis by (rule inv_store_plan [OF created(3), of p]) (use refuse_plan_says [OF refused(1)] refused(2) in simp_all)
  next
    case (planned w diff y P fs ss rid)
    have "rp_id p = es_next st" "plan_sound p" unfolding planned(2)
      by (simp add: planned_def draft_plan_def) (rule planned_sound [OF planned(5)])
    then show ?thesis by (intro inv_store_plan [OF created(3), of p]) (simp_all add: planned(1) store_plan_def)
  qed
next
  case (noted st i n)
  show ?case by (rule inv_update_plan [OF noted]) (use plans_inv_sound [OF noted] in \<open>simp_all add: sound_noted\<close>)
next
  case (approved p st E who st')
  then have c: "rp_status p = ''pending_approval''" "can_approve (ep_requested_by p) (Some who) False"
    "es_plans st' = update_rows (\<lambda>q. rp_id q = rp_id p) (mark_plan_approved (ee_now E) who) (es_plans st)" "es_next st' = es_next st"
    by (auto simp: approve_plan_def split: if_splits)
  show ?case
  proof (rule inv_update_plan [OF approved(3) _ _ c(3,4)])
    show "plan_sound (mark_plan_approved (ee_now E) who q)" if "q \<in> set (es_plans st)" "rp_id q = rp_id p" for q
      using plan_of_id [OF approved(3,1) that] sound_approved [OF plans_inv_sound [OF approved(3,1)] c(1,2)] by simp
  qed (simp add: mark_plan_approved_def)
next
  case (applied E p st who m st')
  from applied(3) show ?case
  proof (cases rule: apply_plan_cases)
    case (1 P ss w xs)
    have s: "rp_status p = ''approved''" using 1(1) by (simp add: apply_checks_def split: if_splits)
    have sound: "plan_sound p" by (rule plans_inv_sound [OF applied(4,2)])
    then obtain ss' where "ep_steps p = map step_to_dict ss'" using s by (auto simp: plan_sound_def reversible_steps_def)
    then have "length xs = length (ep_steps p)" using 1(2) run_steps_length [OF 1(3)] by simp
    note S = sound_applied [OF sound s this]
    show ?thesis
    proof (rule inv_update_plan [OF applied(4) _ _ 1(5,6)])
      show "plan_sound (mark_plan_applied (ee_now E) xs q)" if "q \<in> set (es_plans st)" "rp_id q = rp_id p" for q
        using plan_of_id [OF applied(4,2) that] S by simp
    qed (simp add: mark_plan_applied_def)
  qed
next
  case (reversed E p st who m st')
  from reversed(3) show ?case
  proof (cases rule: reverse_plan_cases)
    case (1 P ss w xs)
    have s: "rp_status p = ''applied''" using 1(1) by (simp add: reverse_checks_def split: if_splits)
    note S = sound_reversed [OF plans_inv_sound [OF reversed(4,2)] s]
    show ?thesis
    proof (rule inv_update_plan [OF reversed(4) _ _ 1(5,6)])
      show "plan_sound (mark_plan_reversed (ee_now E) xs (q\<lparr>ep_outcomes := ep_outcomes p\<rparr>))"
        if "q \<in> set (es_plans st)" "rp_id q = rp_id p" for q
        unfolding plan_of_id [OF reversed(4,2) that] by (rule S)
    qed (simp add: mark_plan_reversed_def)
  qed
next
  case (elsewhere st ys d a)
  then show ?case by (simp add: plans_inv_def)
next
  case (tenant st w)
  then show ?case by (simp add: plans_inv_def)
qed

lemma enforcement_reachable_inv: "enforcement_reachable R st \<Longrightarrow> plans_inv st"
proof (induction rule: enforcement_reachable.induct)
  case (fresh st)
  then show ?case by (simp add: plans_inv_def)
next
  case (later st st')
  then show ?case using enforcement_step_inv by blast
qed

section \<open>Properties\<close>

lemma account_state_eq: "account_state enabled w = account_state enabled w' \<Longrightarrow> enabled w = enabled w'"
proof -
  assume h: "account_state enabled w = account_state enabled w'"
  have "enabled w j = enabled w' j" for j
    using fun_cong [OF h, of j] by (cases "enabled w j"; cases "enabled w' j") (simp_all add: account_state_def)
  then show ?thesis by blast
qed

lemma m365_chosen:
  assumes "ee_registry E = [m365_class G]" "choose_provider E None ck org = Inr P"
  shows "P = m365_provider G (ee_credential E org ''msgraph_write'') \<and> ck = STALE_ACCOUNTS_key"
  using assms by (auto simp: choose_registered provider_for_def first_row_def m365_class_def split: if_splits)

lemma write_checks_Inr:
  "write_checks E given p m = Inr P \<Longrightarrow>
     choose_provider E given (ep_check_key p) (rp_organization_id p) = Inr P \<and> pv_write_configured P \<and> int (ep_resource_count p) \<le> resource_limit E m"
  by (auto simp: write_checks_def split: if_splits elim!: rbind_InrE)

lemma m365_write_ok:
  assumes "ee_registry E = [m365_class G]" "write_checks E None p m = Inr P"
  shows "P = m365_provider G (ee_credential E (rp_organization_id p) ''msgraph_write'') \<and>
    m365_write_configured (ee_credential E (rp_organization_id p) ''msgraph_write'') \<and> int (ep_resource_count p) \<le> resource_limit E m"
proof -
  have w: "choose_provider E None (ep_check_key p) (rp_organization_id p) = Inr P" "pv_write_configured P"
    "int (ep_resource_count p) \<le> resource_limit E m" using write_checks_Inr [OF assms(2)] by blast+
  have "P = m365_provider G (ee_credential E (rp_organization_id p) ''msgraph_write'')" using m365_chosen [OF assms(1) w(1)] by blast
  then show ?thesis using w(2,3) by (simp add: m365_provider_def)
qed

lemma sound_steps: "plan_sound p \<Longrightarrow> rp_status p \<noteq> ''refused'' \<Longrightarrow> \<exists>ss. ep_steps p = map step_to_dict ss"
  by (auto simp: plan_sound_def reversible_steps_def split: if_splits)

lemma resource_of_step: "j \<in> sp_resource_id ` set ss \<Longrightarrow> Some (JStr j) \<in> (\<lambda>d. map_of d ''resource_id'') ` set (map step_to_dict ss)"
  by (force simp: image_iff)

lemma apply_authorised:
  assumes h: "graph_honest G enabled" and R: "ee_registry E = [m365_class G]" and sound: "plan_sound p"
    and a: "apply_plan E None st p who m = Inr st'"
  shows "two_people p \<and> int (ep_resource_count p) \<le> resource_limit E m \<and>
    m365_write_configured (ee_credential E (rp_organization_id p) ''msgraph_write'') \<and> rp_status p = ''approved'' \<and> \<not> approval_stale E p \<and>
    (enabled (es_world st') j \<noteq> enabled (es_world st) j \<longrightarrow> Some (JStr j) \<in> (\<lambda>d. map_of d ''resource_id'') ` set (ep_steps p))"
  using a
proof (cases rule: apply_plan_cases)
  case (1 P ss w xs)
  have c: "rp_status p = ''approved''" "\<not> approval_stale E p" "write_checks E None p m = Inr P"
    using 1(1) by (simp_all add: apply_checks_def split: if_splits)
  note W = m365_write_ok [OF R c(3)]
  obtain ss' where ss: "ep_steps p = map step_to_dict ss'" using sound_steps [OF sound] c(1) by auto
  then have "ss' = ss" using 1(2) by simp
  have "Some (JStr j) \<in> (\<lambda>d. map_of d ''resource_id'') ` set (ep_steps p)" if "enabled w j \<noteq> enabled (es_world st) j"
  proof -
    have "account_state enabled w j \<noteq> account_state enabled (es_world st) j"
      using that by (cases "enabled w j"; cases "enabled (es_world st) j") (simp_all add: account_state_def)
    from m365.run_apply [OF h 1(3) [unfolded conjunct1 [OF W]] this] show ?thesis unfolding ss \<open>ss' = ss\<close> by (intro resource_of_step) blast
  qed
  then show ?thesis using W c sound 1(4) by (simp add: plan_sound_def)
qed

lemma reverse_authorised:
  assumes h: "graph_honest G enabled" and R: "ee_registry E = [m365_class G]" and sound: "plan_sound p"
    and a: "reverse_plan E None st p who m = Inr st'"
  shows "two_people p \<and> int (ep_resource_count p) \<le> resource_limit E m \<and>
    m365_write_configured (ee_credential E (rp_organization_id p) ''msgraph_write'') \<and> rp_status p = ''applied'' \<and>
    (enabled (es_world st') j \<noteq> enabled (es_world st) j \<longrightarrow> Some (JStr j) \<in> (\<lambda>d. map_of d ''resource_id'') ` set (ep_steps p))"
  using a
proof (cases rule: reverse_plan_cases)
  case (1 P ss w xs)
  have c: "rp_status p = ''applied''" "write_checks E None p m = Inr P"
    using 1(1) by (simp_all add: reverse_checks_def split: if_splits)
  note W = m365_write_ok [OF R c(2)]
  obtain ss' where ss: "ep_steps p = map step_to_dict ss'" using sound_steps [OF sound] c(1) by auto
  have "\<exists>Q. steps_to_reverse p = map step_to_dict (filter Q ss')"
    unfolding steps_to_reverse_def ss by (simp add: filter_map) blast
  then have sub: "set ss \<subseteq> set ss'" using 1(2) by auto
  have "Some (JStr j) \<in> (\<lambda>d. map_of d ''resource_id'') ` set (ep_steps p)" if "enabled w j \<noteq> enabled (es_world st) j"
  proof -
    have "account_state enabled w j \<noteq> account_state enabled (es_world st) j"
      using that by (cases "enabled w j"; cases "enabled (es_world st) j") (simp_all add: account_state_def)
    with m365.run_reverse_frame [OF h 1(3) [unfolded conjunct1 [OF W]], of j] have "j \<in> sp_resource_id ` set ss" by blast
    then show ?thesis unfolding ss using sub by (intro resource_of_step) blast
  qed
  then show ?thesis using W c sound 1(4) by (simp add: plan_sound_def)
qed

lemma m365_planned:
  assumes "graph_honest G enabled" "P = m365_provider G c" "pv_plan P w fs = (w', r)"
  shows "account_state enabled w' = account_state enabled w"
    "r = Inr ps \<Longrightarrow> s \<in> set ps \<Longrightarrow> account_step s \<and> sp_resource_id s \<in> rf_resource_id ` set fs \<and>
       account_state enabled w (sp_resource_id s) = Some (sp_current_state s)"
proof -
  have p: "fst (pv_plan (m365_provider G c) w fs) = w'" "snd (pv_plan (m365_provider G c) w fs) = r" using assms(2,3) by simp_all
  show "account_state enabled w' = account_state enabled w" using m365.plan_reads [OF assms(1), of c w fs] unfolding p .
  show "r = Inr ps \<Longrightarrow> s \<in> set ps \<Longrightarrow> account_step s \<and> sp_resource_id s \<in> rf_resource_id ` set fs \<and>
       account_state enabled w (sp_resource_id s) = Some (sp_current_state s)"
    using m365.plan_captures [OF assms(1), of c w fs ps s] unfolding p by blast
qed

text \<open>C4: every plan that was acted on had two people. In every reachable store each plan that was not refused
  holds steps, as many as it counts, each with the state to go back to; one that was approved, applied,
  found failed or reversed was approved by a named person other than the requester; one that was applied
  records one outcome per step, and is called applied exactly when one of them was.\<close>

theorem enforcement_plans_sound:
  assumes "enforcement_reachable R st"
  shows "distinct (map rp_id (es_plans st)) \<and>
    list_all (\<lambda>p. rp_status p \<in> set PLAN_STATUSES \<and> (rp_status p \<noteq> ''refused'' \<longrightarrow> reversible_steps p) \<and>
      (rp_status p \<in> {''approved'', ''applied'', ''failed'', ''reversed''} \<longrightarrow> two_people p) \<and>
      (rp_status p \<in> {''applied'', ''failed''} \<longrightarrow> outcomes_recorded p)) (es_plans st)"
proof -
  have "rp_status p \<in> set PLAN_STATUSES \<and> (rp_status p \<noteq> ''refused'' \<longrightarrow> reversible_steps p) \<and>
      (rp_status p \<in> {''approved'', ''applied'', ''failed'', ''reversed''} \<longrightarrow> two_people p) \<and>
      (rp_status p \<in> {''applied'', ''failed''} \<longrightarrow> outcomes_recorded p)" if "plan_sound p" for p
    using that by (auto simp: plan_sound_def PLAN_STATUSES_def split: if_splits)
  then show ?thesis using enforcement_reachable_inv [OF assms] by (auto simp: plans_inv_def list_all_iff)
qed

text \<open>C5: the tenant is written only under authority. Applying or reversing a plan of a reachable store
  succeeds only with an approval by a second person, not stale when it is applied, a write credential of the
  plan's organisation and a number of resources within the limit of that moment; and it changes no account
  but those its steps name.\<close>

theorem tenant_writes_authorised:
  assumes "graph_honest G enabled" "enforcement_reachable [m365_class G] st" "ee_registry E = [m365_class G]" "p \<in> set (es_plans st)"
    and "apply_plan E None st p who m = Inr st' \<or> reverse_plan E None st p who m = Inr st'"
  shows "two_people p \<and> int (ep_resource_count p) \<le> resource_limit E m \<and>
    m365_write_configured (ee_credential E (rp_organization_id p) ''msgraph_write'') \<and>
    (rp_status p = ''approved'' \<and> \<not> approval_stale E p \<or> rp_status p = ''applied'') \<and>
    (\<forall>j. enabled (es_world st') j \<noteq> enabled (es_world st) j \<longrightarrow> Some (JStr j) \<in> (\<lambda>d. map_of d ''resource_id'') ` set (ep_steps p))"
proof -
  have sound: "plan_sound p" by (rule plans_inv_sound [OF enforcement_reachable_inv [OF assms(2)] assms(4)])
  from assms(5) show ?thesis
  proof
    assume "apply_plan E None st p who m = Inr st'"
    from apply_authorised [OF assms(1,3) sound this] show ?thesis by blast
  next
    assume "reverse_plan E None st p who m = Inr st'"
    from reverse_authorised [OF assms(1,3) sound this] show ?thesis by blast
  qed
qed

definition requested_problem :: "resource_finding list \<Rightarrow> string list option \<Rightarrow> string \<Rightarrow> bool" where
  "requested_problem findings only i \<longleftrightarrow>
     list_ex (\<lambda>f. rf_resource_id f = i \<and> rf_verdict f \<in> set REQUIRES_COVER) findings \<and>
     (case only of None \<Rightarrow> True | Some ids \<Rightarrow> i \<in> set ids)"

lemma remediable_requested: "i \<in> rf_resource_id ` set (remediable_findings findings only) \<Longrightarrow> requested_problem findings only i"
  by (cases only) (auto simp: remediable_findings_def requested_problem_def list_ex_iff Let_def)

text \<open>C21: planning looks and does not touch. Creating a plan changes no account. One that is offered for
  approval has between one step and the limit; each step's account had a problem in the recorded result and
  is one the request asked for, and the state it would go back to is the account's own.\<close>

theorem planned_changes_are_observed:
  assumes "graph_honest G enabled" "ee_registry E = [m365_class G]" "create_plan E None st sid ck actor only m = Inr (st', p)"
  shows "enabled (es_world st') = enabled (es_world st) \<and>
    (rp_status p = ''pending_approval'' \<longrightarrow>
       (\<exists>ss. ep_steps p = map step_to_dict ss \<and> ss \<noteq> [] \<and> int (length ss) \<le> resource_limit E m \<and>
          list_all (\<lambda>s. requested_problem (snd (latest_findings (es_db st) sid ck)) only (sp_resource_id s) \<and>
             account_state enabled (es_world st) (sp_resource_id s) = Some (sp_current_state s)) ss))"
  using assms(3)
proof (cases rule: create_plan_cases)
  case (refused w reason y P q)
  have P: "P = m365_provider G (ee_credential E (Some (sy_organization_id y)) ''msgraph_write'')"
    using m365_chosen [OF assms(2) refused(3)] by blast
  have reads: "account_state enabled w = account_state enabled (es_world st)" if b: "build_steps fs P (es_world st) l only = Inr (w, Inl x)" for fs l x
  proof (cases "l < int (length (remediable_findings fs only))")
    case True
    then show ?thesis using b by (simp add: build_steps_def)
  next
    case False
    obtain w1 r where p: "pv_plan P (es_world st) (remediable_findings fs only) = (w1, r)" by fastforce
    have "w1 = w"
    proof (cases r)
      case (Inl e)
      then show ?thesis using b False p by (cases e) (simp_all add: build_steps_def)
    next
      case (Inr ps)
      then show ?thesis using b False p by (simp add: build_steps_def Let_def split: if_splits)
    qed
    then have "w = fst (pv_plan P (es_world st) (remediable_findings fs only))" using p by simp
    then show ?thesis unfolding P using m365.plan_reads [OF assms(1)] by simp
  qed
  have "enabled w = enabled (es_world st)"
    using refused(4) by (elim disjE exE) (simp, rule account_state_eq, erule reads)
  then show ?thesis using refuse_plan_says [OF refused(1)] by simp
next
  case (planned w diff y P fs ss rid)
  have P: "P = m365_provider G (ee_credential E (Some (sy_organization_id y)) ''msgraph_write'')"
    using m365_chosen [OF assms(2) planned(3)] by blast
  note B = build_steps_Inr [OF planned(5)]
  obtain ps where ps: "pv_plan P (es_world st) (remediable_findings fs only) = (w, Inr ps)" "set ss \<subseteq> set ps" using B(5) by blast
  have "account_state enabled w = account_state enabled (es_world st)" by (rule m365_planned(1) [OF assms(1) P ps(1)])
  then have w: "enabled w = enabled (es_world st)" by (rule account_state_eq)
  have "requested_problem fs only (sp_resource_id s) \<and>
      account_state enabled (es_world st) (sp_resource_id s) = Some (sp_current_state s)" if "s \<in> set ss" for s
    using m365_planned(2) [OF assms(1) P ps(1) refl, of s] ps(2) that remediable_requested by blast
  moreover have "ep_steps p = map step_to_dict ss" by (simp add: planned(2) planned_def)
  moreover have "es_world st' = w" by (simp add: planned(1) store_plan_def)
  ultimately show ?thesis using B(1,2) w planned(4) by (auto simp: list_all_iff)
qed

text \<open>C20: reversal restores. When a plan is applied to the tenant it was planned on and reversed on the tenant
  that left, and every reversal was accepted, the tenant is as it was when the plan was made, whichever of
  the changes had failed, had been accepted or had broken off in between.\<close>

theorem reversal_restores_tenant:
  assumes honest: "graph_honest G enabled"
    and created: "ee_registry E0 = [m365_class G]" "create_plan E0 None st0 sid ck actor only m0 = Inr (st1, p)" "rp_status p = ''pending_approval''"
    and applied: "ee_registry E1 = [m365_class G]" "apply_plan E1 None st2 p1 who1 m1 = Inr st3" "ep_steps p1 = ep_steps p"
      "enabled (es_world st2) = enabled (es_world st0)"
    and reversed: "ee_registry E2 = [m365_class G]" "reverse_plan E2 None st4 p2 who2 m2 = Inr st5" "enabled (es_world st4) = enabled (es_world st3)"
      "p2 \<in> set (es_plans st3)" "rp_id p2 = rp_id p1" "ep_steps p2 = ep_steps p"
    and restored: "q \<in> set (es_plans st5)" "rp_id q = rp_id p2" "list_all (\<lambda>d. outcome_status d ''applied'') (drop (length (ep_outcomes p2)) (ep_outcomes q))"
  shows "enabled (es_world st5) = enabled (es_world st0)"
proof -
  from created(2) obtain fs rid w diff y P ss where pl: "p = planned ss ((draft_plan (es_next st0) y ck (pv_key P) actor)\<lparr>ep_result_id := Some rid\<rparr>)"
    "choose_provider E0 None ck (Some (sy_organization_id y)) = Inr P" "build_steps fs P (es_world st0) (resource_limit E0 m0) only = Inr (w, Inr ss)"
  proof (cases rule: create_plan_cases)
    case (refused w reason y P q)
    then show thesis using refuse_plan_says [OF refused(1)] created(3) by simp
  qed
  have P: "P = m365_provider G (ee_credential E0 (Some (sy_organization_id y)) ''msgraph_write'')"
    using m365_chosen [OF created(1) pl(2)] by blast
  obtain ps where ps: "pv_plan P (es_world st0) (remediable_findings fs only) = (w, Inr ps)" "set ss \<subseteq> set ps"
    using build_steps_Inr(5) [OF pl(3)] by blast
  have cap: "list_all (\<lambda>s. account_step s \<and> account_state enabled (es_world st0) (sp_resource_id s) = Some (sp_current_state s)) ss"
    using m365_planned(2) [OF honest P ps(1) refl] ps(2) unfolding list_all_iff by blast
  have steps: "ep_steps p = map step_to_dict ss" by (simp add: pl(1) planned_def)
  from applied(2) obtain P1 w2 xs where a: "apply_checks E1 None p1 m1 = Inr P1" "run_steps (pv_apply P1) (ee_now E1) (es_world st2) ss = (w2, xs)"
    "es_world st3 = w2" "es_plans st3 = update_rows (\<lambda>q. rp_id q = rp_id p1) (mark_plan_applied (ee_now E1) xs) (es_plans st2)"
    by (cases rule: apply_plan_cases) (simp add: applied(3) steps)
  have P1: "P1 = m365_provider G (ee_credential E1 (rp_organization_id p1) ''msgraph_write'')"
    using m365_write_ok [OF applied(1)] a(1) by (simp add: apply_checks_def split: if_splits)
  have o2: "ep_outcomes p2 = map outcome_to_dict xs"
    using reversed(4,5) unfolding a(4) set_update_rows by (auto simp: mark_plan_applied_def)
  let ?landed = "filter (\<lambda>s. \<exists>x \<in> set xs. landed x \<and> so_resource_id x = sp_resource_id s) ss"
  have rs: "steps_to_reverse p2 = map step_to_dict ?landed"
    by (rule steps_to_reverse_steps) (simp_all add: reversed(6) steps o2)
  from reversed(2) obtain P2 w4 ys where r: "reverse_checks E2 None p2 m2 = Inr P2" "run_steps (pv_reverse P2) (ee_now E2) (es_world st4) ?landed = (w4, ys)"
    "es_world st5 = w4" "es_plans st5 = update_rows (\<lambda>q. rp_id q = rp_id p2) (\<lambda>r. mark_plan_reversed (ee_now E2) ys (r\<lparr>ep_outcomes := ep_outcomes p2\<rparr>)) (es_plans st4)"
    by (cases rule: reverse_plan_cases) (simp add: rs)
  have P2: "P2 = m365_provider G (ee_credential E2 (rp_organization_id p2) ''msgraph_write'')"
    using m365_write_ok [OF reversed(1)] r(1) by (simp add: reverse_checks_def split: if_splits)
  have "ep_outcomes q = ep_outcomes p2 @ map outcome_to_dict ys"
    using restored(1,2) unfolding r(4) set_update_rows by (auto simp: mark_plan_reversed_def)
  then have ok: "list_all (\<lambda>y. so_status y = ''applied'') ys"
    using restored(3) by (simp add: list_all_iff outcome_status_def)
  have same: "account_state enabled (es_world st2) = account_state enabled (es_world st0)"
    "account_state enabled (es_world st4) = account_state enabled w2"
    using applied(4) reversed(3) a(3) by (simp_all add: account_state_def [abs_def])
  have changed: "account_state enabled w2 j \<noteq> account_state enabled (es_world st0) j \<Longrightarrow>
      j \<in> sp_resource_id ` set ss \<and> (\<exists>x \<in> set xs. landed x \<and> so_resource_id x = j)" for j
    using m365.run_apply [OF honest a(2) [unfolded P1], of j] unfolding same(1) by blast
  have "account_state enabled w4 = account_state enabled (es_world st0)"
    by (rule m365.reversal_restores [OF honest cap changed r(2) [unfolded P2] same(2) ok])
  then show ?thesis unfolding r(3) by (rule account_state_eq)
qed

text \<open>C39: a plan has one chance to be reversed. An apply none of whose outcomes is \<open>applied\<close> leaves the plan
  failed, also when some are \<open>uncertain\<close> and may have changed the tenant; and a reversal leaves it reversed
  whatever became of its steps. From either, no later request applies or reverses the plan.\<close>

theorem one_chance_to_reverse:
  assumes "apply_plan E g st p who m = Inr st' \<and> \<not> list_ex (\<lambda>d. outcome_status d ''applied'') (ep_outcomes q) \<or>
      reverse_plan E g st p who m = Inr st'"
    and "q \<in> set (es_plans st')" "rp_id q = rp_id p"
  shows "(rp_status q = ''failed'' \<or> rp_status q = ''reversed'') \<and>
    isl (apply_plan E' g' st2 q who' m') \<and> isl (reverse_plan E' g' st2 q who' m')"
proof -
  have s: "rp_status q = ''failed'' \<or> rp_status q = ''reversed''"
    using assms(1)
  proof
    assume a: "apply_plan E g st p who m = Inr st' \<and> \<not> list_ex (\<lambda>d. outcome_status d ''applied'') (ep_outcomes q)"
    then have "apply_plan E g st p who m = Inr st'" by blast
    then show ?thesis
    proof (cases rule: apply_plan_cases)
      case (1 P ss w xs)
      obtain r where "q = mark_plan_applied (ee_now E) xs r"
        using assms(2,3) unfolding 1(5) set_update_rows by (auto simp: mark_plan_applied_def)
      then have "applied_status xs \<noteq> ''applied''" "rp_status q = applied_status xs"
        using a applied_status_ex [of xs] by (simp_all add: mark_plan_applied_def)
      then show ?thesis by (simp add: applied_status_def split: if_splits)
    qed
  next
    assume "reverse_plan E g st p who m = Inr st'"
    then show ?thesis
    proof (cases rule: reverse_plan_cases)
      case (1 P ss w xs)
      then show ?thesis using assms(2,3) unfolding 1(5) set_update_rows by (auto simp: mark_plan_reversed_def)
    qed
  qed
  then have "isl (apply_plan E' g' st2 q who' m')" "isl (reverse_plan E' g' st2 q who' m')"
    by (auto simp: apply_plan_def reverse_plan_def apply_checks_def reverse_checks_def rbind_def split: sum.split)
  then show ?thesis using s by blast
qed

text \<open>The lock does not stop a second apply. Two requests that both loaded the plan while it was approved
  both apply it: the second selects the row again under the lock, but decides on the plan as it was loaded.
  It runs every step again and its outcomes replace the first's. A request that loads the plan afterwards is
  refused.\<close>

theorem concurrent_apply_writes_twice:
  assumes "apply_plan E g st p who m = Inr st1"
  shows "(\<exists>st2 P ss. apply_plan E g st1 p who' m = Inr st2 \<and> rmap step_from_dict (ep_steps p) = Inr ss \<and>
      apply_checks E g p m = Inr P \<and> es_world st2 = fst (run_steps (pv_apply P) (ee_now E) (es_world st1) ss)) \<and>
    (\<forall>q \<in> set (es_plans st1). rp_id q = rp_id p \<longrightarrow> isl (apply_plan E g st1 q who' m))"
  using assms
proof (cases rule: apply_plan_cases)
  case (1 P ss w xs)
  have id: "rp_id (mark_plan_applied (ee_now E) xs q) = rp_id q" for q by (simp add: mark_plan_applied_def)
  obtain q0 where q0: "q0 \<in> set (es_plans st)" "rp_id q0 = rp_id p" using 1(7) by (auto simp: list_ex_iff)
  then have "mark_plan_applied (ee_now E) xs q0 \<in> set (es_plans st1)" unfolding 1(5) by (intro update_rows_in) simp_all
  then have "list_ex (\<lambda>q. rp_id q = rp_id p) (es_plans st1)" using q0(2) id [of q0] unfolding list_ex_iff by metis
  then have pres: "row_present st1 (rp_id p) = Inr ()" by (simp add: row_present_def)
  obtain w2 ys where r: "run_steps (pv_apply P) (ee_now E) (es_world st1) ss = (w2, ys)" by fastforce
  have "\<exists>st2. apply_plan E g st1 p who' m = Inr st2 \<and> es_world st2 = w2"
    using pres 1(1,2) r by (simp add: apply_plan_def Let_def)
  moreover have "isl (apply_plan E g st1 q who' m)" if "q \<in> set (es_plans st1)" "rp_id q = rp_id p" for q
  proof -
    have "rp_status q = applied_status xs" using that unfolding 1(5) set_update_rows by (auto simp: mark_plan_applied_def)
    then have "rp_status q = ''applied'' \<or> rp_status q = ''failed''" by (simp add: applied_status_def)
    then show ?thesis by (auto simp: apply_plan_def apply_checks_def rbind_def split: sum.split)
  qed
  ultimately show ?thesis using 1(1,2) r by auto
qed

section \<open>Witnesses\<close>

text \<open>A directory of two accounts behind a network that loses the answer to the next PATCH when it is flaky.\<close>

type_synonym sample_world = "(string \<times> bool) list \<times> bool"

definition set_field :: "string \<Rightarrow> dict \<Rightarrow> (string \<times> bool) list \<Rightarrow> (string \<times> bool) list" where
  "set_field i body d = map (\<lambda>(k, b). (k, if k = i then (case map_of body FIELD of Some (JBool v) \<Rightarrow> v | _ \<Rightarrow> b) else b)) d"

definition sample_graph :: "sample_world graph_api" where
  "sample_graph = \<lparr>ga_token = (\<lambda>w c. (w, Inr (JStr ''t''))),
     ga_get = (\<lambda>w t i. (w, case map_of (fst w) i of None \<Rightarrow> Inl ''404'' | Some b \<Rightarrow> Inr (JBool b))),
     ga_patch = (\<lambda>w t i body. case map_of (fst w) i of None \<Rightarrow> (w, Error_status 404)
       | Some _ \<Rightarrow> ((set_field i body (fst w), False), if snd w then Broken ''timeout'' else Accepted))\<rparr>"

definition directory :: "sample_world \<Rightarrow> string \<Rightarrow> bool option" where
  "directory w i = map_of (fst w) i"

lemma set_field_map: "map_of (set_field i [(FIELD, JBool v)] d) j = (if j = i \<and> map_of d i \<noteq> None then Some v else map_of d j)"
  by (induction d) (auto simp: set_field_def)

lemma sample_honest: "graph_honest sample_graph directory"
proof -
  have "(\<forall>j. j \<noteq> i \<longrightarrow> directory (fst (ga_patch sample_graph w t i [(FIELD, JBool b)])) j = directory w j) \<and>
        (case snd (ga_patch sample_graph w t i [(FIELD, JBool b)]) of
           Accepted \<Rightarrow> directory (fst (ga_patch sample_graph w t i [(FIELD, JBool b)])) i = Some b
         | Error_status code \<Rightarrow> directory (fst (ga_patch sample_graph w t i [(FIELD, JBool b)])) i = directory w i
         | Broken e \<Rightarrow> True)" for w t i b
    by (cases "map_of (fst w) i") (simp_all add: sample_graph_def directory_def set_field_map)
  moreover have "directory (fst (ga_get sample_graph w t i)) = directory w \<and>
      (\<forall>b. snd (ga_get sample_graph w t i) = Inr (JBool b) \<longrightarrow> directory w i = Some b)" for w t i
    by (cases "map_of (fst w) i") (simp_all add: sample_graph_def directory_def)
  moreover have "directory (fst (ga_token sample_graph w c)) = directory w" for w c
    by (simp add: sample_graph_def directory_def)
  ultimately show ?thesis unfolding graph_honest_def by blast
qed

definition account_row :: "int \<Rightarrow> string \<Rightarrow> string \<Rightarrow> resource_result" where
  "account_row i name verdict = \<lparr>rr_id = i, rr_result_id = 3, rr_resource_id = name, rr_resource_type = ''entra_user'',
     rr_verdict = verdict, rr_observed = None, rr_waiver_id = None, rr_detail = []\<rparr>"

definition stale_db :: db where
  "stale_db = empty_db\<lparr>tests := [\<lparr>ct_id = 1, ct_organization_id = Some 7, ct_system_id = Some 2, ct_control_id = ''AC-2'',
       ct_control_ids = None, ct_name = ''n'', ct_description = None, ct_method = ''connector'', ct_connector_type = None,
       ct_frequency = None, ct_expected = None, ct_assertion = None, ct_active = True, ct_source = ''s'',
       ct_check_key = Some STALE_ACCOUNTS_key, ct_check_source = None, ct_capability_id = None, ct_last_status = None,
       ct_last_tested_at = None\<rparr>],
     results := [\<lparr>cr_id = 3, cr_control_test_id = 1, cr_run_at = 0, cr_status = ''fail'', cr_detail = None, cr_evidence_ref = None,
       cr_evaluated = 3, cr_failing = 2, cr_waived = 0, cr_expected = None\<rparr>],
     resource_results := [account_row 4 ''u'' ''fail'', account_row 5 ''v'' ''pass'', account_row 6 ''w'' ''fail''], next_id := 9\<rparr>"

definition enf_env :: "sample_world enforcement_env" where
  "enf_env = \<lparr>ee_now = 0, ee_max_resources = 10, ee_approval_max_age_hours = 24, ee_hash = const_hash,
     ee_bus = \<lparr>en_now = 0, en_notify_webhook_url = [], en_notify_min_severity = ''critical'', en_hmac = (\<lambda>k m. [])\<rparr>,
     ee_registry = [m365_class sample_graph],
     ee_credential = (\<lambda>_ _. Some [(''tenant_id'', JStr ''t''), (''client_id'', JStr ''c''), (''client_secret'', JStr ''s'')])\<rparr>"

definition store0 :: "sample_world enforcement_store" where
  "store0 = \<lparr>es_systems = [\<lparr>sy_id = 2, sy_organization_id = 7, sy_name = ''s'', sy_deleted_at = None\<rparr>], es_db = stale_db,
     es_plans = [], es_audit = \<lparr>rows = [], row_seq = 1\<rparr>, es_world = ([(''u'', True), (''v'', True), (''w'', True)], True), es_next = 20\<rparr>"

definition sample_finding :: "string \<Rightarrow> string \<Rightarrow> resource_finding" where
  "sample_finding name verdict = \<lparr>rf_resource_id = name, rf_resource_type = ''entra_user'', rf_verdict = verdict, rf_observed = [], rf_detail = []\<rparr>"

definition sample_steps :: "remediation_step list" where
  "sample_steps = [disable_step (sample_finding ''u'' ''fail'') True, disable_step (sample_finding ''w'' ''fail'') True]"

definition sample_provider :: "sample_world provider" where
  "sample_provider = m365_provider sample_graph (ee_credential enf_env (Some 7) ''msgraph_write'')"

definition plan1 :: enforcement_plan where
  "plan1 = planned sample_steps ((draft_plan 20 \<lparr>sy_id = 2, sy_organization_id = 7, sy_name = ''s'', sy_deleted_at = None\<rparr>
     STALE_ACCOUNTS_key ''m365_account'' ''ada'')\<lparr>ep_result_id := Some 3\<rparr>)"

definition plan2 :: enforcement_plan where
  "plan2 = mark_plan_approved 0 ''bob'' plan1"

definition outcomes3 :: "step_outcome list" where
  "outcomes3 = [\<lparr>so_resource_id = ''u'', so_status = ''uncertain'', so_detail = ''timeout'', so_at = Some (isoformat 0)\<rparr>,
     \<lparr>so_resource_id = ''w'', so_status = ''applied'', so_detail = ''accountEnabled disabled'', so_at = Some (isoformat 0)\<rparr>]"

definition plan3 :: enforcement_plan where
  "plan3 = mark_plan_applied 0 outcomes3 plan2"

definition outcomes4 :: "step_outcome list" where
  "outcomes4 = [\<lparr>so_resource_id = ''u'', so_status = ''applied'', so_detail = ''accountEnabled restored'', so_at = Some (isoformat 0)\<rparr>,
     \<lparr>so_resource_id = ''w'', so_status = ''applied'', so_detail = ''accountEnabled restored'', so_at = Some (isoformat 0)\<rparr>]"

lemma enf_env_simps:
  "ee_registry enf_env = [m365_class sample_graph]" "ee_now enf_env = 0" "ee_max_resources enf_env = 10"
  "ee_approval_max_age_hours enf_env = 24"
  by (simp_all add: enf_env_def)

lemma sample_chosen: "choose_provider enf_env None STALE_ACCOUNTS_key (Some 7) = Inr sample_provider"
  by (simp add: choose_provider_def bind_provider_def provider_for_def enf_env_simps m365_class_def first_row_def sample_provider_def)

lemma sample_configured: "pv_write_configured sample_provider"
  by code_simp

lemma sample_found: "latest_findings stale_db 2 STALE_ACCOUNTS_key =
    (Some 3, [sample_finding ''u'' ''fail'', sample_finding ''v'' ''pass'', sample_finding ''w'' ''fail''])"
  by code_simp

lemma sample_built: "build_steps [sample_finding ''u'' ''fail'', sample_finding ''v'' ''pass'', sample_finding ''w'' ''fail''] sample_provider
    ([(''u'', True), (''v'', True), (''w'', True)], True) 10 None = Inr (([(''u'', True), (''v'', True), (''w'', True)], True), Inr sample_steps)"
  by code_simp

lemmas run_sample = sample_steps_def sample_provider_def m365_provider_def m365_apply_def m365_reverse_def m365_patch_def graph_token_def
  sample_graph_def disable_step_def sample_finding_def patch_outcome_def outcome_def caught_def set_field_def FIELD_def fstr_def
  get_default_def truthy_def outcomes3_def outcomes4_def

lemma sample_write_ok: "m365_write_configured (ee_credential enf_env (Some 7) ''msgraph_write'')"
  by code_simp

lemma sample_run:
  "run_steps (pv_apply sample_provider) 0 ([(''u'', True), (''v'', True), (''w'', True)], True) sample_steps =
     (([(''u'', False), (''v'', True), (''w'', False)], False), outcomes3)"
  "run_steps (pv_reverse sample_provider) 0 ([(''u'', False), (''v'', True), (''w'', False)], False) sample_steps =
     (([(''u'', True), (''v'', True), (''w'', True)], False), outcomes4)"
  "run_steps (pv_apply sample_provider) 0 ([(''u'', True), (''v'', True), (''w'', True)], True) [hd sample_steps] =
     (([(''u'', False), (''v'', True), (''w'', True)], False), [hd outcomes3])"
  by (simp_all add: run_sample sample_write_ok)

lemma sample_created: "\<exists>st. create_plan enf_env None store0 2 STALE_ACCOUNTS_key ''ada'' None None = Inr (st, plan1) \<and>
    es_plans st = [plan1] \<and> es_world st = es_world store0 \<and> es_next st = 21"
proof -
  have y: "first_row (filter (\<lambda>y. sy_id y = 2 \<and> sy_deleted_at y = None) (es_systems store0)) =
      Some \<lparr>sy_id = 2, sy_organization_id = 7, sy_name = ''s'', sy_deleted_at = None\<rparr>"
    by (simp add: store0_def first_row_def)
  have d: "es_db store0 = stale_db" "es_world store0 = ([(''u'', True), (''v'', True), (''w'', True)], True)" "es_next store0 = 20" "es_plans store0 = []"
    by (simp_all add: store0_def)
  have k: "pv_key sample_provider = ''m365_account''" by (simp add: sample_provider_def m365_provider_def)
  show ?thesis
    by (simp add: create_plan_def y sample_chosen sample_configured d sample_found resource_limit_def enf_env_simps sample_built k Let_def
        flip: plan1_def) (simp add: store_plan_def d)
qed

lemma plan_simps:
  "rp_id plan1 = 20" "rp_id plan2 = 20" "rp_id plan3 = 20" "rp_status plan1 = ''pending_approval''" "rp_status plan2 = ''approved''"
  "rp_status plan3 = ''applied''" "ep_requested_by plan1 = Some ''ada''" "ep_approved_at plan2 = Some 0" "ep_resource_count plan2 = 2"
  "ep_resource_count plan3 = 2" "ep_check_key plan2 = STALE_ACCOUNTS_key" "ep_check_key plan3 = STALE_ACCOUNTS_key"
  "rp_organization_id plan2 = Some 7" "rp_organization_id plan3 = Some 7" "ep_steps plan1 = map step_to_dict sample_steps"
  "ep_steps plan2 = map step_to_dict sample_steps" "ep_steps plan3 = map step_to_dict sample_steps"
  "ep_outcomes plan3 = map outcome_to_dict outcomes3"
  by (simp_all add: plan3_def plan2_def plan1_def mark_plan_applied_def mark_plan_approved_def planned_def draft_plan_def
      applied_status_def outcomes3_def sample_steps_def)

lemma sample_checked:
  "apply_checks enf_env None plan2 None = Inr sample_provider" "reverse_checks enf_env None plan3 None = Inr sample_provider"
  by (simp_all add: apply_checks_def reverse_checks_def write_checks_def approval_stale_def plan_simps sample_chosen sample_configured
      resource_limit_def enf_env_simps us_per_hour_def)

lemma sample_approved:
  assumes "es_plans st = [plan1]"
  shows "\<exists>st'. approve_plan enf_env st plan1 ''bob'' = Inr st' \<and> es_plans st' = [plan2] \<and> es_world st' = es_world st"
  using assms by (simp add: approve_plan_def can_approve_def plan_simps plan2_def update_rows_def enf_env_simps)

lemma sample_applied:
  assumes "es_plans st = [plan2]" "es_world st = ([(''u'', True), (''v'', True), (''w'', True)], True)"
  shows "\<exists>st'. apply_plan enf_env None st plan2 ''bob'' None = Inr st' \<and> es_plans st' = [plan3] \<and>
    es_world st' = ([(''u'', False), (''v'', True), (''w'', False)], False)"
  using assms by (simp add: apply_plan_def row_present_def sample_checked plan_simps sample_run enf_env_simps plan3_def update_rows_def Let_def)

lemma sample_to_reverse: "steps_to_reverse plan3 = map step_to_dict sample_steps"
proof -
  have "filter (\<lambda>s. \<exists>x \<in> set outcomes3. landed x \<and> so_resource_id x = sp_resource_id s) sample_steps = sample_steps"
    by (simp add: outcomes3_def sample_steps_def landed_def disable_step_def sample_finding_def)
  then show ?thesis using steps_to_reverse_steps [OF plan_simps(17,18)] by simp
qed

definition plan4 :: enforcement_plan where
  "plan4 = mark_plan_reversed 0 outcomes4 plan3"

lemma sample_reversed:
  assumes "es_plans st = [plan3]" "es_world st = ([(''u'', False), (''v'', True), (''w'', False)], False)"
  shows "\<exists>st'. reverse_plan enf_env None st plan3 ''bob'' None = Inr st' \<and> es_plans st' = [plan4] \<and>
    es_world st' = ([(''u'', True), (''v'', True), (''w'', True)], False)"
  using assms by (simp add: reverse_plan_def row_present_def sample_checked sample_to_reverse sample_run enf_env_simps update_rows_def plan4_def
      plan_simps(3))

lemma sample_history:
  obtains st1 st2 st3 where "create_plan enf_env None store0 2 STALE_ACCOUNTS_key ''ada'' None None = Inr (st1, plan1)"
    "es_plans st2 = [plan2]" "es_world st2 = es_world store0"
    "apply_plan enf_env None st2 plan2 ''bob'' None = Inr st3" "es_plans st3 = [plan3]"
    "es_world st3 = ([(''u'', False), (''v'', True), (''w'', False)], False)"
    "enforcement_reachable [m365_class sample_graph] st2" "enforcement_reachable [m365_class sample_graph] st3"
proof -
  have w0: "es_world store0 = ([(''u'', True), (''v'', True), (''w'', True)], True)" by (simp add: store0_def)
  obtain st1 where c: "create_plan enf_env None store0 2 STALE_ACCOUNTS_key ''ada'' None None = Inr (st1, plan1)" "es_plans st1 = [plan1]"
    "es_world st1 = es_world store0" using sample_created by blast
  obtain st2 where a: "approve_plan enf_env st1 plan1 ''bob'' = Inr st2" "es_plans st2 = [plan2]" "es_world st2 = es_world st1"
    using sample_approved [OF c(2)] by blast
  obtain st3 where b: "apply_plan enf_env None st2 plan2 ''bob'' None = Inr st3" "es_plans st3 = [plan3]"
    "es_world st3 = ([(''u'', False), (''v'', True), (''w'', False)], False)"
    using sample_applied [OF a(2)] a(3) c(3) w0 by auto
  have "enforcement_reachable [m365_class sample_graph] store0" by (rule enforcement_reachable.fresh) (simp add: store0_def)
  then have r1: "enforcement_reachable [m365_class sample_graph] st1" by (rule enforcement_reachable.later [OF _ created [OF enf_env_simps(1) c(1)]])
  then have r2: "enforcement_reachable [m365_class sample_graph] st2"
    by (rule enforcement_reachable.later [OF _ approved [OF _ a(1)]]) (simp add: c(2))
  then have "enforcement_reachable [m365_class sample_graph] st3"
    by (rule enforcement_reachable.later [OF _ applied [OF enf_env_simps(1) _ b(1)]]) (simp add: a(2))
  with c a b r2 show thesis by (intro that [of st1 st2 st3]) simp_all
qed

theorem enforcement_plans_sound_witness:
  "\<exists>st. es_plans st = [plan3] \<and> enforcement_reachable [m365_class sample_graph] st \<and> two_people plan3 \<and> outcomes_recorded plan3"
proof -
  obtain st1 st2 st3 where h: "es_plans st3 = [plan3]" "enforcement_reachable [m365_class sample_graph] st3"
    by (rule sample_history) (rule that)
  then show ?thesis using enforcement_plans_sound [OF h(2)] plan_simps(6) by auto
qed

theorem tenant_writes_authorised_witness:
  "\<exists>st st'. apply_plan enf_env None st plan2 ''bob'' None = Inr st' \<and> two_people plan2 \<and>
    directory (es_world st') ''u'' \<noteq> directory (es_world st) ''u'' \<and>
    Some (JStr ''u'') \<in> (\<lambda>d. map_of d ''resource_id'') ` set (ep_steps plan2)"
proof -
  obtain st1 st2 st3 where h: "es_plans st2 = [plan2]" "es_world st2 = es_world store0" "apply_plan enf_env None st2 plan2 ''bob'' None = Inr st3"
    "es_world st3 = ([(''u'', False), (''v'', True), (''w'', False)], False)" "enforcement_reachable [m365_class sample_graph] st2"
    by (rule sample_history) (rule that)
  have p: "plan2 \<in> set (es_plans st2)" using h(1) by simp
  have d: "directory (es_world st3) ''u'' \<noteq> directory (es_world st2) ''u''" using h(2,4) by (simp add: directory_def store0_def)
  from tenant_writes_authorised [OF sample_honest h(5) enf_env_simps(1) p disjI1 [OF h(3)]] h(3) d show ?thesis by blast
qed

theorem planned_changes_are_observed_witness:
  "\<exists>st. create_plan enf_env None store0 2 STALE_ACCOUNTS_key ''ada'' None None = Inr (st, plan1) \<and>
    directory (es_world st) = directory (es_world store0)"
  using sample_created planned_changes_are_observed [OF sample_honest enf_env_simps(1)] by blast

theorem reversal_restores_tenant_witness:
  "\<exists>st2 st3 st5. apply_plan enf_env None st2 plan2 ''bob'' None = Inr st3 \<and> reverse_plan enf_env None st3 plan3 ''bob'' None = Inr st5 \<and>
    directory (es_world st3) \<noteq> directory (es_world store0) \<and> directory (es_world st5) = directory (es_world store0)"
proof -
  obtain st1 st2 st3 where h: "create_plan enf_env None store0 2 STALE_ACCOUNTS_key ''ada'' None None = Inr (st1, plan1)"
    "es_world st2 = es_world store0" "apply_plan enf_env None st2 plan2 ''bob'' None = Inr st3" "es_plans st3 = [plan3]"
    "es_world st3 = ([(''u'', False), (''v'', True), (''w'', False)], False)"
    by (rule sample_history) (rule that)
  obtain st5 where r: "reverse_plan enf_env None st3 plan3 ''bob'' None = Inr st5" "es_plans st5 = [plan4]"
    using sample_reversed [OF h(4,5)] by blast
  have q: "plan4 \<in> set (es_plans st5)" "rp_id plan4 = rp_id plan3"
    "list_all (\<lambda>d. outcome_status d ''applied'') (drop (length (ep_outcomes plan3)) (ep_outcomes plan4))"
    by (simp_all add: r(2) plan4_def mark_plan_reversed_def outcomes4_def outcome_status_def)
  have "directory (es_world st5) = directory (es_world store0)"
    by (rule reversal_restores_tenant [OF sample_honest enf_env_simps(1) h(1) plan_simps(4) enf_env_simps(1) h(3) _ _ enf_env_simps(1) r(1) refl _ _ _ q])
      (simp_all add: plan_simps h(2,4))
  moreover have "directory (es_world st3) ''u'' \<noteq> directory (es_world store0) ''u''" by (simp add: h(5) directory_def store0_def)
  ultimately show ?thesis using h(3) r(1) by metis
qed

definition solo_plan :: enforcement_plan where
  "solo_plan = plan2\<lparr>ep_steps := [step_to_dict (hd sample_steps)], ep_resource_count := 1\<rparr>"

definition solo_store :: "sample_world enforcement_store" where
  "solo_store = store0\<lparr>es_plans := [solo_plan]\<rparr>"

text \<open>The account is disabled, the plan failed, and no request can put the account back.\<close>

theorem one_chance_to_reverse_witness:
  "\<exists>st q. apply_plan enf_env None solo_store solo_plan ''bob'' None = Inr st \<and> es_plans st = [q] \<and>
    directory (es_world solo_store) ''u'' = Some True \<and> directory (es_world st) ''u'' = Some False \<and>
    rp_status q = ''failed'' \<and> isl (reverse_plan enf_env None st q ''bob'' None)"
proof -
  let ?q = "mark_plan_applied 0 [hd outcomes3] solo_plan"
  have s: "rp_id solo_plan = 20" "ep_steps solo_plan = map step_to_dict [hd sample_steps]" "es_world solo_store = es_world store0"
    "es_plans solo_store = [solo_plan]"
    by (simp_all add: solo_plan_def solo_store_def plan_simps)
  have c: "apply_checks enf_env None solo_plan None = Inr sample_provider"
    by (simp add: apply_checks_def write_checks_def approval_stale_def solo_plan_def plan_simps sample_chosen sample_configured
      resource_limit_def enf_env_simps us_per_hour_def)
  have w0: "es_world store0 = ([(''u'', True), (''v'', True), (''w'', True)], True)" by (simp add: store0_def)
  obtain st where a: "apply_plan enf_env None solo_store solo_plan ''bob'' None = Inr st" "es_plans st = [?q]"
    "es_world st = ([(''u'', False), (''v'', True), (''w'', True)], False)"
    using c sample_run(3) by (simp add: apply_plan_def row_present_def s w0 enf_env_simps update_rows_def Let_def)
  have "\<not> list_ex (\<lambda>d. outcome_status d ''applied'') (ep_outcomes ?q)"
    by (simp add: mark_plan_applied_def outcomes3_def outcome_status_def)
  then have or: "apply_plan enf_env None solo_store solo_plan ''bob'' None = Inr st \<and> \<not> list_ex (\<lambda>d. outcome_status d ''applied'') (ep_outcomes ?q) \<or>
      reverse_plan enf_env None solo_store solo_plan ''bob'' None = Inr st" using a(1) by blast
  have q: "?q \<in> set (es_plans st)" "rp_id ?q = rp_id solo_plan" by (simp_all add: a(2) mark_plan_applied_def)
  have "isl (reverse_plan enf_env None st ?q ''bob'' None)" using one_chance_to_reverse [OF or q] by blast
  moreover have "rp_status ?q = ''failed''" by (simp add: mark_plan_applied_def applied_status_def outcomes3_def)
  ultimately show ?thesis using a by (auto simp: directory_def s(3) w0)
qed

theorem concurrent_apply_writes_twice_witness:
  "\<exists>st st1 st2. apply_plan enf_env None st plan2 ''bob'' None = Inr st1 \<and> apply_plan enf_env None st1 plan2 ''eve'' None = Inr st2"
proof -
  obtain st1 st2 st3 where h: "apply_plan enf_env None st2 plan2 ''bob'' None = Inr st3"
    by (rule sample_history) (rule that)
  then show ?thesis using concurrent_apply_writes_twice [OF h, where who' = "''eve''"] by blast
qed

end
