(* ===== verification/Provisioning.thy ===== *)
theory Provisioning
  imports Authorization Assertions Mfa
begin

text \<open>
  Federated identity, \<open>identity/provisioning.py\<close> with the endpoints of \<open>api/routes/identity.py\<close> that change
  accounts and links: sign-in through OpenID Connect with just-in-time accounts, SCIM provisioning, and
  PIV/CAC certificates.

  Claims and SCIM payloads are JSON objects; where the code calls a string method on a value that is not a
  string the \<open>AttributeError\<close> leaves the function, and \<open>DatabaseError\<close> is the driver's refusal of a value that
  is not text for a text column. Parsing a certificate and matching a peer against a network are the
  libraries' (\<open>cryptography\<close>, \<open>ipaddress\<close>) and are arguments. The tables hold every tenant's rows; a
  tenant-bound session sees the links of its own organisation and the unscoped ones.
\<close>

section \<open>Rows\<close>

type_synonym claims = "(string \<times> json) list"

record account =
  us_id :: int
  us_organization_id :: int
  us_email :: string
  us_full_name :: "string option"
  us_role :: string
  us_active :: bool
  us_session_version :: int

record external_identity =
  xi_id :: int
  xi_organization_id :: "int option"
  xi_user_id :: int
  xi_provider :: string
  xi_subject :: string
  xi_email :: "string option"
  xi_claims :: claims
  xi_last_login_at :: "datetime option"

record group_role_mapping =
  gm_id :: int
  gm_organization_id :: "int option"
  gm_group :: string
  gm_role :: string
  gm_priority :: int

record scim_event =
  se_id :: int
  se_organization_id :: "int option"
  se_operation :: string
  se_external_id :: "string option"
  se_email :: "string option"
  se_user_id :: "int option"
  se_detail :: claims

record identity_store =
  di_orgs :: "int list"
  di_users :: "account list"
  di_identities :: "external_identity list"
  di_mappings :: "group_role_mapping list"
  di_scim_events :: "scim_event list"
  di_audit :: audit_store
  di_next :: int

record identity_env =
  ie_now :: datetime
  ie_hash :: "string \<Rightarrow> string"

definition VALID_ROLES :: "string list" where [vocab]:
  "VALID_ROLES = [''admin'', ''control_owner'', ''assessor'', ''viewer'']"

definition DEFAULT_ROLE :: string where [vocab]:
  "DEFAULT_ROLE = ''viewer''"

definition PIV_PROVIDER :: string where [vocab]:
  "PIV_PROVIDER = ''piv''"

section \<open>Reading claims\<close>

text \<open>\<open>(claims.get(k) or "").strip()\<close>, and a value bound for a text column.\<close>

definition stripped_text :: "json option \<Rightarrow> string res" where
  "stripped_text v =
     (case v of
        None \<Rightarrow> Inr []
      | Some x \<Rightarrow> if \<not> truthy x then Inr []
                  else (case x of JStr s \<Rightarrow> Inr (strip s) | _ \<Rightarrow> Inl (AttributeError ''strip'')))"

definition text_column :: "json option \<Rightarrow> string option res" where
  "text_column v =
     (case v of
        None \<Rightarrow> Inr None
      | Some JNull \<Rightarrow> Inr None
      | Some (JStr s) \<Rightarrow> Inr (Some s)
      | Some x \<Rightarrow> Inl (DatabaseError ''expected str''))"

definition group_values :: "json option \<Rightarrow> string list" where
  "group_values v =
     (case v of
        Some (JStr s) \<Rightarrow> filter (\<lambda>p. p \<noteq> []) (map strip (split_on CHR '','' s))
      | Some (JList vs) \<Rightarrow> map py_str vs
      | _ \<Rightarrow> [])"

definition extract_groups :: "claims \<Rightarrow> string list" where
  "extract_groups c = concat (map (\<lambda>k. group_values (map_of c k)) [''groups'', ''roles'', ''wids''])"

definition email_verification_ok :: "claims \<Rightarrow> bool \<Rightarrow> bool" where
  "email_verification_ok c require =
     (case map_of c ''email_verified'' of
        None \<Rightarrow> \<not> require
      | Some JNull \<Rightarrow> \<not> require
      | Some (JStr s) \<Rightarrow> lower (strip s) = ''true''
      | Some v \<Rightarrow> truthy v)"

text \<open>The part after the last \<open>@\<close>; the whole text without one.\<close>

definition email_domain :: "string \<Rightarrow> string" where
  "email_domain email = lower (rev (takeWhile (\<lambda>c. c \<noteq> CHR ''@'') (rev email)))"

definition domain_allowed :: "string \<Rightarrow> string list \<Rightarrow> bool" where
  "domain_allowed email allowed \<longleftrightarrow>
     allowed = [] \<or> list_ex (\<lambda>d. d \<noteq> [] \<and> email_domain email = dropWhile (\<lambda>c. c = CHR ''@'') (lower (strip d))) allowed"

section \<open>Roles\<close>

definition mapping_applies :: "int option \<Rightarrow> string list \<Rightarrow> group_role_mapping \<Rightarrow> bool" where
  "mapping_applies org_id groups m \<longleftrightarrow>
     gm_group m \<in> set groups \<and> (org_id = None \<or> gm_organization_id m = org_id)"

definition resolve_role :: "identity_store \<Rightarrow> int option \<Rightarrow> string list \<Rightarrow> string \<Rightarrow> string" where
  "resolve_role st org_id groups default_role =
     (if groups = [] then default_role
      else case first_row (sort_key gm_priority (sort_key gm_id (filter (mapping_applies org_id groups) (di_mappings st)))) of
             None \<Rightarrow> default_role
           | Some m \<Rightarrow> if gm_role m \<in> set VALID_ROLES then gm_role m else default_role)"

section \<open>OpenID Connect\<close>

definition audit_identity ::
  "identity_env \<Rightarrow> string \<Rightarrow> string \<Rightarrow> int \<Rightarrow> claims \<Rightarrow> int option \<Rightarrow> identity_store \<Rightarrow> identity_store" where
  "audit_identity E actor action user_id diff org_id st =
     st\<lparr>di_audit := record_event (ie_hash E) (di_audit st)
          \<lparr>ae_actor = actor, ae_action = action, ae_entity_type = ''identity'', ae_entity_id = Some (str_of_int user_id),
           ae_diff = JObj diff, ae_organization_id = org_id\<rparr>\<rparr>"

definition find_identity :: "identity_store \<Rightarrow> string \<Rightarrow> string \<Rightarrow> external_identity option res" where
  "find_identity st provider subject =
     one_or_none (filter (\<lambda>x. xi_provider x = provider \<and> xi_subject x = subject) (di_identities st))"

definition user_by_id :: "identity_store \<Rightarrow> int \<Rightarrow> account option" where
  "user_by_id st i = first_row (filter (\<lambda>u. us_id u = i) (di_users st))"

definition user_by_email :: "identity_store \<Rightarrow> string \<Rightarrow> account option res" where
  "user_by_email st email = one_or_none (filter (\<lambda>u. us_email u = email) (di_users st))"

text \<open>The user the subject is linked to, else the one with the email.\<close>

definition existing_user :: "identity_store \<Rightarrow> external_identity option \<Rightarrow> string \<Rightarrow> account option res" where
  "existing_user st ident email =
     (case Option.bind ident (\<lambda>x. user_by_id st (xi_user_id x)) of
        Some u \<Rightarrow> Inr (Some u)
      | None \<Rightarrow> user_by_email st email)"

definition put_user :: "account \<Rightarrow> identity_store \<Rightarrow> identity_store" where
  "put_user u st = st\<lparr>di_users := update_rows (\<lambda>v. us_id v = us_id u) (\<lambda>_. u) (di_users st)\<rparr>"

definition add_user :: "account \<Rightarrow> identity_store \<Rightarrow> identity_store" where
  "add_user u st = st\<lparr>di_users := di_users st @ [u], di_next := di_next st + 1\<rparr>"

definition jstrings :: "string list \<Rightarrow> json" where
  "jstrings xs = JList (map JStr xs)"

definition create_account ::
  "identity_env \<Rightarrow> identity_store \<Rightarrow> claims \<Rightarrow> int \<Rightarrow> string \<Rightarrow> string list \<Rightarrow> string \<Rightarrow> (identity_store \<times> account) res" where
  "create_account E st c org_id email groups default_role =
     (let role = resolve_role st (Some org_id) groups default_role
      in rbind (text_column (map_of c ''name'')) (\<lambda>name.
         let u = \<lparr>us_id = di_next st, us_organization_id = org_id, us_email = email, us_full_name = name,
                  us_role = (if role \<in> set VALID_ROLES then role else DEFAULT_ROLE), us_active = True, us_session_version = 0\<rparr>
         in Inr (audit_identity E email ''create'' (us_id u)
                   [(''event'', JStr ''jit_provision''), (''email'', JStr email), (''role'', JStr (us_role u)), (''groups'', jstrings groups)]
                   (Some (us_organization_id u)) (add_user u st), u)))"

text \<open>The mapped role is written when the claims carry groups.\<close>

definition apply_role ::
  "identity_env \<Rightarrow> identity_store \<Rightarrow> account \<Rightarrow> string \<Rightarrow> string list \<Rightarrow> string \<Rightarrow> identity_store \<times> account" where
  "apply_role E st u email groups default_role =
     (let mapped_role = resolve_role st (Some (us_organization_id u)) groups default_role;
          v = u\<lparr>us_role := mapped_role\<rparr>
      in if groups \<noteq> [] \<and> mapped_role \<in> set VALID_ROLES \<and> us_role u \<noteq> mapped_role
         then (audit_identity E email ''update'' (us_id u)
                 [(''event'', JStr ''role_change''), (''from'', JStr (us_role u)), (''to'', JStr mapped_role), (''groups'', jstrings groups)]
                 (Some (us_organization_id u)) (put_user v st), v)
         else (st, u))"

definition signed_in :: "datetime \<Rightarrow> claims \<Rightarrow> string \<Rightarrow> external_identity \<Rightarrow> external_identity" where
  "signed_in now c email x = x\<lparr>xi_claims := c, xi_email := Some email, xi_last_login_at := Some now\<rparr>"

definition new_identity :: "int \<Rightarrow> account \<Rightarrow> string \<Rightarrow> string \<Rightarrow> external_identity" where
  "new_identity i u provider subject =
     \<lparr>xi_id = i, xi_organization_id = Some (us_organization_id u), xi_user_id = us_id u, xi_provider = provider,
      xi_subject = subject, xi_email = None, xi_claims = [], xi_last_login_at = None\<rparr>"

definition add_identity :: "external_identity \<Rightarrow> identity_store \<Rightarrow> identity_store" where
  "add_identity x st = st\<lparr>di_identities := di_identities st @ [x], di_next := di_next st + 1\<rparr>"

definition touch_identity :: "int \<Rightarrow> (external_identity \<Rightarrow> external_identity) \<Rightarrow> identity_store \<Rightarrow> identity_store" where
  "touch_identity i f st = st\<lparr>di_identities := update_rows (\<lambda>x. xi_id x = i) f (di_identities st)\<rparr>"

definition link_identity ::
  "identity_env \<Rightarrow> identity_store \<Rightarrow> external_identity option \<Rightarrow> account \<Rightarrow> string \<Rightarrow> string \<Rightarrow> claims \<Rightarrow> string \<Rightarrow> identity_store" where
  "link_identity E st ident u provider subject c email =
     (case ident of
        None \<Rightarrow> add_identity (signed_in (ie_now E) c email (new_identity (di_next st) u provider subject)) st
      | Some x \<Rightarrow> touch_identity (xi_id x) (signed_in (ie_now E) c email) st)"

record oidc_settings =
  oc_allowed_domains :: "string list"
  oc_default_role :: string
  oc_jit :: bool
  oc_provider :: string
  oc_require_email_verified :: bool

text \<open>The refusals made before anything is looked up.\<close>

definition claims_refusal :: "oidc_settings \<Rightarrow> claims \<Rightarrow> string \<Rightarrow> string \<Rightarrow> py_error option" where
  "claims_refusal S c email subject =
     (if email = [] \<or> subject = []
      then Some (ProvisioningError (fstr [''OIDC claims missing required '', [CHR 0x27], ''email'', [CHR 0x27, CHR 0x2F, CHR 0x27], ''sub'', [CHR 0x27]]))
      else if \<not> domain_allowed email (oc_allowed_domains S)
      then Some (ProvisioningError (fstr [''email domain not allowed: '', email]))
      else if \<not> email_verification_ok c (oc_require_email_verified S)
      then Some (ProvisioningError (fstr [''the identity provider has not verified '', email, ''; it cannot be used '',
             ''to create or sign in to an account'']))
      else None)"

definition subject_of :: "claims \<Rightarrow> string" where
  "subject_of c = strip (case map_of c ''sub'' of None \<Rightarrow> [] | Some v \<Rightarrow> if truthy v then py_str v else [])"

definition provision_from_oidc ::
  "identity_env \<Rightarrow> oidc_settings \<Rightarrow> identity_store \<Rightarrow> claims \<Rightarrow> int \<Rightarrow> (identity_store \<times> account \<times> bool) res" where
  "provision_from_oidc E S st c org_id =
     rbind (stripped_text (map_of c ''email'')) (\<lambda>raw_email.
       let email = lower raw_email; subject = subject_of c; groups = extract_groups c
       in case claims_refusal S c email subject of
            Some e \<Rightarrow> Inl e
          | None \<Rightarrow>
              rbind (find_identity st (oc_provider S) subject) (\<lambda>ident.
              rbind (existing_user st ident email) (\<lambda>found.
              rbind (case found of
                       Some u \<Rightarrow> Inr ((st, u), False)
                     | None \<Rightarrow>
                         if \<not> oc_jit S then Inl (ProvisioningError ''no matching account and JIT provisioning disabled'')
                         else rbind (create_account E st c org_id email groups (oc_default_role S)) (\<lambda>r. Inr (r, True)))
                (\<lambda>((st1, u), created).
                  if \<not> us_active u then Inl (ProvisioningError ''account is deactivated'')
                  else case apply_role E st1 u email groups (oc_default_role S) of
                         (st2, v) \<Rightarrow> Inr (link_identity E st2 ident v (oc_provider S) subject c email, v, created)))))"

section \<open>Target organisation\<close>

text \<open>\<open>_sso_provisioning_org\<close> and \<open>_scim_target_org\<close>: the configured one, else the only one, created if there is none.\<close>

definition target_org :: "string \<Rightarrow> string \<Rightarrow> int option \<Rightarrow> identity_store \<Rightarrow> (identity_store \<times> int) res" where
  "target_org setting ambiguous configured st =
     (case configured of
        Some i \<Rightarrow> if i \<in> set (di_orgs st) then Inr (st, i)
                  else Inl (HTTPException 500 (fstr [setting, ''='', str_of_int i, '' does not match any organization'']))
      | None \<Rightarrow>
          (case di_orgs st of
             [i] \<Rightarrow> Inr (st, i)
           | [] \<Rightarrow> Inr (st\<lparr>di_orgs := [di_next st], di_next := di_next st + 1\<rparr>, di_next st)
           | _ \<Rightarrow> Inl (HTTPException 500 ambiguous)))"

definition sso_provisioning_org :: "int option \<Rightarrow> identity_store \<Rightarrow> (identity_store \<times> int) res" where
  "sso_provisioning_org = target_org ''CCF_OIDC_ORGANIZATION_ID''
     (fstr [''this deployment has more than one organization and CCF_OIDC_ORGANIZATION_ID '',
        ''is not set, so there is nothing to say which tenant a newly provisioned '', ''single-sign-on user belongs to''])"

definition scim_target_org :: "int option \<Rightarrow> identity_store \<Rightarrow> (identity_store \<times> int) res" where
  "scim_target_org = target_org ''CCF_SCIM_ORGANIZATION_ID''
     (fstr [''SCIM target organization is ambiguous: this deployment has more than one '',
        ''organization and CCF_SCIM_ORGANIZATION_ID is not set, so nothing in the '', ''request says which one this token provisions into''])"

text \<open>The callback, from the claims the token endpoint returned.\<close>

definition forbidden :: "'a res \<Rightarrow> 'a res" where
  "forbidden r =
     (case r of
        Inl (ProvisioningError msg) \<Rightarrow> Inl (HTTPException 403 msg)
      | Inl (ProvisioningConflictError msg) \<Rightarrow> Inl (HTTPException 403 msg)
      | Inl (PivNotLinkedError msg) \<Rightarrow> Inl (HTTPException 403 msg)
      | _ \<Rightarrow> r)"

definition sso_callback ::
  "identity_env \<Rightarrow> oidc_settings \<Rightarrow> int option \<Rightarrow> identity_store \<Rightarrow> claims \<Rightarrow> (identity_store \<times> account \<times> bool) res" where
  "sso_callback E S configured st c =
     rbind (sso_provisioning_org configured st) (\<lambda>(st', org_id). forbidden (provision_from_oidc E S st' c org_id))"

section \<open>SCIM\<close>

definition scim_email :: "claims \<Rightarrow> string option" where
  "scim_email payload =
     (case map_of payload ''userName'' of
        Some v \<Rightarrow> if truthy v then Some (lower (strip (py_str v))) else None
      | None \<Rightarrow> None)"

text \<open>The first of the emails when there is no user name. An \<open>emails\<close> that is true but no list or object
  cannot be indexed by 0; a string's first character is no object.\<close>

definition scim_emails_first :: "claims \<Rightarrow> string option res" where
  "scim_emails_first payload =
     (case map_of payload ''emails'' of
        None \<Rightarrow> Inr None
      | Some v \<Rightarrow>
          if \<not> truthy v then Inr None
          else (case v of
                  JList (JObj d # _) \<Rightarrow>
                    Inr (case map_of d ''value'' of None \<Rightarrow> None
                         | Some x \<Rightarrow> if truthy x then Some (lower (strip (py_str x))) else None)
                | JList _ \<Rightarrow> Inr None
                | JStr _ \<Rightarrow> Inr None
                | JObj _ \<Rightarrow> Inl (KeyError ''0'')
                | _ \<Rightarrow> Inl (TypeError ''object is not subscriptable'')))"

definition scim_email_of :: "claims \<Rightarrow> string option res" where
  "scim_email_of payload = (case scim_email payload of Some e \<Rightarrow> Inr (Some e) | None \<Rightarrow> scim_emails_first payload)"

text \<open>\<open>(payload.get("name") or {}).get("formatted") or payload.get("displayName")\<close>.\<close>

definition scim_name :: "claims \<Rightarrow> json option res" where
  "scim_name payload =
     (let formatted =
        (case map_of payload ''name'' of
           None \<Rightarrow> Inr None
         | Some v \<Rightarrow> if \<not> truthy v then Inr None
                     else (case v of JObj d \<Rightarrow> Inr (map_of d ''formatted'') | _ \<Rightarrow> Inl (AttributeError ''get'')))
      in rbind formatted (\<lambda>f. Inr (case f of
           Some x \<Rightarrow> if truthy x then Some x else map_of payload ''displayName''
         | None \<Rightarrow> map_of payload ''displayName'')))"

definition add_scim_event :: "scim_event \<Rightarrow> identity_store \<Rightarrow> identity_store" where
  "add_scim_event e st = st\<lparr>di_scim_events := di_scim_events st @ [e], di_next := di_next st + 1\<rparr>"

definition scim_saved :: "account \<Rightarrow> string option \<Rightarrow> bool \<Rightarrow> account" where
  "scim_saved u name active =
     (case name of
        Some s \<Rightarrow> if s = [] then u\<lparr>us_active := active\<rparr> else u\<lparr>us_full_name := Some s, us_active := active\<rparr>
      | None \<Rightarrow> u\<lparr>us_active := active\<rparr>)"

text \<open>A name that is false in Python leaves the full name alone, whatever its type.\<close>

definition name_column :: "json option \<Rightarrow> string option res" where
  "name_column v = (case v of None \<Rightarrow> Inr None | Some x \<Rightarrow> if truthy x then text_column v else Inr None)"

definition scim_create_or_update_user ::
  "identity_env \<Rightarrow> identity_store \<Rightarrow> int \<Rightarrow> claims \<Rightarrow> (identity_store \<times> account \<times> bool) res" where
  "scim_create_or_update_user E st org_id payload =
     rbind (scim_email_of payload) (\<lambda>found_email.
       case found_email of
         None \<Rightarrow> Inl (ProvisioningError ''SCIM payload missing userName/emails'')
       | Some email \<Rightarrow>
           if email = [] then Inl (ProvisioningError ''SCIM payload missing userName/emails'') else
           rbind (scim_name payload) (\<lambda>name.
           let active = truthy (get_default payload ''active'' (JBool True)) in
           rbind (user_by_email st email) (\<lambda>found.
           rbind (case found of
                    Some u \<Rightarrow>
                      if us_organization_id u \<noteq> org_id
                      then Inl (ProvisioningConflictError (fstr [email, '' already belongs to another organization; SCIM will not '',
                             ''modify a user outside the organization it provisions into'']))
                      else rbind (name_column name) (\<lambda>full_name.
                             let v = scim_saved u full_name active in Inr (put_user v st, v, False))
                  | None \<Rightarrow>
                      rbind (text_column name) (\<lambda>full_name.
                        let u = \<lparr>us_id = di_next st, us_organization_id = org_id, us_email = email, us_full_name = full_name,
                                 us_role = DEFAULT_ROLE, us_active = active, us_session_version = 0\<rparr>
                        in Inr (add_user u st, u, True)))
             (\<lambda>(st1, u, created).
           rbind (text_column (map_of payload ''externalId'')) (\<lambda>external_id.
             let operation = (if created then ''create'' else ''update'') in
             Inr (audit_identity E ''scim'' operation (us_id u)
                    [(''event'', JStr ''scim_provision''), (''email'', JStr email), (''active'', JBool active)] (Some (us_organization_id u))
                    (add_scim_event \<lparr>se_id = di_next st1, se_organization_id = Some org_id, se_operation = operation,
                        se_external_id = external_id, se_email = Some email, se_user_id = Some (us_id u),
                        se_detail = [(''active'', JBool active)]\<rparr> st1),
                  u, created))))))"

definition scim_deactivate_user :: "identity_env \<Rightarrow> identity_store \<Rightarrow> int \<Rightarrow> account \<Rightarrow> identity_store" where
  "scim_deactivate_user E st org_id u =
     audit_identity E ''scim'' ''update'' (us_id u)
       [(''event'', JStr ''scim_deactivate''), (''email'', JStr (us_email u))] (Some (us_organization_id u))
       (add_scim_event \<lparr>se_id = di_next st, se_organization_id = Some org_id, se_operation = ''deactivate'', se_external_id = None,
            se_email = Some (us_email u), se_user_id = Some (us_id u), se_detail = []\<rparr>
          (put_user (u\<lparr>us_active := False\<rparr>) st))"

section \<open>SCIM endpoints\<close>

record scim_settings =
  sc_enabled :: bool
  sc_bearer_token :: "string option"
  sc_organization_id :: "int option"

definition bearer :: "string \<Rightarrow> string" where
  "bearer authorization = (if is_prefix_of ''bearer '' (lower authorization) then strip (drop 7 authorization) else [])"

definition scim_org :: "scim_settings \<Rightarrow> identity_store \<Rightarrow> string \<Rightarrow> (identity_store \<times> int) res" where
  "scim_org S st authorization =
     (case sc_bearer_token S of
        None \<Rightarrow> Inl (HTTPException 404 ''SCIM is not enabled'')
      | Some token \<Rightarrow>
          if \<not> sc_enabled S \<or> token = [] then Inl (HTTPException 404 ''SCIM is not enabled'')
          else rbind (compare_digest (bearer authorization) token) (\<lambda>same.
                 if \<not> same then Inl (HTTPException 401 ''invalid SCIM token'') else scim_target_org (sc_organization_id S) st))"

definition scim_refusal :: "'a res \<Rightarrow> 'a res" where
  "scim_refusal r =
     (case r of
        Inl (ProvisioningConflictError msg) \<Rightarrow> Inl (HTTPException 409 msg)
      | Inl (ProvisioningError msg) \<Rightarrow> Inl (HTTPException 400 msg)
      | _ \<Rightarrow> r)"

definition route_scim_create ::
  "identity_env \<Rightarrow> scim_settings \<Rightarrow> identity_store \<Rightarrow> string \<Rightarrow> claims \<Rightarrow> (identity_store \<times> account \<times> bool) res" where
  "route_scim_create E S st authorization payload =
     rbind (scim_org S st authorization) (\<lambda>(st1, org_id). scim_refusal (scim_create_or_update_user E st1 org_id payload))"

definition scim_user_in_org :: "identity_store \<Rightarrow> int \<Rightarrow> int \<Rightarrow> account res" where
  "scim_user_in_org st user_id org_id =
     (case user_by_id st user_id of
        Some u \<Rightarrow> if us_organization_id u = org_id then Inr u else Inl (HTTPException 404 ''user not found'')
      | None \<Rightarrow> Inl (HTTPException 404 ''user not found''))"

text \<open>An operation names the flag by its path; others are passed over, and so is a value that is neither a
  boolean nor a string.\<close>

definition operation_active :: "json \<Rightarrow> bool option" where
  "operation_active oper =
     (case oper of
        JObj d \<Rightarrow>
          if lower (py_str (get_default d ''path'' (JStr []))) = ''active''
          then (case map_of d ''value'' of
                  Some (JBool b) \<Rightarrow> Some b
                | Some (JStr s) \<Rightarrow> Some (lower (strip s) = ''true'')
                | _ \<Rightarrow> None)
          else None
      | _ \<Rightarrow> None)"

definition scim_active :: "claims \<Rightarrow> bool option res" where
  "scim_active payload =
     (case map_of payload ''active'' of
        Some v \<Rightarrow> Inr (Some (truthy v))
      | None \<Rightarrow>
          (case get_default payload ''Operations'' (JList []) of
             JList opers \<Rightarrow> Inr (first_row (List.map_filter operation_active opers))
           | JObj _ \<Rightarrow> Inr None
           | JStr _ \<Rightarrow> Inr None
           | _ \<Rightarrow> Inl (TypeError ''object is not iterable'')))"

definition merged_payload :: "claims \<Rightarrow> string \<Rightarrow> bool option \<Rightarrow> claims" where
  "merged_payload payload email active =
     (let merged = AList.update ''userName'' (JStr email) payload
      in if active = Some True then AList.update ''active'' (JBool True) merged else merged)"

definition route_scim_update ::
  "identity_env \<Rightarrow> scim_settings \<Rightarrow> identity_store \<Rightarrow> string \<Rightarrow> int \<Rightarrow> claims \<Rightarrow> identity_store res" where
  "route_scim_update E S st authorization user_id payload =
     rbind (scim_org S st authorization) (\<lambda>(st1, org_id).
     rbind (scim_user_in_org st1 user_id org_id) (\<lambda>u.
     rbind (scim_active payload) (\<lambda>active.
       if active = Some False then Inr (scim_deactivate_user E st1 org_id u)
       else rbind (scim_create_or_update_user E st1 org_id (merged_payload payload (us_email u) active)) (\<lambda>(st2, _, _). Inr st2))))"

definition route_scim_delete :: "identity_env \<Rightarrow> scim_settings \<Rightarrow> identity_store \<Rightarrow> string \<Rightarrow> int \<Rightarrow> identity_store res" where
  "route_scim_delete E S st authorization user_id =
     rbind (scim_org S st authorization) (\<lambda>(st1, org_id).
     rbind (scim_user_in_org st1 user_id org_id) (\<lambda>u. Inr (scim_deactivate_user E st1 org_id u)))"

section \<open>Certificates\<close>

definition user_for_certificate :: "identity_env \<Rightarrow> identity_store \<Rightarrow> string \<Rightarrow> (identity_store \<times> account) res" where
  "user_for_certificate E st subject =
     rbind (find_identity st PIV_PROVIDER subject) (\<lambda>ident.
       case ident of
         None \<Rightarrow> Inl (PivNotLinkedError (fstr [''this certificate ('', subject, '') is valid but is not linked to '',
                   ''a Concord account; an administrator must link it'']))
       | Some x \<Rightarrow>
           (case user_by_id st (xi_user_id x) of
              None \<Rightarrow> Inl (PivNotLinkedError (fstr [''this certificate ('', subject, '') is linked to an account that '', ''no longer exists'']))
            | Some u \<Rightarrow>
                if \<not> us_active u then Inl (ProvisioningError ''account is deactivated'')
                else Inr (touch_identity (xi_id x) (\<lambda>y. y\<lparr>xi_last_login_at := Some (ie_now E)\<rparr>) st, u)))"

record piv_request =
  pq_peer :: "string option"
  pq_verify :: "string option"
  pq_certificate :: "string option"

record piv_settings =
  pv_enabled :: bool
  pv_trusted_proxies :: "string list"
  pv_peer_matches :: "string \<Rightarrow> string \<Rightarrow> bool"
  pv_identity_from_pem :: "string \<Rightarrow> string res"

text \<open>\<open>pv_peer_matches\<close> is a valid address lying in a valid network; \<open>pv_identity_from_pem\<close> reads the subject off
  the header's text, the URL decoding included.\<close>

definition peer_is_trusted :: "piv_settings \<Rightarrow> string option \<Rightarrow> bool" where
  "peer_is_trusted S peer \<longleftrightarrow>
     (case peer of
        None \<Rightarrow> False
      | Some p \<Rightarrow> p \<noteq> [] \<and> list_ex (\<lambda>raw. strip raw \<noteq> [] \<and> pv_peer_matches S p (strip raw)) (pv_trusted_proxies S))"

definition piv_login :: "identity_env \<Rightarrow> piv_settings \<Rightarrow> identity_store \<Rightarrow> piv_request \<Rightarrow> (identity_store \<times> account) option res" where
  "piv_login E S st rq =
     (if \<not> pv_enabled S then Inr None
      else if pv_trusted_proxies S = []
      then Inl (HTTPException 500 (fstr [''PIV is enabled but CCF_PIV_TRUSTED_PROXIES is empty; Concord will not '',
             ''read client-certificate headers from an unrestricted set of peers'']))
      else if \<not> peer_is_trusted S (pq_peer rq) then Inl (HTTPException 404 ''not found'')
      else if upper (strip (case pq_verify rq of None \<Rightarrow> [] | Some s \<Rightarrow> s)) \<noteq> ''SUCCESS''
      then Inl (HTTPException 401 ''the client certificate was not verified upstream'')
      else case pq_certificate rq of
             None \<Rightarrow> Inl (HTTPException 401 ''no client certificate was presented'')
           | Some pem \<Rightarrow>
               if pem = [] then Inl (HTTPException 401 ''no client certificate was presented'')
               else case pv_identity_from_pem S pem of
                      Inl (PivError msg) \<Rightarrow> Inl (HTTPException 401 msg)
                    | Inl e \<Rightarrow> Inl e
                    | Inr subject \<Rightarrow> rbind (forbidden (user_for_certificate E st subject)) (\<lambda>r. Inr (Some r)))"

section \<open>Administration\<close>

text \<open>What a session bound to an organisation sees of the links.\<close>

definition sees_identity :: "caller \<Rightarrow> external_identity \<Rightarrow> bool" where
  "sees_identity who x \<longleftrightarrow> is_global who \<or> xi_organization_id x = pr_org_id who \<or> xi_organization_id x = None"

definition actor_name :: "caller \<Rightarrow> string" where
  "actor_name who = (if pr_email who = [] then ''admin'' else pr_email who)"

definition create_piv_link ::
  "identity_env \<Rightarrow> (string \<Rightarrow> string res) \<Rightarrow> identity_store \<Rightarrow> caller \<Rightarrow> int \<Rightarrow> string option \<Rightarrow> string option \<Rightarrow> identity_store res" where
  "create_piv_link E from_pem st who user_id pem given =
     rbind (require_role [''admin''] who) (\<lambda>_.
     rbind (case pem of
              Some p \<Rightarrow>
                if p \<noteq> [] then (case from_pem p of Inl (PivError msg) \<Rightarrow> Inl (HTTPException 422 msg) | r \<Rightarrow> r)
                else (case given of Some s \<Rightarrow> if s \<noteq> [] then Inr (strip s) else Inl (HTTPException 422 ''provide certificate_pem or subject'')
                      | None \<Rightarrow> Inl (HTTPException 422 ''provide certificate_pem or subject''))
            | None \<Rightarrow>
                (case given of Some s \<Rightarrow> if s \<noteq> [] then Inr (strip s) else Inl (HTTPException 422 ''provide certificate_pem or subject'')
                 | None \<Rightarrow> Inl (HTTPException 422 ''provide certificate_pem or subject''))) (\<lambda>subject.
       if subject = [] then Inl (HTTPException 422 ''the certificate carries an empty subject'')
       else case user_by_id st user_id of
              None \<Rightarrow> Inl (HTTPException 404 ''user not found'')
            | Some u \<Rightarrow>
                if \<not> in_org who (Some (us_organization_id u)) then Inl (HTTPException 404 ''user not found'')
                else rbind (one_or_none (filter (\<lambda>x. sees_identity who x \<and> xi_provider x = PIV_PROVIDER \<and> xi_subject x = subject)
                              (di_identities st))) (\<lambda>existing.
                  case existing of
                    Some x \<Rightarrow> if xi_user_id x = user_id then Inr st
                              else Inl (HTTPException 409 ''that certificate is already linked to an account'')
                  | None \<Rightarrow>
                      if list_ex (\<lambda>x. xi_provider x = PIV_PROVIDER \<and> xi_subject x = subject) (di_identities st)
                      then Inl (HTTPException 409 ''that certificate is already linked to an account'')
                      else Inr (audit_identity E (actor_name who) ''create'' (us_id u)
                             [(''event'', JStr ''piv_link''), (''subject'', JStr subject)] (Some (us_organization_id u))
                             (add_identity (new_identity (di_next st) u PIV_PROVIDER subject) st)))))"

definition delete_piv_link :: "identity_env \<Rightarrow> identity_store \<Rightarrow> caller \<Rightarrow> int \<Rightarrow> identity_store res" where
  "delete_piv_link E st who link_id =
     rbind (require_role [''admin''] who) (\<lambda>_.
       case first_row (filter (\<lambda>x. xi_id x = link_id) (di_identities st)) of
         None \<Rightarrow> Inl (HTTPException 404 ''link not found'')
       | Some x \<Rightarrow>
           if xi_provider x \<noteq> PIV_PROVIDER \<or> \<not> in_org who (xi_organization_id x)
           then Inl (HTTPException 404 ''link not found'')
           else Inr (audit_identity E (actor_name who) ''delete'' (xi_user_id x)
                  [(''event'', JStr ''piv_unlink''), (''subject'', JStr (xi_subject x))] (xi_organization_id x)
                  (st\<lparr>di_identities := filter (\<lambda>y. xi_id y \<noteq> link_id) (di_identities st)\<rparr>)))"

definition create_mapping :: "identity_store \<Rightarrow> caller \<Rightarrow> string \<Rightarrow> string \<Rightarrow> int \<Rightarrow> identity_store res" where
  "create_mapping st who grp role priority =
     rbind (require_role [''admin''] who) (\<lambda>_.
       if role \<notin> set VALID_ROLES then Inl (HTTPException 422 ''invalid role'')
       else if list_ex (\<lambda>m. gm_group m = grp \<and> pr_org_id who \<noteq> None \<and> gm_organization_id m = pr_org_id who) (di_mappings st)
       then Inl (IntegrityError ''uq_group_role_mapping'')
       else Inr (st\<lparr>di_mappings := di_mappings st @ [\<lparr>gm_id = di_next st, gm_organization_id = pr_org_id who, gm_group = grp,
                     gm_role = role, gm_priority = priority\<rparr>], di_next := di_next st + 1\<rparr>))"

definition delete_mapping :: "identity_store \<Rightarrow> caller \<Rightarrow> int \<Rightarrow> identity_store res" where
  "delete_mapping st who mapping_id =
     rbind (require_role [''admin''] who) (\<lambda>_.
       Inr (case first_row (filter (\<lambda>m. gm_id m = mapping_id) (di_mappings st)) of
              None \<Rightarrow> st
            | Some m \<Rightarrow> if in_org who (gm_organization_id m)
                        then st\<lparr>di_mappings := filter (\<lambda>m. gm_id m \<noteq> mapping_id) (di_mappings st)\<rparr> else st))"

end
