(* ===== verification/Provisioning_Laws.thy ===== *)
theory Provisioning_Laws
  imports Provisioning
begin

text \<open>
  What holds of federated identity: the links always lead to an account of their own organisation, what a
  successful sign-in did, what SCIM cannot reach, and how a deprovisioning request is lost.
\<close>

section \<open>The tables\<close>

definition link_key :: "external_identity \<Rightarrow> string \<times> string" where
  "link_key x = (xi_provider x, xi_subject x)"

definition account_ok :: "identity_store \<Rightarrow> account \<Rightarrow> bool" where
  "account_ok st u \<longleftrightarrow> us_id u < di_next st \<and> us_role u \<in> set VALID_ROLES"

definition leads_to :: "account list \<Rightarrow> external_identity \<Rightarrow> bool" where
  "leads_to us x \<longleftrightarrow> list_ex (\<lambda>u. us_id u = xi_user_id x \<and> xi_organization_id x = Some (us_organization_id u)) us"

definition identities_inv :: "identity_store \<Rightarrow> bool" where
  "identities_inv st \<longleftrightarrow>
     distinct (map us_id (di_users st)) \<and> distinct (map us_email (di_users st)) \<and> list_all (account_ok st) (di_users st) \<and>
     distinct (map link_key (di_identities st)) \<and> distinct (map xi_id (di_identities st)) \<and>
     list_all (\<lambda>x. xi_id x < di_next st \<and> leads_to (di_users st) x) (di_identities st)"

lemma list_all_mono: "list_all P xs \<Longrightarrow> (\<And>x. x \<in> set xs \<Longrightarrow> P x \<Longrightarrow> Q x) \<Longrightarrow> list_all Q xs"
  by (simp add: list_all_iff)

lemma inv_cong:
  assumes "identities_inv st" "di_users st' = di_users st" "di_identities st' = di_identities st" "di_next st \<le> di_next st'"
  shows "identities_inv st'"
  using assms by (auto simp: identities_inv_def account_ok_def list_all_iff)

lemma leads_to_ids:
  assumes "leads_to us x" "map us_id vs = map us_id us" "map us_organization_id vs = map us_organization_id us"
  shows "leads_to vs x"
proof -
  have z: "leads_to ws x = list_ex (\<lambda>(i, org). i = xi_user_id x \<and> xi_organization_id x = Some org) (zip (map us_id ws) (map us_organization_id ws))" for ws
    by (induction ws) (simp_all add: leads_to_def)
  show ?thesis using assms(1) unfolding z assms(2,3) .
qed

lemma map_same_rows:
  assumes "\<And>v. v \<in> set us \<Longrightarrow> us_id v = us_id u \<Longrightarrow> g v = g u"
  shows "map g (update_rows (\<lambda>v. us_id v = us_id u) (\<lambda>_. u) us) = map g us"
  using assms by (auto simp: update_rows_def)

lemma same_id_same_row:
  assumes "identities_inv st" "u \<in> set (di_users st)" "v \<in> set (di_users st)" "us_id u = us_id v"
  shows "u = v"
  using assms by (auto simp: identities_inv_def distinct_map dest: inj_onD)

lemma inv_put_user:
  assumes I: "identities_inv st" and u: "u \<in> set (di_users st)"
    and v: "us_id v = us_id u" "us_organization_id v = us_organization_id u" "us_email v = us_email u" "us_role v \<in> set VALID_ROLES"
  shows "identities_inv (put_user v st)"
proof -
  have g: "map g (update_rows (\<lambda>w. us_id w = us_id v) (\<lambda>_. v) (di_users st)) = map g (di_users st)" if "g v = g u" for g :: "account \<Rightarrow> 'a"
    using same_id_same_row [OF I u] v(1) that by (intro map_same_rows) metis
  have "list_all (account_ok st) (update_rows (\<lambda>w. us_id w = us_id v) (\<lambda>_. v) (di_users st))"
    using I u v(1,4) by (auto simp: identities_inv_def list_all_iff account_ok_def set_update_rows)
  then show ?thesis
    using I leads_to_ids [OF _ g [OF v(1)] g [OF v(2)]] g [OF v(1)] g [OF v(3)]
    by (auto simp: identities_inv_def put_user_def account_ok_def list_all_iff)
qed

lemma inv_add_user:
  assumes I: "identities_inv st" and u: "us_id u = di_next st" "us_role u \<in> set VALID_ROLES" "us_email u \<notin> us_email ` set (di_users st)"
  shows "identities_inv (add_user u st)"
proof -
  have "us_id u \<notin> us_id ` set (di_users st)" using I u(1) by (auto simp: identities_inv_def list_all_iff account_ok_def)
  then show ?thesis using I u
    by (auto simp: identities_inv_def add_user_def account_ok_def list_all_iff leads_to_def)
qed

lemma user_by_id_in: "user_by_id st i = Some u \<Longrightarrow> u \<in> set (di_users st) \<and> us_id u = i"
  using first_row_filter [of "\<lambda>u. us_id u = i" "di_users st" u] by (simp add: user_by_id_def)

lemma user_by_email_in: "user_by_email st e = Inr (Some u) \<Longrightarrow> u \<in> set (di_users st) \<and> us_email u = e"
  using Cons_eq_filterD [of u "[]" "\<lambda>u. us_email u = e" "di_users st"] by (auto simp: user_by_email_def)

lemma user_by_email_none: "user_by_email st e = Inr None \<Longrightarrow> e \<notin> us_email ` set (di_users st)"
  by (auto simp: user_by_email_def filter_empty_conv)

lemma find_identity_in:
  "find_identity st p s = Inr (Some x) \<Longrightarrow> x \<in> set (di_identities st) \<and> xi_provider x = p \<and> xi_subject x = s"
  using Cons_eq_filterD [of x "[]" "\<lambda>x. xi_provider x = p \<and> xi_subject x = s" "di_identities st"] by (auto simp: find_identity_def)

lemma find_identity_none:
  "find_identity st p s = Inr None \<Longrightarrow> (p, s) \<notin> link_key ` set (di_identities st)"
  by (auto simp: find_identity_def filter_empty_conv link_key_def)

lemma find_identity_found:
  assumes I: "identities_inv st" and x: "x \<in> set (di_identities st)"
  shows "find_identity st (xi_provider x) (xi_subject x) = Inr (Some x)"
proof -
  let ?P = "\<lambda>y. xi_provider y = xi_provider x \<and> xi_subject y = xi_subject x"
  have "length (filter ?P (di_identities st)) \<le> 1"
    using I by (intro distinct_filter_le1 [where f = link_key and c = "link_key x"]) (auto simp: identities_inv_def link_key_def)
  moreover have "x \<in> set (filter ?P (di_identities st))" using x by simp
  ultimately have "filter ?P (di_identities st) = [x]"
    by (cases "filter ?P (di_identities st)") auto
  then show ?thesis by (simp add: find_identity_def)
qed

lemma linked_user:
  assumes I: "identities_inv st" and x: "x \<in> set (di_identities st)"
  obtains u where "user_by_id st (xi_user_id x) = Some u" "u \<in> set (di_users st)" "us_id u = xi_user_id x"
    "xi_organization_id x = Some (us_organization_id u)"
proof -
  obtain v where v: "v \<in> set (di_users st)" "us_id v = xi_user_id x" "xi_organization_id x = Some (us_organization_id v)"
    using I x by (auto simp: identities_inv_def list_all_iff leads_to_def list_ex_iff)
  then have "filter (\<lambda>u. us_id u = xi_user_id x) (di_users st) \<noteq> []" by (auto simp: filter_empty_conv)
  then obtain u where u: "user_by_id st (xi_user_id x) = Some u"
    by (cases "filter (\<lambda>u. us_id u = xi_user_id x) (di_users st)") (auto simp: user_by_id_def)
  have "u = v" using user_by_id_in [OF u] v same_id_same_row [OF I] by metis
  then show thesis using that [OF u] v by simp
qed

lemma inv_add_identity:
  assumes I: "identities_inv st" and x: "xi_id x = di_next st" "link_key x \<notin> link_key ` set (di_identities st)" "leads_to (di_users st) x"
  shows "identities_inv (add_identity x st)"
  using assms by (auto simp: identities_inv_def add_identity_def account_ok_def list_all_iff)

lemma inv_touch_identity:
  assumes I: "identities_inv st"
    and f: "\<And>x. link_key (f x) = link_key x \<and> xi_id (f x) = xi_id x \<and> xi_user_id (f x) = xi_user_id x \<and> xi_organization_id (f x) = xi_organization_id x"
  shows "identities_inv (touch_identity i f st)"
proof -
  have "leads_to us (f x) = leads_to us x" for us x using f by (simp add: leads_to_def)
  then show ?thesis using I f
    by (auto simp: identities_inv_def touch_identity_def account_ok_def list_all_iff set_update_rows)
qed

lemma audit_identity_sel [simp]:
  "di_users (audit_identity E a b c d e st) = di_users st"
  "di_identities (audit_identity E a b c d e st) = di_identities st"
  "di_mappings (audit_identity E a b c d e st) = di_mappings st"
  "di_orgs (audit_identity E a b c d e st) = di_orgs st"
  "di_next (audit_identity E a b c d e st) = di_next st"
  by (simp_all add: audit_identity_def)

lemma table_sel [simp]:
  "di_users (put_user u st) = update_rows (\<lambda>v. us_id v = us_id u) (\<lambda>_. u) (di_users st)"
  "di_identities (put_user u st) = di_identities st" "di_mappings (put_user u st) = di_mappings st" "di_next (put_user u st) = di_next st"
  "di_users (add_user u st) = di_users st @ [u]" "di_identities (add_user u st) = di_identities st"
  "di_mappings (add_user u st) = di_mappings st" "di_next (add_user u st) = di_next st + 1"
  "di_users (add_identity x st) = di_users st" "di_identities (add_identity x st) = di_identities st @ [x]"
  "di_users (touch_identity i f st) = di_users st"
  "di_identities (touch_identity i f st) = update_rows (\<lambda>x. xi_id x = i) f (di_identities st)"
  "di_users (add_scim_event v st) = di_users st" "di_identities (add_scim_event v st) = di_identities st"
  "di_mappings (add_scim_event v st) = di_mappings st" "di_next (add_scim_event v st) = di_next st + 1"
  by (simp_all add: put_user_def add_user_def add_identity_def touch_identity_def add_scim_event_def)

lemma inv_audit [simp]: "identities_inv (audit_identity E a b c d e st) = identities_inv st"
  by (simp add: identities_inv_def account_ok_def [abs_def])

lemma inv_scim_event: "identities_inv st \<Longrightarrow> identities_inv (add_scim_event v st)"
  by (rule inv_cong [of st]) simp_all

section \<open>Signing in\<close>

lemma oidc_cases:
  assumes "provision_from_oidc E S st c org = Inr (st', u, created)"
  obtains raw ident found st1 st2 v where "stripped_text (map_of c ''email'') = Inr raw"
    "claims_refusal S c (lower raw) (subject_of c) = None" "find_identity st (oc_provider S) (subject_of c) = Inr ident"
    "existing_user st ident (lower raw) = Inr found"
    "(case found of Some w \<Rightarrow> v = w \<and> st1 = st \<and> \<not> created
      | None \<Rightarrow> oc_jit S \<and> created \<and> create_account E st c org (lower raw) (extract_groups c) (oc_default_role S) = Inr (st1, v))"
    "us_active v" "apply_role E st1 v (lower raw) (extract_groups c) (oc_default_role S) = (st2, u)"
    "st' = link_identity E st2 ident u (oc_provider S) (subject_of c) c (lower raw)"
proof -
  note A = assms [unfolded provision_from_oidc_def Let_def]
  obtain raw where raw: "stripped_text (map_of c ''email'') = Inr raw"
    using A by (cases "stripped_text (map_of c ''email'')") simp_all
  have no: "claims_refusal S c (lower raw) (subject_of c) = None"
    using A by (cases "claims_refusal S c (lower raw) (subject_of c)") (simp_all add: raw)
  obtain ident where ident: "find_identity st (oc_provider S) (subject_of c) = Inr ident"
    using A by (cases "find_identity st (oc_provider S) (subject_of c)") (simp_all add: raw no)
  obtain found where found: "existing_user st ident (lower raw) = Inr found"
    using A by (cases "existing_user st ident (lower raw)") (simp_all add: raw no ident)
  show thesis
  proof (cases found)
    case None
    have jit: "oc_jit S" using A by (cases "oc_jit S") (simp_all add: raw no ident found None)
    obtain st1 v where mk: "create_account E st c org (lower raw) (extract_groups c) (oc_default_role S) = Inr (st1, v)"
      using A jit by (cases "create_account E st c org (lower raw) (extract_groups c) (oc_default_role S)")
        (auto simp: raw no ident found None)
    have act: "us_active v" using A jit by (cases "us_active v") (simp_all add: raw no ident found None mk)
    obtain st2 w where r: "apply_role E st1 v (lower raw) (extract_groups c) (oc_default_role S) = (st2, w)" by fastforce
    have "w = u" "st' = link_identity E st2 ident w (oc_provider S) (subject_of c) c (lower raw)" created
      using A jit act by (auto simp: raw no ident found None mk r)
    then show thesis using that [OF raw no ident found, of st1 v st2] None jit mk act r by simp
  next
    case (Some v)
    have act: "us_active v" using A by (cases "us_active v") (simp_all add: raw no ident found Some)
    obtain st2 w where r: "apply_role E st v (lower raw) (extract_groups c) (oc_default_role S) = (st2, w)" by fastforce
    have "w = u" "st' = link_identity E st2 ident w (oc_provider S) (subject_of c) c (lower raw)" "\<not> created"
      using A act by (auto simp: raw no ident found Some r)
    then show thesis using that [OF raw no ident found, of st v st2] Some act r by simp
  qed
qed

lemma resolve_role_origin:
  "resolve_role st (Some org) gs d = d \<or>
     (\<exists>m \<in> set (di_mappings st). gm_organization_id m = Some org \<and> gm_group m \<in> set gs \<and> resolve_role st (Some org) gs d = gm_role m)"
proof (cases "first_row (sort_key gm_priority (sort_key gm_id (filter (mapping_applies (Some org) gs) (di_mappings st))))")
  case (Some m)
  then have "m \<in> set (di_mappings st)" "mapping_applies (Some org) gs m" using first_row_in [OF Some] by simp_all
  then show ?thesis using Some by (auto simp: resolve_role_def mapping_applies_def)
qed (simp add: resolve_role_def)

lemma resolve_role_valid: "d \<in> set VALID_ROLES \<Longrightarrow> resolve_role st org gs d \<in> set VALID_ROLES"
  by (simp add: resolve_role_def split: option.split)

lemma existing_user_in:
  "existing_user st ident e = Inr (Some u) \<Longrightarrow> u \<in> set (di_users st)"
  using user_by_email_in [of st e u] user_by_id_in [of st _ u]
  by (auto simp: existing_user_def split: option.splits bind_splits)

lemma existing_user_none:
  "existing_user st ident e = Inr None \<Longrightarrow> e \<notin> us_email ` set (di_users st)"
  using user_by_email_none [of st e] by (auto simp: existing_user_def split: option.splits)

lemma create_account_says:
  assumes "create_account E st c org email gs d = Inr (st1, v)"
  shows "di_users st1 = di_users st @ [v]" "us_id v = di_next st" "us_organization_id v = org" "us_email v = email" "us_active v"
    "us_role v \<in> set VALID_ROLES" "di_identities st1 = di_identities st" "di_mappings st1 = di_mappings st" "di_next st1 = di_next st + 1"
    "us_role v = (if resolve_role st (Some org) gs d \<in> set VALID_ROLES then resolve_role st (Some org) gs d else DEFAULT_ROLE)"
    "identities_inv st1 = identities_inv (add_user v st)"
proof -
  obtain n where "text_column (map_of c ''name'') = Inr n"
    using assms by (cases "text_column (map_of c ''name'')") (simp_all add: create_account_def)
  then have s: "st1 = audit_identity E email ''create'' (us_id v)
      [(''event'', JStr ''jit_provision''), (''email'', JStr email), (''role'', JStr (us_role v)), (''groups'', jstrings gs)]
      (Some (us_organization_id v)) (add_user v st)"
    and v: "v = \<lparr>us_id = di_next st, us_organization_id = org, us_email = email, us_full_name = n,
       us_role = (if resolve_role st (Some org) gs d \<in> set VALID_ROLES then resolve_role st (Some org) gs d else DEFAULT_ROLE),
       us_active = True, us_session_version = 0\<rparr>"
    using assms by (auto simp: create_account_def Let_def)
  have "DEFAULT_ROLE \<in> set VALID_ROLES" by (simp add: DEFAULT_ROLE_def VALID_ROLES_def)
  then show "us_role v \<in> set VALID_ROLES" by (simp add: v)
  show "di_users st1 = di_users st @ [v]" "di_identities st1 = di_identities st" "di_mappings st1 = di_mappings st" "di_next st1 = di_next st + 1"
    "identities_inv st1 = identities_inv (add_user v st)"
    by (simp_all add: s)
qed (insert assms, auto simp: create_account_def Let_def elim!: rbind_InrE)

lemma apply_role_says:
  assumes "apply_role E st v email gs d = (st', u)"
  shows "u = v\<lparr>us_role := us_role u\<rparr>" "di_identities st' = di_identities st" "di_next st' = di_next st"
    "us_role u = (if gs \<noteq> [] \<and> resolve_role st (Some (us_organization_id v)) gs d \<in> set VALID_ROLES
                  then resolve_role st (Some (us_organization_id v)) gs d else us_role v)"
    "(st' = st \<and> u = v) \<or> identities_inv st' = identities_inv (put_user u st)"
    "di_users st' = di_users st \<and> u = v \<or> di_users st' = update_rows (\<lambda>w. us_id w = us_id v) (\<lambda>_. u) (di_users st)"
  using assms by (auto simp: apply_role_def Let_def split: if_splits)

lemma link_identity_inv:
  assumes I: "identities_inv st" and u: "u \<in> set (di_users st)"
    and i: "find_identity st p s = Inr ident"
  shows "identities_inv (link_identity E st ident u p s c email)"
proof (cases ident)
  case None
  have "leads_to (di_users st) (signed_in (ie_now E) c email (new_identity (di_next st) u p s))"
    using u by (auto simp: leads_to_def list_ex_iff signed_in_def new_identity_def)
  then show ?thesis using inv_add_identity [OF I] find_identity_none [of st p s] i None
    by (simp add: link_identity_def link_key_def signed_in_def new_identity_def)
next
  case (Some x)
  then show ?thesis
    by (simp add: link_identity_def) (rule inv_touch_identity [OF I], simp add: link_key_def signed_in_def)
qed

text \<open>What one successful sign-in did, the tables first.\<close>

lemma oidc_effect:
  assumes I: "identities_inv st" and p: "provision_from_oidc E S st c org = Inr (st', u, created)"
  obtains v st1 ident raw where "us_id u = us_id v" "us_organization_id u = us_organization_id v" "us_email u = us_email v"
    "us_active u" "identities_inv st1" "v \<in> set (di_users st1)" "identities_inv st'"
    "di_users st1 = (if created then di_users st @ [v] else di_users st)"
    "di_users st' = update_rows (\<lambda>w. us_id w = us_id v) (\<lambda>_. u) (di_users st1)"
    "stripped_text (map_of c ''email'') = Inr raw" "claims_refusal S c (lower raw) (subject_of c) = None"
    "find_identity st (oc_provider S) (subject_of c) = Inr ident"
    "created \<longrightarrow> oc_jit S \<and> us_organization_id v = org \<and> us_email v = lower raw \<and> lower raw \<notin> us_email ` set (di_users st) \<and>
       us_role v = (if resolve_role st (Some org) (extract_groups c) (oc_default_role S) \<in> set VALID_ROLES
                    then resolve_role st (Some org) (extract_groups c) (oc_default_role S) else DEFAULT_ROLE)"
    "\<not> created \<longrightarrow> existing_user st ident (lower raw) = Inr (Some v)"
    "di_mappings st1 = di_mappings st"
    "us_role u = (if extract_groups c \<noteq> [] \<and> resolve_role st1 (Some (us_organization_id v)) (extract_groups c) (oc_default_role S) \<in> set VALID_ROLES
                  then resolve_role st1 (Some (us_organization_id v)) (extract_groups c) (oc_default_role S) else us_role v)"
    "di_identities st' = (case ident of
        None \<Rightarrow> di_identities st @ [signed_in (ie_now E) c (lower raw) (new_identity (di_next st1) u (oc_provider S) (subject_of c))]
      | Some x \<Rightarrow> update_rows (\<lambda>y. xi_id y = xi_id x) (signed_in (ie_now E) c (lower raw)) (di_identities st))"
  using p
proof (cases rule: oidc_cases)
  case (1 raw ident found st1 st2 v)
  note R = apply_role_says [OF 1(7)]
  have mk: "di_users st1 = (if created then di_users st @ [v] else di_users st) \<and> di_identities st1 = di_identities st \<and>
      di_mappings st1 = di_mappings st \<and> v \<in> set (di_users st1) \<and> identities_inv st1 \<and> us_active v \<and>
      (created \<longrightarrow> oc_jit S \<and> us_organization_id v = org \<and> us_email v = lower raw \<and> lower raw \<notin> us_email ` set (di_users st) \<and>
       us_role v = (if resolve_role st (Some org) (extract_groups c) (oc_default_role S) \<in> set VALID_ROLES
                    then resolve_role st (Some org) (extract_groups c) (oc_default_role S) else DEFAULT_ROLE)) \<and>
      (\<not> created \<longrightarrow> existing_user st ident (lower raw) = Inr (Some v))"
  proof (cases found)
    case None
    then have c: "create_account E st c org (lower raw) (extract_groups c) (oc_default_role S) = Inr (st1, v)" and "created" "oc_jit S"
      using 1(5) by simp_all
    note C = create_account_says [OF c]
    have "lower raw \<notin> us_email ` set (di_users st)" using existing_user_none 1(4) None by blast
    then show ?thesis using C \<open>created\<close> \<open>oc_jit S\<close> inv_add_user [OF I C(2) C(6)] by simp
  next
    case (Some w)
    then show ?thesis using 1(5,6) existing_user_in [of st ident "lower raw"] 1(4) I by simp
  qed
  have I1: "identities_inv st1" and vin: "v \<in> set (di_users st1)" using mk by blast+
  have ids: "us_id u = us_id v" "us_organization_id u = us_organization_id v" "us_email u = us_email v" "us_active u = us_active v"
    by (subst R(1), simp)+
  have valid: "us_role v \<in> set VALID_ROLES" using mk by (auto simp: identities_inv_def list_all_iff account_ok_def)
  have I2: "identities_inv st2"
    using R(5)
  proof
    assume "st2 = st1 \<and> u = v" then show ?thesis using mk by simp
  next
    assume e: "identities_inv st2 = identities_inv (put_user u st1)"
    have "us_role u \<in> set VALID_ROLES" using R(4) valid by simp
    then show ?thesis unfolding e using I1 vin ids by (intro inv_put_user [of st1 v])
  qed
  have id_rows: "update_rows (\<lambda>w. us_id w = us_id v) (\<lambda>_. v) (di_users st1) = di_users st1"
    unfolding update_rows_def using same_id_same_row [of st1 v] mk by (intro map_idI) metis
  have users: "di_users st2 = update_rows (\<lambda>w. us_id w = us_id v) (\<lambda>_. u) (di_users st1)"
    using R(6) id_rows by auto
  then have u2: "u \<in> set (di_users st2)" using mk by (auto intro: update_rows_in [where f = "\<lambda>_. u"])
  have f2: "find_identity st2 (oc_provider S) (subject_of c) = Inr ident" using 1(3) R(2) mk by (simp add: find_identity_def)
  have I': "identities_inv st'" unfolding 1(8) by (rule link_identity_inv [OF I2 u2 f2])
  have us': "di_users st' = di_users st2" by (simp add: 1(8) link_identity_def split: option.split)
  have xs': "di_identities st' = (case ident of
        None \<Rightarrow> di_identities st @ [signed_in (ie_now E) c (lower raw) (new_identity (di_next st1) u (oc_provider S) (subject_of c))]
      | Some x \<Rightarrow> update_rows (\<lambda>y. xi_id y = xi_id x) (signed_in (ie_now E) c (lower raw)) (di_identities st))"
    using R(2,3) mk by (simp add: 1(8) link_identity_def split: option.split)
  show thesis
    by (rule that [of v st1 raw ident]) (use ids mk I1 vin I' us' xs' users 1(1,2,3) R(4) in simp_all)
qed

section \<open>SCIM\<close>

lemma scim_saved_sel [simp]:
  "us_id (scim_saved u n b) = us_id u" "us_organization_id (scim_saved u n b) = us_organization_id u"
  "us_email (scim_saved u n b) = us_email u" "us_role (scim_saved u n b) = us_role u" "us_active (scim_saved u n b) = b"
  by (simp_all add: scim_saved_def split: option.split)

lemma scim_effect:
  assumes I: "identities_inv st" and p: "scim_create_or_update_user E st org payload = Inr (st', u, created)"
  obtains (made) "created" "us_organization_id u = org" "di_users st' = di_users st @ [u]" "di_identities st' = di_identities st"
      "identities_inv st'" "us_active u = truthy (get_default payload ''active'' (JBool True))"
      "scim_email_of payload = Inr (Some (us_email u))" "us_email u \<notin> us_email ` set (di_users st)" "us_role u = DEFAULT_ROLE"
      "us_id u = di_next st"
  | (kept) v where "\<not> created" "v \<in> set (di_users st)" "us_organization_id v = org" "us_id u = us_id v" "us_organization_id u = org"
      "di_users st' = update_rows (\<lambda>w. us_id w = us_id u) (\<lambda>_. u) (di_users st)" "di_identities st' = di_identities st" "identities_inv st'"
      "us_active u = truthy (get_default payload ''active'' (JBool True))" "us_role u = us_role v" "scim_email_of payload = Inr (Some (us_email v))"
proof -
  note A = p [unfolded scim_create_or_update_user_def Let_def]
  obtain fe where fe: "scim_email_of payload = Inr fe" using A by (cases "scim_email_of payload") simp_all
  obtain email where e: "fe = Some email" using A by (cases fe) (simp_all add: fe)
  have ne: "email \<noteq> []" using A by (cases "email = []") (simp_all add: fe e)
  obtain n where n: "scim_name payload = Inr n" using A ne by (cases "scim_name payload") (simp_all add: fe e)
  obtain found where f: "user_by_email st email = Inr found" using A ne by (cases "user_by_email st email") (simp_all add: fe e n)
  show thesis
  proof (cases found)
    case None
    obtain fn where fn: "text_column n = Inr fn" using A ne by (cases "text_column n") (simp_all add: fe e n f None)
    obtain xi where xi: "text_column (map_of payload ''externalId'') = Inr xi"
      using A ne by (cases "text_column (map_of payload ''externalId'')") (simp_all add: fe e n f None fn)
    let ?u = "\<lparr>us_id = di_next st, us_organization_id = org, us_email = email, us_full_name = fn,
      us_role = DEFAULT_ROLE, us_active = truthy (get_default payload ''active'' (JBool True)), us_session_version = 0\<rparr>"
    have u: "u = ?u" and c: created using A ne by (simp_all add: fe e n f None fn xi)
    have I1: "identities_inv (add_user u st)"
      using user_by_email_none [of st email] f None by (intro inv_add_user [OF I]) (auto simp: u DEFAULT_ROLE_def VALID_ROLES_def)
    have "identities_inv st' \<and> di_users st' = di_users st @ [u] \<and> di_identities st' = di_identities st"
      using A ne I1 u by (auto simp: fe e n f None fn xi intro!: inv_scim_event)
    then show thesis using made c u fe e user_by_email_none [of st email] f None by simp
  next
    case (Some v)
    have org: "us_organization_id v = org" using A ne by (cases "us_organization_id v = org") (simp_all add: fe e n f Some)
    obtain fn where fn: "name_column n = Inr fn" using A ne org by (cases "name_column n") (simp_all add: fe e n f Some)
    obtain xi where xi: "text_column (map_of payload ''externalId'') = Inr xi"
      using A ne org by (cases "text_column (map_of payload ''externalId'')") (simp_all add: fe e n f Some fn)
    have u: "u = scim_saved v fn (truthy (get_default payload ''active'' (JBool True)))" and c: "\<not> created"
      using A ne org by (simp_all add: fe e n f Some fn xi)
    have v: "v \<in> set (di_users st)" using user_by_email_in [of st email v] f Some by simp
    have "us_role v \<in> set VALID_ROLES" using I v by (simp add: identities_inv_def list_all_iff account_ok_def)
    then have I1: "identities_inv (put_user u st)" by (intro inv_put_user [OF I v]) (simp_all add: u)
    have "identities_inv st' \<and> di_users st' = update_rows (\<lambda>w. us_id w = us_id u) (\<lambda>_. u) (di_users st) \<and> di_identities st' = di_identities st"
      using A ne org I1 u by (auto simp: fe e n f Some fn xi intro!: inv_scim_event)
    then show thesis using kept [of v] c v org u fe e user_by_email_in [of st email v] f Some by simp
  qed
qed

lemma deactivate_sel [simp]:
  "di_users (scim_deactivate_user E st org u) = update_rows (\<lambda>v. us_id v = us_id u) (\<lambda>_. u\<lparr>us_active := False\<rparr>) (di_users st)"
  "di_identities (scim_deactivate_user E st org u) = di_identities st"
  by (simp_all add: scim_deactivate_user_def)

lemma inv_deactivate:
  assumes "identities_inv st" "u \<in> set (di_users st)"
  shows "identities_inv (scim_deactivate_user E st org u)"
proof -
  have "us_role u \<in> set VALID_ROLES" using assms by (simp add: identities_inv_def list_all_iff account_ok_def)
  then have "identities_inv (put_user (u\<lparr>us_active := False\<rparr>) st)" by (intro inv_put_user [OF assms]) simp_all
  then show ?thesis by (simp add: scim_deactivate_user_def inv_scim_event)
qed

lemma target_org_says:
  "target_org a b cfg st = Inr (st1, org) \<Longrightarrow>
     di_users st1 = di_users st \<and> di_identities st1 = di_identities st \<and> di_mappings st1 = di_mappings st \<and> di_next st \<le> di_next st1 \<and> org \<in> set (di_orgs st1)"
  by (auto simp: target_org_def split: option.splits list.splits if_splits)

lemma target_org_inv: "identities_inv st \<Longrightarrow> target_org a b cfg st = Inr (st1, org) \<Longrightarrow> identities_inv st1"
  using target_org_says [of a b cfg st st1 org] inv_cong [of st st1] by simp

lemma scim_org_says:
  assumes "scim_org S st auth = Inr (st1, org)"
  shows "scim_target_org (sc_organization_id S) st = Inr (st1, org)"
  using assms by (auto simp: scim_org_def split: option.splits if_splits elim!: rbind_InrE)

lemma scim_org_inv: "identities_inv st \<Longrightarrow> scim_org S st auth = Inr (st1, org) \<Longrightarrow> identities_inv st1 \<and> di_users st1 = di_users st \<and> di_identities st1 = di_identities st"
  using scim_org_says [of S st auth st1 org] target_org_inv target_org_says unfolding scim_target_org_def by blast

lemma scim_user_in_org_says: "scim_user_in_org st i org = Inr u \<Longrightarrow> u \<in> set (di_users st) \<and> us_id u = i \<and> us_organization_id u = org"
  using user_by_id_in [of st i u] by (auto simp: scim_user_in_org_def split: option.splits if_splits)

lemma scim_refusal_Inr [simp]: "scim_refusal r = Inr x \<longleftrightarrow> r = Inr x"
  by (cases r) (auto simp: scim_refusal_def split: py_error.splits)

lemma forbidden_Inr [simp]: "forbidden r = Inr x \<longleftrightarrow> r = Inr x"
  by (cases r) (auto simp: forbidden_def split: py_error.splits)

lemma scim_update_cases:
  assumes "route_scim_update E S st auth i payload = Inr st'"
  obtains (off) st1 org u where "scim_org S st auth = Inr (st1, org)" "scim_user_in_org st1 i org = Inr u" "scim_active payload = Inr (Some False)"
      "st' = scim_deactivate_user E st1 org u"
  | (on) st1 org u active v b where "scim_org S st auth = Inr (st1, org)" "scim_user_in_org st1 i org = Inr u" "scim_active payload = Inr active"
      "active \<noteq> Some False" "scim_create_or_update_user E st1 org (merged_payload payload (us_email u) active) = Inr (st', v, b)"
proof -
  note A = assms [unfolded route_scim_update_def]
  obtain st1 org where o: "scim_org S st auth = Inr (st1, org)" using A by (cases "scim_org S st auth") auto
  obtain u where u: "scim_user_in_org st1 i org = Inr u" using A by (cases "scim_user_in_org st1 i org") (simp_all add: o)
  obtain a where a: "scim_active payload = Inr a" using A by (cases "scim_active payload") (simp_all add: o u)
  show thesis
  proof (cases "a = Some False")
    case True
    then show thesis using off [OF o u] A by (simp add: o u a)
  next
    case False
    obtain r where r: "scim_create_or_update_user E st1 org (merged_payload payload (us_email u) a) = Inr r"
      using A False by (cases "scim_create_or_update_user E st1 org (merged_payload payload (us_email u) a)") (simp_all add: o u a)
    then show thesis using on [OF o u a False, of "fst (snd r)" "snd (snd r)"] A False by (auto simp: o u a split: prod.splits)
  qed
qed

section \<open>Reachable stores\<close>

text \<open>Every operation under any settings and clock; elsewhere accounts are enrolled and edited, and the audit trail
  grows.\<close>

inductive identity_step :: "identity_store \<Rightarrow> identity_store \<Rightarrow> bool" where
  oidc: "sso_callback E S configured st c = Inr (st', u, created) \<Longrightarrow> identity_step st st'"
| scim_created: "route_scim_create E T st authz payload = Inr (st', u, created) \<Longrightarrow> identity_step st st'"
| scim_updated: "route_scim_update E T st authz i payload = Inr st' \<Longrightarrow> identity_step st st'"
| scim_deleted: "route_scim_delete E T st authz i = Inr st' \<Longrightarrow> identity_step st st'"
| piv: "piv_login E P st rq = Inr (Some (st', u)) \<Longrightarrow> identity_step st st'"
| linked: "create_piv_link E from_pem st who i pem given = Inr st' \<Longrightarrow> identity_step st st'"
| unlinked: "delete_piv_link E st who i = Inr st' \<Longrightarrow> identity_step st st'"
| mapped: "create_mapping st who grp role priority = Inr st' \<Longrightarrow> identity_step st st'"
| unmapped: "delete_mapping st who i = Inr st' \<Longrightarrow> identity_step st st'"
| enrolled: "us_id u = di_next st \<Longrightarrow> us_role u \<in> set VALID_ROLES \<Longrightarrow> us_email u \<notin> us_email ` set (di_users st) \<Longrightarrow> identity_step st (add_user u st)"
| edited: "u \<in> set (di_users st) \<Longrightarrow> us_id v = us_id u \<Longrightarrow> us_organization_id v = us_organization_id u \<Longrightarrow> us_email v = us_email u \<Longrightarrow>
    us_role v \<in> set VALID_ROLES \<Longrightarrow> identity_step st (put_user v st)"

inductive identity_reachable :: "identity_store \<Rightarrow> bool" where
  fresh: "di_users st = [] \<Longrightarrow> di_identities st = [] \<Longrightarrow> identity_reachable st"
| later: "identity_reachable st \<Longrightarrow> identity_step st st' \<Longrightarrow> identity_reachable st'"

lemma piv_login_cases:
  assumes "piv_login E P st rq = Inr (Some (st', u))"
  obtains subject x where "find_identity st PIV_PROVIDER subject = Inr (Some x)" "user_by_id st (xi_user_id x) = Some u" "us_active u"
    "st' = touch_identity (xi_id x) (\<lambda>y. y\<lparr>xi_last_login_at := Some (ie_now E)\<rparr>) st"
proof -
  obtain subject where "user_for_certificate E st subject = Inr (st', u)"
    using assms by (auto simp: piv_login_def split: if_splits option.splits sum.splits py_error.splits elim!: rbind_InrE)
  then show thesis using that [of subject]
    by (auto simp: user_for_certificate_def split: option.splits if_splits elim!: rbind_InrE)
qed

lemma create_piv_link_cases:
  assumes "create_piv_link E from_pem st who i pem given = Inr st'"
  obtains (same) "st' = st"
  | (new) u subject a b c d e where "user_by_id st i = Some u" "(PIV_PROVIDER, subject) \<notin> link_key ` set (di_identities st)"
      "in_org who (Some (us_organization_id u))"
      "st' = audit_identity E a b c d e (add_identity (new_identity (di_next st) u PIV_PROVIDER subject) st)"
proof -
  from assms [unfolded create_piv_link_def] obtain subject where
    r: "(if subject = [] then Inl (HTTPException 422 ''the certificate carries an empty subject'')
       else case user_by_id st i of
              None \<Rightarrow> Inl (HTTPException 404 ''user not found'')
            | Some u \<Rightarrow>
                if \<not> in_org who (Some (us_organization_id u)) then Inl (HTTPException 404 ''user not found'')
                else rbind (one_or_none (filter (\<lambda>x. sees_identity who x \<and> xi_provider x = PIV_PROVIDER \<and> xi_subject x = subject)
                              (di_identities st))) (\<lambda>existing.
                  case existing of
                    Some x \<Rightarrow> if xi_user_id x = i then Inr st
                              else Inl (HTTPException 409 ''that certificate is already linked to an account'')
                  | None \<Rightarrow>
                      if list_ex (\<lambda>x. xi_provider x = PIV_PROVIDER \<and> xi_subject x = subject) (di_identities st)
                      then Inl (HTTPException 409 ''that certificate is already linked to an account'')
                      else Inr (audit_identity E (actor_name who) ''create'' (us_id u)
                             [(''event'', JStr ''piv_link''), (''subject'', JStr subject)] (Some (us_organization_id u))
                             (add_identity (new_identity (di_next st) u PIV_PROVIDER subject) st)))) = Inr st'"
    by (elim rbind_InrE) simp
  obtain u where u: "user_by_id st i = Some u" using r by (cases "user_by_id st i") (simp_all split: if_splits)
  have org: "in_org who (Some (us_organization_id u))" using r u by (simp split: if_splits)
  obtain f where f: "one_or_none (filter (\<lambda>x. sees_identity who x \<and> xi_provider x = PIV_PROVIDER \<and> xi_subject x = subject) (di_identities st)) = Inr f"
    using r u org by (cases "one_or_none (filter (\<lambda>x. sees_identity who x \<and> xi_provider x = PIV_PROVIDER \<and> xi_subject x = subject) (di_identities st))")
      (simp_all split: if_splits)
  show thesis
  proof (cases f)
    case (Some x)
    then show thesis using same r u org f by (simp split: if_splits)
  next
    case None
    then have no: "\<not> list_ex (\<lambda>x. xi_provider x = PIV_PROVIDER \<and> xi_subject x = subject) (di_identities st)"
      using r u org f by (simp split: if_splits)
    then have "(PIV_PROVIDER, subject) \<notin> link_key ` set (di_identities st)" by (auto simp: list_ex_iff link_key_def)
    moreover have "st' = audit_identity E (actor_name who) ''create'' (us_id u) [(''event'', JStr ''piv_link''), (''subject'', JStr subject)]
        (Some (us_organization_id u)) (add_identity (new_identity (di_next st) u PIV_PROVIDER subject) st)"
      using no r u org f None by (simp split: if_splits)
    ultimately show thesis using new [OF u _ org] by blast
  qed
qed

lemma delete_piv_link_cases:
  assumes "delete_piv_link E st who i = Inr st'"
  obtains x a b c d e where "x \<in> set (di_identities st)" "xi_id x = i" "xi_provider x = PIV_PROVIDER" "in_org who (xi_organization_id x)"
    "st' = audit_identity E a b c d e (st\<lparr>di_identities := filter (\<lambda>y. xi_id y \<noteq> i) (di_identities st)\<rparr>)"
proof -
  obtain x where x: "first_row (filter (\<lambda>x. xi_id x = i) (di_identities st)) = Some x"
    using assms by (cases "first_row (filter (\<lambda>x. xi_id x = i) (di_identities st))") (auto simp: delete_piv_link_def elim!: rbind_InrE)
  then have "xi_provider x = PIV_PROVIDER" "in_org who (xi_organization_id x)"
    "st' = audit_identity E (actor_name who) ''delete'' (xi_user_id x) [(''event'', JStr ''piv_unlink''), (''subject'', JStr (xi_subject x))]
       (xi_organization_id x) (st\<lparr>di_identities := filter (\<lambda>y. xi_id y \<noteq> i) (di_identities st)\<rparr>)"
    using assms by (auto simp: delete_piv_link_def split: if_splits elim!: rbind_InrE)
  then show thesis using that first_row_filter [OF x] by blast
qed

lemma inv_link_removed: "identities_inv st \<Longrightarrow> identities_inv (st\<lparr>di_identities := filter P (di_identities st)\<rparr>)"
  by (auto simp: identities_inv_def account_ok_def list_all_iff distinct_map_filter)

lemma identity_step_inv:
  assumes "identity_step st st'" "identities_inv st"
  shows "identities_inv st'"
  using assms
proof (cases rule: identity_step.cases)
  case (oidc E S cfg c u created)
  then obtain st1 org where o: "sso_provisioning_org cfg st = Inr (st1, org)" "provision_from_oidc E S st1 c org = Inr (st', u, created)"
    by (cases "sso_provisioning_org cfg st") (auto simp: sso_callback_def)
  have "identities_inv st1" using target_org_inv [OF assms(2)] o(1) unfolding sso_provisioning_org_def by blast
  then show ?thesis using oidc_effect [OF _ o(2)] by blast
next
  case (scim_created E T authz payload u created)
  then obtain st1 org where o: "scim_org T st authz = Inr (st1, org)" "scim_create_or_update_user E st1 org payload = Inr (st', u, created)"
    by (cases "scim_org T st authz") (auto simp: route_scim_create_def)
  then show ?thesis using scim_effect [OF _ o(2)] scim_org_inv [OF assms(2) o(1)] by blast
next
  case (scim_updated E T authz i payload)
  then show ?thesis
  proof (cases rule: scim_update_cases)
    case (off st1 org u)
    then show ?thesis using scim_org_inv [OF assms(2) off(1)] scim_user_in_org_says [OF off(2)] inv_deactivate by blast
  next
    case (on st1 org u active v b)
    then show ?thesis using scim_org_inv [OF assms(2) on(1)] scim_effect [OF _ on(5)] by blast
  qed
next
  case (scim_deleted E T authz i)
  then obtain st1 org u where o: "scim_org T st authz = Inr (st1, org)" "scim_user_in_org st1 i org = Inr u" "st' = scim_deactivate_user E st1 org u"
    by (cases "scim_org T st authz") (auto simp: route_scim_delete_def elim!: rbind_InrE)
  then show ?thesis using scim_org_inv [OF assms(2) o(1)] scim_user_in_org_says [OF o(2)] inv_deactivate by blast
next
  case (piv E P rq u)
  then show ?thesis
    by (cases rule: piv_login_cases) (auto intro!: inv_touch_identity [OF assms(2)] simp: link_key_def)
next
  case (linked E from_pem who i pem given)
  then show ?thesis
  proof (cases rule: create_piv_link_cases)
    case (new u subject a b c d e)
    then show ?thesis using inv_add_identity [OF assms(2), of "new_identity (di_next st) u PIV_PROVIDER subject"] user_by_id_in [OF new(1)]
      by (auto simp: new_identity_def link_key_def leads_to_def list_ex_iff)
  qed (use assms(2) in simp)
next
  case (unlinked E who i)
  then show ?thesis by (cases rule: delete_piv_link_cases) (simp add: inv_link_removed assms(2))
next
  case (mapped who grp role priority)
  then show ?thesis using assms(2) by (auto simp: create_mapping_def split: if_splits elim!: rbind_InrE intro: inv_cong)
next
  case (unmapped who i)
  then show ?thesis using assms(2) by (auto simp: delete_mapping_def split: if_splits option.splits elim!: rbind_InrE intro: inv_cong)
next
  case (enrolled u)
  then show ?thesis using inv_add_user [OF assms(2)] by simp
next
  case (edited u v)
  then show ?thesis using inv_put_user [OF assms(2)] by simp
qed

lemma identity_reachable_inv: "identity_reachable st \<Longrightarrow> identities_inv st"
proof (induction rule: identity_reachable.induct)
  case (fresh st)
  then show ?case by (simp add: identities_inv_def)
qed (rule identity_step_inv)

text \<open>C6: the identity tables are sound. In every reachable store no two accounts share an email and every role
  is one the database knows; no two links share provider and subject; and every link leads to an account,
  exactly one, of the link's own organisation.\<close>

theorem identity_tables_sound:
  assumes "identity_reachable st"
  shows "distinct (map us_email (di_users st)) \<and> list_all (\<lambda>u. us_role u \<in> set VALID_ROLES) (di_users st) \<and>
    distinct (map (\<lambda>x. (xi_provider x, xi_subject x)) (di_identities st)) \<and>
    list_all (\<lambda>x. length (filter (\<lambda>u. us_id u = xi_user_id x) (di_users st)) = 1 \<and>
      list_ex (\<lambda>u. us_id u = xi_user_id x \<and> xi_organization_id x = Some (us_organization_id u)) (di_users st)) (di_identities st)"
proof -
  note I = identity_reachable_inv [OF assms]
  have "length (filter (\<lambda>u. us_id u = i) (di_users st)) = 1" if "list_ex (\<lambda>u. us_id u = i \<and> P u) (di_users st)" for i P
  proof -
    have "length (filter (\<lambda>u. us_id u = i) (di_users st)) \<le> 1"
      using I by (intro distinct_filter_le1 [where f = us_id]) (auto simp: identities_inv_def)
    moreover have "filter (\<lambda>u. us_id u = i) (di_users st) \<noteq> []" using that by (auto simp: filter_empty_conv list_ex_iff)
    ultimately show ?thesis by (cases "filter (\<lambda>u. us_id u = i) (di_users st)") simp_all
  qed
  then show ?thesis using I
    by (auto simp: identities_inv_def list_all_iff account_ok_def leads_to_def link_key_def [abs_def])
qed

section \<open>One sign-in\<close>

definition linked_to :: "identity_store \<Rightarrow> string \<Rightarrow> string \<Rightarrow> int \<Rightarrow> bool" where
  "linked_to st provider subject i \<longleftrightarrow> list_ex (\<lambda>x. xi_provider x = provider \<and> xi_subject x = subject \<and> xi_user_id x = i) (di_identities st)"

lemma list_ex_update_rows: "(\<And>x. Q (f x) = Q x) \<Longrightarrow> list_ex Q (update_rows P f xs) = list_ex Q xs"
  by (induction xs) (simp_all add: update_rows_def)

lemma linked_to_found:
  assumes "identities_inv st" "linked_to st p s i"
  obtains x where "find_identity st p s = Inr (Some x)" "xi_user_id x = i" "x \<in> set (di_identities st)"
  using assms find_identity_found [OF assms(1)] by (auto simp: linked_to_def list_ex_iff)

lemma filter_update_other: "filter (\<lambda>v. us_id v \<noteq> i) (update_rows (\<lambda>w. us_id w = i) (\<lambda>_. u) us) = filter (\<lambda>v. us_id v \<noteq> i) us"
  if "us_id u = i"
  using that by (induction us) (auto simp: update_rows_def)


section \<open>Links last\<close>

lemma oidc_keeps_links:
  assumes "identities_inv st" "provision_from_oidc E S st c org = Inr (st', u, created)" "linked_to st p s i"
  shows "linked_to st' p s i"
proof (rule oidc_effect [OF assms(1,2)], goal_cases)
  case (1 v st1 raw ident)
  show ?case using 1(17) assms(3) by (cases raw) (simp_all add: linked_to_def list_ex_update_rows signed_in_def)
qed

lemma scim_keeps_links:
  assumes "identities_inv st" "scim_create_or_update_user E st org payload = Inr (st', u, created)"
  shows "di_identities st' = di_identities st"
  by (rule scim_effect [OF assms])

lemma linked_step:
  assumes "identity_step st st'" "identities_inv st" "p \<noteq> PIV_PROVIDER" "linked_to st p s i"
  shows "linked_to st' p s i"
  using assms(1)
proof (cases rule: identity_step.cases)
  case (oidc E S cfg c u created)
  then obtain st1 org where o: "sso_provisioning_org cfg st = Inr (st1, org)" "provision_from_oidc E S st1 c org = Inr (st', u, created)"
    by (cases "sso_provisioning_org cfg st") (auto simp: sso_callback_def)
  have same: "identities_inv st1" "di_identities st1 = di_identities st"
    using target_org_inv [OF assms(2)] target_org_says o(1) unfolding sso_provisioning_org_def by blast+
  have "linked_to st1 p s i" using assms(4) same(2) by (simp add: linked_to_def)
  then show ?thesis by (rule oidc_keeps_links [OF same(1) o(2)])
next
  case (scim_created E T authz payload u created)
  then obtain st1 org where o: "scim_org T st authz = Inr (st1, org)" "scim_create_or_update_user E st1 org payload = Inr (st', u, created)"
    by (cases "scim_org T st authz") (auto simp: route_scim_create_def)
  then show ?thesis using scim_org_inv [OF assms(2) o(1)] assms(4) scim_keeps_links [OF _ o(2)] by (simp add: linked_to_def)
next
  case (scim_updated E T authz i payload)
  then show ?thesis
  proof (cases rule: scim_update_cases)
    case (off st1 org u)
    then show ?thesis using scim_org_inv [OF assms(2) off(1)] assms(4) by (simp add: linked_to_def)
  next
    case (on st1 org u active v b)
    then show ?thesis using scim_org_inv [OF assms(2) on(1)] assms(4) scim_keeps_links [OF _ on(5)] by (simp add: linked_to_def)
  qed
next
  case (scim_deleted E T authz i)
  then obtain st1 org u where o: "scim_org T st authz = Inr (st1, org)" "scim_user_in_org st1 i org = Inr u" "st' = scim_deactivate_user E st1 org u"
    by (cases "scim_org T st authz") (auto simp: route_scim_delete_def elim!: rbind_InrE)
  then show ?thesis using scim_org_inv [OF assms(2) o(1)] assms(4) by (simp add: linked_to_def)
next
  case (piv E P rq u)
  then show ?thesis
    by (cases rule: piv_login_cases) (use assms(4) in \<open>simp add: linked_to_def list_ex_update_rows\<close>)
next
  case (linked E from_pem who i pem given)
  then show ?thesis by (cases rule: create_piv_link_cases) (use assms(4) in \<open>simp_all add: linked_to_def\<close>)
next
  case (unlinked E who j)
  then show ?thesis
  proof (cases rule: delete_piv_link_cases)
    case (1 x a b c d e)
    have same: "xi_id y \<noteq> j" if "y \<in> set (di_identities st)" "xi_provider y = p" for y
      using that 1(1,2,3) assms(2,3) by (auto simp: identities_inv_def distinct_map dest: inj_onD)
    show ?thesis using assms(4) 1 same by (auto simp: linked_to_def list_ex_iff)
  qed
next
  case (mapped who grp role priority)
  then show ?thesis using assms(4) by (auto simp: create_mapping_def linked_to_def split: if_splits elim!: rbind_InrE)
next
  case (unmapped who j)
  then show ?thesis using assms(4) by (auto simp: delete_mapping_def linked_to_def split: if_splits option.splits elim!: rbind_InrE)
qed (use assms(4) in \<open>simp_all add: linked_to_def\<close>)

lemma callback_cases:
  assumes "sso_callback E S cfg st c = Inr (st', u, created)"
  obtains st1 org where "sso_provisioning_org cfg st = Inr (st1, org)" "provision_from_oidc E S st1 c org = Inr (st', u, created)"
    "di_identities st1 = di_identities st" "di_users st1 = di_users st" "identities_inv st \<Longrightarrow> identities_inv st1"
proof -
  obtain st1 org where o: "sso_provisioning_org cfg st = Inr (st1, org)" "provision_from_oidc E S st1 c org = Inr (st', u, created)"
    using assms by (cases "sso_provisioning_org cfg st") (auto simp: sso_callback_def)
  then show thesis using that [OF o] target_org_says target_org_inv unfolding sso_provisioning_org_def by blast
qed

lemma sign_in_uses_link:
  assumes I: "identities_inv st" and p: "provision_from_oidc E S st c org = Inr (st', u, created)"
    and l: "linked_to st (oc_provider S) (subject_of c) i"
  shows "us_id u = i \<and> \<not> created"
proof -
  obtain x where x: "find_identity st (oc_provider S) (subject_of c) = Inr (Some x)" "xi_user_id x = i" "x \<in> set (di_identities st)"
    by (rule linked_to_found [OF I l])
  obtain w where w: "user_by_id st (xi_user_id x) = Some w" "us_id w = xi_user_id x" by (rule linked_user [OF I x(3)])
  show ?thesis using p
  proof (cases rule: oidc_cases)
    case (1 raw ident found st1 st2 v)
    have "found = Some w" using 1(3,4) x(1) w(1) by (auto simp: existing_user_def)
    then have "v = w" "\<not> created" using 1(5) by simp_all
    moreover have "us_id u = us_id v" by (subst apply_role_says(1) [OF 1(7)]) simp
    ultimately show ?thesis using w(2) x(2) by simp
  qed
qed

lemma signed_in_linked:
  assumes I: "identities_inv st" and p: "provision_from_oidc E S st c org = Inr (st', u, created)"
  shows "linked_to st' (oc_provider S) (subject_of c) (us_id u)"
proof (rule oidc_effect [OF I p], goal_cases)
  case (1 v st1 ident raw)
  show ?case
  proof (cases "find_identity st (oc_provider S) (subject_of c) = Inr None")
    case True
    then show ?thesis using 1(12,17) by (simp add: linked_to_def signed_in_def new_identity_def)
  next
    case False
    then obtain x where x: "find_identity st (oc_provider S) (subject_of c) = Inr (Some x)" using 1(12) by auto
    then have l: "linked_to st (oc_provider S) (subject_of c) (xi_user_id x)"
      using find_identity_in [OF x] by (auto simp: linked_to_def list_ex_iff)
    then show ?thesis using sign_in_uses_link [OF I p l] oidc_keeps_links [OF I p l] by simp
  qed
qed

text \<open>C10: an account once linked stays linked. After a subject of an identity provider has signed in, whatever
  else happens, each later sign-in of that subject is a sign-in to the same account: a changed email claim
  leads to no other one, and nobody else's deletion or renaming hands it over.\<close>

theorem subject_keeps_account:
  assumes "identity_reachable st" "sso_callback E S cfg st c = Inr (st1, u, created)" "rtranclp identity_step st1 st2"
    "sso_callback E' S' cfg' st2 c' = Inr (st3, u', created')"
    "oc_provider S' = oc_provider S" "oc_provider S \<noteq> PIV_PROVIDER" "subject_of c' = subject_of c"
  shows "us_id u' = us_id u \<and> \<not> created'"
proof -
  note I = identity_reachable_inv [OF assms(1)]
  obtain s1 org where a: "provision_from_oidc E S s1 c org = Inr (st1, u, created)" "identities_inv s1"
    by (rule callback_cases [OF assms(2)]) (use I in blast)
  have I1: "identities_inv st1" by (rule identity_step_inv [OF oidc [OF assms(2)] I])
  have "identities_inv st2 \<and> linked_to st2 (oc_provider S) (subject_of c) (us_id u)"
    using assms(3)
  proof (induction rule: rtranclp_induct)
    case base
    then show ?case using I1 signed_in_linked [OF a(2,1)] by simp
  next
    case (step y z)
    then show ?case using identity_step_inv linked_step assms(6) by blast
  qed
  moreover obtain s3 org' where b: "provision_from_oidc E' S' s3 c' org' = Inr (st3, u', created')" "di_identities s3 = di_identities st2"
      "identities_inv st2 \<Longrightarrow> identities_inv s3"
    by (rule callback_cases [OF assms(4)]) blast
  ultimately have "identities_inv s3" "linked_to s3 (oc_provider S') (subject_of c') (us_id u)"
    using assms(5,7) by (simp_all add: linked_to_def)
  then show ?thesis by (rule sign_in_uses_link [OF _ b(1)])
qed

section \<open>The reach of SCIM\<close>

definition others :: "int \<Rightarrow> identity_store \<Rightarrow> account list" where
  "others org st = filter (\<lambda>u. us_organization_id u \<noteq> org) (di_users st)"

lemma others_put:
  assumes "identities_inv st" "v \<in> set (di_users st)" "us_organization_id v = org" "us_id u = us_id v" "us_organization_id u = org"
  shows "filter (\<lambda>w. us_organization_id w \<noteq> org) (update_rows (\<lambda>w. us_id w = us_id u) (\<lambda>_. u) (di_users st)) = others org st"
proof -
  have "us_organization_id w = org" if "w \<in> set (di_users st)" "us_id w = us_id u" for w
    using same_id_same_row [OF assms(1) that(1) assms(2)] that(2) assms(3,4) by simp
  then have "filter (\<lambda>w. us_organization_id w \<noteq> org) (update_rows (\<lambda>w. us_id w = us_id u) (\<lambda>_. u) us) = filter (\<lambda>u. us_organization_id u \<noteq> org) us"
    if "set us \<subseteq> set (di_users st)" for us
    using that assms(5) by (induction us) (auto simp: update_rows_def)
  then show ?thesis by (simp add: others_def)
qed

lemma roles_put:
  assumes "identities_inv st" "v \<in> set (di_users st)" "us_id u = us_id v" "us_role u = us_role v"
  shows "map us_role (update_rows (\<lambda>w. us_id w = us_id u) (\<lambda>_. u) (di_users st)) = map us_role (di_users st)"
  by (rule map_same_rows) (metis assms same_id_same_row)

text \<open>C11: the SCIM token reaches one organisation. Whatever it creates, updates or deletes, the accounts of every
  other organisation and all links to identity providers stay as they are; no account's role changes, and a
  new account is a viewer of the token's organisation.\<close>

theorem scim_confined_to_tenant:
  assumes "identity_reachable st" "scim_org T st authz = Inr (st1, org)"
    and "route_scim_create E T st authz payload = Inr (st', u, created) \<or> route_scim_update E T st authz i payload = Inr st' \<or>
         route_scim_delete E T st authz i = Inr st'"
  shows "others org st' = others org st \<and> di_identities st' = di_identities st \<and>
    (\<exists>new :: account list. map us_role (di_users st') = map us_role (di_users st) @ map us_role new \<and>
       list_all (\<lambda>v. us_role v = DEFAULT_ROLE \<and> us_organization_id v = org) new)"
proof -
  note I = identity_reachable_inv [OF assms(1)]
  have I1: "identities_inv st1" and same: "di_users st1 = di_users st" "di_identities st1 = di_identities st"
    using scim_org_inv [OF I assms(2)] by simp_all
  have o: "others org st1 = others org st" by (simp add: others_def same)
  have goal: ?thesis if c: "scim_create_or_update_user E st1 org p = Inr (st', v, b)" for p v b
    using I1 c
  proof (cases rule: scim_effect)
    case made
    have new: "map us_role (di_users st') = map us_role (di_users st) @ map us_role [v] \<and>
        list_all (\<lambda>v. us_role v = DEFAULT_ROLE \<and> us_organization_id v = org) [v]"
      using made by (simp add: same)
    have "others org st' = others org st" "di_identities st' = di_identities st" using made by (simp_all add: others_def same)
    moreover have "\<exists>new :: account list. map us_role (di_users st') = map us_role (di_users st) @ map us_role new \<and>
        list_all (\<lambda>v. us_role v = DEFAULT_ROLE \<and> us_organization_id v = org) new"
      using new by (rule exI)
    ultimately show ?thesis by simp
  next
    case (kept w)
    then show ?thesis using others_put [OF I1 kept(2,3,4,5)] roles_put [OF I1 kept(2,4,10)]
      by (intro conjI exI [of _ "[]"]) (simp_all add: o same, simp add: others_def)
  qed
  have off: ?thesis if "scim_user_in_org st1 i org = Inr v" "st' = scim_deactivate_user E st1 org v" for v
  proof -
    note v = scim_user_in_org_says [OF that(1)]
    have v1: "v \<in> set (di_users st1)" and v2: "us_organization_id v = org" using v by simp_all
    have put: "others org (scim_deactivate_user E st1 org v) = others org st1"
      using others_put [OF I1, of v org "v\<lparr>us_active := False\<rparr>"] v1 v2
      by (simp add: others_def [of org "scim_deactivate_user E st1 org v"])
    have "others org st' = others org st" unfolding that(2) put by (rule o)
    moreover have "map us_role (di_users st') = map us_role (di_users st) @ map us_role ([] :: account list)"
      using roles_put [OF I1, of v "v\<lparr>us_active := False\<rparr>"] v that(2) by (simp add: same)
    moreover have "di_identities st' = di_identities st" using that(2) by (simp add: same)
    ultimately show ?thesis by (intro conjI exI [of _ "[]"]) simp_all
  qed
  from assms(3) consider "route_scim_create E T st authz payload = Inr (st', u, created)" | "route_scim_update E T st authz i payload = Inr st'"
    | "route_scim_delete E T st authz i = Inr st'" by blast
  then show ?thesis
  proof cases
    case 1
    then show ?thesis using goal assms(2) by (simp add: route_scim_create_def)
  next
    case 2
    then show ?thesis by (cases rule: scim_update_cases) (use goal off assms(2) in auto)
  next
    case 3
    then show ?thesis using off assms(2) by (auto simp: route_scim_delete_def elim!: rbind_InrE)
  qed
qed

section \<open>Lost deprovisioning\<close>

definition names_active :: "json \<Rightarrow> bool" where
  "names_active oper \<longleftrightarrow> operation_active oper \<noteq> None"

lemma map_filter_none: "\<not> list_ex names_active opers \<Longrightarrow> List.map_filter operation_active opers = []"
  by (induction opers) (simp_all add: names_active_def List.map_filter_simps)

lemma user_by_email_found:
  assumes "identities_inv st" "u \<in> set (di_users st)"
  shows "user_by_email st (us_email u) = Inr (Some u)"
proof -
  let ?P = "\<lambda>v. us_email v = us_email u"
  have "length (filter ?P (di_users st)) \<le> 1"
    using assms(1) by (intro distinct_filter_le1 [where f = us_email]) (auto simp: identities_inv_def)
  moreover have "u \<in> set (filter ?P (di_users st))" using assms(2) by simp
  ultimately have "filter ?P (di_users st) = [u]" by (cases "filter ?P (di_users st)") auto
  then show ?thesis by (simp add: user_by_email_def)
qed

lemma merged_email: "email \<noteq> [] \<Longrightarrow> scim_email_of (merged_payload payload email active) = Inr (Some (lower (strip email)))"
  by (simp add: scim_email_of_def scim_email_def merged_payload_def truthy_def py_str_def Let_def)

text \<open>C40: a deprovisioning request can be lost. An update whose body has no \<open>active\<close> of its own and no operation with the
  path \<open>active\<close> leaves the account active, also when the account had been deactivated and when an operation
  without a path carries \<open>active: false\<close>; and so does an update whose \<open>active\<close> is a text, the string \<open>False\<close>
  included.\<close>

theorem scim_deactivation_lost:
  assumes "identity_reachable st" "u \<in> set (di_users st)" "us_email u \<noteq> []" "lower (strip (us_email u)) = us_email u"
    and "(map_of payload ''active'' = None \<and> get_default payload ''Operations'' (JList []) = JList opers \<and> \<not> list_ex names_active opers) \<or>
         (map_of payload ''active'' = Some (JStr text) \<and> text \<noteq> [])"
    and "route_scim_update E T st authz (us_id u) payload = Inr st'"
  shows "filter (\<lambda>v. us_id v = us_id u) (di_users st') \<noteq> [] \<and>
    list_all (\<lambda>v. us_active v) (filter (\<lambda>v. us_id v = us_id u) (di_users st'))"
  using assms(6)
proof (cases rule: scim_update_cases)
  case (off st1 org v)
  then show ?thesis using assms(5) by (auto simp: scim_active_def truthy_def map_filter_none)
next
  case (on st1 org v active w b)
  have I1: "identities_inv st1" and same: "di_users st1 = di_users st"
    using scim_org_inv [OF identity_reachable_inv [OF assms(1)] on(1)] by simp_all
  have v: "v = u" using scim_user_in_org_says [OF on(2)] same_id_same_row [OF I1] assms(2) same by metis
  have act: "active = None \<and> map_of payload ''active'' = None \<or> active = Some True"
    using assms(5) on(3) by (auto simp: scim_active_def truthy_def map_filter_none)
  then have yes: "truthy (get_default (merged_payload payload (us_email v) active) ''active'' (JBool True))"
    by (auto simp: merged_payload_def get_default_def truthy_def)
  have e: "scim_email_of (merged_payload payload (us_email v) active) = Inr (Some (us_email u))"
    using merged_email [of "us_email u"] assms(3,4) v by simp
  show ?thesis using I1 on(5)
  proof (cases rule: scim_effect)
    case made
    have "us_email w = us_email u" using made e by simp
    moreover have "us_email w \<notin> us_email ` set (di_users st)" using made same by simp
    ultimately show ?thesis using assms(2) by (metis imageI)
  next
    case (kept x)
    have "x = u" using kept(2,11) e user_by_email_found [OF I1] assms(2) same by (metis Inr_inject option.inject)
    then have w: "us_id w = us_id u" using kept(4) by simp
    have rows: "filter (\<lambda>v. us_id v = us_id u) (update_rows (\<lambda>v. us_id v = us_id w) (\<lambda>_. w) us) = map (\<lambda>_. w) (filter (\<lambda>v. us_id v = us_id u) us)" for us
      using w by (induction us) (simp_all add: update_rows_def)
    have "us_active w" using kept(9) yes by simp
    moreover have "filter (\<lambda>v. us_id v = us_id u) (di_users st) \<noteq> []" using assms(2) by (auto simp: filter_empty_conv)
    ultimately show ?thesis using kept(6) rows same by (simp add: list_all_iff)
  qed
qed

section \<open>A store to try it on\<close>

definition sample_env :: identity_env where
  "sample_env = \<lparr>ie_now = 0, ie_hash = (\<lambda>s. s)\<rparr>"

definition ada :: account where
  "ada = \<lparr>us_id = 1, us_organization_id = 7, us_email = ''ada'', us_full_name = None, us_role = ''admin'', us_active = True, us_session_version = 0\<rparr>"

definition empty_store :: identity_store where
  "empty_store = \<lparr>di_orgs = [7], di_users = [], di_identities = [], di_mappings = [], di_scim_events = [],
     di_audit = \<lparr>rows = [], row_seq = 1\<rparr>, di_next = 1\<rparr>"

definition sample_oidc :: oidc_settings where
  "sample_oidc = \<lparr>oc_allowed_domains = [], oc_default_role = ''viewer'', oc_jit = True, oc_provider = ''oidc'', oc_require_email_verified = False\<rparr>"

definition sample_scim :: scim_settings where
  "sample_scim = \<lparr>sc_enabled = True, sc_bearer_token = Some ''t'', sc_organization_id = Some 7\<rparr>"

definition off_store :: identity_store where
  "off_store = add_user (ada\<lparr>us_active := False, us_role := ''viewer''\<rparr>) empty_store"

definition path_less :: claims where
  "path_less = [(''Operations'', JList [JObj [(''op'', JStr ''replace''), (''value'', JObj [(''active'', JBool False)])]])]"

definition ada_claims :: claims where
  "ada_claims = [(''sub'', JStr ''s''), (''email'', JStr ''Ada'')]"

lemma empty_reachable: "identity_reachable empty_store"
  by (rule fresh) (simp_all add: empty_store_def)

lemma off_reachable: "identity_reachable off_store"
  unfolding off_store_def
  by (rule later [OF empty_reachable], rule enrolled) (simp_all add: empty_store_def ada_def VALID_ROLES_def)

lemmas run_claims = stripped_text_def subject_of_def extract_groups_def group_values_def claims_refusal_def
  domain_allowed_def email_verification_ok_def truthy_def ada_claims_def

definition ada_user :: account where
  "ada_user = \<lparr>us_id = 1, us_organization_id = 7, us_email = ''ada'', us_full_name = None, us_role = ''viewer'', us_active = True, us_session_version = 0\<rparr>"

text \<open>The store after Ada's first sign-in, with the audit trail left open.\<close>

definition signed_store :: "audit_store \<Rightarrow> identity_store" where
  "signed_store A = \<lparr>di_orgs = [7], di_users = [ada_user],
     di_identities = [\<lparr>xi_id = 2, xi_organization_id = Some 7, xi_user_id = 1, xi_provider = ''oidc'', xi_subject = ''s'',
        xi_email = Some ''ada'', xi_claims = ada_claims, xi_last_login_at = Some 0\<rparr>],
     di_mappings = [], di_scim_events = [], di_audit = A, di_next = 3\<rparr>"

lemma sample_texts: "lower (strip ''Ada'') = ''ada''" "strip (py_str (JStr ''s'')) = ''s''" "lower (strip ''eve'') = ''eve''"
  "lower (strip ''ada'') = ''ada''" "lower ''ada'' = ''ada''" "strip (py_str (JStr ''ada'')) = ''ada''"
  by code_simp+

lemmas run_sign_in = provision_from_oidc_def run_claims
    find_identity_def existing_user_def user_by_email_def user_by_id_def first_row_def create_account_def text_column_def
    resolve_role_def apply_role_def link_identity_def sample_oidc_def sample_env_def VALID_ROLES_def
    Let_def sample_texts add_user_def add_identity_def touch_identity_def update_rows_def signed_in_def new_identity_def audit_identity_def

lemma ada_signs_in:
  "\<exists>A. provision_from_oidc sample_env sample_oidc empty_store ada_claims 7 = Inr (signed_store A, ada_user, True)"
  by (simp add: run_sign_in empty_store_def signed_store_def ada_user_def)

lemma ada_called_back:
  "\<exists>A. sso_callback sample_env sample_oidc None empty_store ada_claims = Inr (signed_store A, ada_user, True)"
  using ada_signs_in by (auto simp: sso_callback_def sso_provisioning_org_def target_org_def forbidden_def, simp add: empty_store_def)

lemma ada_again:
  "\<exists>st. sso_callback sample_env sample_oidc None (signed_store A) [(''sub'', JStr ''s''), (''email'', JStr ''eve'')] = Inr (st, ada_user, False)"
  by (simp add: sso_callback_def sso_provisioning_org_def target_org_def forbidden_def run_sign_in signed_store_def ada_user_def)

definition two_tenants :: identity_store where
  "two_tenants = add_user (ada\<lparr>us_id := 1, us_email := ''bob'', us_organization_id := 8\<rparr>) (empty_store\<lparr>di_orgs := [7, 8]\<rparr>)"

lemma two_tenants_reachable: "identity_reachable two_tenants"
  unfolding two_tenants_def
  by (rule later [OF fresh enrolled]) (simp_all add: ada_def VALID_ROLES_def empty_store_def)

theorem identity_tables_sound_witness:
  "\<exists>st :: identity_store. length (di_users st) = 1 \<and> length (di_identities st) = 1 \<and> distinct (map us_email (di_users st)) \<and>
    list_ex (\<lambda>u. us_id u = 1 \<and> Some 7 = Some (us_organization_id u)) (di_users st)"
proof -
  obtain A where a: "sso_callback sample_env sample_oidc None empty_store ada_claims = Inr (signed_store A, ada_user, True)"
    using ada_called_back by blast
  have "identity_reachable (signed_store A)" by (rule later [OF empty_reachable oidc [OF a]])
  note b = identity_tables_sound [OF this]
  then show ?thesis by (intro exI [of _ "signed_store A"]) (simp add: signed_store_def ada_user_def)
qed


theorem subject_keeps_account_witness:
  "\<exists>st1 st3 u. sso_callback sample_env sample_oidc None empty_store ada_claims = Inr (st1, ada_user, True) \<and>
     sso_callback sample_env sample_oidc None st1 [(''sub'', JStr ''s''), (''email'', JStr ''eve'')] = Inr (st3, u, False) \<and>
     us_id u = us_id ada_user"
proof -
  obtain A where a: "sso_callback sample_env sample_oidc None empty_store ada_claims = Inr (signed_store A, ada_user, True)"
    using ada_called_back by blast
  obtain st where b: "sso_callback sample_env sample_oidc None (signed_store A) [(''sub'', JStr ''s''), (''email'', JStr ''eve'')] = Inr (st, ada_user, False)"
    using ada_again by blast
  have "us_id ada_user = us_id ada_user \<and> \<not> False"
    by (rule subject_keeps_account [OF empty_reachable a rtranclp.rtrancl_refl b])
      (simp_all add: sample_oidc_def PIV_PROVIDER_def subject_of_def ada_claims_def)
  with a b show ?thesis by blast
qed

lemma sample_no_path: "lower (py_str (JStr [])) = []" by code_simp

lemmas run_scim = scim_user_in_org_def user_by_id_def user_by_email_def first_row_def scim_active_def operation_active_def merged_payload_def
  scim_create_or_update_user_def scim_email_of_def scim_email_def scim_name_def name_column_def scim_saved_def text_column_def
  truthy_def get_default_def Let_def sample_texts sample_no_path List.map_filter_simps add_user_def put_user_def update_rows_def scim_refusal_def

lemma sample_token: "lower ''Bearer t'' = ''bearer t''" "ascii ''t''" "strip ''t'' = ''t''" "is_prefix_of ''bearer '' ''bearer t''"
  by code_simp+

lemma sample_scim_org: "scim_org sample_scim empty_store ''Bearer t'' = Inr (empty_store, 7)"
  "scim_org sample_scim two_tenants ''Bearer t'' = Inr (two_tenants, 7)" "scim_org sample_scim off_store ''Bearer t'' = Inr (off_store, 7)"
  by (simp_all add: scim_org_def scim_target_org_def target_org_def bearer_def compare_digest_def sample_token sample_scim_def
    empty_store_def two_tenants_def off_store_def add_user_def)

theorem scim_confined_to_tenant_witness:
  "\<exists>st' u. route_scim_create sample_env sample_scim two_tenants ''Bearer t'' [(''userName'', JStr ''ada'')] = Inr (st', u, True) \<and>
     length (others 7 st') = 1 \<and> others 7 st' = others 7 two_tenants"
proof -
  obtain st' u where a: "route_scim_create sample_env sample_scim two_tenants ''Bearer t'' [(''userName'', JStr ''ada'')] = Inr (st', u, True)"
    by (simp add: route_scim_create_def sample_scim_org)
      (simp add: run_scim two_tenants_def empty_store_def ada_def)
  have "others 7 st' = others 7 two_tenants"
    using scim_confined_to_tenant [OF two_tenants_reachable sample_scim_org(2) disjI1 [OF a]] by (elim conjE)
  moreover have "length (others 7 two_tenants) = 1" by (simp add: others_def two_tenants_def add_user_def empty_store_def ada_def)
  ultimately show ?thesis using a by (intro exI [of _ st'] exI [of _ u]) simp
qed

theorem scim_deactivation_lost_witness:
  "\<exists>st'. route_scim_update sample_env sample_scim off_store ''Bearer t'' 1 path_less = Inr st' \<and>
     list_all (\<lambda>v. \<not> us_active v) (di_users off_store) \<and> list_all (\<lambda>v. us_active v) (filter (\<lambda>v. us_id v = 1) (di_users st')) \<and>
     filter (\<lambda>v. us_id v = 1) (di_users st') \<noteq> []"
proof -
  let ?u = "ada\<lparr>us_active := False, us_role := ''viewer''\<rparr>"
  let ?opers = "[JObj [(''op'', JStr ''replace''), (''value'', JObj [(''active'', JBool False)])]]"
  obtain st' where a: "route_scim_update sample_env sample_scim off_store ''Bearer t'' 1 path_less = Inr st'"
    by (simp add: route_scim_update_def sample_scim_org)
      (simp add: run_scim off_store_def empty_store_def ada_def path_less_def)
  have p: "map_of path_less ''active'' = None \<and> get_default path_less ''Operations'' (JList []) = JList ?opers \<and> \<not> list_ex names_active ?opers"
    by (simp add: path_less_def get_default_def names_active_def operation_active_def sample_no_path)
  have i: "us_id ?u = 1" by (simp add: ada_def)
  note b = scim_deactivation_lost [OF off_reachable, of ?u path_less ?opers "[]", unfolded i, OF _ _ _ disjI1 [OF p] a]
  have "filter (\<lambda>v. us_id v = 1) (di_users st') \<noteq> [] \<and> list_all (\<lambda>v. us_active v) (filter (\<lambda>v. us_id v = 1) (di_users st'))"
    by (rule b) (simp_all add: off_store_def ada_def empty_store_def add_user_def sample_texts)
  then show ?thesis using a by (intro exI [of _ st']) (simp add: off_store_def ada_def empty_store_def add_user_def)
qed

end
