(* ===== verification/Poams.thy ===== *)
theory Poams
  imports Approvals Authorization
begin

text \<open>
  The life of a POA\&M, \<open>api/routes/poams.py\<close>: creation, edits, closing and milestones, with the two gates
  in front of \<open>closed\<close> and \<open>risk_accepted\<close> and the review they ask \<open>Approvals\<close> for.

  A closure also asks \<open>assessment/engine/jobs.py\<close> to evaluate the control again once it is committed; the
  operations return that request, which \<open>Assessment\<close> serves. \<open>pe_refuses\<close> holds of the rows a foreign key
  or a column length refuses. The columns no modelled operation reads (contact, resources, cost, scheduled
  completion, risk, vendor) are left out of the bodies.
\<close>

section \<open>State\<close>

record control_implementation =
  ci_id :: int
  ci_system_id :: int
  ci_control_id :: int
  ci_status :: string
  ci_next_assessment_due :: "date option"

record dated_evidence =
  de_id :: int
  de_implementation_id :: "int option"
  de_collected_on :: "date option"
  de_expires_on :: "date option"

record grc_store =
  gs_approvals :: approval_store
  gs_systems :: "system list"
  gs_impls :: "control_implementation list"
  gs_evidence :: "dated_evidence list"

record poam_env =
  pe_env :: env
  pe_auth_enabled :: bool
  pe_refuses :: "poam \<Rightarrow> bool"

abbreviation gs_db :: "grc_store \<Rightarrow> db" where
  "gs_db st \<equiv> as_db (gs_approvals st)"

definition with_db :: "(db \<Rightarrow> db) \<Rightarrow> grc_store \<Rightarrow> grc_store" where
  "with_db f st = st\<lparr>gs_approvals := (gs_approvals st)\<lparr>as_db := f (gs_db st)\<rparr>\<rparr>"

abbreviation gs_poams :: "grc_store \<Rightarrow> poam list" where
  "gs_poams st \<equiv> poams (gs_db st)"

definition today_of :: "poam_env \<Rightarrow> date" where
  "today_of E = dt_date (en_now (pe_env E))"

definition SEVERITIES :: "string list" where [vocab]:
  "SEVERITIES = [''low'', ''moderate'', ''high'', ''critical'']"

definition MS_STATUS :: "string list" where [vocab]:
  "MS_STATUS = [''pending'', ''in_progress'', ''completed'', ''delayed'']"

section \<open>Gates\<close>

definition blank_text :: "string option \<Rightarrow> bool" where
  "blank_text v \<longleftrightarrow> (case v of None \<Rightarrow> True | Some s \<Rightarrow> strip s = [])"

definition milestones_satisfy_closure :: "poam \<Rightarrow> bool" where
  "milestones_satisfy_closure p \<longleftrightarrow> po_milestones p \<noteq> [] \<and> list_all (\<lambda>m. pm_status m = ''completed'') (po_milestones p)"

text \<open>Evidence of an implementation of the POA\&M's control on its system, dated no earlier than the weakness.\<close>

definition closure_artifact :: "grc_store \<Rightarrow> poam \<Rightarrow> dated_evidence \<Rightarrow> bool" where
  "closure_artifact st p e \<longleftrightarrow>
     list_ex (\<lambda>i. de_implementation_id e = Some (ci_id i) \<and> ci_system_id i = po_system_id p \<and> Some (ci_control_id i) = po_control_id p)
       (gs_impls st) \<and>
     (case de_collected_on e of
        None \<Rightarrow> False
      | Some d \<Rightarrow> (case po_identified_on p of None \<Rightarrow> True | Some since \<Rightarrow> since \<le> d))"

definition has_closure_evidence :: "grc_store \<Rightarrow> poam \<Rightarrow> bool" where
  "has_closure_evidence st p \<longleftrightarrow> po_control_id p \<noteq> None \<and> list_ex (closure_artifact st p) (gs_evidence st)"

definition review_state :: "grc_store \<Rightarrow> int option \<Rightarrow> string res" where
  "review_state st pid = entity_state (gs_approvals st) ''poam'' (case pid of None \<Rightarrow> ''None'' | Some i \<Rightarrow> str_of_int i)"

definition require_closure_gate :: "poam_env \<Rightarrow> grc_store \<Rightarrow> int option \<Rightarrow> poam \<Rightarrow> unit res" where
  "require_closure_gate E st pid p =
     (if \<not> milestones_satisfy_closure p \<and> \<not> has_closure_evidence st p
      then Inl (HTTPException 409 (fstr [''cannot close: requires either all milestones completed or a linked closure '',
             ''evidence artifact for the remediated control'']))
      else if \<not> pe_auth_enabled E then Inr ()
      else rbind (review_state st pid) (\<lambda>s.
             if s \<noteq> ''approved''
             then Inl (HTTPException 409 (fstr [''cannot close: requires an approved review (submit for approval, then have a '',
                    ''different principal approve it '', em_dash, '' separation of duties)'']))
             else Inr ()))"

definition require_risk_accepted_gate ::
  "poam_env \<Rightarrow> grc_store \<Rightarrow> int option \<Rightarrow> date option \<Rightarrow> int option \<Rightarrow> string option \<Rightarrow> unit res" where
  "require_risk_accepted_gate E st owner due pid rationale =
     (if owner = None \<or> due = None
      then Inl (HTTPException 409 ''risk_accepted requires an owner (owner_user_id) and an expiration/due_on date'')
      else if blank_text rationale
      then Inl (HTTPException 409 ''risk_accepted requires a written acceptance rationale (acceptance_rationale)'')
      else if \<not> pe_auth_enabled E then Inr ()
      else rbind (case pid of None \<Rightarrow> Inr ''draft'' | Some i \<Rightarrow> review_state st (Some i)) (\<lambda>s.
             if s \<noteq> ''approved''
             then Inl (HTTPException 409 (fstr [''risk_accepted requires an approved authorizing-official review (submit for '',
                    ''approval, then have an AO/admin approve it)'']))
             else Inr ()))"

definition poam_leaves_risk_accepted :: "string \<Rightarrow> string \<Rightarrow> bool" where
  "poam_leaves_risk_accepted old_status new_status \<longleftrightarrow> old_status = ''risk_accepted'' \<and> new_status \<noteq> ''risk_accepted''"

section \<open>Operations\<close>

record poam_create =
  pc_system_id :: int
  pc_control_id :: "int option"
  pc_title :: string
  pc_weakness :: "string option"
  pc_severity :: string
  pc_status :: string
  pc_identified_on :: "date option"
  pc_due_on :: "date option"
  pc_owner_user_id :: "int option"
  pc_source :: "string option"
  pc_remediation_plan :: "string option"
  pc_acceptance_rationale :: "string option"

record poam_update =
  pu_title :: "string option"
  pu_weakness :: "string option"
  pu_severity :: "string option"
  pu_status :: "string option"
  pu_identified_on :: "date option"
  pu_due_on :: "date option"
  pu_closed_on :: "date option"
  pu_owner_user_id :: "int option"
  pu_source :: "string option"
  pu_remediation_plan :: "string option"
  pu_acceptance_rationale :: "string option"

record reevaluation_request =
  re_poam_id :: int
  re_source_ref :: string
  re_organization_id :: int

definition in_callers_scope :: "grc_store \<Rightarrow> caller \<Rightarrow> int \<Rightarrow> bool" where
  "in_callers_scope st who system_id \<longleftrightarrow>
     pr_org_id who = None \<or> list_ex (\<lambda>s. sy_id s = system_id \<and> Some (sy_organization_id s) = pr_org_id who) (gs_systems st)"

definition require_poam :: "grc_store \<Rightarrow> caller \<Rightarrow> int \<Rightarrow> poam res" where
  "require_poam st who pid =
     rbind (one_or_none (filter (\<lambda>p. po_id p = pid) (gs_poams st))) (\<lambda>found.
       case found of
         None \<Rightarrow> Inl (HTTPException 404 ''poam not found'')
       | Some p \<Rightarrow> if in_callers_scope st who (po_system_id p) then Inr p else Inl (HTTPException 404 ''poam not found''))"

definition poam_event :: "poam_env \<Rightarrow> caller \<Rightarrow> string \<Rightarrow> poam \<Rightarrow> string \<Rightarrow> grc_store \<Rightarrow> grc_store" where
  "poam_event E who verb p summary =
     with_db (\<lambda>d. fst (emit (pe_env E) d verb ''poam'' summary (pr_org_id who) (Some (pr_email who)) (Some (str_of_int (po_id p))) [] True))"

definition put_poam :: "poam \<Rightarrow> grc_store \<Rightarrow> grc_store" where
  "put_poam p = with_db (\<lambda>d. d\<lparr>poams := update_rows (\<lambda>q. po_id q = po_id p) (\<lambda>_. p) (poams d)\<rparr>)"

definition new_poam :: "int \<Rightarrow> poam_create \<Rightarrow> poam" where
  "new_poam i b =
     \<lparr>po_id = i, po_system_id = pc_system_id b, po_control_id = pc_control_id b, po_title = pc_title b, po_weakness = pc_weakness b,
      po_severity = pc_severity b, po_status = pc_status b, po_identified_on = pc_identified_on b, po_due_on = pc_due_on b,
      po_closed_on = None, po_source = pc_source b, po_remediation_plan = pc_remediation_plan b,
      po_remediation_plan_source = ''analyst'', po_original_due_on = pc_due_on b, po_source_ref = None, po_milestones = [],
      po_owner_user_id = pc_owner_user_id b, po_acceptance_rationale = pc_acceptance_rationale b\<rparr>"

definition create_poam :: "poam_env \<Rightarrow> grc_store \<Rightarrow> caller \<Rightarrow> poam_create \<Rightarrow> grc_store res" where
  "create_poam E st who b =
     (if pc_severity b \<notin> set SEVERITIES \<or> pc_status b \<notin> set POAM_STATUSES then Inl (HTTPException 422 ''string_pattern_mismatch'')
      else if \<not> in_callers_scope st who (pc_system_id b) then Inl (HTTPException 404 ''system not found'')
      else let p = new_poam (next_id (gs_db st)) b in
        rbind (if pc_status b = ''closed'' then require_closure_gate E st None p
               else if pc_status b = ''risk_accepted''
               then require_risk_accepted_gate E st (pc_owner_user_id b) (pc_due_on b) None (pc_acceptance_rationale b)
               else Inr ()) (\<lambda>_.
        if pe_refuses E p then Inl (IntegrityError ''poams'')
        else Inr (poam_event E who ''created'' p (fstr [''POA&M opened ('', po_severity p, ''): '', po_title p])
               (with_db (\<lambda>d. d\<lparr>poams := poams d @ [p], next_id := next_id d + 1\<rparr>) st))))"

text \<open>Every field of the body that is present is written; then the consequences of the status.\<close>

definition patched :: "poam_update \<Rightarrow> poam \<Rightarrow> poam" where
  "patched b p =
     p\<lparr>po_title := case_option (po_title p) id (pu_title b),
       po_weakness := case_option (po_weakness p) Some (pu_weakness b),
       po_severity := case_option (po_severity p) id (pu_severity b),
       po_status := case_option (po_status p) id (pu_status b),
       po_identified_on := case_option (po_identified_on p) Some (pu_identified_on b),
       po_due_on := case_option (po_due_on p) Some (pu_due_on b),
       po_closed_on := case_option (po_closed_on p) Some (pu_closed_on b),
       po_owner_user_id := case_option (po_owner_user_id p) Some (pu_owner_user_id b),
       po_source := case_option (po_source p) Some (pu_source b),
       po_remediation_plan := case_option (po_remediation_plan p) Some (pu_remediation_plan b),
       po_acceptance_rationale := case_option (po_acceptance_rationale p) Some (pu_acceptance_rationale b)\<rparr>"

definition after_patch :: "poam_update \<Rightarrow> string \<Rightarrow> poam \<Rightarrow> poam" where
  "after_patch b old_status p =
     (let p1 = (if pu_remediation_plan b \<noteq> None then p\<lparr>po_remediation_plan_source := ''analyst''\<rparr> else p);
          p2 = (if (case pu_status b of None \<Rightarrow> False | Some s \<Rightarrow> s \<notin> set POAM_CLOSED_STATUSES) \<and> pu_closed_on b = None
                then p1\<lparr>po_closed_on := None\<rparr> else p1)
      in if poam_leaves_risk_accepted old_status (case_option old_status id (pu_status b))
         then p2\<lparr>po_acceptance_rationale := None\<rparr> else p2)"

definition reevaluation_for :: "grc_store \<Rightarrow> poam \<Rightarrow> reevaluation_request option" where
  "reevaluation_for st p =
     (case po_source_ref p of
        None \<Rightarrow> None
      | Some ref \<Rightarrow>
          if ref = [] then None
          else map_option (\<lambda>s. \<lparr>re_poam_id = po_id p, re_source_ref = ref, re_organization_id = sy_organization_id s\<rparr>)
                 (first_row (filter (\<lambda>s. sy_id s = po_system_id p) (gs_systems st))))"

definition patch_gate :: "poam_env \<Rightarrow> grc_store \<Rightarrow> poam \<Rightarrow> poam_update \<Rightarrow> unit res" where
  "patch_gate E st p b =
     (if (case pu_acceptance_rationale b of None \<Rightarrow> False | Some r \<Rightarrow> blank_text (Some r)) \<and>
         case_option (po_status p) id (pu_status b) = ''risk_accepted''
      then Inl (HTTPException 409 (fstr [''cannot blank acceptance_rationale while risk_accepted -- move the '',
             ''POA&M out of risk_accepted first, or supply a replacement'']))
      else if pu_status b = Some ''closed'' then require_closure_gate E st (Some (po_id p)) p
      else if pu_status b = Some ''risk_accepted'' \<and> po_status p \<noteq> ''risk_accepted''
      then require_risk_accepted_gate E st (case_option (po_owner_user_id p) Some (pu_owner_user_id b))
             (case_option (po_due_on p) Some (pu_due_on b)) (Some (po_id p))
             (case_option (po_acceptance_rationale p) Some (pu_acceptance_rationale b))
      else Inr ())"

definition update_poam ::
  "poam_env \<Rightarrow> grc_store \<Rightarrow> caller \<Rightarrow> int \<Rightarrow> poam_update \<Rightarrow> (grc_store \<times> reevaluation_request option) res" where
  "update_poam E st who pid b =
     (if (case pu_severity b of None \<Rightarrow> False | Some s \<Rightarrow> s \<notin> set SEVERITIES) \<or>
         (case pu_status b of None \<Rightarrow> False | Some s \<Rightarrow> s \<notin> set POAM_STATUSES)
      then Inl (HTTPException 422 ''string_pattern_mismatch'')
      else rbind (require_poam st who pid) (\<lambda>p.
           rbind (patch_gate E st p b) (\<lambda>_.
             let p' = after_patch b (po_status p) (patched b p) in
             if pe_refuses E p' then Inl (IntegrityError ''poams'')
             else let st' = poam_event E who ''updated'' p' (fstr [''POA&M '', po_status p', '': '', po_title p']) (put_poam p' st)
                  in Inr (st', if pu_status b = Some ''closed'' \<and> po_status p \<noteq> ''closed'' then reevaluation_for st' p' else None))))"

definition close_poam ::
  "poam_env \<Rightarrow> grc_store \<Rightarrow> caller \<Rightarrow> int \<Rightarrow> (grc_store \<times> reevaluation_request option) res" where
  "close_poam E st who pid =
     rbind (require_poam st who pid) (\<lambda>p.
     rbind (require_closure_gate E st (Some pid) p) (\<lambda>_.
       let p' = p\<lparr>po_status := ''closed'', po_closed_on := Some (today_of E)\<rparr>;
           st' = poam_event E who ''closed'' p' (fstr [''POA&M closed: '', po_title p']) (put_poam p' st)
       in Inr (st', if po_status p \<noteq> ''closed'' then reevaluation_for st' p' else None)))"

section \<open>Milestones\<close>

record milestone_in =
  mi_description :: string
  mi_due_on :: "date option"
  mi_status :: string
  mi_sort_order :: int

record milestone_update =
  mu_description :: "string option"
  mu_due_on :: "date option"
  mu_completed_on :: "date option"
  mu_status :: "string option"
  mu_sort_order :: "int option"

definition add_milestone :: "grc_store \<Rightarrow> caller \<Rightarrow> int \<Rightarrow> milestone_in \<Rightarrow> grc_store res" where
  "add_milestone st who pid b =
     (if mi_status b \<notin> set MS_STATUS then Inl (HTTPException 422 ''string_pattern_mismatch'')
      else rbind (require_poam st who pid) (\<lambda>p.
        let m = \<lparr>pm_description = mi_description b, pm_due_on = mi_due_on b, pm_status = mi_status b, pm_sort_order = mi_sort_order b,
                 pm_id = next_id (gs_db st), pm_completed_on = None\<rparr>
        in Inr (with_db (\<lambda>d. d\<lparr>next_id := next_id d + 1\<rparr>) (put_poam (p\<lparr>po_milestones := po_milestones p @ [m]\<rparr>) st))))"

definition edited_milestone :: "date \<Rightarrow> milestone_update \<Rightarrow> poam_milestone \<Rightarrow> poam_milestone" where
  "edited_milestone today b m =
     (let m1 = m\<lparr>pm_description := case_option (pm_description m) id (mu_description b),
                 pm_due_on := case_option (pm_due_on m) Some (mu_due_on b),
                 pm_completed_on := case_option (pm_completed_on m) Some (mu_completed_on b),
                 pm_status := case_option (pm_status m) id (mu_status b),
                 pm_sort_order := case_option (pm_sort_order m) id (mu_sort_order b)\<rparr>
      in if mu_status b = Some ''completed'' \<and> pm_completed_on m1 = None then m1\<lparr>pm_completed_on := Some today\<rparr> else m1)"

definition update_milestone :: "poam_env \<Rightarrow> grc_store \<Rightarrow> caller \<Rightarrow> int \<Rightarrow> int \<Rightarrow> milestone_update \<Rightarrow> grc_store res" where
  "update_milestone E st who pid mid b =
     (if (case mu_status b of None \<Rightarrow> False | Some s \<Rightarrow> s \<notin> set MS_STATUS) then Inl (HTTPException 422 ''string_pattern_mismatch'')
      else rbind (require_poam st who pid) (\<lambda>p.
           rbind (one_or_none (filter (\<lambda>m. pm_id m = mid) (po_milestones p))) (\<lambda>found.
             case found of
               None \<Rightarrow> Inl (HTTPException 404 ''milestone not found'')
             | Some m \<Rightarrow> Inr (put_poam (p\<lparr>po_milestones :=
                   update_rows (\<lambda>m. pm_id m = mid) (edited_milestone (today_of E) b) (po_milestones p)\<rparr>) st))))"

end
