(* ===== verification/Conmon.thy ===== *)
theory Conmon
  imports Poams Control_Tests PyFloat
begin

text \<open>
  Continuous monitoring, \<open>governance/conmon.py\<close>: the health of a control implementation from its evidence,
  its assessment date and its open POA\&Ms, and the scan that turns health into notifications, tasks and
  POA\&Ms and notes recoveries. The scan reads the POA\&Ms that were open when it started, with the values
  they have when their control comes up.
\<close>

section \<open>Health\<close>

definition DUE_SOON_DAYS :: int where [vocab]:
  "DUE_SOON_DAYS = 30"

definition CONMON_RANK :: "(string \<times> int) list" where [vocab]:
  "CONMON_RANK = [(''healthy'', 0), (''due_soon'', 1), (''at_risk'', 2), (''overdue'', 3)]"

definition POAM_SEVERITY :: "string \<Rightarrow> string" where
  "POAM_SEVERITY status = (if status = ''overdue'' then ''high'' else ''moderate'')"

definition conmon_rank :: "string \<Rightarrow> int" where
  "conmon_rank s = get_default CONMON_RANK s 0"

definition escalate :: "string \<Rightarrow> string \<Rightarrow> string" where
  "escalate current candidate = (if conmon_rank current < conmon_rank candidate then candidate else current)"

text \<open>Each check escalates the status and adds its reason.\<close>

definition flag :: "string \<Rightarrow> string \<Rightarrow> string \<times> string list \<Rightarrow> string \<times> string list" where
  "flag candidate reason s = (escalate (fst s) candidate, snd s @ [reason])"

definition evidence_check :: "date \<Rightarrow> dated_evidence list \<Rightarrow> string \<times> string list \<Rightarrow> string \<times> string list" where
  "evidence_check today evidences s =
     (let dated = List.map_filter de_expires_on evidences; horizon = today + DUE_SOON_DAYS
      in if list_ex (\<lambda>d. d < today) dated then flag ''overdue'' ''evidence expired'' s
         else if list_ex (\<lambda>d. d \<le> horizon) dated then flag ''due_soon'' ''evidence expiring soon'' s
         else s)"

definition missing_evidence_check :: "control_implementation \<Rightarrow> dated_evidence list \<Rightarrow> string \<times> string list \<Rightarrow> string \<times> string list" where
  "missing_evidence_check impl evidences s =
     (if evidences = [] \<and> ci_status impl \<in> {''implemented'', ''inherited''} then flag ''due_soon'' ''no evidence on record'' s else s)"

definition assessment_check :: "date \<Rightarrow> control_implementation \<Rightarrow> string \<times> string list \<Rightarrow> string \<times> string list" where
  "assessment_check today impl s =
     (case ci_next_assessment_due impl of
        None \<Rightarrow> s
      | Some due \<Rightarrow>
          if due < today then flag ''overdue'' ''assessment overdue'' s
          else if due \<le> today + DUE_SOON_DAYS then flag ''due_soon'' ''assessment due soon'' s
          else s)"

definition severe :: "poam \<Rightarrow> bool" where
  "severe p \<longleftrightarrow> po_severity p \<in> {''high'', ''critical''}"

definition poam_check :: "poam list \<Rightarrow> string \<times> string list \<Rightarrow> string \<times> string list" where
  "poam_check open_poams s =
     (let crit = filter severe open_poams
      in if crit \<noteq> [] then flag ''at_risk'' (fstr [str_of_nat (length crit), '' open high/critical POA&M'']) s else s)"

definition status_check :: "control_implementation \<Rightarrow> string \<times> string list \<Rightarrow> string \<times> string list" where
  "status_check impl s =
     (if ci_status impl \<in> {''not_implemented'', ''planned''}
      then flag ''at_risk'' (fstr [''implementation status: '', ci_status impl]) s else s)"

definition assess_health :: "control_implementation \<Rightarrow> dated_evidence list \<Rightarrow> poam list \<Rightarrow> date \<Rightarrow> string \<times> string list" where
  "assess_health impl evidences open_poams today =
     status_check impl (poam_check open_poams (assessment_check today impl
       (missing_evidence_check impl evidences (evidence_check today evidences (''healthy'', [])))))"

definition kind_for :: "string list \<Rightarrow> string" where
  "kind_for reasons =
     (let joined = join_with '' '' reasons
      in if is_substring ''POA&M'' joined then ''remediation''
         else if is_substring ''assessment'' joined then ''reassessment''
         else if is_substring ''evidence'' joined then ''evidence_refresh''
         else ''review'')"

section \<open>What a scan writes for one control\<close>

definition health_key :: "control_implementation \<Rightarrow> string" where
  "health_key impl = fstr [''conmon:'', str_of_int (ci_id impl)]"

definition impl_key :: "control_implementation \<Rightarrow> string" where
  "impl_key impl = fstr [''conmon:impl:'', str_of_int (ci_id impl)]"

definition spaced :: "string \<Rightarrow> string" where
  "spaced s = map (\<lambda>c. if c = CHR ''_'' then CHR '' '' else c) s"

definition monitoring_title :: "control_implementation \<Rightarrow> string \<Rightarrow> string" where
  "monitoring_title impl status = fstr [''Control '', str_of_int (ci_control_id impl), '' monitoring: '', spaced status]"

definition reason_text :: "string list \<Rightarrow> string" where
  "reason_text reasons = join_with ''; '' reasons"

definition health_notice :: "int option \<Rightarrow> control_implementation \<Rightarrow> string \<Rightarrow> string list \<Rightarrow> notice" where
  "health_notice org_id impl status reasons =
     \<lparr>nc_category = ''conmon'', nc_title = monitoring_title impl status, nc_org_id = org_id, nc_user_id = None,
      nc_severity = (if status = ''overdue'' then ''critical'' else if status = ''at_risk'' then ''warning'' else ''info''),
      nc_body = Some (reason_text reasons), nc_entity_type = Some ''control_implementation'',
      nc_entity_id = Some (str_of_int (ci_id impl)), nc_dedupe_key = Some (health_key impl)\<rparr>"

definition health_task :: "int \<Rightarrow> date \<Rightarrow> int option \<Rightarrow> control_implementation \<Rightarrow> string \<Rightarrow> string list \<Rightarrow> task" where
  "health_task i today org_id impl status reasons =
     \<lparr>tk_id = i, tk_organization_id = org_id, tk_system_id = Some (ci_system_id impl), tk_title = monitoring_title impl status,
      tk_description = Some (reason_text reasons), tk_kind = kind_for reasons,
      tk_priority = (if status = ''overdue'' then ''high'' else ''medium''), tk_status = ''open'', tk_source = ''auto'',
      tk_entity_type = Some ''control_implementation'', tk_entity_id = Some (str_of_int (ci_id impl)),
      tk_dedupe_key = Some (impl_key impl), tk_closed_at = None, tk_due_on = Some (today + 14)\<rparr>"

definition refresh_task :: "control_implementation \<Rightarrow> string \<Rightarrow> string list \<Rightarrow> task \<Rightarrow> task" where
  "refresh_task impl status reasons k =
     k\<lparr>tk_title := monitoring_title impl status, tk_description := Some (reason_text reasons),
       tk_priority := (if status = ''overdue'' then ''high'' else ''medium'')\<rparr>"

definition upsert_health_task ::
  "date \<Rightarrow> int option \<Rightarrow> control_implementation \<Rightarrow> string \<Rightarrow> string list \<Rightarrow> db \<Rightarrow> (db \<times> bool) res" where
  "upsert_health_task today org_id impl status reasons d =
     rbind (one_or_none (filter (\<lambda>k. tk_dedupe_key k = Some (impl_key impl)) (tasks d))) (\<lambda>existing.
       case existing of
         Some k \<Rightarrow>
           Inr (if tk_status k \<in> {''done'', ''cancelled''} then d
                else d\<lparr>tasks := update_rows (\<lambda>k. tk_dedupe_key k = Some (impl_key impl)) (refresh_task impl status reasons) (tasks d)\<rparr>, False)
       | None \<Rightarrow> Inr (d\<lparr>tasks := tasks d @ [health_task (next_id d) today org_id impl status reasons], next_id := next_id d + 1\<rparr>, True))"

definition conmon_poam :: "poam \<Rightarrow> bool" where
  "conmon_poam p \<longleftrightarrow> po_source p = Some ''conmon'' \<and> po_status p \<in> set POAM_ACTIVE_STATUSES"

definition health_poam_of :: "control_implementation \<Rightarrow> poam \<Rightarrow> bool" where
  "health_poam_of impl p \<longleftrightarrow> po_system_id p = ci_system_id impl \<and> po_control_id p = Some (ci_control_id impl) \<and> conmon_poam p"

definition health_poam :: "int \<Rightarrow> date \<Rightarrow> control_implementation \<Rightarrow> string \<Rightarrow> string list \<Rightarrow> poam" where
  "health_poam i today impl status reasons =
     (let severity = POAM_SEVERITY status; due = today + (if severity = ''high'' then 14 else 30); title = monitoring_title impl status
      in \<lparr>po_id = i, po_system_id = ci_system_id impl, po_control_id = Some (ci_control_id impl), po_title = title,
          po_weakness = Some (reason_text reasons), po_severity = severity, po_status = ''open'', po_identified_on = Some today,
          po_due_on = Some due, po_closed_on = None, po_source = Some ''conmon'', po_remediation_plan = None,
          po_remediation_plan_source = ''analyst'', po_original_due_on = Some due, po_source_ref = Some (impl_key impl),
          po_milestones = [\<lparr>pm_description = fstr [''Remediate: '', title], pm_due_on = Some due, pm_status = ''pending'',
             pm_sort_order = 0, pm_id = i, pm_completed_on = None\<rparr>],
          po_owner_user_id = None, po_acceptance_rationale = None\<rparr>)"

definition refresh_health_poam :: "string \<Rightarrow> string list \<Rightarrow> poam \<Rightarrow> poam" where
  "refresh_health_poam status reasons p = p\<lparr>po_severity := POAM_SEVERITY status, po_weakness := Some (reason_text reasons)\<rparr>"

definition upsert_health_poam ::
  "date \<Rightarrow> control_implementation \<Rightarrow> string \<Rightarrow> string list \<Rightarrow> db \<Rightarrow> (db \<times> bool) res" where
  "upsert_health_poam today impl status reasons d =
     rbind (one_or_none (filter (health_poam_of impl) (poams d))) (\<lambda>existing.
       case existing of
         Some p \<Rightarrow> Inr (d\<lparr>poams := update_rows (health_poam_of impl) (refresh_health_poam status reasons) (poams d)\<rparr>, False)
       | None \<Rightarrow> Inr (d\<lparr>poams := poams d @ [health_poam (next_id d) today impl status reasons], next_id := next_id d + 1\<rparr>, True))"

section \<open>Recovery\<close>

definition recovered_poam :: "control_implementation \<Rightarrow> poam \<Rightarrow> bool" where
  "recovered_poam impl p \<longleftrightarrow> po_system_id p = ci_system_id impl \<and> po_source_ref p = Some (impl_key impl) \<and> conmon_poam p"

definition healthy_note :: "env \<Rightarrow> control_implementation \<Rightarrow> string" where
  "healthy_note E impl = fstr [''Control implementation '', str_of_int (ci_id impl), '' returned to healthy as of '',
     isoformat (en_now E), '' -- review for closure.'']"

definition healthy_notice :: "env \<Rightarrow> int option \<Rightarrow> control_implementation \<Rightarrow> poam \<Rightarrow> notice" where
  "healthy_notice E org_id impl p =
     \<lparr>nc_category = ''conmon'', nc_title = fstr [''Control '', str_of_int (ci_id impl), '' recovered: POA&M ready for review''],
      nc_org_id = org_id, nc_user_id = None, nc_severity = ''info'', nc_body = Some (healthy_note E impl),
      nc_entity_type = Some ''poam'', nc_entity_id = Some (str_of_int (po_id p)),
      nc_dedupe_key = Some (fstr [''poam-recovery:'', str_of_int (po_id p)])\<rparr>"

definition health_recovery_body :: "env \<Rightarrow> int option \<Rightarrow> control_implementation \<Rightarrow> db \<Rightarrow> (db \<times> bool \<times> bool) res" where
  "health_recovery_body E org_id impl d =
     rbind (one_or_none (filter (\<lambda>k. tk_dedupe_key k = Some (impl_key impl)) (tasks d))) (\<lambda>tk.
       let resolved = (case tk of None \<Rightarrow> False | Some k \<Rightarrow> tk_status k = ''open'');
           d1 = d\<lparr>tasks := update_rows (\<lambda>k. tk_dedupe_key k = Some (impl_key impl) \<and> tk_status k = ''open'')
                    (\<lambda>k. k\<lparr>tk_status := ''done'', tk_closed_at := Some (en_now E)\<rparr>) (tasks d)\<rparr>
       in rbind (one_or_none (filter (recovered_poam impl) (poams d1))) (\<lambda>po.
            case po of
              None \<Rightarrow> Inr (d1, resolved, False)
            | Some p \<Rightarrow>
                rbind (notify E (healthy_notice E org_id impl p)
                  (d1\<lparr>poams := update_rows (recovered_poam impl) (append_note (healthy_note E impl)) (poams d1)\<rparr>))
                  (\<lambda>d2. Inr (d2, resolved, True))))"

text \<open>The savepoint: a failure leaves the database as it was and reports nothing.\<close>

definition resolve_health_recovery :: "env \<Rightarrow> int option \<Rightarrow> control_implementation \<Rightarrow> db \<Rightarrow> db \<times> bool \<times> bool" where
  "resolve_health_recovery E org_id impl d =
     (case health_recovery_body E org_id impl d of Inl e \<Rightarrow> (d, False, False) | Inr r \<Rightarrow> r)"

section \<open>The scan\<close>

record monitoring_run =
  mr_id :: int
  mr_organization_id :: "int option"
  mr_controls_checked :: nat
  mr_findings :: nat
  mr_tasks_created :: nat
  mr_notifications_created :: nat
  mr_poams_created :: nat
  mr_tasks_resolved :: nat
  mr_poams_recovered :: nat
  mr_by_status :: "(string \<times> nat) list"

definition fresh_run :: "int \<Rightarrow> int option \<Rightarrow> monitoring_run" where
  "fresh_run i org_id =
     \<lparr>mr_id = i, mr_organization_id = org_id, mr_controls_checked = 0, mr_findings = 0, mr_tasks_created = 0,
      mr_notifications_created = 0, mr_poams_created = 0, mr_tasks_resolved = 0, mr_poams_recovered = 0,
      mr_by_status = [(''healthy'', 0), (''due_soon'', 0), (''at_risk'', 0), (''overdue'', 0)]\<rparr>"

definition impls_in_scope :: "grc_store \<Rightarrow> int option \<Rightarrow> control_implementation list" where
  "impls_in_scope st org_id =
     filter (\<lambda>i. org_id = None \<or> list_ex (\<lambda>s. sy_id s = ci_system_id i \<and> Some (sy_organization_id s) = org_id) (gs_systems st)) (gs_impls st)"

definition evidence_of :: "dated_evidence list \<Rightarrow> control_implementation \<Rightarrow> dated_evidence list" where
  "evidence_of evs impl = filter (\<lambda>e. de_implementation_id e = Some (ci_id impl)) evs"

definition active_ids :: "db \<Rightarrow> int list" where
  "active_ids d = map po_id (filter (\<lambda>p. po_status p \<in> set POAM_ACTIVE_STATUSES) (poams d))"

definition impl_poams :: "int list \<Rightarrow> db \<Rightarrow> control_implementation \<Rightarrow> poam list" where
  "impl_poams ids d impl =
     filter (\<lambda>p. po_id p \<in> set ids \<and> po_system_id p = ci_system_id impl \<and> po_control_id p = Some (ci_control_id impl)) (poams d)"

definition healthy_control ::
  "env \<Rightarrow> int option \<Rightarrow> control_implementation \<Rightarrow> db \<times> monitoring_run \<Rightarrow> db \<times> monitoring_run" where
  "healthy_control E org_id impl s =
     (case s of (d, r) \<Rightarrow> case resolve_health_recovery E org_id impl d of (d', resolved, recovered) \<Rightarrow>
        (d', r\<lparr>mr_tasks_resolved := mr_tasks_resolved r + (if resolved then 1 else 0),
               mr_poams_recovered := mr_poams_recovered r + (if recovered then 1 else 0)\<rparr>))"

definition unhealthy_control ::
  "env \<Rightarrow> date \<Rightarrow> int option \<Rightarrow> control_implementation \<Rightarrow> string \<Rightarrow> string list \<Rightarrow> db \<times> monitoring_run \<Rightarrow> (db \<times> monitoring_run) res" where
  "unhealthy_control E today org_id impl status reasons s =
     (case s of (d, r) \<Rightarrow>
        rbind (notify E (health_notice org_id impl status reasons) d) (\<lambda>d1.
          let r1 = r\<lparr>mr_findings := mr_findings r + 1, mr_notifications_created := mr_notifications_created r + 1\<rparr>
          in if status \<notin> {''at_risk'', ''overdue''} then Inr (d1, r1)
             else rbind (upsert_health_task today org_id impl status reasons d1) (\<lambda>(d2, t).
                  rbind (upsert_health_poam today impl status reasons d2) (\<lambda>(d3, p).
                    Inr (d3, r1\<lparr>mr_tasks_created := mr_tasks_created r1 + (if t then 1 else 0),
                                mr_poams_created := mr_poams_created r1 + (if p then 1 else 0)\<rparr>)))))"

definition check_control ::
  "env \<Rightarrow> date \<Rightarrow> int option \<Rightarrow> dated_evidence list \<Rightarrow> int list \<Rightarrow> control_implementation \<Rightarrow>
     db \<times> monitoring_run \<Rightarrow> (db \<times> monitoring_run) res" where
  "check_control E today org_id evs ids impl s =
     (case s of (d, r) \<Rightarrow> case assess_health impl (evidence_of evs impl) (impl_poams ids d impl) today of (status, reasons) \<Rightarrow>
        let r1 = r\<lparr>mr_controls_checked := mr_controls_checked r + 1, mr_by_status := bump_count status (mr_by_status r)\<rparr>
        in if status = ''healthy'' then Inr (healthy_control E org_id impl (d, r1))
           else unhealthy_control E today org_id impl status reasons (d, r1))"

definition count_json :: "(string \<times> nat) list \<Rightarrow> json" where
  "count_json c = JObj (map (\<lambda>(k, n). (k, JInt (int n))) c)"

definition scan_event :: "env \<Rightarrow> int option \<Rightarrow> monitoring_run \<Rightarrow> db \<Rightarrow> db" where
  "scan_event E org_id r d =
     fst (emit E d ''scanned'' ''monitoring_run''
       (fstr [''ConMon scan: '', str_of_nat (mr_findings r), '' findings across '', str_of_nat (mr_controls_checked r), '' controls''])
       org_id None (Some (str_of_int (mr_id r)))
       [(''by_status'', count_json (mr_by_status r)), (''tasks'', JInt (int (mr_tasks_created r)))] True)"

definition scan :: "env \<Rightarrow> grc_store \<Rightarrow> date \<Rightarrow> int option \<Rightarrow> (grc_store \<times> monitoring_run) res" where
  "scan E st today org_id =
     (let d0 = gs_db st; d = d0\<lparr>next_id := next_id d0 + 1\<rparr>
      in rbind (foldl (\<lambda>s i. rbind s (check_control E today org_id (gs_evidence st) (active_ids d) i))
                 (Inr (d, fresh_run (next_id d0) org_id)) (impls_in_scope st org_id)) (\<lambda>(d', r).
           Inr (with_db (\<lambda>_. scan_event E org_id r d') st, r)))"

section \<open>The read-only summary\<close>

record attention =
  at_implementation_id :: int
  at_system_id :: int
  at_control_id :: int
  at_status :: string
  at_reasons :: "string list"

definition health_of :: "grc_store \<Rightarrow> date \<Rightarrow> control_implementation \<Rightarrow> string \<times> string list" where
  "health_of st today impl =
     assess_health impl (evidence_of (gs_evidence st) impl) (impl_poams (active_ids (gs_db st)) (gs_db st) impl) today"

definition attention_row :: "control_implementation \<Rightarrow> string \<times> string list \<Rightarrow> attention" where
  "attention_row i h = \<lparr>at_implementation_id = ci_id i, at_system_id = ci_system_id i, at_control_id = ci_control_id i,
     at_status = fst h, at_reasons = snd h\<rparr>"

definition health_summary :: "grc_store \<Rightarrow> date \<Rightarrow> int option \<Rightarrow> nat \<times> (string \<times> nat) list \<times> rat option \<times> attention list" where
  "health_summary st today org_id =
     (let impls = impls_in_scope st org_id; total_n = length impls;
          by_status = fold (\<lambda>i. bump_count (fst (health_of st today i))) impls (mr_by_status (fresh_run 0 None));
          rows = List.map_filter (\<lambda>i. if fst (health_of st today i) = ''healthy'' then None else Some (attention_row i (health_of st today i))) impls
      in (total_n, by_status,
          if total_n = 0 then None else Some (pct1 (get_default by_status ''healthy'' 0) total_n),
          take 100 (sort_key (\<lambda>a. - conmon_rank (at_status a)) rows)))"

end
