(* ===== verification/Poams_Laws.thy ===== *)
theory Poams_Laws
  imports Poams
begin

text \<open>
  What holds of POA\&Ms: what a closure rests on, that an accepted risk is documented, what the status
  \<open>completed\<close> and an old approval let through.
\<close>

section \<open>Frame\<close>

lemma with_db_sel [simp]:
  "gs_systems (with_db f st) = gs_systems st" "gs_impls (with_db f st) = gs_impls st" "gs_evidence (with_db f st) = gs_evidence st"
  "as_approvals (gs_approvals (with_db f st)) = as_approvals (gs_approvals st)"
  "gs_db (with_db f st) = f (gs_db st)"
  by (simp_all add: with_db_def)

lemma review_state_approvals:
  "as_approvals (gs_approvals st') = as_approvals (gs_approvals st) \<Longrightarrow> review_state st' i = review_state st i"
  by (simp add: review_state_def entity_state_def)

lemma emit_sel [simp]:
  "poams (fst (emit E d v ty sm og ac eid pl b)) = poams d" "next_id (fst (emit E d v ty sm og ac eid pl b)) = next_id d + 1"
  "tasks (fst (emit E d v ty sm og ac eid pl b)) = tasks d" "notifications (fst (emit E d v ty sm og ac eid pl b)) = notifications d"
  by (simp_all add: emit_def Let_def)

lemma poam_event_sel [simp]:
  "gs_poams (poam_event E who v p sm st) = gs_poams st" "gs_systems (poam_event E who v p sm st) = gs_systems st"
  "as_approvals (gs_approvals (poam_event E who v p sm st)) = as_approvals (gs_approvals st)"
  "gs_impls (poam_event E who v p sm st) = gs_impls st" "gs_evidence (poam_event E who v p sm st) = gs_evidence st"
  "next_id (gs_db (poam_event E who v p sm st)) = next_id (gs_db st) + 1"
  by (simp_all add: poam_event_def)

lemma put_poam_sel [simp]:
  "gs_poams (put_poam p st) = update_rows (\<lambda>q. po_id q = po_id p) (\<lambda>_. p) (gs_poams st)" "gs_systems (put_poam p st) = gs_systems st"
  "as_approvals (gs_approvals (put_poam p st)) = as_approvals (gs_approvals st)" "next_id (gs_db (put_poam p st)) = next_id (gs_db st)"
  "gs_impls (put_poam p st) = gs_impls st" "gs_evidence (put_poam p st) = gs_evidence st"
  by (simp_all add: put_poam_def)

lemma patched_sel [simp]:
  "po_id (patched b p) = po_id p" "po_milestones (patched b p) = po_milestones p" "po_status (patched b p) = case_option (po_status p) id (pu_status b)"
  "po_owner_user_id (patched b p) = case_option (po_owner_user_id p) Some (pu_owner_user_id b)"
  "po_due_on (patched b p) = case_option (po_due_on p) Some (pu_due_on b)"
  "po_acceptance_rationale (patched b p) = case_option (po_acceptance_rationale p) Some (pu_acceptance_rationale b)"
  "po_system_id (patched b p) = po_system_id p"
  by (simp_all add: patched_def)

lemma after_patch_sel [simp]:
  "po_id (after_patch b s p) = po_id p" "po_status (after_patch b s p) = po_status p" "po_owner_user_id (after_patch b s p) = po_owner_user_id p"
  "po_due_on (after_patch b s p) = po_due_on p" "po_milestones (after_patch b s p) = po_milestones p" "po_system_id (after_patch b s p) = po_system_id p"
  "po_acceptance_rationale (after_patch b s p) =
     (if poam_leaves_risk_accepted s (case_option s id (pu_status b)) then None else po_acceptance_rationale p)"
  by (simp_all add: after_patch_def Let_def)

section \<open>The effect of each request\<close>

lemma require_poam_says:
  assumes "require_poam st who pid = Inr p"
  shows "filter (\<lambda>q. po_id q = pid) (gs_poams st) = [p]" "p \<in> set (gs_poams st)" "po_id p = pid" "in_callers_scope st who (po_system_id p)"
proof -
  have f: "filter (\<lambda>q. po_id q = pid) (gs_poams st) = [p] \<and> in_callers_scope st who (po_system_id p)"
    using assms by (auto simp: require_poam_def split: option.splits if_splits elim!: rbind_InrE)
  then have "p \<in> set (filter (\<lambda>q. po_id q = pid) (gs_poams st))" by simp
  then show "p \<in> set (gs_poams st)" "po_id p = pid" by simp_all
  show "filter (\<lambda>q. po_id q = pid) (gs_poams st) = [p]" "in_callers_scope st who (po_system_id p)" using f by simp_all
qed

lemma create_poam_effect:
  assumes "create_poam E st who b = Inr st'"
  shows "gs_poams st' = gs_poams st @ [new_poam (next_id (gs_db st)) b]"
    "as_approvals (gs_approvals st') = as_approvals (gs_approvals st)" "gs_impls st' = gs_impls st" "gs_evidence st' = gs_evidence st"
    "next_id (gs_db st') = next_id (gs_db st) + 2"
    "pc_status b = ''closed'' \<Longrightarrow> require_closure_gate E st None (new_poam (next_id (gs_db st)) b) = Inr ()"
    "pc_status b = ''risk_accepted'' \<Longrightarrow>
       require_risk_accepted_gate E st (pc_owner_user_id b) (pc_due_on b) None (pc_acceptance_rationale b) = Inr ()"
proof -
  have "gs_poams st' = gs_poams st @ [new_poam (next_id (gs_db st)) b] \<and>
    as_approvals (gs_approvals st') = as_approvals (gs_approvals st) \<and> gs_impls st' = gs_impls st \<and> gs_evidence st' = gs_evidence st \<and>
    next_id (gs_db st') = next_id (gs_db st) + 2 \<and>
    (pc_status b = ''closed'' \<longrightarrow> require_closure_gate E st None (new_poam (next_id (gs_db st)) b) = Inr ()) \<and>
    (pc_status b = ''risk_accepted'' \<longrightarrow>
       require_risk_accepted_gate E st (pc_owner_user_id b) (pc_due_on b) None (pc_acceptance_rationale b) = Inr ())"
    using assms by (auto simp: create_poam_def Let_def split: if_splits elim!: rbind_InrE)
  then show "gs_poams st' = gs_poams st @ [new_poam (next_id (gs_db st)) b]"
    "as_approvals (gs_approvals st') = as_approvals (gs_approvals st)" "gs_impls st' = gs_impls st" "gs_evidence st' = gs_evidence st"
    "next_id (gs_db st') = next_id (gs_db st) + 2"
    "pc_status b = ''closed'' \<Longrightarrow> require_closure_gate E st None (new_poam (next_id (gs_db st)) b) = Inr ()"
    "pc_status b = ''risk_accepted'' \<Longrightarrow>
       require_risk_accepted_gate E st (pc_owner_user_id b) (pc_due_on b) None (pc_acceptance_rationale b) = Inr ()" by simp_all
qed

lemma update_poam_effect:
  assumes "update_poam E st who pid b = Inr (st', rq)"
  obtains p where "require_poam st who pid = Inr p" "patch_gate E st p b = Inr ()"
    "gs_poams st' = update_rows (\<lambda>q. po_id q = pid) (\<lambda>_. after_patch b (po_status p) (patched b p)) (gs_poams st)"
    "as_approvals (gs_approvals st') = as_approvals (gs_approvals st)" "gs_impls st' = gs_impls st" "gs_evidence st' = gs_evidence st"
    "next_id (gs_db st') = next_id (gs_db st) + 1"
proof -
  obtain p where p: "require_poam st who pid = Inr p" "patch_gate E st p b = Inr ()"
    "st' = poam_event E who ''updated'' (after_patch b (po_status p) (patched b p))
       (fstr [''POA&M '', po_status (after_patch b (po_status p) (patched b p)), '': '', po_title (after_patch b (po_status p) (patched b p))])
       (put_poam (after_patch b (po_status p) (patched b p)) st)"
    using assms by (auto simp: update_poam_def Let_def split: if_splits elim!: rbind_InrE)
  show thesis by (rule that [OF p(1,2)]) (use require_poam_says(3) [OF p(1)] in \<open>simp_all add: p(3)\<close>)
qed

lemma close_poam_effect:
  assumes "close_poam E st who pid = Inr (st', rq)"
  obtains p where "require_poam st who pid = Inr p" "require_closure_gate E st (Some pid) p = Inr ()"
    "gs_poams st' = update_rows (\<lambda>q. po_id q = pid) (\<lambda>_. p\<lparr>po_status := ''closed'', po_closed_on := Some (today_of E)\<rparr>) (gs_poams st)"
    "as_approvals (gs_approvals st') = as_approvals (gs_approvals st)" "gs_impls st' = gs_impls st" "gs_evidence st' = gs_evidence st"
    "next_id (gs_db st') = next_id (gs_db st) + 1"
proof -
  obtain p where p: "require_poam st who pid = Inr p" "require_closure_gate E st (Some pid) p = Inr ()"
    "st' = poam_event E who ''closed'' (p\<lparr>po_status := ''closed'', po_closed_on := Some (today_of E)\<rparr>)
       (fstr [''POA&M closed: '', po_title p]) (put_poam (p\<lparr>po_status := ''closed'', po_closed_on := Some (today_of E)\<rparr>) st)"
    using assms by (auto simp: close_poam_def Let_def elim!: rbind_InrE)
  show thesis by (rule that [OF p(1,2)]) (use require_poam_says(3) [OF p(1)] in \<open>simp_all add: p(3)\<close>)
qed

lemma milestone_effect:
  assumes "add_milestone st who pid b = Inr st' \<or> update_milestone E st who pid mid mb = Inr st'"
  obtains p ms where "require_poam st who pid = Inr p"
    "gs_poams st' = update_rows (\<lambda>q. po_id q = pid) (\<lambda>_. p\<lparr>po_milestones := ms\<rparr>) (gs_poams st)"
    "as_approvals (gs_approvals st') = as_approvals (gs_approvals st)" "gs_impls st' = gs_impls st" "gs_evidence st' = gs_evidence st"
    "next_id (gs_db st) \<le> next_id (gs_db st')"
proof -
  from assms obtain p ms k where p: "require_poam st who pid = Inr p"
    "st' = with_db (\<lambda>d. d\<lparr>next_id := next_id d + k\<rparr>) (put_poam (p\<lparr>po_milestones := ms\<rparr>) st)" "0 \<le> k"
  proof
    assume "add_milestone st who pid b = Inr st'"
    then show thesis using that [where k = 1] by (auto simp: add_milestone_def Let_def split: if_splits elim!: rbind_InrE)
  next
    assume u: "update_milestone E st who pid mid mb = Inr st'"
    have "with_db (\<lambda>d. d\<lparr>next_id := next_id d + 0\<rparr>) s = s" for s by (simp add: with_db_def)
    then show thesis using u that [where k = 0]
      by (auto simp: update_milestone_def split: if_splits option.splits elim!: rbind_InrE)
  qed
  show thesis by (rule that [OF p(1)]) (use require_poam_says(3) [OF p(1)] p(3) in \<open>simp_all add: p(2)\<close>)
qed

section \<open>Requests\<close>

text \<open>One committed request: on POA\&Ms, or on their reviews.\<close>

inductive poam_step :: "poam_env \<Rightarrow> grc_store \<Rightarrow> grc_store \<Rightarrow> bool" for E where
  made: "create_poam E st who b = Inr st' \<Longrightarrow> poam_step E st st'"
| patched: "update_poam E st who pid u = Inr (st', rq) \<Longrightarrow> poam_step E st st'"
| closed: "close_poam E st who pid = Inr (st', rq) \<Longrightarrow> poam_step E st st'"
| milestone_added: "add_milestone st who pid m = Inr st' \<Longrightarrow> poam_step E st st'"
| milestone_edited: "update_milestone E st who pid mid mu = Inr st' \<Longrightarrow> poam_step E st st'"
| submitted: "submit (pe_env E) (gs_approvals st) entity_type entity_id actor org_id = Inr a \<Longrightarrow>
    poam_step E st (st\<lparr>gs_approvals := a\<rparr>)"
| decided: "decide (pe_env E) (pe_auth_enabled E) (gs_approvals st) entity_type entity_id approve actor role remark org_id = Inr a \<Longrightarrow>
    poam_step E st (st\<lparr>gs_approvals := a\<rparr>)"

definition poam_ids :: "grc_store \<Rightarrow> bool" where
  "poam_ids st \<longleftrightarrow> distinct (map po_id (gs_poams st)) \<and> list_all (\<lambda>p. po_id p < next_id (gs_db st)) (gs_poams st)"

definition documented :: "poam \<Rightarrow> bool" where
  "documented p \<longleftrightarrow> (po_status p = ''risk_accepted'' \<longrightarrow>
     po_owner_user_id p \<noteq> None \<and> po_due_on p \<noteq> None \<and> \<not> blank_text (po_acceptance_rationale p))"


section \<open>Reviews leave POA\&Ms alone\<close>

lemma notify_sel:
  assumes "notify E a d = Inr d'"
  shows "poams d' = poams d" "tasks d' = tasks d" "next_id d \<le> next_id d'"
proof -
  have "poams d' = poams d \<and> tasks d' = tasks d \<and> next_id d \<le> next_id d'"
    using assms by (auto simp: notify_def insert_notification_def Let_def split: option.splits if_splits elim!: rbind_InrE)
  then show "poams d' = poams d" "tasks d' = tasks d" "next_id d \<le> next_id d'" by simp_all
qed

lemma announce_sel:
  assumes "announce E d v ty eid sm og ac x = Inr d'"
  shows "poams d' = poams d \<and> next_id d \<le> next_id d'"
  using notify_sel [OF assms [unfolded announce_def]] by simp

lemma get_or_create_sel:
  assumes "get_or_create s ty eid og = Inr (a, s1)"
  shows "poams (as_db s1) = poams (as_db s) \<and> next_id (as_db s) \<le> next_id (as_db s1)"
  using assms by (auto simp: get_or_create_def Let_def split: option.splits elim!: rbind_InrE)

lemma submit_sel:
  assumes "submit E s ty eid ac og = Inr s'"
  shows "poams (as_db s') = poams (as_db s) \<and> next_id (as_db s) \<le> next_id (as_db s')"
proof -
  obtain a s1 d where s1: "get_or_create s ty eid og = Inr (a, s1)"
    and d: "announce E (as_db s1) ''submitted'' ty eid (fstr [ty, '' '', eid, '' submitted for review by '', opt_str ac]) og ac
      (submit_notice ty eid ac og) = Inr d" "as_db s' = d"
    using assms by (auto simp: submit_def split: if_splits elim!: rbind_InrE)
  show ?thesis using get_or_create_sel [OF s1] announce_sel [OF d(1)] d(2) by simp
qed

lemma stamp_project_sel: "stamp_project ap ty eid s = Inr s' \<Longrightarrow> as_db s' = as_db s"
  by (auto simp: stamp_project_def split: if_splits elim!: rbind_InrE)

lemma decide_sel:
  assumes "decide E on s ty eid ap ac ro nt og = Inr s'"
  shows "poams (as_db s') = poams (as_db s) \<and> next_id (as_db s) \<le> next_id (as_db s')"
proof -
  obtain a s1 s2 d where s1: "get_or_create s ty eid og = Inr (a, s1)"
    and s2: "stamp_project ap ty eid (s1\<lparr>as_approvals := update_rows (concerns ty eid) (mark_decided (en_now E) ap ac nt) (as_approvals s1)\<rparr>) = Inr s2"
    and d: "announce E (as_db s2) (decision_word ap) ty eid (fstr [ty, '' '', eid, '' '', decision_word ap, '' by '', opt_str ac]) og ac
      (decision_notice ty eid ap nt og) = Inr d" "as_db s' = d"
    using assms by (auto simp: decide_def split: if_splits elim!: rbind_InrE)
  show ?thesis using get_or_create_sel [OF s1] stamp_project_sel [OF s2] announce_sel [OF d(1)] d(2) by simp
qed

section \<open>What a step changes\<close>

lemma poam_step_cases:
  assumes "poam_step E st st'"
  obtains (made) b where "gs_poams st' = gs_poams st @ [new_poam (next_id (gs_db st)) b]" "next_id (gs_db st') = next_id (gs_db st) + 2"
      "pc_status b = ''closed'' \<Longrightarrow> require_closure_gate E st None (new_poam (next_id (gs_db st)) b) = Inr ()"
      "pc_status b = ''risk_accepted'' \<Longrightarrow>
         require_risk_accepted_gate E st (pc_owner_user_id b) (pc_due_on b) None (pc_acceptance_rationale b) = Inr ()"
  | (changed) who p p' where "require_poam st who (po_id p) = Inr p" "po_id p' = po_id p" "po_system_id p' = po_system_id p"
      "gs_poams st' = update_rows (\<lambda>q. po_id q = po_id p) (\<lambda>_. p') (gs_poams st)" "next_id (gs_db st) \<le> next_id (gs_db st')"
      "po_status p' = ''closed'' \<and> po_status p \<noteq> ''closed'' \<Longrightarrow> require_closure_gate E st (Some (po_id p)) p = Inr ()"
      "documented p \<Longrightarrow> documented p'"
  | (reviewed) "gs_poams st' = gs_poams st" "next_id (gs_db st) \<le> next_id (gs_db st')"
  using assms
proof (cases rule: poam_step.cases)
  case (made who b)
  show thesis by (rule that(1) [of b]) (use create_poam_effect [OF made] in simp_all)
next
  case (patched who pid u rq)
  obtain p where p: "require_poam st who pid = Inr p" "patch_gate E st p u = Inr ()"
    "gs_poams st' = update_rows (\<lambda>q. po_id q = pid) (\<lambda>_. after_patch u (po_status p) (patched u p)) (gs_poams st)"
    "next_id (gs_db st') = next_id (gs_db st) + 1"
    by (rule update_poam_effect [OF patched]) blast
  have i: "po_id p = pid" by (rule require_poam_says [OF p(1)])
  let ?p = "after_patch u (po_status p) (patched u p)"
  have gate: "require_closure_gate E st (Some (po_id p)) p = Inr ()" if "po_status ?p = ''closed'' \<and> po_status p \<noteq> ''closed''"
    using p(2) that by (auto simp: patch_gate_def split: if_splits option.splits)
  have doc: "documented ?p" if "documented p"
  proof (cases "po_status ?p = ''risk_accepted''")
    case True
    show ?thesis
    proof (cases "po_status p = ''risk_accepted''")
      case True
      then show ?thesis using p(2) that \<open>po_status ?p = ''risk_accepted''\<close>
        by (auto simp: documented_def patch_gate_def poam_leaves_risk_accepted_def split: if_splits option.splits)
    next
      case False
      then show ?thesis using p(2) True
        by (auto simp: documented_def patch_gate_def require_risk_accepted_gate_def poam_leaves_risk_accepted_def split: if_splits option.splits)
    qed
  qed (simp add: documented_def)
  show thesis by (rule that(2) [of who p ?p]) (use p i gate doc in simp_all)
next
  case (closed who pid rq)
  obtain p where p: "require_poam st who pid = Inr p" "require_closure_gate E st (Some pid) p = Inr ()"
    "gs_poams st' = update_rows (\<lambda>q. po_id q = pid) (\<lambda>_. p\<lparr>po_status := ''closed'', po_closed_on := Some (today_of E)\<rparr>) (gs_poams st)"
    "next_id (gs_db st') = next_id (gs_db st) + 1"
    by (rule close_poam_effect [OF closed]) blast
  have i: "po_id p = pid" by (rule require_poam_says [OF p(1)])
  show thesis by (rule that(2) [of who p "p\<lparr>po_status := ''closed'', po_closed_on := Some (today_of E)\<rparr>"])
    (use p i in \<open>simp_all add: documented_def\<close>)
next
  case (milestone_added who pid m)
  obtain p ms where p: "require_poam st who pid = Inr p"
    "gs_poams st' = update_rows (\<lambda>q. po_id q = pid) (\<lambda>_. p\<lparr>po_milestones := ms\<rparr>) (gs_poams st)" "next_id (gs_db st) \<le> next_id (gs_db st')"
    by (rule milestone_effect [OF disjI1 [OF milestone_added]]) blast
  have i: "po_id p = pid" by (rule require_poam_says [OF p(1)])
  show thesis by (rule that(2) [of who p "p\<lparr>po_milestones := ms\<rparr>"]) (use p i in \<open>simp_all add: documented_def\<close>)
next
  case (milestone_edited who pid mid mu)
  obtain p ms where p: "require_poam st who pid = Inr p"
    "gs_poams st' = update_rows (\<lambda>q. po_id q = pid) (\<lambda>_. p\<lparr>po_milestones := ms\<rparr>) (gs_poams st)" "next_id (gs_db st) \<le> next_id (gs_db st')"
    by (rule milestone_effect [OF disjI2 [OF milestone_edited]]) blast
  have i: "po_id p = pid" by (rule require_poam_says [OF p(1)])
  show thesis by (rule that(2) [of who p "p\<lparr>po_milestones := ms\<rparr>"]) (use p i in \<open>simp_all add: documented_def\<close>)
next
  case (submitted entity_type entity_id actor org_id a)
  show thesis by (rule that(3)) (use submit_sel [OF submitted(2)] submitted(1) in simp_all)
next
  case (decided entity_type entity_id approve actor role remark org_id a)
  show thesis by (rule that(3)) (use decide_sel [OF decided(2)] decided(1) in simp_all)
qed

lemma poam_step_ids:
  assumes "poam_step E st st'" "poam_ids st"
  shows "poam_ids st'"
  using assms(1)
proof (cases rule: poam_step_cases)
  case (made b)
  then show ?thesis using assms(2) by (auto simp: poam_ids_def new_poam_def list_all_iff)
next
  case (changed who p p')
  have "map po_id (gs_poams st') = map po_id (gs_poams st)" unfolding changed(4) by (rule map_update_rows) (simp add: changed(2))
  moreover have "\<forall>q \<in> set (gs_poams st'). po_id q < next_id (gs_db st')"
    using assms(2) changed(2,5) require_poam_says(2) [OF changed(1)]
    by (force simp: poam_ids_def list_all_iff changed(4) set_update_rows)
  ultimately show ?thesis using assms(2) by (simp add: poam_ids_def list_all_iff)
next
  case reviewed
  then show ?thesis using assms(2) by (auto simp: poam_ids_def list_all_iff)
qed


lemma closure_gate_says:
  assumes "require_closure_gate E st pid p = Inr ()"
  shows "milestones_satisfy_closure p \<or> has_closure_evidence st p"
    "pe_auth_enabled E \<Longrightarrow> review_state st pid = Inr ''approved''"
proof -
  show "milestones_satisfy_closure p \<or> has_closure_evidence st p"
    using assms by (auto simp: require_closure_gate_def split: if_splits)
  show "review_state st pid = Inr ''approved''" if "pe_auth_enabled E"
    using assms that by (auto simp: require_closure_gate_def split: if_splits elim!: rbind_InrE)
qed

section \<open>Properties\<close>



definition status_only :: "string \<Rightarrow> poam_update" where
  "status_only s = \<lparr>pu_title = None, pu_weakness = None, pu_severity = None, pu_status = Some s, pu_identified_on = None, pu_due_on = None,
     pu_closed_on = None, pu_owner_user_id = None, pu_source = None, pu_remediation_plan = None, pu_acceptance_rationale = None\<rparr>"

lemma status_only_sel [simp]:
  "pu_status (status_only s) = Some s" "pu_severity (status_only s) = None" "pu_acceptance_rationale (status_only s) = None"
  "pu_closed_on (status_only s) = None" "pu_remediation_plan (status_only s) = None" "pu_owner_user_id (status_only s) = None"
  "pu_due_on (status_only s) = None"
  by (simp_all add: status_only_def)

lemma patched_status_only: "patched (status_only s) p = p\<lparr>po_status := s\<rparr>"
  by (simp add: patched_def status_only_def)

lemma status_free:
  assumes "require_poam st who pid = Inr p" "s \<in> set POAM_STATUSES" "s \<noteq> ''closed''" "s \<noteq> ''risk_accepted''"
    "\<not> pe_refuses E (after_patch (status_only s) (po_status p) (p\<lparr>po_status := s\<rparr>))"
  obtains st' where "update_poam E st who pid (status_only s) = Inr (st', None)"
    "gs_poams st' = update_rows (\<lambda>q. po_id q = pid) (\<lambda>_. after_patch (status_only s) (po_status p) (p\<lparr>po_status := s\<rparr>)) (gs_poams st)"
    "as_approvals (gs_approvals st') = as_approvals (gs_approvals st)" "gs_impls st' = gs_impls st" "gs_evidence st' = gs_evidence st"
proof -
  obtain st' where u: "update_poam E st who pid (status_only s) = Inr (st', None)"
    using assms by (simp add: update_poam_def patch_gate_def Let_def patched_status_only)
  obtain q where q: "require_poam st who pid = Inr q" "gs_poams st' = update_rows (\<lambda>q. po_id q = pid)
      (\<lambda>_. after_patch (status_only s) (po_status q) (patched (status_only s) q)) (gs_poams st)"
    "as_approvals (gs_approvals st') = as_approvals (gs_approvals st)" "gs_impls st' = gs_impls st" "gs_evidence st' = gs_evidence st"
    by (rule update_poam_effect [OF u]) blast
  show thesis by (rule that [OF u]) (use q assms(1) in \<open>simp_all add: patched_status_only\<close>)
qed

text \<open>C35: the status \<open>completed\<close> passes by both gates. Whoever may see a POA\&M can set it from any status, without a
  completed milestone, without evidence and without a review; it counts as closed everywhere the code asks, no
  date of closing is kept and no re-evaluation of the control is asked for.\<close>

theorem completed_needs_no_grounds:
  assumes "require_poam st who pid = Inr p" "\<forall>q. \<not> pe_refuses E q"
  shows "\<exists>st' p'. update_poam E st who pid (status_only ''completed'') = Inr (st', None) \<and>
    gs_poams st' = update_rows (\<lambda>q. po_id q = pid) (\<lambda>_. p') (gs_poams st) \<and>
    po_status p' \<in> set POAM_CLOSED_STATUSES \<and> po_milestones p' = po_milestones p \<and> po_closed_on p' = po_closed_on p"
proof -
  obtain st' where "update_poam E st who pid (status_only ''completed'') = Inr (st', None)"
    "gs_poams st' = update_rows (\<lambda>q. po_id q = pid)
       (\<lambda>_. after_patch (status_only ''completed'') (po_status p) (p\<lparr>po_status := ''completed''\<rparr>)) (gs_poams st)"
    by (rule status_free [OF assms(1), of "''completed''" E]) (use assms(2) in \<open>simp_all add: POAM_STATUSES_def\<close>)
  moreover have "po_closed_on (after_patch (status_only ''completed'') (po_status p) (p\<lparr>po_status := ''completed''\<rparr>)) = po_closed_on p"
    by (simp add: after_patch_def Let_def POAM_CLOSED_STATUSES_def)
  ultimately show ?thesis
    by (intro exI [of _ st'] exI [of _ "after_patch (status_only ''completed'') (po_status p) (p\<lparr>po_status := ''completed''\<rparr>)"])
      (simp add: POAM_CLOSED_STATUSES_def)
qed

lemma approved_row:
  assumes "approvals_ok s"
  shows "entity_state s ty eid = Inr ''approved'' \<longleftrightarrow> (\<exists>a \<in> set (as_approvals s). concerns ty eid a \<and> ap_state a = ''approved'')"
proof -
  have one: "length (filter (concerns ty eid) (as_approvals s)) \<le> 1"
    by (rule distinct_filter_le1 [where f = "\<lambda>a. (ap_entity_type a, ap_entity_id a)" and c = "(ty, eid)"])
      (use assms in \<open>auto simp: approvals_ok_def one_per_entity_def concerns_def\<close>)
  show ?thesis
  proof (cases "filter (concerns ty eid) (as_approvals s)")
    case Nil
    then show ?thesis by (auto simp: entity_state_def filter_empty_conv)
  next
    case (Cons a as)
    then have f: "filter (concerns ty eid) (as_approvals s) = [a]" using one by simp
    then have "{x \<in> set (as_approvals s). concerns ty eid x} = {a}" by (metis set_filter list.set(1) list.set(2))
    then have "(\<exists>x \<in> set (as_approvals s). concerns ty eid x \<and> ap_state x = ''approved'') \<longleftrightarrow> ap_state a = ''approved''" by auto
    then show ?thesis by (simp add: entity_state_def f)
  qed
qed

lemma poam_step_approvals:
  assumes "poam_step E st st'" "pe_auth_enabled E" "approvals_ok (gs_approvals st)"
  shows "approvals_ok (gs_approvals st') \<and>
    (\<forall>b \<in> set (as_approvals (gs_approvals st)). ap_state b = ''approved'' \<longrightarrow> b \<in> set (as_approvals (gs_approvals st')))"
proof -
  have same: ?thesis if "as_approvals (gs_approvals st') = as_approvals (gs_approvals st)"
    using that assms(3) by (simp add: approvals_ok_def)
  show ?thesis
    using assms(1)
  proof (cases rule: poam_step.cases)
    case (made who b)
    then show ?thesis using same create_poam_effect(2) by blast
  next
    case (patched who pid u rq)
    show ?thesis by (rule update_poam_effect [OF patched]) (rule same)
  next
    case (closed who pid rq)
    show ?thesis by (rule close_poam_effect [OF closed]) (rule same)
  next
    case (milestone_added who pid m)
    show ?thesis by (rule milestone_effect [OF disjI1 [OF milestone_added]]) (rule same)
  next
    case (milestone_edited who pid mid mu)
    show ?thesis by (rule milestone_effect [OF disjI2 [OF milestone_edited]]) (rule same)
  next
    case (submitted entity_type entity_id actor org_id a)
    then show ?thesis using approval_step_keeps [OF approval_step.Submit [OF submitted(2)] assms(3)] by simp
  next
    case (decided entity_type entity_id approve actor role remark org_id a)
    then show ?thesis using approval_step_keeps [OF approval_step.Decide assms(3)] assms(2) by simp
  qed
qed

text \<open>C37: one approval serves for ever. Once the review of a POA\&M is approved, no request can take the approval back,
  and closing it, reopening it and accepting its risk all pass the review on that same approval: after any further
  requests a POA\&M with its milestones completed closes, and one with an owner, a due date and a rationale is
  accepted, without anybody having looked again.\<close>

theorem approval_outlives_reopening:
  assumes "pe_auth_enabled E" "approvals_ok (gs_approvals st)" "review_state st (Some pid) = Inr ''approved''"
    and "rtranclp (poam_step E) st st'" "require_poam st' who pid = Inr p"
  shows "review_state st' (Some pid) = Inr ''approved'' \<and>
    (milestones_satisfy_closure p \<longrightarrow> isl (close_poam E st' who pid) = False) \<and>
    (owner \<noteq> None \<and> due \<noteq> None \<and> \<not> blank_text why \<longrightarrow> require_risk_accepted_gate E st' owner due (Some pid) why = Inr ())"
proof -
  have "approvals_ok (gs_approvals st') \<and>
      (\<forall>b \<in> set (as_approvals (gs_approvals st)). ap_state b = ''approved'' \<longrightarrow> b \<in> set (as_approvals (gs_approvals st')))"
    using assms(4)
  proof (induction rule: rtranclp_induct)
    case base
    then show ?case using assms(2) by simp
  next
    case (step y z)
    show ?case using poam_step_approvals [OF step.hyps(2) assms(1)] step.IH by blast
  qed
  then have r: "review_state st' (Some pid) = Inr ''approved''"
    using assms(2,3) by (auto simp: review_state_def approved_row)
  moreover have "isl (close_poam E st' who pid) = False" if "milestones_satisfy_closure p"
    using that r assms(5) by (simp add: close_poam_def require_closure_gate_def Let_def)
  moreover have "require_risk_accepted_gate E st' owner due (Some pid) why = Inr ()" if "owner \<noteq> None \<and> due \<noteq> None \<and> \<not> blank_text why"
    using that r by (simp add: require_risk_accepted_gate_def)
  ultimately show ?thesis by simp
qed


section \<open>A store to try it on\<close>

definition sample_poam :: poam where
  "sample_poam = \<lparr>po_id = 1, po_system_id = 3, po_control_id = Some 5, po_title = ''t'', po_weakness = None, po_severity = ''high'',
     po_status = ''open'', po_identified_on = Some 10, po_due_on = Some 40, po_closed_on = None, po_source = Some ''conmon'',
     po_remediation_plan = None, po_remediation_plan_source = ''analyst'', po_original_due_on = Some 40, po_source_ref = None,
     po_milestones = [\<lparr>pm_description = ''m'', pm_due_on = None, pm_status = ''completed'', pm_sort_order = 0, pm_id = 1, pm_completed_on = None\<rparr>],
     po_owner_user_id = None, po_acceptance_rationale = None\<rparr>"

definition store_of :: "poam list \<Rightarrow> approval list \<Rightarrow> control_implementation list \<Rightarrow> grc_store" where
  "store_of ps as is = \<lparr>gs_approvals = \<lparr>as_db = empty_db\<lparr>poams := ps, next_id := 9\<rparr>, as_approvals = as, as_projects = []\<rparr>,
     gs_systems = [], gs_impls = is, gs_evidence = []\<rparr>"

definition open_env :: "bool \<Rightarrow> poam_env" where
  "open_env auth = \<lparr>pe_env = sample_env, pe_auth_enabled = auth, pe_refuses = (\<lambda>_. False)\<rparr>"

definition approved_review :: approval where
  "approved_review = \<lparr>ap_id = 2, ap_organization_id = None, ap_entity_type = ''poam'', ap_entity_id = str_of_int 1, ap_state = ''approved'',
     ap_submitted_by = Some ''ana'', ap_submitted_at = Some 1, ap_reviewed_by = Some ''bob'', ap_reviewed_at = Some 2, ap_decision_note = None\<rparr>"

lemma store_of_sel [simp]:
  "gs_poams (store_of ps as is) = ps" "as_approvals (gs_approvals (store_of ps as is)) = as" "gs_impls (store_of ps as is) = is"
  "gs_evidence (store_of ps as is) = []" "next_id (gs_db (store_of ps as is)) = 9" "tasks (gs_db (store_of ps as is)) = []"
  "notifications (gs_db (store_of ps as is)) = []" "gs_systems (store_of ps as is) = []"
  by (simp_all add: store_of_def empty_db_def)

lemma system_scope [simp]: "in_callers_scope st SYSTEM_PRINCIPAL i"
  by (simp add: in_callers_scope_def SYSTEM_PRINCIPAL_def)

lemma sample_poam_sel [simp]: "po_id sample_poam = 1" "po_status sample_poam = ''open''" "milestones_satisfy_closure sample_poam"
  by (simp_all add: sample_poam_def milestones_satisfy_closure_def)

lemma open_env_sel [simp]: "pe_auth_enabled (open_env a) = a" "\<not> pe_refuses (open_env a) p"
  by (simp_all add: open_env_def)

lemma require_sample: "require_poam (store_of [sample_poam] as is) SYSTEM_PRINCIPAL 1 = Inr sample_poam"
  by (simp add: require_poam_def)


definition accepted_body :: poam_create where
  "accepted_body = \<lparr>pc_system_id = 3, pc_control_id = None, pc_title = ''t'', pc_weakness = None, pc_severity = ''low'',
     pc_status = ''risk_accepted'', pc_identified_on = None, pc_due_on = Some 4, pc_owner_user_id = Some 8, pc_source = None,
     pc_remediation_plan = None, pc_acceptance_rationale = Some ''why''\<rparr>"

lemma why_not_blank: "\<not> blank_text (Some ''why'')"
  by (simp add: blank_text_def) code_simp


theorem completed_needs_no_grounds_witness:
  "\<exists>st' p'. update_poam (open_env True) (store_of [sample_poam\<lparr>po_milestones := []\<rparr>] [] []) SYSTEM_PRINCIPAL 1 (status_only ''completed'') =
       Inr (st', None) \<and> gs_poams st' = [p'] \<and> po_status p' \<in> set POAM_CLOSED_STATUSES \<and> po_milestones p' = [] \<and> po_closed_on p' = None"
proof -
  let ?p = "sample_poam\<lparr>po_milestones := []\<rparr>"
  have r: "require_poam (store_of [?p] [] []) SYSTEM_PRINCIPAL 1 = Inr ?p" by (simp add: require_poam_def)
  have "\<forall>q. \<not> pe_refuses (open_env True) q" by simp
  from completed_needs_no_grounds [OF r this]
  obtain st' p' where "update_poam (open_env True) (store_of [?p] [] []) SYSTEM_PRINCIPAL 1 (status_only ''completed'') = Inr (st', None)"
    "gs_poams st' = [p']" "po_status p' \<in> set POAM_CLOSED_STATUSES" "po_milestones p' = []" "po_closed_on p' = None"
    by (auto simp: update_rows_def) (simp_all add: sample_poam_def)
  then show ?thesis by (intro exI [of _ st'] exI [of _ p']) simp
qed

theorem approval_outlives_reopening_witness:
  "\<exists>st1 st2 rq. close_poam (open_env True) (store_of [sample_poam] [approved_review] []) SYSTEM_PRINCIPAL 1 = Inr (st1, rq) \<and>
     update_poam (open_env True) st1 SYSTEM_PRINCIPAL 1 (status_only ''open'') = Inr (st2, None) \<and>
     review_state st2 (Some 1) = Inr ''approved'' \<and> isl (close_poam (open_env True) st2 SYSTEM_PRINCIPAL 1) = False"
proof -
  let ?st = "store_of [sample_poam] [approved_review] []"
  have ok: "approvals_ok (gs_approvals ?st)"
    by (simp add: approvals_ok_def one_per_entity_def well_decided_def approved_review_def same_person_def)
  have r0: "review_state ?st (Some 1) = Inr ''approved''"
    by (simp add: review_state_def entity_state_def concerns_def approved_review_def)
  obtain st1 rq where c: "close_poam (open_env True) ?st SYSTEM_PRINCIPAL 1 = Inr (st1, rq)"
    by (simp add: close_poam_def require_sample require_closure_gate_def r0 Let_def)
  let ?p = "sample_poam\<lparr>po_status := ''closed'', po_closed_on := Some (today_of (open_env True))\<rparr>"
  have ps: "gs_poams st1 = [?p]" by (rule close_poam_effect [OF c]) (simp add: require_sample update_rows_def)
  have r1: "require_poam st1 SYSTEM_PRINCIPAL 1 = Inr ?p" by (simp add: require_poam_def ps)
  obtain st2 where u: "update_poam (open_env True) st1 SYSTEM_PRINCIPAL 1 (status_only ''open'') = Inr (st2, None)"
    "gs_poams st2 = update_rows (\<lambda>q. po_id q = 1) (\<lambda>_. after_patch (status_only ''open'') (po_status ?p) (?p\<lparr>po_status := ''open''\<rparr>)) (gs_poams st1)"
    by (rule status_free [OF r1, of "''open''" "open_env True"]) (simp_all add: POAM_STATUSES_def)
  let ?q = "after_patch (status_only ''open'') (po_status ?p) (?p\<lparr>po_status := ''open''\<rparr>)"
  have ps2: "gs_poams st2 = [?q]" by (simp add: u(2) ps update_rows_def)
  have r2: "require_poam st2 SYSTEM_PRINCIPAL 1 = Inr ?q" by (simp add: require_poam_def ps2)
  have m: "milestones_satisfy_closure ?q" by (simp add: milestones_satisfy_closure_def sample_poam_def)
  have "rtranclp (poam_step (open_env True)) ?st st1"
    by (rule r_into_rtranclp [where r = "poam_step (open_env True)"]) (rule poam_step.closed [OF c])
  then have "rtranclp (poam_step (open_env True)) ?st st2"
    by (rule rtranclp.rtrancl_into_rtrancl [where r = "poam_step (open_env True)"]) (rule poam_step.patched [OF u(1)])
  from approval_outlives_reopening [OF _ ok r0 this r2, of None None None] m c u(1) show ?thesis
    by (intro exI [of _ st1] exI [of _ st2] exI [of _ rq]) simp
qed

end
