(* ===== verification/Conmon_Laws.thy ===== *)
theory Conmon_Laws
  imports Conmon Poams_Laws Control_Test_Laws
begin

text \<open>
  What holds of continuous monitoring: the health of a control against its specification, what a scan leaves
  on the board, how an open POA\&M loses its severity and how a reopened one stops every scan.
\<close>

section \<open>Health\<close>

definition health_spec :: "control_implementation \<Rightarrow> dated_evidence list \<Rightarrow> poam list \<Rightarrow> date \<Rightarrow> string" where
  "health_spec impl evs ps today =
     (let due_by = (\<lambda>d. list_ex (\<lambda>e. case de_expires_on e of None \<Rightarrow> False | Some x \<Rightarrow> x < d) evs);
          assess_by = (\<lambda>d. case ci_next_assessment_due impl of None \<Rightarrow> False | Some x \<Rightarrow> x < d)
      in if due_by today \<or> assess_by today then ''overdue''
         else if list_ex severe ps \<or> ci_status impl \<in> {''not_implemented'', ''planned''} then ''at_risk''
         else if due_by (today + 31) \<or> assess_by (today + 31) \<or> (evs = [] \<and> ci_status impl \<in> {''implemented'', ''inherited''}) then ''due_soon''
         else ''healthy'')"

lemma escalate_table [simp]:
  "escalate ''healthy'' s = (if 0 < conmon_rank s then s else ''healthy'')"
  "escalate ''overdue'' ''at_risk'' = ''overdue''" "escalate ''overdue'' ''due_soon'' = ''overdue''" "escalate ''overdue'' ''overdue'' = ''overdue''"
  "escalate ''at_risk'' ''overdue'' = ''overdue''" "escalate ''at_risk'' ''at_risk'' = ''at_risk''" "escalate ''at_risk'' ''due_soon'' = ''at_risk''"
  "escalate ''due_soon'' ''overdue'' = ''overdue''" "escalate ''due_soon'' ''at_risk'' = ''at_risk''" "escalate ''due_soon'' ''due_soon'' = ''due_soon''"
  by (simp_all add: escalate_def conmon_rank_def CONMON_RANK_def get_default_def)

lemma conmon_rank_values [simp]:
  "conmon_rank ''healthy'' = 0" "conmon_rank ''due_soon'' = 1" "conmon_rank ''at_risk'' = 2" "conmon_rank ''overdue'' = 3"
  by (simp_all add: conmon_rank_def CONMON_RANK_def get_default_def)

lemma dated_ex: "list_ex P (List.map_filter de_expires_on evs) = list_ex (\<lambda>e. case de_expires_on e of None \<Rightarrow> False | Some x \<Rightarrow> P x) evs"
  by (induction evs) (simp_all add: List.map_filter_simps split: option.split)

lemma flag_sel [simp]: "fst (flag c r s) = escalate (fst s) c" "snd (flag c r s) = snd s @ [r]"
  by (simp_all add: flag_def)

lemma evidence_check_fst:
  "fst (evidence_check today evs s) =
     (if list_ex (\<lambda>e. case de_expires_on e of None \<Rightarrow> False | Some x \<Rightarrow> x < today) evs then escalate (fst s) ''overdue''
      else if list_ex (\<lambda>e. case de_expires_on e of None \<Rightarrow> False | Some x \<Rightarrow> x < today + 31) evs then escalate (fst s) ''due_soon''
      else fst s)"
  "snd (evidence_check today evs s) = [] \<longleftrightarrow> snd s = [] \<and>
     \<not> list_ex (\<lambda>e. case de_expires_on e of None \<Rightarrow> False | Some x \<Rightarrow> x < today) evs \<and>
     \<not> list_ex (\<lambda>e. case de_expires_on e of None \<Rightarrow> False | Some x \<Rightarrow> x < today + 31) evs"
proof -
  have h: "(x \<le> today + 30) = (x < today + 31)" for x :: int by linarith
  show "fst (evidence_check today evs s) =
     (if list_ex (\<lambda>e. case de_expires_on e of None \<Rightarrow> False | Some x \<Rightarrow> x < today) evs then escalate (fst s) ''overdue''
      else if list_ex (\<lambda>e. case de_expires_on e of None \<Rightarrow> False | Some x \<Rightarrow> x < today + 31) evs then escalate (fst s) ''due_soon''
      else fst s)"
    "snd (evidence_check today evs s) = [] \<longleftrightarrow> snd s = [] \<and>
     \<not> list_ex (\<lambda>e. case de_expires_on e of None \<Rightarrow> False | Some x \<Rightarrow> x < today) evs \<and>
     \<not> list_ex (\<lambda>e. case de_expires_on e of None \<Rightarrow> False | Some x \<Rightarrow> x < today + 31) evs"
    by (simp_all add: evidence_check_def Let_def dated_ex DUE_SOON_DAYS_def h)
qed

lemma missing_evidence_check_sel:
  "fst (missing_evidence_check impl evs s) =
     (if evs = [] \<and> ci_status impl \<in> {''implemented'', ''inherited''} then escalate (fst s) ''due_soon'' else fst s)"
  "snd (missing_evidence_check impl evs s) = [] \<longleftrightarrow> snd s = [] \<and> \<not> (evs = [] \<and> ci_status impl \<in> {''implemented'', ''inherited''})"
  by (auto simp: missing_evidence_check_def)

lemma assessment_check_sel:
  "fst (assessment_check today impl s) =
     (if (case ci_next_assessment_due impl of None \<Rightarrow> False | Some x \<Rightarrow> x < today) then escalate (fst s) ''overdue''
      else if (case ci_next_assessment_due impl of None \<Rightarrow> False | Some x \<Rightarrow> x < today + 31) then escalate (fst s) ''due_soon''
      else fst s)"
  "snd (assessment_check today impl s) = [] \<longleftrightarrow> snd s = [] \<and>
     \<not> (case ci_next_assessment_due impl of None \<Rightarrow> False | Some x \<Rightarrow> x < today) \<and>
     \<not> (case ci_next_assessment_due impl of None \<Rightarrow> False | Some x \<Rightarrow> x < today + 31)"
proof -
  have h: "(x \<le> today + 30) = (x < today + 31)" for x :: int by linarith
  show "fst (assessment_check today impl s) =
     (if (case ci_next_assessment_due impl of None \<Rightarrow> False | Some x \<Rightarrow> x < today) then escalate (fst s) ''overdue''
      else if (case ci_next_assessment_due impl of None \<Rightarrow> False | Some x \<Rightarrow> x < today + 31) then escalate (fst s) ''due_soon''
      else fst s)"
  "snd (assessment_check today impl s) = [] \<longleftrightarrow> snd s = [] \<and>
     \<not> (case ci_next_assessment_due impl of None \<Rightarrow> False | Some x \<Rightarrow> x < today) \<and>
     \<not> (case ci_next_assessment_due impl of None \<Rightarrow> False | Some x \<Rightarrow> x < today + 31)"
    by (simp_all add: assessment_check_def DUE_SOON_DAYS_def h split: option.split)
qed

lemma poam_check_sel:
  "fst (poam_check ps s) = (if list_ex severe ps then escalate (fst s) ''at_risk'' else fst s)"
  "snd (poam_check ps s) = [] \<longleftrightarrow> snd s = [] \<and> \<not> list_ex severe ps"
  by (simp_all add: poam_check_def Let_def list_ex_iff filter_empty_conv)

lemma status_check_sel:
  "fst (status_check impl s) = (if ci_status impl \<in> {''not_implemented'', ''planned''} then escalate (fst s) ''at_risk'' else fst s)"
  "snd (status_check impl s) = [] \<longleftrightarrow> snd s = [] \<and> ci_status impl \<notin> {''not_implemented'', ''planned''}"
  by (simp_all add: status_check_def)

lemmas check_sels = evidence_check_fst missing_evidence_check_sel assessment_check_sel poam_check_sel status_check_sel

lemma health_sound:
  "fst (assess_health impl evs ps today) = health_spec impl evs ps today \<and>
   (snd (assess_health impl evs ps today) = [] \<longleftrightarrow> health_spec impl evs ps today = ''healthy'')"
proof -
  define a where "a = list_ex (\<lambda>e. case de_expires_on e of None \<Rightarrow> False | Some x \<Rightarrow> x < today) evs"
  define b where "b = list_ex (\<lambda>e. case de_expires_on e of None \<Rightarrow> False | Some x \<Rightarrow> x < today + 31) evs"
  define c where "c \<longleftrightarrow> evs = [] \<and> ci_status impl \<in> {''implemented'', ''inherited''}"
  define m where "m = (case ci_next_assessment_due impl of None \<Rightarrow> False | Some x \<Rightarrow> x < today)"
  define n where "n = (case ci_next_assessment_due impl of None \<Rightarrow> False | Some x \<Rightarrow> x < today + 31)"
  define p where "p = list_ex severe ps"
  define q where "q \<longleftrightarrow> ci_status impl \<in> {''not_implemented'', ''planned''}"
  have spec: "health_spec impl evs ps today = (if a \<or> m then ''overdue'' else if p \<or> q then ''at_risk'' else if b \<or> n \<or> c then ''due_soon'' else ''healthy'')"
    unfolding health_spec_def Let_def a_def b_def c_def m_def n_def p_def q_def ..
  have st: "fst (assess_health impl evs ps today) =
    (let s1 = (if a then ''overdue'' else if b then ''due_soon'' else ''healthy'');
         s2 = (if c then escalate s1 ''due_soon'' else s1);
         s3 = (if m then escalate s2 ''overdue'' else if n then escalate s2 ''due_soon'' else s2);
         s4 = (if p then escalate s3 ''at_risk'' else s3)
     in if q then escalate s4 ''at_risk'' else s4)"
    unfolding assess_health_def check_sels a_def [symmetric] b_def [symmetric] c_def [symmetric] m_def [symmetric] n_def [symmetric]
      p_def [symmetric] q_def [symmetric] Let_def by simp
  have rs: "snd (assess_health impl evs ps today) = [] \<longleftrightarrow> \<not> a \<and> \<not> b \<and> \<not> c \<and> \<not> m \<and> \<not> n \<and> \<not> p \<and> \<not> q"
    unfolding assess_health_def check_sels a_def [symmetric] b_def [symmetric] c_def [symmetric] m_def [symmetric] n_def [symmetric]
      p_def [symmetric] q_def [symmetric] by auto
  show ?thesis unfolding st rs spec Let_def
    by (cases a; cases b; cases c; cases m; cases n; cases p; cases q) simp_all
qed


text \<open>Of the POA\&Ms only the severities matter.\<close>

lemma assess_health_severities:
  assumes "map po_severity ps = map po_severity qs"
  shows "assess_health impl evs ps today = assess_health impl evs qs today"
proof -
  have f: "map po_severity (filter severe xs) = filter (\<lambda>s. s \<in> {''high'', ''critical''}) (map po_severity xs)" for xs
    by (induction xs) (simp_all add: severe_def)
  have "map po_severity (filter severe ps) = map po_severity (filter severe qs)" unfolding f assms ..
  from map_eq_imp_length_eq [OF this] have l: "length (filter severe ps) = length (filter severe qs)" .
  have "filter severe ps = [] \<longleftrightarrow> filter severe qs = []" using l by (metis length_0_conv)
  then show ?thesis by (simp add: assess_health_def poam_check_def l)
qed

section \<open>The board\<close>

definition board_ok :: "db \<Rightarrow> bool" where
  "board_ok d \<longleftrightarrow> unique_notifications d \<and> distinct (keys_of tk_dedupe_key (tasks d))"

definition one_health_poam :: "db \<Rightarrow> control_implementation \<Rightarrow> bool" where
  "one_health_poam d impl \<longleftrightarrow> length (filter (health_poam_of impl) (poams d)) \<le> 1"

definition place :: "poam \<Rightarrow> int \<times> int option" where
  "place p = (po_system_id p, po_control_id p)"

definition impl_place :: "control_implementation \<Rightarrow> int \<times> int" where
  "impl_place i = (ci_system_id i, ci_control_id i)"

lemma health_poam_of_place: "health_poam_of impl p \<longleftrightarrow> place p = (ci_system_id impl, Some (ci_control_id impl)) \<and> conmon_poam p"
  by (auto simp: health_poam_of_def place_def)

text \<open>What a scan never touches on a POA\&M, and what it leaves of the list of POA\&Ms.\<close>

definition poam_frame ::
  "poam \<Rightarrow> (int \<times> int \<times> int option \<times> string \<times> string) \<times> (date option \<times> date option \<times> date option) \<times>
     (string option \<times> string option \<times> poam_milestone list) \<times> int option \<times> string option" where
  "poam_frame p = ((po_id p, po_system_id p, po_control_id p, po_title p, po_status p), (po_identified_on p, po_due_on p, po_closed_on p),
     (po_source p, po_source_ref p, po_milestones p), po_owner_user_id p, po_acceptance_rationale p)"

definition places_ok :: "db \<Rightarrow> bool" where
  "places_ok d \<longleftrightarrow> distinct (map place (filter conmon_poam (poams d)))"

definition ids_ok :: "db \<Rightarrow> bool" where
  "ids_ok d \<longleftrightarrow> distinct (map po_id (poams d)) \<and> list_all (\<lambda>p. po_id p < next_id d) (poams d)"

definition poams_kept :: "db \<Rightarrow> db \<Rightarrow> bool" where
  "poams_kept d d' \<longleftrightarrow> next_id d \<le> next_id d' \<and>
     (\<exists>f qs. poams d' = map f (poams d) @ qs \<and> (\<forall>p. poam_frame (f p) = poam_frame p) \<and> (\<forall>p. \<not> conmon_poam p \<longrightarrow> f p = p) \<and>
        (\<forall>q \<in> set qs. conmon_poam q \<and> next_id d \<le> po_id q)) \<and> (places_ok d \<longrightarrow> places_ok d') \<and> (ids_ok d \<longrightarrow> ids_ok d')"

lemma frame_conmon: "poam_frame p = poam_frame q \<Longrightarrow> conmon_poam p = conmon_poam q"
  by (simp add: poam_frame_def conmon_poam_def)

lemma frame_place: "poam_frame p = poam_frame q \<Longrightarrow> place p = place q" "poam_frame p = poam_frame q \<Longrightarrow> po_id p = po_id q"
  by (simp_all add: poam_frame_def place_def)

lemma poams_keptI:
  assumes "poams d' = map f (poams d) @ qs" "\<And>p. poam_frame (f p) = poam_frame p" "\<And>p. \<not> conmon_poam p \<Longrightarrow> f p = p"
    "\<And>q. q \<in> set qs \<Longrightarrow> conmon_poam q \<and> po_id q = next_id d \<and> next_id d < next_id d' \<and> place q \<notin> place ` {p \<in> set (poams d). conmon_poam p}"
    "next_id d \<le> next_id d'" "length qs \<le> 1"
  shows "poams_kept d d'"
proof -
  have c: "filter conmon_poam (map f ps) = map f (filter conmon_poam ps)" for ps
    using frame_conmon [OF assms(2)] by (induction ps) auto
  have p: "map place (map f ps) = map place ps" "map po_id (map f ps) = map po_id ps" for ps
    using frame_place [OF assms(2)] by simp_all
  have fq: "filter conmon_poam qs = qs" using assms(4) by (simp add: filter_id_conv)
  have short: "distinct (map g qs)" for g :: "poam \<Rightarrow> 'b" using assms(6) by (cases qs) simp_all
  have "place ` set qs \<inter> place ` {p \<in> set (poams d). conmon_poam p} = {}" using assms(4) by blast
  then have dis: "place ` {p \<in> set (poams d). conmon_poam p} \<inter> place ` set qs = {}" by blast
  have "places_ok d'" if "places_ok d"
    using that short [of place] dis unfolding places_ok_def assms(1) filter_append c map_append p fq by simp
  moreover have "ids_ok d'" if "ids_ok d"
  proof -
    have lt: "po_id x < next_id d" if "x \<in> set (poams d)" for x using \<open>ids_ok d\<close> that by (simp add: ids_ok_def list_all_iff)
    have "distinct (map po_id (poams d'))"
      using that assms(4) short [of po_id] lt unfolding ids_ok_def assms(1) map_append p by fastforce
    moreover have "po_id x < next_id d'" if "x \<in> set (poams d')" for x
      using that lt assms(4,5) frame_place(2) [OF assms(2)] by (fastforce simp: assms(1))
    ultimately show ?thesis by (simp add: ids_ok_def list_all_iff)
  qed
  moreover have "\<exists>f qs. poams d' = map f (poams d) @ qs \<and> (\<forall>p. poam_frame (f p) = poam_frame p) \<and> (\<forall>p. \<not> conmon_poam p \<longrightarrow> f p = p) \<and>
        (\<forall>q \<in> set qs. conmon_poam q \<and> next_id d \<le> po_id q)"
    by (intro conjI exI [of _ f] exI [of _ qs] allI ballI impI assms(1-3)) (simp_all add: assms(4))
  ultimately show ?thesis unfolding poams_kept_def using assms(5) by blast
qed

lemma poams_kept_same: "poams d' = poams d \<Longrightarrow> next_id d \<le> next_id d' \<Longrightarrow> poams_kept d d'"
  by (rule poams_keptI [where f = id and qs = "[]"]) simp_all

lemma poams_kept_trans:
  assumes "poams_kept d d'" "poams_kept d' d''"
  shows "poams_kept d d''"
proof -
  obtain f qs where f: "poams d' = map f (poams d) @ qs" "\<And>p. poam_frame (f p) = poam_frame p" "\<And>p. \<not> conmon_poam p \<Longrightarrow> f p = p"
    "\<And>q. q \<in> set qs \<Longrightarrow> conmon_poam q \<and> next_id d \<le> po_id q"
    using assms(1) unfolding poams_kept_def by blast
  obtain g rs where g: "poams d'' = map g (poams d') @ rs" "\<And>p. poam_frame (g p) = poam_frame p" "\<And>p. \<not> conmon_poam p \<Longrightarrow> g p = p"
    "\<And>q. q \<in> set rs \<Longrightarrow> conmon_poam q \<and> next_id d' \<le> po_id q"
    using assms(2) unfolding poams_kept_def by blast
  have le: "next_id d \<le> next_id d'" "next_id d' \<le> next_id d''" using assms by (simp_all add: poams_kept_def)
  have new: "conmon_poam q \<and> next_id d \<le> po_id q" if "q \<in> set (map g qs @ rs)" for q
  proof (cases "q \<in> set rs")
    case True
    then show ?thesis using g(4) [OF True] le(1) by simp
  next
    case False
    with that have "q \<in> g ` set qs" by simp
    then obtain x where x: "x \<in> set qs" "q = g x" by blast
    have "po_id q = po_id x" "conmon_poam q = conmon_poam x" using frame_place(2) [OF g(2) [of x]] frame_conmon [OF g(2) [of x]] x(2) by simp_all
    then show ?thesis using f(4) [OF x(1)] by simp
  qed
  have "\<exists>h ts. poams d'' = map h (poams d) @ ts \<and> (\<forall>p. poam_frame (h p) = poam_frame p) \<and> (\<forall>p. \<not> conmon_poam p \<longrightarrow> h p = p) \<and>
        (\<forall>q \<in> set ts. conmon_poam q \<and> next_id d \<le> po_id q)"
    by (intro exI [of _ "\<lambda>p. g (f p)"] exI [of _ "map g qs @ rs"] conjI allI impI ballI new) (simp_all add: f g)
  then show ?thesis using assms le unfolding poams_kept_def by (meson order_trans)
qed

text \<open>What the scan of one control leaves of another one's POA\&Ms.\<close>

definition severities :: "int list \<Rightarrow> db \<Rightarrow> control_implementation \<Rightarrow> string list" where
  "severities ids d j = map po_severity (impl_poams ids d j)"

definition health_rows :: "db \<Rightarrow> control_implementation \<Rightarrow> (string \<times> string option) list" where
  "health_rows d j = map (\<lambda>p. (po_severity p, po_weakness p)) (filter (health_poam_of j) (poams d))"

definition elsewhere :: "int list \<Rightarrow> control_implementation \<Rightarrow> db \<Rightarrow> db \<Rightarrow> bool" where
  "elsewhere ids i d d' \<longleftrightarrow> (\<forall>j. impl_place j \<noteq> impl_place i \<longrightarrow>
     severities ids d' j = severities ids d j \<and> health_rows d' j = health_rows d j)"

lemma elsewhere_same: "poams d' = poams d \<Longrightarrow> elsewhere ids i d d'"
  by (simp add: elsewhere_def severities_def impl_poams_def health_rows_def)

lemma elsewhere_trans: "elsewhere ids i d d' \<Longrightarrow> elsewhere ids i d' d'' \<Longrightarrow> elsewhere ids i d d''"
  by (simp add: elsewhere_def)

lemma filter_update_same:
  assumes "\<And>p. P p \<Longrightarrow> Q (f p) = Q p" "\<And>p. P p \<Longrightarrow> Q p \<Longrightarrow> g (f p) = g p"
  shows "map g (filter Q (update_rows P f ps)) = map g (filter Q ps)"
  using assms by (induction ps) (auto simp: update_rows_def)

lemma impl_key_not_Nil [simp]: "health_key i \<noteq> []" "impl_key i \<noteq> []"
  by (simp_all add: health_key_def impl_key_def fstr_not_Nil)

lemma notify_board:
  assumes "board_ok d" "nc_dedupe_key a = Some k" "k \<noteq> []"
  obtains d' where "notify E a d = Inr d'" "board_ok d'" "poams d' = poams d" "tasks d' = tasks d" "next_id d \<le> next_id d'"
proof -
  have u: "unique_notifications d" using assms(1) by (simp add: board_ok_def)
  obtain d' where d': "notify E a d = Inr d'" by (simp add: notify_keyed [OF u assms(2,3)])
  have "unique_notifications d'"
    using notify_keyed [OF u assms(2,3), of E] d' u assms(2)
    by (auto simp: unique_notifications_def refresh_notification_def new_notification_def split: if_splits)
  then have "board_ok d'" using assms(1) notify_sel(2) [OF d'] by (simp add: board_ok_def)
  then show thesis using that d' notify_sel [OF d'] by blast
qed

lemma refresh_task_key [simp]: "tk_dedupe_key (refresh_task impl status reasons k) = tk_dedupe_key k"
  by (simp add: refresh_task_def)

lemma upsert_health_task_board:
  assumes "board_ok d"
  obtains d' b where "upsert_health_task today org impl status reasons d = Inr (d', b)" "board_ok d'" "poams d' = poams d"
    "impl_key impl \<in> set (keys_of tk_dedupe_key (tasks d'))" "next_id d \<le> next_id d'" "set (keys_of tk_dedupe_key (tasks d)) \<subseteq> set (keys_of tk_dedupe_key (tasks d'))"
proof -
  have u: "distinct (keys_of tk_dedupe_key (tasks d))" using assms by (simp add: board_ok_def)
  from u show thesis
  proof (cases rule: unique_key_lookup [where k = "impl_key impl"])
    case 1
    let ?d = "d\<lparr>tasks := tasks d @ [health_task (next_id d) today org impl status reasons], next_id := next_id d + 1\<rparr>"
    have "upsert_health_task today org impl status reasons d = Inr (?d, True)" using 1 by (simp add: upsert_health_task_def)
    moreover have "board_ok ?d" using assms 1 by (auto simp: board_ok_def unique_notifications_def health_task_def)
    ultimately show thesis by (rule that) (auto simp: health_task_def)
  next
    case (2 r)
    let ?d = "if tk_status r \<in> {''done'', ''cancelled''} then d
                else d\<lparr>tasks := update_rows (\<lambda>k. tk_dedupe_key k = Some (impl_key impl)) (refresh_task impl status reasons) (tasks d)\<rparr>"
    have k: "keys_of tk_dedupe_key (tasks ?d) = keys_of tk_dedupe_key (tasks d)" by (simp add: refresh_task_def)
    have "upsert_health_task today org impl status reasons d = Inr (?d, False)" using 2 by (simp add: upsert_health_task_def)
    moreover have "board_ok ?d" using assms k by (auto simp: board_ok_def unique_notifications_def)
    moreover have "impl_key impl \<in> set (keys_of tk_dedupe_key (tasks ?d))" unfolding k using 2 by (auto simp: set_keys_of)
    ultimately show thesis by (intro that [of ?d False]) (simp_all add: k)
  qed
qed


lemma refresh_health_frame [simp]:
  "poam_frame (refresh_health_poam status reasons p) = poam_frame p" "po_severity (refresh_health_poam status reasons p) = POAM_SEVERITY status"
  "po_weakness (refresh_health_poam status reasons p) = Some (reason_text reasons)" "place (refresh_health_poam status reasons p) = place p"
  "po_id (refresh_health_poam status reasons p) = po_id p"
  by (simp_all add: refresh_health_poam_def poam_frame_def place_def)

lemma health_poam_sel [simp]:
  "po_severity (health_poam i today impl status reasons) = POAM_SEVERITY status"
  "po_weakness (health_poam i today impl status reasons) = Some (reason_text reasons)"
  "po_id (health_poam i today impl status reasons) = i" "conmon_poam (health_poam i today impl status reasons)"
  "place (health_poam i today impl status reasons) = (ci_system_id impl, Some (ci_control_id impl))"
  by (simp_all add: health_poam_def Let_def conmon_poam_def place_def POAM_ACTIVE_STATUSES_def)

lemma impl_poams_place: "impl_poams ids d impl = filter (\<lambda>p. po_id p \<in> set ids \<and> place p = (ci_system_id impl, Some (ci_control_id impl))) (poams d)"
  unfolding impl_poams_def place_def by (rule filter_cong) auto

text \<open>An update of the POA\&Ms of one control leaves the rows of another.\<close>

lemma elsewhere_update:
  assumes "poams d' = update_rows (health_poam_of i) f (poams d) @ qs" "\<And>p. poam_frame (f p) = poam_frame p"
    "\<And>q. q \<in> set qs \<Longrightarrow> health_poam_of i q \<and> po_id q \<notin> set ids"
  shows "elsewhere ids i d d'"
  unfolding elsewhere_def
proof (intro allI impI conjI)
  fix j assume j: "impl_place j \<noteq> impl_place i"
  have pl: "place (f p) = place p" "po_id (f p) = po_id p" for p using assms(2) [of p] by (simp_all add: poam_frame_def place_def)
  have c: "conmon_poam (f p) = conmon_poam p" for p by (rule frame_conmon [OF assms(2)])
  have h: "health_poam_of j (f p) = health_poam_of j p" for p by (simp add: health_poam_of_place pl c)
  have other: "\<not> health_poam_of j p" if "health_poam_of i p" for p
    using that j by (auto simp: health_poam_of_place impl_place_def)
  have new: "filter (health_poam_of j) qs = []" using assms(3) other by (auto simp: filter_empty_conv)
  show "health_rows d' j = health_rows d j"
    unfolding health_rows_def assms(1) filter_append new append_Nil2
    by (rule filter_update_same) (use h other in auto)
  have new: "filter (\<lambda>p. po_id p \<in> set ids \<and> place p = (ci_system_id j, Some (ci_control_id j))) qs = []"
    using assms(3) by (auto simp: filter_empty_conv)
  show "severities ids d' j = severities ids d j"
    unfolding severities_def impl_poams_place assms(1) filter_append new append_Nil2
    by (rule filter_update_same) (use j in \<open>auto simp: pl health_poam_of_place impl_place_def\<close>)
qed

lemma upsert_health_poam_board:
  assumes "board_ok d" "one_health_poam d impl" "\<forall>i \<in> set ids. i < next_id d"
  obtains d' b p where "upsert_health_poam today impl status reasons d = Inr (d', b)" "board_ok d'" "poams_kept d d'"
    "elsewhere ids impl d d'" "filter (health_poam_of impl) (poams d') = [p]" "po_severity p = POAM_SEVERITY status"
    "po_weakness p = Some (reason_text reasons)" "tasks d' = tasks d"
    "health_poam_of impl q \<longrightarrow> q \<in> set (poams d) \<longrightarrow> po_id p = po_id q"
proof (cases "filter (health_poam_of impl) (poams d)")
  case Nil
  let ?p = "health_poam (next_id d) today impl status reasons"
  let ?d = "d\<lparr>poams := poams d @ [?p], next_id := next_id d + 1\<rparr>"
  have u: "upsert_health_poam today impl status reasons d = Inr (?d, True)" using Nil by (simp add: upsert_health_poam_def)
  have hp: "health_poam_of impl ?p" by (simp add: health_poam_of_place)
  show thesis
  proof (rule that [OF u, of ?p])
    show "board_ok ?d" using assms(1) by (simp add: board_ok_def unique_notifications_def)
    show "poams_kept d ?d"
      by (rule poams_keptI [where f = id and qs = "[?p]"]) (use Nil in \<open>auto simp: filter_empty_conv health_poam_of_place\<close>)
    show "elsewhere ids impl d ?d"
      by (rule elsewhere_update [where f = "\<lambda>p. p" and qs = "[?p]"]) (use hp assms(3) in \<open>auto simp: update_rows_def\<close>)
    show "filter (health_poam_of impl) (poams ?d) = [?p]" using Nil hp by simp
    show "health_poam_of impl q \<longrightarrow> q \<in> set (poams d) \<longrightarrow> po_id ?p = po_id q" using Nil by (auto simp: filter_empty_conv)
  qed simp_all
next
  case (Cons x xs)
  then have f: "filter (health_poam_of impl) (poams d) = [x]" using assms(2) by (simp add: one_health_poam_def)
  let ?d = "d\<lparr>poams := update_rows (health_poam_of impl) (refresh_health_poam status reasons) (poams d)\<rparr>"
  let ?p = "refresh_health_poam status reasons x"
  have u: "upsert_health_poam today impl status reasons d = Inr (?d, False)" using f by (simp add: upsert_health_poam_def)
  have c: "health_poam_of impl (refresh_health_poam status reasons p) = health_poam_of impl p" for p
    using frame_conmon [of "refresh_health_poam status reasons p" p] by (simp add: health_poam_of_place)
  have m: "filter (health_poam_of impl) (update_rows (health_poam_of impl) (refresh_health_poam status reasons) ps) =
      map (refresh_health_poam status reasons) (filter (health_poam_of impl) ps)" for ps
    by (induction ps) (auto simp: update_rows_def c)
  show thesis
  proof (rule that [OF u, of ?p])
    show "board_ok ?d" using assms(1) by (simp add: board_ok_def unique_notifications_def)
    show "poams_kept d ?d"
      by (rule poams_keptI [where f = "\<lambda>p. if health_poam_of impl p then refresh_health_poam status reasons p else p" and qs = "[]"])
        (simp_all add: update_rows_def health_poam_of_place)
    show "elsewhere ids impl d ?d"
      by (rule elsewhere_update [where f = "refresh_health_poam status reasons" and qs = "[]"]) simp_all
    show "filter (health_poam_of impl) (poams ?d) = [?p]" using f by (simp add: m)
    have "q = x" if "health_poam_of impl q" "q \<in> set (poams d)"
    proof -
      have "q \<in> set (filter (health_poam_of impl) (poams d))" using that by simp
      then show ?thesis by (simp add: f)
    qed
    then show "health_poam_of impl q \<longrightarrow> q \<in> set (poams d) \<longrightarrow> po_id ?p = po_id q" by simp
  qed simp_all
qed

lemma append_note_frame [simp]: "poam_frame (append_note n p) = poam_frame p" "place (append_note n p) = place p"
  "po_severity (append_note n p) = po_severity p" "po_weakness (append_note n p) = po_weakness p" "po_id (append_note n p) = po_id p"
  by (simp_all add: append_note_def poam_frame_def place_def)

lemma append_note_rows:
  assumes "poams d' = update_rows P (append_note n) (poams d)"
  shows "severities ids d' j = severities ids d j" "health_rows d' j = health_rows d j"
  unfolding severities_def health_rows_def impl_poams_place assms
  using frame_conmon [OF append_note_frame(1)]
  by (simp_all add: filter_update_same health_poam_of_place)

lemma recovery_board:
  assumes "board_ok d"
  obtains d' b c where "resolve_health_recovery E org impl d = (d', b, c)" "board_ok d'" "poams_kept d d'" "elsewhere ids i d d'"
    "severities ids d' impl = severities ids d impl" "health_rows d' impl = health_rows d impl"
proof (cases "health_recovery_body E org impl d")
  case (Inl e)
  show thesis
    by (rule that [of d False False]) (use Inl assms in \<open>simp_all add: resolve_health_recovery_def poams_kept_same elsewhere_same\<close>)
next
  case (Inr r)
  obtain d' b c where r: "r = (d', b, c)" by (cases r)
  let ?d1 = "d\<lparr>tasks := update_rows (\<lambda>k. tk_dedupe_key k = Some (impl_key impl) \<and> tk_status k = ''open'')
                    (\<lambda>k. k\<lparr>tk_status := ''done'', tk_closed_at := Some (en_now E)\<rparr>) (tasks d)\<rparr>"
  have b1: "board_ok ?d1" using assms by (simp add: board_ok_def unique_notifications_def)
  have "d' = ?d1 \<or> (\<exists>p. notify E (healthy_notice E org impl p)
      (?d1\<lparr>poams := update_rows (recovered_poam impl) (append_note (healthy_note E impl)) (poams ?d1)\<rparr>) = Inr d')"
    using Inr r by (auto simp: health_recovery_body_def Let_def split: option.splits elim!: rbind_InrE)
  then show thesis
  proof
    assume d': "d' = ?d1"
    show thesis
      by (rule that [of d' b c]) (use Inr r b1 d' in \<open>simp_all add: resolve_health_recovery_def poams_kept_same elsewhere_same
        severities_def impl_poams_def health_rows_def\<close>)
  next
    assume "\<exists>p. notify E (healthy_notice E org impl p)
      (?d1\<lparr>poams := update_rows (recovered_poam impl) (append_note (healthy_note E impl)) (poams ?d1)\<rparr>) = Inr d'"
    then obtain p where n: "notify E (healthy_notice E org impl p)
      (?d1\<lparr>poams := update_rows (recovered_poam impl) (append_note (healthy_note E impl)) (poams ?d1)\<rparr>) = Inr d'" by blast
    let ?d2 = "?d1\<lparr>poams := update_rows (recovered_poam impl) (append_note (healthy_note E impl)) (poams ?d1)\<rparr>"
    have b2: "board_ok ?d2" using b1 by (simp add: board_ok_def unique_notifications_def)
    have "board_ok d'"
      by (rule notify_board [OF b2, of "healthy_notice E org impl p" "fstr [''poam-recovery:'', str_of_int (po_id p)]" E])
        (use n in \<open>simp_all add: healthy_notice_def fstr_not_Nil\<close>)
    have ps: "poams d' = update_rows (recovered_poam impl) (append_note (healthy_note E impl)) (poams d)" using notify_sel(1) [OF n] by simp
    have "poams_kept d d'"
      by (rule poams_keptI [where f = "\<lambda>p. if recovered_poam impl p then append_note (healthy_note E impl) p else p" and qs = "[]"])
        (use notify_sel(3) [OF n] ps in \<open>auto simp: update_rows_def recovered_poam_def\<close>)
    then show thesis
      by (intro that [of d' b c]) (use Inr r \<open>board_ok d'\<close> append_note_rows [OF ps] in \<open>simp_all add: resolve_health_recovery_def elsewhere_def\<close>)
  qed
qed


section \<open>One control\<close>

definition current_health :: "dated_evidence list \<Rightarrow> int list \<Rightarrow> date \<Rightarrow> db \<Rightarrow> control_implementation \<Rightarrow> string \<times> string list" where
  "current_health evs ids today d impl = assess_health impl (evidence_of evs impl) (impl_poams ids d impl) today"

lemma current_health_cong: "severities ids d' j = severities ids d j \<Longrightarrow> current_health evs ids today d' j = current_health evs ids today d j"
  unfolding current_health_def severities_def by (rule assess_health_severities)

definition acted_on :: "string \<Rightarrow> bool" where
  "acted_on status \<longleftrightarrow> status = ''at_risk'' \<or> status = ''overdue''"

text \<open>What the scan of a control in poor health leaves behind.\<close>

definition on_board :: "db \<Rightarrow> control_implementation \<Rightarrow> string \<times> string list \<Rightarrow> bool" where
  "on_board d impl h \<longleftrightarrow> health_rows d impl = [(POAM_SEVERITY (fst h), Some (reason_text (snd h)))] \<and>
     impl_key impl \<in> set (keys_of tk_dedupe_key (tasks d))"

definition task_keys_kept :: "db \<Rightarrow> db \<Rightarrow> bool" where
  "task_keys_kept d d' \<longleftrightarrow> set (keys_of tk_dedupe_key (tasks d)) \<subseteq> set (keys_of tk_dedupe_key (tasks d'))"

lemma recovery_tasks:
  assumes "resolve_health_recovery E org impl d = (d', b, c)"
  shows "task_keys_kept d d'"
proof (cases "health_recovery_body E org impl d")
  case (Inl e)
  then show ?thesis using assms by (simp add: resolve_health_recovery_def task_keys_kept_def)
next
  case (Inr r)
  then have "keys_of tk_dedupe_key (tasks d') = keys_of tk_dedupe_key (tasks d)"
    using assms by (auto simp: resolve_health_recovery_def health_recovery_body_def Let_def notify_sel(2)
      split: option.splits elim!: rbind_InrE)
  then show ?thesis by (simp add: task_keys_kept_def)
qed

lemma one_health_rows: "one_health_poam d i \<longleftrightarrow> length (health_rows d i) \<le> 1"
  by (simp add: one_health_poam_def health_rows_def)

lemma check_control_board:
  assumes "board_ok d" "one_health_poam d impl" "\<forall>i \<in> set ids. i < next_id d"
  obtains d' r' where "check_control E today org evs ids impl (d, r) = Inr (d', r')" "board_ok d'" "poams_kept d d'"
    "elsewhere ids impl d d'" "task_keys_kept d d'" "acted_on (fst (current_health evs ids today d impl)) \<longrightarrow> on_board d' impl (current_health evs ids today d impl)"
    "one_health_poam d' impl"
    "mr_controls_checked r' = mr_controls_checked r + 1"
    "mr_findings r' = mr_findings r + (if fst (current_health evs ids today d impl) = ''healthy'' then 0 else 1)"
proof -
  obtain status reasons where h: "current_health evs ids today d impl = (status, reasons)" by (cases "current_health evs ids today d impl")
  note h' = h [unfolded current_health_def]
  define r1 where "r1 = r\<lparr>mr_controls_checked := mr_controls_checked r + 1, mr_by_status := bump_count status (mr_by_status r)\<rparr>"
  have step: "check_control E today org evs ids impl (d, r) =
      (if status = ''healthy'' then Inr (healthy_control E org impl (d, r1)) else unhealthy_control E today org impl status reasons (d, r1))"
    by (simp add: check_control_def h' Let_def r1_def)
  have r1: "mr_controls_checked r1 = mr_controls_checked r + 1" "mr_findings r1 = mr_findings r" by (simp_all add: r1_def)
  show thesis
  proof (cases "status = ''healthy''")
    case True
    obtain d' b c where d': "resolve_health_recovery E org impl d = (d', b, c)" "board_ok d'" "poams_kept d d'" "elsewhere ids impl d d'"
        "health_rows d' impl = health_rows d impl"
      by (rule recovery_board [OF assms(1)])
    have "one_health_poam d' impl" using assms(2) d'(5) by (simp add: one_health_rows)
    then show thesis
      by (intro that [of d' "r1\<lparr>mr_tasks_resolved := mr_tasks_resolved r1 + (if b then 1 else 0),
               mr_poams_recovered := mr_poams_recovered r1 + (if c then 1 else 0)\<rparr>"])
        (use d' recovery_tasks [OF d'(1)] True r1 h in \<open>simp_all add: step healthy_control_def acted_on_def\<close>)
  next
    case False
    obtain d1 where d1: "notify E (health_notice org impl status reasons) d = Inr d1" "board_ok d1" "poams d1 = poams d" "tasks d1 = tasks d" "next_id d \<le> next_id d1"
      by (rule notify_board [OF assms(1), of "health_notice org impl status reasons" "health_key impl" E]) (simp_all add: health_notice_def)
    have one1: "one_health_poam d1 impl" using assms(2) d1(3) by (simp add: one_health_poam_def)
    show thesis
    proof (cases "acted_on status")
      case no: False
      show thesis
        by (rule that [of d1 "r1\<lparr>mr_findings := mr_findings r1 + 1, mr_notifications_created := mr_notifications_created r1 + 1\<rparr>"])
          (use no d1 False r1 h one1 in \<open>simp_all add: step unhealthy_control_def acted_on_def Let_def poams_kept_same elsewhere_same task_keys_kept_def\<close>)
    next
      case act: True
      obtain d2 t where d2: "upsert_health_task today org impl status reasons d1 = Inr (d2, t)" "board_ok d2" "poams d2 = poams d1"
          "impl_key impl \<in> set (keys_of tk_dedupe_key (tasks d2))" "next_id d1 \<le> next_id d2"
          "set (keys_of tk_dedupe_key (tasks d1)) \<subseteq> set (keys_of tk_dedupe_key (tasks d2))"
        by (rule upsert_health_task_board [OF d1(2)])
      have one2: "one_health_poam d2 impl" using one1 d2(3) by (simp add: one_health_poam_def)
      have ids2: "\<forall>i \<in> set ids. i < next_id d2" using assms(3) d1(5) d2(5) by force
      obtain d3 b p where d3: "upsert_health_poam today impl status reasons d2 = Inr (d3, b)" "board_ok d3" "poams_kept d2 d3"
          "elsewhere ids impl d2 d3" "filter (health_poam_of impl) (poams d3) = [p]" "po_severity p = POAM_SEVERITY status"
          "po_weakness p = Some (reason_text reasons)" "tasks d3 = tasks d2"
        by (rule upsert_health_poam_board [OF d2(2) one2 ids2])
      have kept: "poams_kept d d3"
        by (rule poams_kept_trans [OF poams_kept_same d3(3)]) (use d1(3,5) d2(3,5) in simp_all)
      have else3: "elsewhere ids impl d d3"
        by (rule elsewhere_trans [OF elsewhere_same d3(4)]) (use d1(3) d2(3) in simp)
      show thesis
        by (rule that [of d3 "r1\<lparr>mr_findings := mr_findings r1 + 1, mr_notifications_created := mr_notifications_created r1 + 1,
             mr_tasks_created := mr_tasks_created r1 + (if t then 1 else 0), mr_poams_created := mr_poams_created r1 + (if b then 1 else 0)\<rparr>"])
          (use act d1 d2 d3 kept else3 False r1 h in
            \<open>simp_all add: step unhealthy_control_def acted_on_def Let_def task_keys_kept_def on_board_def health_rows_def one_health_poam_def\<close>)
    qed
  qed
qed

section \<open>The scan\<close>

text \<open>Scanning a list of controls at distinct places judges each by the store the scan started from.\<close>

lemma controls_board:
  assumes "board_ok d" "\<forall>i \<in> set xs. one_health_poam d i" "\<forall>i \<in> set ids. i < next_id d" "distinct (map impl_place xs)"
  obtains d' r' where "foldl (\<lambda>s i. rbind s (check_control E today org evs ids i)) (Inr (d, r)) xs = Inr (d', r')"
    "board_ok d'" "poams_kept d d'" "task_keys_kept d d'"
    "\<forall>i \<in> set xs. acted_on (fst (current_health evs ids today d i)) \<longrightarrow> on_board d' i (current_health evs ids today d i)"
    "\<forall>j. impl_place j \<notin> impl_place ` set xs \<longrightarrow> severities ids d' j = severities ids d j \<and> health_rows d' j = health_rows d j"
    "mr_controls_checked r' = mr_controls_checked r + length xs"
    "mr_findings r' = mr_findings r + length (filter (\<lambda>i. fst (current_health evs ids today d i) \<noteq> ''healthy'') xs)"
proof -
  have "\<exists>d' r'. foldl (\<lambda>s i. rbind s (check_control E today org evs ids i)) (Inr (d, r)) xs = Inr (d', r') \<and>
    board_ok d' \<and> poams_kept d d' \<and> task_keys_kept d d' \<and>
    (\<forall>i \<in> set xs. acted_on (fst (current_health evs ids today d i)) \<longrightarrow> on_board d' i (current_health evs ids today d i)) \<and>
    (\<forall>j. impl_place j \<notin> impl_place ` set xs \<longrightarrow> severities ids d' j = severities ids d j \<and> health_rows d' j = health_rows d j) \<and>
    mr_controls_checked r' = mr_controls_checked r + length xs \<and>
    mr_findings r' = mr_findings r + length (filter (\<lambda>i. fst (current_health evs ids today d i) \<noteq> ''healthy'') xs)"
    using assms
  proof (induction xs arbitrary: d r)
    case Nil
    then show ?case by (simp add: poams_kept_same task_keys_kept_def)
  next
    case (Cons x xs)
    have x1: "one_health_poam d x" using Cons.prems(2) by simp
    obtain d1 r1 where d1: "check_control E today org evs ids x (d, r) = Inr (d1, r1)" "board_ok d1" "poams_kept d d1"
      "elsewhere ids x d d1" "task_keys_kept d d1"
      "acted_on (fst (current_health evs ids today d x)) \<longrightarrow> on_board d1 x (current_health evs ids today d x)"
      "mr_controls_checked r1 = mr_controls_checked r + 1"
      "mr_findings r1 = mr_findings r + (if fst (current_health evs ids today d x) = ''healthy'' then 0 else 1)"
      by (rule check_control_board [OF Cons.prems(1) x1 Cons.prems(3), of E today org evs r])
    have away: "impl_place i \<noteq> impl_place x" if "i \<in> set xs" for i
      using Cons.prems(4) that by (metis distinct.simps(2) image_eqI list.map(2) set_map)
    have same: "severities ids d1 j = severities ids d j" "health_rows d1 j = health_rows d j" if "impl_place j \<noteq> impl_place x" for j
      using d1(4) that by (simp_all add: elsewhere_def)
    have next1: "\<forall>i \<in> set ids. i < next_id d1" using Cons.prems(3) d1(3) by (force simp: poams_kept_def)
    have ones: "\<forall>i \<in> set xs. one_health_poam d1 i" using Cons.prems(2) away same(2) by (simp add: one_health_rows)
    have cur: "current_health evs ids today d1 i = current_health evs ids today d i" if "i \<in> set xs" for i
      by (rule current_health_cong [OF same(1) [OF away [OF that]]])
    obtain d2 r2 where d2: "foldl (\<lambda>s i. rbind s (check_control E today org evs ids i)) (Inr (d1, r1)) xs = Inr (d2, r2)"
      "board_ok d2" "poams_kept d1 d2" "task_keys_kept d1 d2"
      "\<forall>i \<in> set xs. acted_on (fst (current_health evs ids today d1 i)) \<longrightarrow> on_board d2 i (current_health evs ids today d1 i)"
      "\<forall>j. impl_place j \<notin> impl_place ` set xs \<longrightarrow> severities ids d2 j = severities ids d1 j \<and> health_rows d2 j = health_rows d1 j"
      "mr_controls_checked r2 = mr_controls_checked r1 + length xs"
      "mr_findings r2 = mr_findings r1 + length (filter (\<lambda>i. fst (current_health evs ids today d1 i) \<noteq> ''healthy'') xs)"
      using Cons.IH [OF d1(2) ones next1, of r1] Cons.prems(4) by auto
    have fc: "filter (\<lambda>i. fst (current_health evs ids today d1 i) \<noteq> ''healthy'') xs = filter (\<lambda>i. fst (current_health evs ids today d i) \<noteq> ''healthy'') xs"
      by (rule filter_cong) (simp_all add: cur)
    have xn: "impl_place x \<notin> impl_place ` set xs" using Cons.prems(4) by simp
    show ?case
    proof (intro exI conjI)
      show "foldl (\<lambda>s i. rbind s (check_control E today org evs ids i)) (Inr (d, r)) (x # xs) = Inr (d2, r2)" using d1(1) d2(1) by simp
      show "poams_kept d d2" by (rule poams_kept_trans [OF d1(3) d2(3)])
      show "task_keys_kept d d2" using d1(5) d2(4) by (auto simp: task_keys_kept_def)
      show "\<forall>i \<in> set (x # xs). acted_on (fst (current_health evs ids today d i)) \<longrightarrow> on_board d2 i (current_health evs ids today d i)"
      proof
        fix i assume "i \<in> set (x # xs)"
        then show "acted_on (fst (current_health evs ids today d i)) \<longrightarrow> on_board d2 i (current_health evs ids today d i)"
        proof (cases "i = x")
          case True
          then show ?thesis using d1(6) d2(4,6) xn by (auto simp: on_board_def task_keys_kept_def)
        next
          case False
          then have "i \<in> set xs" using \<open>i \<in> set (x # xs)\<close> by simp
          then show ?thesis using d2(5) cur by simp
        qed
      qed
      show "\<forall>j. impl_place j \<notin> impl_place ` set (x # xs) \<longrightarrow> severities ids d2 j = severities ids d j \<and> health_rows d2 j = health_rows d j"
        using d2(6) same by simp
      show "mr_controls_checked r2 = mr_controls_checked r + length (x # xs)" using d1(7) d2(7) by simp
      show "mr_findings r2 = mr_findings r + length (filter (\<lambda>i. fst (current_health evs ids today d i) \<noteq> ''healthy'') (x # xs))"
        using d1(8) d2(8) fc by simp
    qed (rule d2(2))
  qed
  then show thesis using that by (elim exE conjE)
qed


definition conmon_ok :: "grc_store \<Rightarrow> bool" where
  "conmon_ok st \<longleftrightarrow> board_ok (gs_db st) \<and> ids_ok (gs_db st) \<and> places_ok (gs_db st) \<and> distinct (map impl_place (gs_impls st))"

lemma places_one: "places_ok d \<Longrightarrow> one_health_poam d i"
  unfolding places_ok_def one_health_poam_def
proof -
  assume d: "distinct (map place (filter conmon_poam (poams d)))"
  have "filter (health_poam_of i) (poams d) = filter (\<lambda>p. place p = (ci_system_id i, Some (ci_control_id i))) (filter conmon_poam (poams d))"
    unfolding filter_filter by (rule filter_cong) (auto simp: health_poam_of_place)
  then show "length (filter (health_poam_of i) (poams d)) \<le> 1"
    using distinct_filter_le1 [OF d, of "\<lambda>p. place p = (ci_system_id i, Some (ci_control_id i))"] by simp
qed

lemma active_ids_next [simp]: "active_ids (d\<lparr>next_id := k\<rparr>) = active_ids d"
  by (simp add: active_ids_def)

lemma active_ids_bound: "ids_ok d \<Longrightarrow> \<forall>i \<in> set (active_ids d). i < next_id d + 1"
  by (force simp: ids_ok_def list_all_iff active_ids_def)

lemma health_of_current:
  "health_of st today i = current_health (gs_evidence st) (active_ids (gs_db st)) today ((gs_db st)\<lparr>next_id := k\<rparr>) i"
  by (simp add: health_of_def current_health_def impl_poams_def)

lemma scan_event_sel [simp]:
  "poams (scan_event E org r d) = poams d" "tasks (scan_event E org r d) = tasks d" "notifications (scan_event E org r d) = notifications d"
  "next_id (scan_event E org r d) = next_id d + 1"
  by (simp_all add: scan_event_def)

lemma scan_effect:
  assumes "conmon_ok st"
  obtains st' r where "scan E st today org = Inr (st', r)" "conmon_ok st'" "poams_kept (gs_db st) (gs_db st')"
    "\<forall>i \<in> set (impls_in_scope st org). acted_on (fst (health_of st today i)) \<longrightarrow> on_board (gs_db st') i (health_of st today i)"
    "mr_controls_checked r = length (impls_in_scope st org)"
    "mr_findings r = length (filter (\<lambda>i. fst (health_of st today i) \<noteq> ''healthy'') (impls_in_scope st org))"
    "gs_impls st' = gs_impls st" "gs_evidence st' = gs_evidence st" "gs_systems st' = gs_systems st"
proof -
  let ?d = "(gs_db st)\<lparr>next_id := next_id (gs_db st) + 1\<rparr>"
  let ?ids = "active_ids (gs_db st)"
  have I: "board_ok (gs_db st)" "ids_ok (gs_db st)" "places_ok (gs_db st)" "distinct (map impl_place (gs_impls st))"
    using assms by (simp_all add: conmon_ok_def)
  have b: "board_ok ?d" "\<forall>i \<in> set ?ids. i < next_id ?d"
    using I(1) active_ids_bound [OF I(2)] by (simp_all add: board_ok_def unique_notifications_def)
  have pl: "places_ok ?d" "ids_ok ?d" using I(2,3) by (auto simp: places_ok_def ids_ok_def list_all_iff)
  have dist: "distinct (map impl_place (impls_in_scope st org))"
    using I(4) unfolding impls_in_scope_def by (rule distinct_map_filter)
  have ones: "\<forall>i \<in> set (impls_in_scope st org). one_health_poam ?d i" using places_one [OF pl(1)] by blast
  note H = health_of_current [of st today _ "next_id (gs_db st) + 1"]
  obtain d' r where r: "foldl (\<lambda>s i. rbind s (check_control E today org (gs_evidence st) ?ids i))
      (Inr (?d, fresh_run (next_id (gs_db st)) org)) (impls_in_scope st org) = Inr (d', r)"
    "board_ok d'" "poams_kept ?d d'"
    "\<forall>i \<in> set (impls_in_scope st org). acted_on (fst (health_of st today i)) \<longrightarrow> on_board d' i (health_of st today i)"
    "mr_controls_checked r = mr_controls_checked (fresh_run (next_id (gs_db st)) org) + length (impls_in_scope st org)"
    "mr_findings r = mr_findings (fresh_run (next_id (gs_db st)) org) +
       length (filter (\<lambda>i. fst (health_of st today i) \<noteq> ''healthy'') (impls_in_scope st org))"
    unfolding H by (rule controls_board [OF b(1) ones b(2) dist])
  let ?st = "with_db (\<lambda>_. scan_event E org r d') st"
  have k: "poams_kept (gs_db st) (gs_db ?st)"
    by (rule poams_kept_trans [OF poams_kept_same poams_kept_trans [OF r(3) poams_kept_same]]) simp_all
  show thesis
  proof (rule that [of ?st r])
    show "scan E st today org = Inr (?st, r)" by (simp add: scan_def Let_def r(1))
    show "conmon_ok ?st"
      using r(2) k I by (simp add: conmon_ok_def poams_kept_def board_ok_def unique_notifications_def)
    show "\<forall>i \<in> set (impls_in_scope st org). acted_on (fst (health_of st today i)) \<longrightarrow> on_board (gs_db ?st) i (health_of st today i)"
      using r(4) by (simp add: on_board_def health_rows_def)
  qed (use k r(5,6) in \<open>simp_all add: fresh_run_def\<close>)
qed

section \<open>Properties\<close>

text \<open>C19: the health of a control is its worst signal. It is overdue exactly when evidence has expired or the assessment
  is past due, at risk exactly when it is not overdue and has an open high or critical POA\&M or is not yet
  implemented, due soon when only the next thirty days or missing evidence speak against it, and healthy exactly when
  no reason is given.\<close>

theorem health_is_worst_signal:
  "fst (assess_health impl evs ps today) = health_spec impl evs ps today \<and>
   (snd (assess_health impl evs ps today) = [] \<longleftrightarrow> health_spec impl evs ps today = ''healthy'')"
  by (rule health_sound)



lemma active_row:
  assumes "ids_ok d" "x \<in> set (poams d)"
  shows "po_id x \<in> set (active_ids d) \<longleftrightarrow> po_status x \<in> set POAM_ACTIVE_STATUSES"
proof -
  have "y = x" if "y \<in> set (poams d)" "po_id y = po_id x" for y
    using assms that by (auto simp: ids_ok_def distinct_map inj_on_def)
  then show ?thesis using assms(2) by (auto simp: active_ids_def)
qed

lemma impl_poams_member:
  assumes "ids_ok d"
  shows "x \<in> set (impl_poams (active_ids d) d i) \<longleftrightarrow>
    x \<in> set (poams d) \<and> po_status x \<in> set POAM_ACTIVE_STATUSES \<and> place x = (ci_system_id i, Some (ci_control_id i))"
  using active_row [OF assms] by (auto simp: impl_poams_place)

lemma filter_eq_single: "filter P xs = [p] \<Longrightarrow> x \<in> set xs \<Longrightarrow> P x \<Longrightarrow> x = p"
proof -
  assume f: "filter P xs = [p]" and x: "x \<in> set xs" "P x"
  from x have "x \<in> set (filter P xs)" by simp
  then show "x = p" unfolding f by simp
qed

lemma health_spec_form:
  obtains a q c where "\<And>ps. health_spec impl evs ps today =
    (if a then ''overdue'' else if list_ex severe ps \<or> q then ''at_risk'' else if c then ''due_soon'' else ''healthy'')"
  by (rule that) (simp only: health_spec_def Let_def)

text \<open>C38: an open POA\&M stops speaking against its control after one more scan. When nothing is wrong with a control any
  longer but the severe monitoring POA\&M that an earlier scan opened for it, the control is at risk; the next scan
  lowers that POA\&M's severity, and from then on the control is healthy although nobody closed the POA\&M.\<close>

theorem open_poam_loses_severity:
  assumes "conmon_ok st" "i \<in> set (impls_in_scope st org)" "health_poam_of i p"
    and "assess_health i (evidence_of (gs_evidence st) i) [] today = (''healthy'', [])"
    and "filter severe (impl_poams (active_ids (gs_db st)) (gs_db st) i) = [p]"
  shows "fst (health_of st today i) = ''at_risk'' \<and>
    (\<exists>st' r q. scan E st today org = Inr (st', r) \<and> fst (health_of st' today i) = ''healthy'' \<and>
       q \<in> set (gs_poams st') \<and> po_id q = po_id p \<and> po_status q \<in> set POAM_ACTIVE_STATUSES \<and> po_severity q = ''moderate'')"
proof -
  have sp: "health_spec i (evidence_of (gs_evidence st) i) [] today = ''healthy''"
    using health_sound [of i "evidence_of (gs_evidence st) i" "[]" today, THEN conjunct1, symmetric] unfolding assms(4) by simp
  obtain a u c where form: "\<And>ps. health_spec i (evidence_of (gs_evidence st) i) ps today =
      (if a then ''overdue'' else if list_ex severe ps \<or> u then ''at_risk'' else if c then ''due_soon'' else ''healthy'')"
    by (rule health_spec_form [of i "evidence_of (gs_evidence st) i" today]) blast
  have "\<not> a \<and> \<not> u \<and> \<not> c" using sp by (cases a; cases u; cases c) (simp_all add: form)
  then have spec: "health_spec i (evidence_of (gs_evidence st) i) ps today = (if list_ex severe ps then ''at_risk'' else ''healthy'')" for ps
    by (simp add: form)
  have sev: "list_ex severe ps \<longleftrightarrow> filter severe ps \<noteq> []" for ps by (auto simp: list_ex_iff filter_empty_conv)
  have risk: "fst (health_of st today i) = ''at_risk''"
    using assms(5) by (simp add: health_of_def health_sound spec sev)
  obtain st' r where r: "scan E st today org = Inr (st', r)" "conmon_ok st'" "poams_kept (gs_db st) (gs_db st')"
    "\<forall>i \<in> set (impls_in_scope st org). acted_on (fst (health_of st today i)) \<longrightarrow> on_board (gs_db st') i (health_of st today i)"
    "gs_evidence st' = gs_evidence st"
    by (rule scan_effect [OF assms(1)])
  obtain f new where f: "gs_poams st' = map f (gs_poams st) @ new" "\<forall>p. poam_frame (f p) = poam_frame p"
    "\<forall>p. \<not> conmon_poam p \<longrightarrow> f p = p" "\<forall>q \<in> set new. conmon_poam q"
    using r(3) unfolding poams_kept_def by blast
  have ids: "ids_ok (gs_db st)" "ids_ok (gs_db st')" using assms(1) r(2) by (simp_all add: conmon_ok_def)
  have "on_board (gs_db st') i (health_of st today i)" using r(4) assms(2) risk by (simp add: acted_on_def)
  then obtain q where q: "filter (health_poam_of i) (gs_poams st') = [q]" "po_severity q = ''moderate''"
    by (auto simp: on_board_def health_rows_def risk POAM_SEVERITY_def)
  have "p \<in> set (filter severe (impl_poams (active_ids (gs_db st)) (gs_db st) i))" by (simp add: assms(5))
  then have p: "p \<in> set (gs_poams st)" "severe p" by (simp_all add: impl_poams_member [OF ids(1)])
  have fp: "f p \<in> set (gs_poams st')" "health_poam_of i (f p)"
    using p(1) f(1,2) assms(3) frame_conmon [of "f p" p] frame_place(1) [of "f p" p] by (simp_all add: health_poam_of_place)
  then have "f p = q" by (rule filter_eq_single [OF q(1)])
  then have same: "po_id q = po_id p" "po_status q \<in> set POAM_ACTIVE_STATUSES" "q \<in> set (gs_poams st')"
    using f(2) fp frame_place(2) [of "f p" p] by (auto simp: health_poam_of_place conmon_poam_def)
  have "\<not> severe x" if x: "x \<in> set (impl_poams (active_ids (gs_db st')) (gs_db st') i)" for x
  proof
    assume s: "severe x"
    have m: "x \<in> set (gs_poams st')" "po_status x \<in> set POAM_ACTIVE_STATUSES" "place x = (ci_system_id i, Some (ci_control_id i))"
      using x by (simp_all add: impl_poams_member [OF ids(2)])
    show False
    proof (cases "conmon_poam x")
      case True
      then have "x = q" using filter_eq_single [OF q(1) m(1)] m(3) by (simp add: health_poam_of_place)
      then show False using s q(2) by (simp add: severe_def)
    next
      case False
      then have "x \<in> f ` set (gs_poams st)" using m(1) f(1,4) by auto
      then obtain y where y: "y \<in> set (gs_poams st)" "x = f y" by blast
      have fr: "poam_frame x = poam_frame y" using f(2) y(2) by simp
      have "\<not> conmon_poam y" using False frame_conmon [OF fr] by simp
      then have "x = y" using f(3) y(2) by simp
      then have "x \<in> set (impl_poams (active_ids (gs_db st)) (gs_db st) i)" using m y(1) by (simp add: impl_poams_member [OF ids(1)])
      then have "x = p" using filter_eq_single [OF assms(5)] s by blast
      then show False using False assms(3) by (simp add: health_poam_of_place)
    qed
  qed
  then have "\<not> list_ex severe (impl_poams (active_ids (gs_db st')) (gs_db st') i)" by (simp add: list_ex_iff)
  then have "fst (health_of st' today i) = ''healthy''" by (simp add: health_of_def health_sound spec r(5))
  then show ?thesis using risk r(1) same q(2) by blast
qed


section \<open>Reopening\<close>

lemma many_rows: "1 < length xs \<Longrightarrow> one_or_none xs = Inl MultipleResultsFound"
  by (cases xs rule: one_or_none.cases) simp_all

lemma foldl_rbind_Inl: "foldl (\<lambda>s i. rbind s (f i)) (Inl e) xs = Inl e"
  by (induction xs) simp_all

lemma upsert_health_poam_many:
  assumes "1 < length (health_rows d impl)"
  shows "upsert_health_poam today impl status reasons d = Inl MultipleResultsFound"
  using many_rows [of "filter (health_poam_of impl) (poams d)"] assms by (simp add: upsert_health_poam_def health_rows_def)

lemma check_control_many:
  assumes "board_ok d" "1 < length (health_rows d impl)" "acted_on (fst (current_health evs ids today d impl))"
  shows "check_control E today org evs ids impl (d, r) = Inl MultipleResultsFound"
proof -
  obtain status reasons where h: "current_health evs ids today d impl = (status, reasons)" by (cases "current_health evs ids today d impl")
  note h' = h [unfolded current_health_def]
  have act: "acted_on status" using assms(3) h by simp
  obtain d1 where d1: "notify E (health_notice org impl status reasons) d = Inr d1" "board_ok d1" "poams d1 = poams d"
    by (rule notify_board [OF assms(1), of "health_notice org impl status reasons" "health_key impl" E]) (simp_all add: health_notice_def)
  obtain d2 t where d2: "upsert_health_task today org impl status reasons d1 = Inr (d2, t)" "poams d2 = poams d1"
    by (rule upsert_health_task_board [OF d1(2)])
  have "upsert_health_poam today impl status reasons d2 = Inl MultipleResultsFound"
    by (rule upsert_health_poam_many) (use assms(2) d1(3) d2(2) in \<open>simp add: health_rows_def\<close>)
  then show ?thesis using act d1(1) d2(1)
    by (auto simp: check_control_def h' Let_def unhealthy_control_def acted_on_def)
qed

lemma scan_many:
  assumes "board_ok (gs_db st)" "ids_ok (gs_db st)" "distinct (map impl_place (gs_impls st))" "i \<in> set (impls_in_scope st org)"
    and "\<forall>j \<in> set (gs_impls st). impl_place j \<noteq> impl_place i \<longrightarrow> one_health_poam (gs_db st) j"
    and "1 < length (health_rows (gs_db st) i)" "acted_on (fst (health_of st today i))"
  shows "scan E st today org = Inl MultipleResultsFound"
proof -
  let ?d = "(gs_db st)\<lparr>next_id := next_id (gs_db st) + 1\<rparr>"
  let ?ids = "active_ids (gs_db st)"
  let ?step = "\<lambda>s i. rbind s (check_control E today org (gs_evidence st) ?ids i)"
  have b: "board_ok ?d" "\<forall>i \<in> set ?ids. i < next_id ?d"
    using assms(1) active_ids_bound [OF assms(2)] by (simp_all add: board_ok_def unique_notifications_def)
  have dist: "distinct (map impl_place (impls_in_scope st org))"
    using assms(3) unfolding impls_in_scope_def by (rule distinct_map_filter)
  obtain xs ys where split: "impls_in_scope st org = xs @ i # ys" using assms(4) by (meson split_list)
  have away: "impl_place i \<notin> impl_place ` set xs" using dist by (simp add: split)
  have ones: "\<forall>j \<in> set xs. one_health_poam ?d j"
  proof
    fix j assume j: "j \<in> set xs"
    have "set (impls_in_scope st org) \<subseteq> set (gs_impls st)" by (auto simp: impls_in_scope_def)
    then have "j \<in> set (gs_impls st)" using j by (auto simp: split)
    moreover have "impl_place j \<noteq> impl_place i" using away j by (metis image_eqI)
    ultimately show "one_health_poam ?d j" using assms(5) by (simp add: one_health_poam_def)
  qed
  obtain d1 r1 where d1: "foldl ?step (Inr (?d, fresh_run (next_id (gs_db st)) org)) xs = Inr (d1, r1)" "board_ok d1"
    "\<forall>j. impl_place j \<notin> impl_place ` set xs \<longrightarrow> severities ?ids d1 j = severities ?ids ?d j \<and> health_rows d1 j = health_rows ?d j"
    by (rule controls_board [OF b(1) ones b(2), of E today org "gs_evidence st"]) (use dist in \<open>simp_all add: split\<close>)
  have same: "severities ?ids d1 i = severities ?ids ?d i" "health_rows d1 i = health_rows (gs_db st) i"
    using d1(3) away by (simp_all add: health_rows_def)
  have "fst (current_health (gs_evidence st) ?ids today d1 i) = fst (health_of st today i)"
    unfolding current_health_cong [OF same(1)] health_of_current [of st today i "next_id (gs_db st) + 1"] ..
  then have "check_control E today org (gs_evidence st) ?ids i (d1, r1) = Inl MultipleResultsFound"
    using check_control_many [OF d1(2)] same(2) assms(6,7) by simp
  then show ?thesis by (simp add: scan_def Let_def split d1(1) foldl_rbind_Inl)
qed

lemma filter_put_other:
  assumes "\<And>x. x \<in> set xs \<Longrightarrow> po_id x = k \<Longrightarrow> \<not> P x" "\<not> P new"
  shows "filter P (update_rows (\<lambda>q. po_id q = k) (\<lambda>_. new) xs) = filter P xs"
  using assms by (induction xs) (auto simp: update_rows_def)

lemma update_poam_board:
  assumes "update_poam E st who pid b = Inr (st', rq)"
  shows "tasks (gs_db st') = tasks (gs_db st) \<and> notifications (gs_db st') = notifications (gs_db st) \<and>
    gs_impls st' = gs_impls st \<and> gs_evidence st' = gs_evidence st \<and> gs_systems st' = gs_systems st"
  using assms by (auto simp: update_poam_def Let_def poam_event_def put_poam_def split: if_splits elim!: rbind_InrE)

text \<open>C36: reopening one POA\&M stops every scan of the organisation. When a closed monitoring POA\&M is reopened while a later
  scan has already opened its successor, and the control is still at risk or overdue, the scan raises
  \<open>MultipleResultsFound\<close>: no control is checked any more until somebody closes one of the two.\<close>

theorem reopened_poam_stops_scan:
  assumes "conmon_ok st" "i \<in> set (impls_in_scope st org)" "fst (health_of st today i) \<in> {''at_risk'', ''overdue''}"
    and "require_poam st who (po_id old) = Inr old" "po_source old = Some ''conmon''" "po_status old \<in> set POAM_CLOSED_STATUSES"
    and "place old = (ci_system_id i, Some (ci_control_id i))" "later \<in> set (gs_poams st)" "health_poam_of i later" "\<forall>p. \<not> pe_refuses P p"
  shows "\<exists>st'. update_poam P st who (po_id old) (status_only ''open'') = Inr (st', None) \<and> scan E st' today org = Inl MultipleResultsFound"
proof -
  let ?new = "after_patch (status_only ''open'') (po_status old) (old\<lparr>po_status := ''open''\<rparr>)"
  obtain st' where u: "update_poam P st who (po_id old) (status_only ''open'') = Inr (st', None)"
    "gs_poams st' = update_rows (\<lambda>q. po_id q = po_id old) (\<lambda>_. ?new) (gs_poams st)"
    by (rule status_free [OF assms(4), of "''open''" P]) (use assms(10) in \<open>simp_all add: POAM_STATUSES_def\<close>)
  have I: "board_ok (gs_db st)" "ids_ok (gs_db st)" "places_ok (gs_db st)" "distinct (map impl_place (gs_impls st))"
    using assms(1) by (simp_all add: conmon_ok_def)
  note o = require_poam_says [OF assms(4)]
  have new: "place ?new = place old" "conmon_poam ?new" "po_id ?new = po_id old"
    using assms(5) by (simp_all add: place_def after_patch_def Let_def conmon_poam_def POAM_ACTIVE_STATUSES_def)
  have off: "\<not> conmon_poam old" "po_status old \<notin> set POAM_ACTIVE_STATUSES"
    using assms(6) by (auto simp: conmon_poam_def POAM_ACTIVE_STATUSES_def POAM_CLOSED_STATUSES_def)
  have only: "x = old" if "x \<in> set (gs_poams st)" "po_id x = po_id old" for x
    using I(2) o(2) that by (auto simp: ids_ok_def distinct_map inj_on_def)
  have hp: "health_poam_of i ?new" using new(1,2) assms(7) by (simp add: health_poam_of_place)
  have ids': "ids_ok (gs_db st')"
    using I(2) u(2) poam_step_ids [OF poam_step.patched [OF u(1)]] by (simp add: ids_ok_def poam_ids_def)
  have board': "board_ok (gs_db st')"
    using I(1) update_poam_board [OF u(1)] by (simp add: board_ok_def unique_notifications_def)
  have impls': "gs_impls st' = gs_impls st" "gs_evidence st' = gs_evidence st" "gs_systems st' = gs_systems st"
    using update_poam_board [OF u(1)] by simp_all
  have elsewhere': "filter (health_poam_of j) (gs_poams st') = filter (health_poam_of j) (gs_poams st)" if "impl_place j \<noteq> impl_place i" for j
  proof -
    have "\<not> health_poam_of j old" "\<not> health_poam_of j ?new"
      using off(1) new(1) assms(7) that by (auto simp: health_poam_of_place impl_place_def)
    then show ?thesis unfolding u(2) using filter_put_other [of "gs_poams st" "po_id old" "health_poam_of j" ?new] only by blast
  qed
  have "later \<noteq> old" using off(1) assms(9) by (auto simp: health_poam_of_place)
  then have other: "po_id later \<noteq> po_id old" using only [OF assms(8)] by blast
  have later: "later \<in> set (gs_poams st')" using assms(8) other by (force simp: u(2) set_update_rows)
  have ne: "later \<noteq> ?new" using other new(3) by metis
  have "?new \<in> set (gs_poams st')" using o(2) by (auto simp: u(2) set_update_rows)
  then have "{later, ?new} \<subseteq> set (filter (health_poam_of i) (gs_poams st'))" using later assms(9) hp by simp
  then have "card {later, ?new} \<le> card (set (filter (health_poam_of i) (gs_poams st')))" by (rule card_mono [OF finite_set])
  then have two: "1 < length (health_rows (gs_db st') i)"
    using ne card_length [of "filter (health_poam_of i) (gs_poams st')"] by (simp add: health_rows_def)
  have "list_ex severe (impl_poams (active_ids (gs_db st')) (gs_db st') i)" if sv: "list_ex severe (impl_poams (active_ids (gs_db st)) (gs_db st) i)"
  proof -
    obtain x where x: "x \<in> set (impl_poams (active_ids (gs_db st)) (gs_db st) i)" "severe x" using sv by (auto simp: list_ex_iff)
    have m: "x \<in> set (gs_poams st)" "po_status x \<in> set POAM_ACTIVE_STATUSES" "place x = (ci_system_id i, Some (ci_control_id i))"
      using x(1) by (simp_all add: impl_poams_member [OF I(2)])
    have "x \<noteq> old" using m(2) off(2) by blast
    then have "x \<in> set (gs_poams st')" using m(1) only by (force simp: u(2) set_update_rows)
    then have "x \<in> set (impl_poams (active_ids (gs_db st')) (gs_db st') i)" using m by (simp add: impl_poams_member [OF ids'])
    then show ?thesis using x(2) by (auto simp: list_ex_iff)
  qed
  moreover obtain a b c where form: "\<And>ps. health_spec i (evidence_of (gs_evidence st) i) ps today =
      (if a then ''overdue'' else if list_ex severe ps \<or> b then ''at_risk'' else if c then ''due_soon'' else ''healthy'')"
    by (rule health_spec_form [of i "evidence_of (gs_evidence st) i" today]) blast
  ultimately have act: "acted_on (fst (health_of st' today i))"
    using assms(3) by (auto simp: health_of_def health_sound impls' form acted_on_def split: if_splits)
  have "scan E st' today org = Inl MultipleResultsFound"
    by (rule scan_many [OF board' ids' _ _ _ two act])
      (use I(3,4) assms(2) elsewhere' places_one in \<open>auto simp: impls' impls_in_scope_def one_health_poam_def\<close>)
  with u(1) show ?thesis by blast
qed


section \<open>A store to try it on\<close>

definition sample_impl :: "string \<Rightarrow> control_implementation" where
  "sample_impl status = \<lparr>ci_id = 4, ci_system_id = 3, ci_control_id = 5, ci_status = status, ci_next_assessment_due = None\<rparr>"

lemma conmon_ok_sample:
  assumes "distinct (map po_id ps)" "list_all (\<lambda>p. po_id p < 9) ps" "distinct (map place (filter conmon_poam ps))"
  shows "conmon_ok (store_of ps as [i])"
  using assms by (simp add: conmon_ok_def board_ok_def unique_notifications_def ids_ok_def places_ok_def)

lemma sample_scope: "impls_in_scope (store_of ps as [i]) None = [i]"
  by (simp add: impls_in_scope_def)

lemma sample_place: "place sample_poam = (3, Some 5)" "conmon_poam sample_poam" "place (sample_poam\<lparr>po_id := 2\<rparr>) = (3, Some 5)"
  by (simp_all add: place_def sample_poam_def conmon_poam_def POAM_ACTIVE_STATUSES_def)

lemma planned_health: "fst (health_of (store_of ps as [sample_impl ''planned'']) today (sample_impl ''planned'')) = ''at_risk''"
  by (simp add: health_of_def health_sound health_spec_def Let_def evidence_of_def sample_impl_def)


theorem open_poam_loses_severity_witness:
  "\<exists>st' r q. scan sample_env (store_of [sample_poam] [] [sample_impl ''partial'']) 100 None = Inr (st', r) \<and>
     fst (health_of st' 100 (sample_impl ''partial'')) = ''healthy'' \<and> q \<in> set (gs_poams st') \<and> po_id q = 1 \<and>
     po_status q \<in> set POAM_ACTIVE_STATUSES"
proof -
  let ?i = "sample_impl ''partial''" and ?st = "store_of [sample_poam] [] [sample_impl ''partial'']"
  have ok: "conmon_ok ?st" by (rule conmon_ok_sample) simp_all
  have h: "health_poam_of ?i sample_poam" by (simp add: health_poam_of_place sample_place sample_impl_def)
  have a: "assess_health ?i (evidence_of (gs_evidence ?st) ?i) [] 100 = (''healthy'', [])"
    by (simp add: assess_health_def evidence_of_def evidence_check_def missing_evidence_check_def assessment_check_def poam_check_def
      status_check_def sample_impl_def Let_def List.map_filter_simps)
  have f: "filter severe (impl_poams (active_ids (gs_db ?st)) (gs_db ?st) ?i) = [sample_poam]"
    by (simp add: impl_poams_place active_ids_def sample_place sample_impl_def POAM_ACTIVE_STATUSES_def) (simp add: severe_def sample_poam_def)
  have s: "?i \<in> set (impls_in_scope ?st None)" by (simp add: sample_scope)
  from open_poam_loses_severity [OF ok s h a f, of sample_env] show ?thesis by auto
qed

definition closed_sample :: poam where
  "closed_sample = sample_poam\<lparr>po_id := 2, po_status := ''closed''\<rparr>"

theorem reopened_poam_stops_scan_witness:
  "\<exists>st'. update_poam (open_env False) (store_of [closed_sample, sample_poam] [] [sample_impl ''planned'']) SYSTEM_PRINCIPAL 2 (status_only ''open'') =
       Inr (st', None) \<and> scan sample_env st' 100 None = Inl MultipleResultsFound"
proof -
  let ?i = "sample_impl ''planned''" and ?st = "store_of [closed_sample, sample_poam] [] [sample_impl ''planned'']"
  have c: "po_id closed_sample = 2" "\<not> conmon_poam closed_sample" "place closed_sample = (3, Some 5)" "po_source closed_sample = Some ''conmon''"
    "po_status closed_sample = ''closed''"
    by (simp_all add: closed_sample_def conmon_poam_def place_def sample_poam_def POAM_ACTIVE_STATUSES_def)
  have ok: "conmon_ok ?st" by (rule conmon_ok_sample) (simp_all add: c)
  have s: "?i \<in> set (impls_in_scope ?st None)" by (simp add: sample_scope)
  have h: "health_poam_of ?i sample_poam" by (simp add: health_poam_of_place sample_place sample_impl_def)
  have r: "require_poam ?st SYSTEM_PRINCIPAL (po_id closed_sample) = Inr closed_sample" by (simp add: require_poam_def c)
  have a: "fst (health_of ?st 100 ?i) \<in> {''at_risk'', ''overdue''}" by (simp add: planned_health)
  from reopened_poam_stops_scan [OF ok s a r, of sample_poam "open_env False" sample_env] show ?thesis
    by (simp add: c h) (simp add: POAM_CLOSED_STATUSES_def sample_impl_def)
qed

end
