(* ===== verification/Spec2Isabelle.thy ===== *)
theory Spec2Isabelle
  imports Control_Test_Laws Drift Audit_Trail Job_Queue Mfa_Laws Patching_Laws Sprs_Scoring Cipher_Laws Retention
    Approvals Capability_Laws Ksi_Laws Assessment_Laws Enforcement_Laws
    Provisioning_Laws Conmon_Laws
begin

text \<open>
  A verification of the Concord compliance platform (\<open>src/src/ccf\<close>).

  \<^bold>\<open>The program.\<close> Concord records how an organisation's systems satisfy their security controls. Connectors
  and scans produce verdicts on checks; verdicts become control-test results with evidence; failures raise
  notifications, tasks and POA\&Ms; waivers, approvals and patch campaigns govern what is done about them;
  scores and roll-ups summarise them; an audit trail records who did what; credentials and sign-in protect it
  all. Every operation runs in a database transaction over the tables of \<open>models.py\<close> and \<open>models_*.py\<close>. The
  development models the operations that decide something, as functions from the rows they read to the rows
  they write, and leaves out rendering, querying for display and the clients of external services.

  \<^bold>\<open>Where each part is.\<close>
  \<^item> \<open>Prelude\<close>: exceptions and results, ASCII strings and their methods, dictionaries, tables, dates, \<open>int\<close>
    and \<open>repr\<close>. \<open>PyFloat\<close>: doubles as the rationals they denote, with rounding to nearest even, \<open>round\<close> and
    compensated \<open>sum\<close>. \<open>Json\<close>: \<open>json.dumps\<close> and its injectivity.
  \<^item> \<open>Grc_Models\<close>: the rows the governance components share and the store \<open>db\<close> that holds them.
  \<^item> \<open>Rollup\<close>: the interface of a worst-wins roll-up, a locale. \<open>Posture\<close> (\<open>fedramp20x/__init__.py\<close>,
    \<open>posture/rollup.py\<close>, \<open>types.py\<close>, \<open>evidence.py\<close>) and \<open>Capability_Laws\<close> interpret it.
  \<^item> \<open>Waivers\<close> (\<open>governance/waivers.py\<close>), \<open>Remediation\<close> (\<open>posture/remediation.py\<close>), \<open>Assertions\<close> and
    \<open>Control_Tests\<close> (\<open>governance/control_tests.py\<close>), \<open>Bus\<close> (\<open>governance/bus.py\<close>, \<open>delivery.py\<close>), \<open>Drift\<close>
    (\<open>posture/drift.py\<close>), \<open>Retention\<close> (\<open>posture/latest.py\<close>, \<open>retention.py\<close>): a test result from the verdict
    to its consequences and its later pruning. \<open>Control_Test_Laws\<close> holds the invariant of these tables.
  \<^item> \<open>Audit_Trail\<close> (\<open>api/audit.py\<close>): redaction, the hash chain, the writer's lock and verification.
  \<^item> \<open>Job_Queue\<close> (\<open>queue.py\<close>, \<open>prep/jobs.py\<close>, \<open>assessment/engine/jobs.py\<close>): claiming, reaping, batches.
  \<^item> \<open>Mfa\<close>, \<open>Mfa_Laws\<close> (\<open>mfa.py\<close>, \<open>identity/mfa_service.py\<close>): one-time codes on machine words, enrolment,
    recovery codes, the policy gate and its cache.
  \<^item> \<open>Credential_Token\<close>, \<open>Credential_Cipher\<close>, \<open>Cipher_Laws\<close> (\<open>ai/cipher.py\<close>, \<open>ai/rotation.py\<close>): the token
    format, envelope encryption and key rotation.
  \<^item> \<open>Patching_Sla\<close>, \<open>Patching\<close>, \<open>Patching_Laws\<close> (\<open>patching/sla.py\<close>, \<open>service.py\<close>): flaw-remediation
    measurement and campaigns. \<open>Approvals\<close> (\<open>governance/approvals.py\<close>): reviews and separation of duties.
  \<^item> \<open>Sprs_Scoring\<close> (\<open>scoring/engine.py\<close>, \<open>service.py\<close>): the SPRS score of CMMC level 2.
  \<^item> \<open>Control_Ids\<close> (\<open>catalog/canonical.py\<close>, \<open>oscal.py\<close>), \<open>Capability\<close>, \<open>Capability_Laws\<close>
    (\<open>capability/rollup.py\<close>, \<open>derive.py\<close>, \<open>divergence.py\<close>): control identifiers and what an organisation's
    capabilities imply for its controls.
  \<^item> \<open>Ksi_Validation\<close>, \<open>Ksi_Laws\<close> (\<open>fedramp20x/validation.py\<close>): evaluating key security indicators.
  \<^item> \<open>Objectives\<close> (\<open>assessment/engine/objectives.py\<close>, the identifier folding of \<open>prep/screen.py\<close>),
    \<open>Objective_Evaluation\<close> (\<open>assessment/engine/evaluate.py\<close>, \<open>ai_actions/provenance.py\<close>), \<open>Assessment\<close> and
    \<open>Assessment_Laws\<close> (\<open>assessment/engine/rollup.py\<close>, \<open>service.py\<close>, \<open>jobs.py\<close>): the objective-level assessment of
    a control by a language model and its acceptance or rejection by an assessor.
  \<^item> \<open>Enforcement\<close> (\<open>enforcement/types.py\<close>, \<open>service.py\<close>, \<open>models_enforcement.py\<close>, the endpoints of
    \<open>api/routes/enforcement.py\<close>), \<open>Enforcement_M365\<close> (\<open>enforcement/providers/m365.py\<close>) and \<open>Enforcement_Laws\<close>:
    plans that change the customer's tenant, their approval, application and reversal.
  \<^item> \<open>Authorization\<close> (\<open>auth.py\<close>, \<open>api/auth_deps.py\<close>): who may call what. \<open>Provisioning\<close> and \<open>Provisioning_Laws\<close>
    (\<open>identity/provisioning.py\<close>, \<open>identity/piv.py\<close>, \<open>api/routes/identity.py\<close>): accounts from an identity
    provider, from SCIM and from certificates, and the links between subjects and accounts.
  \<^item> \<open>Poams\<close>, \<open>Poams_Laws\<close> (\<open>api/routes/poams.py\<close>): the life of a POA\&M and the gates in front of its closing and
    the acceptance of its risk. \<open>Conmon\<close>, \<open>Conmon_Laws\<close> (\<open>governance/conmon.py\<close>): the health of controls and the
    scan that raises notifications, tasks and POA\&Ms for it.

  \<^bold>\<open>How the parts interact.\<close> \<open>record_result\<close> consults the waivers, writes results with their resource
  rows and passes the outcome to notifications, tasks, POA\&Ms and the bus. \<open>Retention\<close> and \<open>Drift\<close> read
  those rows; \<open>Ksi_Validation\<close> reads the tests' statuses and the attribution of \<open>Posture\<close>. \<open>Patching\<close> writes
  audit rows through \<open>Audit_Trail\<close>, \<open>Approvals\<close> writes events through \<open>Bus\<close>, \<open>Mfa\<close> stores secrets through
  the cipher's interface, and \<open>Capability\<close> groups controls by \<open>Control_Ids\<close>. The worker of \<open>Job_Queue\<close>
  drives the evaluation of \<open>Assessment\<close>, whose accepted failures open POA\&Ms; closing one queues the
  control's evaluation again. \<open>Enforcement\<close> plans from the findings of \<open>Drift\<close> and \<open>Retention\<close>, asks
  \<open>can_approve\<close> of \<open>Waivers\<close>, writes audit rows and events, and its plan is the row whose application
  completes a wave of \<open>Patching\<close>. \<open>Provisioning\<close> writes its audit rows through \<open>Audit_Trail\<close> and compares the SCIM
  token as \<open>Mfa\<close> compares codes. The gates of \<open>Poams\<close> ask \<open>Approvals\<close> for a POA\&M's review, and its closing hands a
  re-evaluation to \<open>Assessment\<close>; \<open>Conmon\<close> opens and refreshes POA\&Ms of the same table that people close and reopen.

  \<^bold>\<open>What the lemmas show.\<close> Each component has the invariant of its tables with preservation by every
  operation, the behaviour of every branch, and what can go wrong as theorems of its own: the properties
  are marked C1, C2, ... where they stand. State machines (audit writers, job workers, waves of a campaign,
  reviews, enrolment) are inductive step relations; their properties are inductions over reachability.

  \<^bold>\<open>Parameters.\<close> Code outside the repository is an argument of the definitions that use it: SHA-256, HMAC,
  PBKDF2, AES-GCM, the KMS client, random bytes, the resolution of a connector's credential, the
  retrieval of evidence, the gateway to the language model, Microsoft Graph as the enforcement provider calls it, the exchange
  of an OpenID Connect code, the parsing of certificates and the matching of networks, the rows a constraint of the database refuses. What is assumed
  of one (a cipher that opens what it sealed under the same key and context and nothing else) is a hypothesis
  of the theorem, with a witness in which a concrete function satisfies it. Drivers a component calls and
  whose own theory is elsewhere or missing (the stages of a preparation run) are arguments as well.

  \<^bold>\<open>Choices of the model.\<close>
  \<^item> An exception that leaves a function is \<open>Inl\<close>; the transaction is rolled back, so no state accompanies it.
  \<^item> Each operation reads the clock once; where the code reads it twice the two readings are taken equal.
  \<^item> Strings are ASCII for case folding, white space and digits; a non-ASCII character of a message is its
    UTF-8 bytes. JSON values have no floats: where one occurs it is kept beside the value.
  \<^item> A query without an order returns rows in insertion order; primary keys come from one counter.
  \<^item> Concurrent operations interleave at the statements the source runs between locks, at the isolation level
    READ COMMITTED.
  \<^item> No definition uses fuel: loops are structural, or terminate by a measure on the text or the rows left.

  \<^bold>\<open>Not modelled.\<close> The HTTP routes and templates, the command line, migrations, configuration and logging
  are input and output around the operations; the connectors and scan providers, OSCAL, SSP and report
  generation, spreadsheet import and the clients of AI providers translate between external formats. Of the core logic,
  the scheduler and automation rules, the boundary, evidence and package stores, CR26 reporting,
  analytics and reliability checks remain to be modelled.
\<close>

end
